(* ===== verification/Prelude.thy ===== *)
theory Prelude
  imports Main "HOL-Library.Product_Lexorder"
begin

text \<open>
  What every component of the development shares.

  \<^item> \<open>time\<close>: a JavaScript \<open>Date\<close> as its \<open>getTime()\<close> value, milliseconds since
    1970-01-01T00:00:00Z.
  \<^item> \<open>app_error\<close>: the error codes of \<open>src/api/shared/errors.ts\<close> that the modelled code
    throws, each with the \<open>details\<close> payload the code attaches, plus \<open>UNHANDLED\<close> for a
    thrown value that is not an \<open>AppError\<close> (the server answers it with a plain 500).
  \<^item> \<open>'a result\<close>: \<open>Inl\<close> is a thrown error, \<open>Inr\<close> a normal return.
  \<^item> named collections for the unfoldings and invariants of the components, and generic
    facts on lists and sorting.
\<close>

section \<open>Collections\<close>

named_theorems api_defs "definitions of request handlers, unfolded when a handler is executed"
named_theorems inv_intros "introduction rules of component invariants"

section \<open>Shared types\<close>

type_synonym time = int
type_synonym ident = string

datatype field_code = REQUIRED | INVALID | INCONSISTENT

type_synonym field_error = "string \<times> field_code"

datatype unhandled =
    P2002                 \<comment> \<open>Prisma: unique constraint violation\<close>
  | RuntimeError          \<comment> \<open>a plain \<open>Error\<close> or \<open>TypeError\<close>\<close>

datatype hours_reason =
    DayOutOfRange int | ClosedWithTimes int | DuplicateClosed int | MissingTime int
  | BadOpenTime int | BadCloseTime int | ZeroLength int | ClosedAndOpen int
  | OverlappingWindows int | OverlapsSpill int int

datatype window_reason =
    NotTimeLimited | BadWindowOpen nat | BadWindowClose nat | OpensAtMidnight nat | ClosesBeforeOpening nat
  | WindowsOverlap int | WindowsStillAttached

text \<open>The codes of six areas have a type of their own, to keep the types small.\<close>

datatype auth_code =
    REFRESH_TOKEN_INVALID
  | SESSION_REPLACED
  | ACCOUNT_INACTIVE
  | ACCOUNT_SUSPENDED
  | BRANCH_USER_DEACTIVATED
  | CURRENT_PASSWORD_INCORRECT
  | PASSWORD_POLICY_VIOLATION
  | NEW_PASSWORD_SAME_AS_CURRENT

datatype billing_code =
    PAYMENT_METHOD_REQUIRED
  | SUBSCRIPTION_ALREADY_ACTIVE
  | SUBSCRIPTION_NOT_FOUND
  | SUBSCRIPTION_NOT_CANCELLABLE
  | PLAN_NOT_FOUND
  | PROMO_CODE_INVALID
  | PROMO_CODE_EXHAUSTED
  | STRIPE_ERROR
  | WEBHOOK_SIGNATURE_INVALID

datatype review_code =
    APPROVAL_NOT_FOUND
  | APPROVAL_NOT_ACTIONABLE
  | VOUCHER_NOT_ACTIONABLE
  | APPROVAL_ALREADY_CLAIMED
  | APPROVAL_NOT_CLAIMER
  | MAIN_BRANCH_LOCATION_UNCONFIRMED
  | ALREADY_SUBMITTED
  | MERCHANT_NOT_SUSPENDED
  | PENDING_EDIT_EXISTS
  | PENDING_EDIT_NOT_FOUND
  | PENDING_EDIT_NOT_ACTIONABLE

datatype catalogue_code =
    VOUCHER_NOT_EDITABLE
  | VOUCHER_NOT_SUBMITTABLE
  | VOUCHER_NOT_DELETABLE
  | TIME_LIMITED_REQUIRES_WINDOW
  | SAVING_INVALID
  | MERCHANT_FIELDS_TOO_LARGE
  | COOLDOWN_REUSABLE_ONLY
  | RMV_NOT_FOUND
  | RMV_TEMPLATE_UNAVAILABLE
  | RMV_FIELD_NOT_ALLOWED
  | VOUCHER_TYPE_NOT_ELIGIBLE
  | FLAGSHIP_RMV_LIMIT_REACHED
  | NO_RMV_TEMPLATE
  | VOUCHER_EDIT_NOT_ALLOWED
  | VOUCHER_EDIT_INVALID_FIELD
  | VOUCHER_WITHDRAW_NOT_PENDING
  | CATEGORY_CHANGE_BLOCKED

datatype branch_code =
    BRANCH_NOT_FOUND
  | POSTCODE_REQUIRED
  | POSTCODE_NOT_FOUND
  | GAZETTEER_UNAVAILABLE
  | BRANCH_NOT_PENDING_CREATE
  | BRANCH_LOCATION_ALREADY_CONFIRMED
  | BRANCH_IS_MAIN
  | BRANCH_LAST_ACTIVE
  | BRANCH_CLOSE_REQUEST_EXISTS
  | BRANCH_CLOSE_REQUEST_NOT_FOUND
  | NO_SENSITIVE_FIELDS
  | BRANCH_PHOTO_NOT_FOUND
  | INVALID_PHOTO_URL
  | PHOTO_NOT_REMOVABLE
  | INVALID_PIN_FORMAT

datatype member_code =
    MEMBER_NOT_FOUND
  | MEMBER_ALREADY_CLAIMED
  | BRANCH_NOT_OWNED
  | EMAIL_ALREADY_EXISTS
  | VALIDATION_ERROR
  | CLAIM_TOKEN_EXPIRED
  | RESET_TOKEN_EXPIRED
  | BRANCH_USER_NOT_FOUND
  | MULTIPLE_BRANCH_USERS

datatype (plugins only: code size) app_error =
    INVALID_CREDENTIALS
  | PHONE_NOT_VERIFIED
  | INSUFFICIENT_PERMISSIONS
  | MULTI_MEMBERSHIP_UNSUPPORTED
  | LAST_OWNER_PROTECTED
  | MERCHANT_SUSPENDED
  | MERCHANT_NOT_FOUND
  | MERCHANT_MISMATCH
  | VOUCHER_NOT_FOUND
  | VOUCHER_OUTSIDE_AVAILABILITY_WINDOW "time option"
  | BRANCH_UNAVAILABLE
  | BRANCH_MERCHANT_MISMATCH
  | BRANCH_ACCESS_DENIED
  | SUBSCRIPTION_REQUIRED
  | ALREADY_REDEEMED
  | ALREADY_REDEEMED_THIS_WINDOW "time option"
  | REUSABLE_COOLDOWN_ACTIVE time
  | PIN_NOT_CONFIGURED
  | PIN_RATE_LIMIT_EXCEEDED int
  | INVALID_PIN int
  | KEY_NOT_AVAILABLE
  | REDEMPTION_PIN_UNREADABLE
  | REDEMPTION_NOT_FOUND
  | ALREADY_VALIDATED
  | SMS_DESTINATION_NOT_ALLOWED
  | OTP_RESEND_COOLDOWN int
  | SMS_GLOBAL_LIMIT int
  | SMS_RATE_LIMITED int
  | OPENING_HOURS_INVALID hours_reason
  | VOUCHER_INCOMPLETE "field_error list"
  | ONBOARDING_GATES_INCOMPLETE "(bool \<times> bool \<times> bool) option"
  | INVALID_AVAILABILITY_WINDOWS window_reason
  | UNHANDLED unhandled
  | AUTH auth_code
  | BILLING billing_code
  | REVIEW review_code
  | CATALOGUE catalogue_code
  | BRANCH branch_code
  | MEMBER member_code

type_synonym 'a result = "app_error + 'a"

abbreviation throw :: "app_error \<Rightarrow> 'a result" where
  "throw e \<equiv> Inl e"

abbreviation returns :: "'a \<Rightarrow> 'a result" where
  "returns x \<equiv> Inr x"

fun isOk :: "'a result \<Rightarrow> bool" where
  "isOk (Inl e) = False"
| "isOk (Inr x) = True"

lemma isOk_iff: "isOk r \<longleftrightarrow> (\<exists>x. r = Inr x)"
  by (cases r) auto

section \<open>Strings\<close>

text \<open>\<open>trim\<close> and \<open>toUpperCase\<close>, on ASCII.\<close>

definition is_space :: "char \<Rightarrow> bool" where
  "is_space c \<longleftrightarrow> of_char c \<in> {9::nat, 10, 11, 12, 13, 32}"

definition js_trim :: "string \<Rightarrow> string" where
  "js_trim s = rev (dropWhile is_space (rev (dropWhile is_space s)))"

definition js_upper :: "char \<Rightarrow> char" where
  "js_upper c = (let n = of_char c :: nat in if 97 \<le> n \<and> n \<le> 122 then char_of (n - 32) else c)"

section \<open>Lists\<close>

text \<open>
  \<open>Array.prototype.sort\<close> is stable, and so is \<open>sort_key\<close>; the code reads only the first
  element of what it sorts.
\<close>

lemma hd_sort_key_in: "xs \<noteq> [] \<Longrightarrow> hd (sort_key f xs) \<in> set xs"
  by (metis hd_in_set length_0_conv length_sort set_sort)

lemma hd_sort_key_min:
  assumes "x \<in> set xs"
  shows "f (hd (sort_key f xs)) \<le> f x"
proof -
  have x: "x \<in> set (sort_key f xs)" using assms by simp
  then obtain y ys where ys: "sort_key f xs = y # ys" by (cases "sort_key f xs") auto
  have "sorted (map f (y # ys))" using sorted_sort_key[of f xs] ys by simp
  with x ys show ?thesis by auto
qed

lemma find_Some_in: "List.find P xs = Some x \<Longrightarrow> x \<in> set xs \<and> P x"
  by (induction xs) (auto split: if_splits)

lemma find_None_all: "List.find P xs = None \<longleftrightarrow> (\<forall>x\<in>set xs. \<not> P x)"
  by (induction xs) auto

text \<open>An element that no member of a list reaches keeps the list strictly increasing.\<close>

lemma sorted_wrt_snoc:
  "sorted_wrt R (xs @ [y]) \<longleftrightarrow> sorted_wrt R xs \<and> (\<forall>x\<in>set xs. R x y)"
  by (auto simp: sorted_wrt_append)

end
