(* ===== verification/Calendar.thy ===== *)
theory Calendar
  imports Prelude
begin

text \<open>
  The part of JavaScript's \<open>Date\<close> the program uses, from the language specification:
  \<open>Date.UTC(y, m, d)\<close> with its carry of out-of-range months and days, and the getters
  \<open>getUTCFullYear\<close>, \<open>getUTCMonth\<close>, \<open>getUTCDate\<close>, \<open>getUTCDay\<close>. A day is its number since
  1970-01-01. The specification's special reading of the years 0 to 99 in \<open>Date.UTC\<close> is left
  out: the code passes only years read from dates.

  The lemmas show that the getters and \<open>Date.UTC\<close> are inverse, and describe the
  calendar as consecutive months, which is what the cycle arithmetic rests on.
\<close>

section \<open>Years\<close>

definition ms_per_day :: int where "ms_per_day = 86400000"

definition day_of :: "time \<Rightarrow> int" where "day_of t = t div ms_per_day"

definition leap :: "int \<Rightarrow> bool" where
  "leap y \<longleftrightarrow> y mod 4 = 0 \<and> (y mod 100 \<noteq> 0 \<or> y mod 400 = 0)"

definition year_len :: "int \<Rightarrow> int" where
  "year_len y = (if leap y then 366 else 365)"

definition year_start :: "int \<Rightarrow> int" where
  "year_start y = 365 * (y - 1970) + (y - 1969) div 4 - (y - 1901) div 100 + (y - 1601) div 400"

definition year_of_day :: "int \<Rightarrow> int" where
  "year_of_day n =
     (let y = 1970 + (n * 400) div 146097
      in if n < year_start y then y - 1 else if year_start (y + 1) \<le> n then y + 1 else y)"

lemma div_mod_succ:
  assumes m: "0 < (m::int)"
  shows div_succ: "(x + 1) div m = x div m + (if x mod m = m - 1 then 1 else 0)"
    and mod_succ: "(x + 1) mod m = (if x mod m = m - 1 then 0 else x mod m + 1)"
proof -
  define q r where "q = x div m" and "r = x mod m"
  have x: "x = q * m + r" and r: "0 \<le> r" "r < m"
    using m by (simp_all add: q_def r_def)
  have "(x + 1) div m = q + (if r = m - 1 then 1 else 0) \<and>
      (x + 1) mod m = (if r = m - 1 then 0 else r + 1)"
  proof (cases "r = m - 1")
    case True
    then have "x + 1 = (q + 1) * m" using x by (simp add: algebra_simps)
    then show ?thesis using m True by simp
  next
    case False
    then have x1: "x + 1 = (r + 1) + q * m" and r1: "0 \<le> r + 1" "r + 1 < m"
      using x r by simp_all
    then show ?thesis
      using m False unfolding x1 by (simp add: div_pos_pos_trivial mod_pos_pos_trivial)
  qed
  then show "(x + 1) div m = x div m + (if x mod m = m - 1 then 1 else 0)"
    and "(x + 1) mod m = (if x mod m = m - 1 then 0 else x mod m + 1)"
    by (simp_all add: q_def r_def)
qed

text \<open>Adding one day-count step to a division: the quotient grows at the multiples.\<close>

lemma div_succ_dvd:
  assumes "0 < (m::int)"
  shows "(x + 1) div m = x div m + (if (x + 1) mod m = 0 then 1 else 0)"
proof -
  have "x mod m + 1 \<noteq> 0" using pos_mod_sign[OF assms, of x] by linarith
  then show ?thesis using assms by (simp add: div_succ mod_succ)
qed

lemma div_bounds: "0 < (m::int) \<Longrightarrow> m * (x div m) \<le> x \<and> x < m * (x div m) + m"
  using mult_div_mod_eq[of m x] pos_mod_bound[of m x] pos_mod_sign[of m x] by linarith

lemma year_start_step: "year_start (y + 1) = year_start y + year_len y"
proof -
  have e: "y - 1969 + 1 = y - 1968" "y - 1901 + 1 = y - 1900" "y - 1601 + 1 = y - 1600"
    by simp_all
  note 4 = div_succ_dvd[of 4 "y - 1969", unfolded e, OF zero_less_numeral]
  note 100 = div_succ_dvd[of 100 "y - 1901", unfolded e, OF zero_less_numeral]
  note 400 = div_succ_dvd[of 400 "y - 1601", unfolded e, OF zero_less_numeral]
  have f: "y - 1968 + 492 * 4 = y" "y - 1900 + 19 * 100 = y" "y - 1600 + 4 * 400 = y"
    by simp_all
  note shift = mod_mult_self1[of "y - 1968" 492 4, unfolded f, symmetric]
    mod_mult_self1[of "y - 1900" 19 100, unfolded f, symmetric]
    mod_mult_self1[of "y - 1600" 4 400, unfolded f, symmetric]
  have sub1: "y mod 400 = 0 \<Longrightarrow> y mod 100 = 0"
    using mod_mod_cancel[of 100 400 y] by simp
  have sub2: "y mod 100 = 0 \<Longrightarrow> y mod 4 = 0"
    using mod_mod_cancel[of 4 100 y] by simp
  define a b c where "a = (y - 1969) div 4" and "b = (y - 1901) div 100"
    and "c = (y - 1601) div 400"
  have "year_start y = 365 * (y - 1970) + a - b + c"
    by (simp add: year_start_def a_def b_def c_def)
  moreover have "year_start (y + 1) =
      365 * (y + 1 - 1970) + (y - 1968) div 4 - (y - 1900) div 100 + (y - 1600) div 400"
    by (simp add: year_start_def)
  then have "year_start (y + 1) = 365 * (y - 1969) + (a + (if y mod 4 = 0 then 1 else 0))
      - (b + (if y mod 100 = 0 then 1 else 0)) + (c + (if y mod 400 = 0 then 1 else 0))"
    unfolding 4 100 400 shift a_def b_def c_def by simp
  ultimately show ?thesis
    unfolding year_len_def leap_def using sub1 sub2
    by (cases "y mod 4 = 0"; cases "y mod 100 = 0"; cases "y mod 400 = 0") simp_all
qed

lemma year_start_lower: "365 * 400 * (y - 1970) + 97 * (y - 1970) - 600 \<le> 400 * year_start y"
  and year_start_upper: "400 * year_start y \<le> 365 * 400 * (y - 1970) + 97 * (y - 1970) + 600"
proof -
  define a b c where "a = (y - 1969) div 4" and "b = (y - 1901) div 100"
    and "c = (y - 1601) div 400"
  have "4 * a \<le> y - 1969 \<and> y - 1969 < 4 * a + 4"
    "100 * b \<le> y - 1901 \<and> y - 1901 < 100 * b + 100"
    "400 * c \<le> y - 1601 \<and> y - 1601 < 400 * c + 400"
    unfolding a_def b_def c_def by (rule div_bounds; simp)+
  moreover have "year_start y = 365 * (y - 1970) + a - b + c"
    by (simp add: year_start_def a_def b_def c_def)
  ultimately have "365 * 400 * (y - 1970) + 97 * (y - 1970) - 600 \<le> 400 * year_start y \<and>
      400 * year_start y \<le> 365 * 400 * (y - 1970) + 97 * (y - 1970) + 600"
    by simp
  then show "365 * 400 * (y - 1970) + 97 * (y - 1970) - 600 \<le> 400 * year_start y"
    and "400 * year_start y \<le> 365 * 400 * (y - 1970) + 97 * (y - 1970) + 600"
    by simp_all
qed

lemma year_len_bounds: "365 \<le> year_len y" "year_len y \<le> 366"
  by (auto simp: year_len_def)

lemma year_of_day_bounds:
  shows year_of_day_le: "year_start (year_of_day n) \<le> n"
    and year_of_day_less: "n < year_start (year_of_day n + 1)"
proof -
  define q y where "q = (n * 400) div 146097" and "y = 1970 + q"
  have e: "146097 * q \<le> n * 400 \<and> n * 400 < 146097 * q + 146097"
    unfolding q_def by (rule div_bounds) simp
  have s: "year_start y = year_start (y - 1) + year_len (y - 1)"
    using year_start_step[of "y - 1"] by simp
  have s2: "year_start (y + 2) = year_start (y + 1) + year_len (y + 1)"
    using year_start_step[of "y + 1"] by (simp add: add.assoc)
  have lo: "year_start (y - 1) \<le> n"
    using year_start_upper[of y] e s year_len_bounds(1)[of "y - 1"] by (simp add: y_def)
  have hi: "n < year_start (y + 2)"
    using year_start_lower[of "y + 1"] e s2 year_len_bounds(1)[of "y + 1"] by (simp add: y_def)
  have sh: "year_of_day n =
      (if n < year_start y then y - 1 else if year_start (y + 1) \<le> n then y + 1 else y)"
    by (simp add: year_of_day_def Let_def y_def q_def)
  show "year_start (year_of_day n) \<le> n" "n < year_start (year_of_day n + 1)"
    using lo hi by (simp_all add: sh add.assoc)
qed

lemma year_start_mono: "y \<le> z \<Longrightarrow> year_start y \<le> year_start z"
proof (induction rule: int_ge_induct)
  case base
  then show ?case by simp
next
  case (step z)
  then show ?case using year_start_step[of z] year_len_bounds(1)[of z] by linarith
qed

lemma year_of_day_unique:
  assumes "year_start y \<le> n" "n < year_start (y + 1)"
  shows "year_of_day n = y"
proof (rule antisym)
  show "year_of_day n \<le> y"
  proof (rule ccontr)
    assume "\<not> year_of_day n \<le> y"
    then have "year_start (y + 1) \<le> year_start (year_of_day n)" by (intro year_start_mono) simp
    then show False using assms(2) year_of_day_le[of n] by linarith
  qed
  show "y \<le> year_of_day n"
  proof (rule ccontr)
    assume "\<not> y \<le> year_of_day n"
    then have "year_start (year_of_day n + 1) \<le> year_start y" by (intro year_start_mono) simp
    then show False using assms(1) year_of_day_less[of n] by linarith
  qed
qed

section \<open>Months and days\<close>

definition days_before :: "bool \<Rightarrow> int \<Rightarrow> int" where
  "days_before lp m =
     (let b = (if lp then 1 else 0)
      in if m \<le> 0 then 0 else if m = 1 then 31 else if m = 2 then 59 + b
         else if m = 3 then 90 + b else if m = 4 then 120 + b else if m = 5 then 151 + b
         else if m = 6 then 181 + b else if m = 7 then 212 + b else if m = 8 then 243 + b
         else if m = 9 then 273 + b else if m = 10 then 304 + b else if m = 11 then 334 + b
         else 365 + b)"

definition month_len :: "int \<Rightarrow> int \<Rightarrow> int" where
  "month_len y m = days_before (leap y) (m + 1) - days_before (leap y) m"

definition month_of_day :: "int \<Rightarrow> int" where
  "month_of_day n =
     (let y = year_of_day n; d = n - year_start y; b = days_before (leap y)
      in if d < b 1 then 0 else if d < b 2 then 1 else if d < b 3 then 2
         else if d < b 4 then 3 else if d < b 5 then 4 else if d < b 6 then 5
         else if d < b 7 then 6 else if d < b 8 then 7 else if d < b 9 then 8
         else if d < b 10 then 9 else if d < b 11 then 10 else 11)"

definition date_of_day :: "int \<Rightarrow> int" where
  "date_of_day n =
     n - year_start (year_of_day n) - days_before (leap (year_of_day n)) (month_of_day n) + 1"

text \<open>\<open>MakeDay\<close> of the language specification: months carry into years, days into months.\<close>

definition make_day :: "int \<Rightarrow> int \<Rightarrow> int \<Rightarrow> int" where
  "make_day y m d =
     year_start (y + m div 12) + days_before (leap (y + m div 12)) (m mod 12) + d - 1"

lemma month_cases:
  assumes "0 \<le> (m::int)" "m \<le> 11"
  shows "m = 0 \<or> m = 1 \<or> m = 2 \<or> m = 3 \<or> m = 4 \<or> m = 5 \<or> m = 6 \<or> m = 7 \<or> m = 8 \<or> m = 9
    \<or> m = 10 \<or> m = 11"
  using assms by presburger

lemma month_of_day_range: "0 \<le> month_of_day n" "month_of_day n \<le> 11"
  by (simp_all add: month_of_day_def Let_def)

lemma month_len_bounds: "0 \<le> m \<Longrightarrow> m \<le> 11 \<Longrightarrow> 28 \<le> month_len y m \<and> month_len y m \<le> 31"
  using month_cases[of m]
  by (simp add: month_len_def days_before_def Let_def split: if_split) linarith

lemma days_before_step: "days_before (leap y) (m + 1) = days_before (leap y) m + month_len y m"
  by (simp add: month_len_def)

lemma days_before_12: "days_before (leap y) 12 = year_len y"
  by (simp add: days_before_def year_len_def)

lemma days_before_0 [simp]: "days_before lp 0 = 0"
  by (simp add: days_before_def)

lemma month_of_day_spec:
  fixes n :: int
  defines "y \<equiv> year_of_day n"
  shows month_of_day_lower: "days_before (leap y) (month_of_day n) \<le> n - year_start y"
    and month_of_day_upper: "n - year_start y < days_before (leap y) (month_of_day n + 1)"
proof -
  have d: "0 \<le> n - year_start y" "n - year_start y < days_before (leap y) 12"
    using year_of_day_le[of n] year_of_day_less[of n] year_start_step[of y]
    by (simp_all add: y_def days_before_12)
  show "days_before (leap y) (month_of_day n) \<le> n - year_start y"
    using d(1) unfolding month_of_day_def y_def[symmetric] Let_def by (simp split: if_split)
  show "n - year_start y < days_before (leap y) (month_of_day n + 1)"
    using d(2) unfolding month_of_day_def y_def[symmetric] Let_def by (simp split: if_split)
qed

lemma date_of_day_range:
  "1 \<le> date_of_day n" "date_of_day n \<le> month_len (year_of_day n) (month_of_day n)"
  using month_of_day_lower[of n] month_of_day_upper[of n]
  by (simp_all add: date_of_day_def month_len_def)

lemma make_day_civil: "make_day (year_of_day n) (month_of_day n) (date_of_day n) = n"
  using month_of_day_range[of n] by (simp add: make_day_def date_of_day_def)


lemma days_before_less:
  assumes "0 \<le> i" "i < j" "j \<le> 12"
  shows "days_before (leap y) i < days_before (leap y) j"
  using assms(2,3)
proof (induction j rule: int_gr_induct)
  case base
  then show ?case using month_len_bounds[of i y] assms(1) by (simp add: days_before_step)
next
  case (step j)
  then show ?case using month_len_bounds[of j y] assms(1) by (simp add: days_before_step)
qed

lemma month_of_day_table:
  assumes m: "0 \<le> m" "m \<le> 11" and y: "year_of_day n = y"
    and lo: "days_before (leap y) m \<le> n - year_start y"
    and hi: "n - year_start y < days_before (leap y) (m + 1)"
  shows "month_of_day n = m"
proof (rule ccontr)
  assume "month_of_day n \<noteq> m"
  then consider "month_of_day n + 1 \<le> m" | "m + 1 \<le> month_of_day n" by linarith
  then show False
  proof cases
    case 1
    then have "days_before (leap y) (month_of_day n + 1) \<le> days_before (leap y) m"
      using days_before_less[of "month_of_day n + 1" m y] month_of_day_range[of n] m
      by (cases "month_of_day n + 1 = m") auto
    then show False using lo month_of_day_upper[of n] y by simp
  next
    case 2
    then have "days_before (leap y) (m + 1) \<le> days_before (leap y) (month_of_day n)"
      using days_before_less[of "m + 1" "month_of_day n" y] month_of_day_range[of n] m
      by (cases "m + 1 = month_of_day n") auto
    then show False using hi month_of_day_lower[of n] y by simp
  qed
qed

lemma days_before_range:
  assumes "0 \<le> m" "m \<le> 11"
  shows "0 \<le> days_before (leap y) m" "days_before (leap y) m + month_len y m \<le> year_len y"
  using month_cases[OF assms] by (auto simp: days_before_def month_len_def year_len_def)

lemma civil_make_day:
  assumes m: "0 \<le> m" "m \<le> 11" and d: "1 \<le> d" "d \<le> month_len y m"
  shows year_of_make_day: "year_of_day (make_day y m d) = y"
    and month_of_make_day: "month_of_day (make_day y m d) = m"
    and date_of_make_day: "date_of_day (make_day y m d) = d"
proof -
  have n: "make_day y m d = year_start y + days_before (leap y) m + d - 1"
    using m by (simp add: make_day_def)
  show y: "year_of_day (make_day y m d) = y"
    using days_before_range[OF m, of y] d year_start_step[of y]
    by (intro year_of_day_unique) (simp_all add: n)
  show mm: "month_of_day (make_day y m d) = m"
  proof (rule month_of_day_table[OF assms(1,2) y])
    show "days_before (leap y) m \<le> make_day y m d - year_start y"
      using d by (simp add: n)
    show "make_day y m d - year_start y < days_before (leap y) (m + 1)"
      using d by (simp add: n days_before_step)
  qed
  show "date_of_day (make_day y m d) = d"
    by (simp add: date_of_day_def y mm) (simp add: n)
qed

section \<open>Months in a row\<close>

text \<open>Months numbered consecutively: month \<open>k\<close> is month \<open>k mod 12\<close> of the year \<open>k div 12\<close>.\<close>

definition month_start :: "int \<Rightarrow> int" where "month_start k = make_day (k div 12) (k mod 12) 1"

definition mlen :: "int \<Rightarrow> int" where "mlen k = month_len (k div 12) (k mod 12)"

definition month_index :: "int \<Rightarrow> int" where
  "month_index n = 12 * year_of_day n + month_of_day n"

lemma mod12_range: "0 \<le> k mod (12::int)" "k mod (12::int) \<le> 11"
  using pos_mod_bound[of 12 k] by simp_all

lemma mlen_bounds: "28 \<le> mlen k" "mlen k \<le> 31"
  using month_len_bounds[OF mod12_range] by (simp_all add: mlen_def)

lemma make_day_month_start: "make_day y m d = month_start (12 * y + m) + d - 1"
  by (simp add: month_start_def make_day_def)

lemma month_start_step: "month_start (k + 1) = month_start k + mlen k"
proof (cases "k mod 12 = 11")
  case True
  then have "(k + 1) mod 12 = 0" "(k + 1) div 12 = k div 12 + 1"
    using div_mod_succ[of 12 k] by simp_all
  then show ?thesis
    using True year_start_step[of "k div 12"] days_before_12[of "k div 12"]
    by (simp add: month_start_def make_day_def mlen_def month_len_def)
next
  case False
  then have "(k + 1) mod 12 = k mod 12 + 1" "(k + 1) div 12 = k div 12"
    using div_mod_succ[of 12 k] by simp_all
  then show ?thesis
    by (simp add: month_start_def make_day_def mlen_def month_len_def)
qed

lemma month_index_make_day:
  "0 \<le> m \<Longrightarrow> m \<le> 11 \<Longrightarrow> 1 \<le> d \<Longrightarrow> d \<le> month_len y m \<Longrightarrow> month_index (make_day y m d) = 12 * y + m"
  by (simp add: month_index_def civil_make_day)

lemma month_index_split: "month_index n div 12 = year_of_day n" "month_index n mod 12 = month_of_day n"
  using month_of_day_range[of n] by (simp_all add: month_index_def)

lemma day_in_month: "n = month_start (month_index n) + date_of_day n - 1"
  using make_day_civil[of n] make_day_month_start[of "year_of_day n" "month_of_day n" "date_of_day n"]
  by (simp add: month_index_def)

lemma date_of_day_mlen: "date_of_day n \<le> mlen (month_index n)"
  using date_of_day_range(2)[of n] by (simp add: mlen_def month_index_split)

lemma month_index_bounds:
  "month_start (month_index n) \<le> n" "n < month_start (month_index n + 1)"
  using day_in_month[of n] date_of_day_range(1)[of n] date_of_day_mlen[of n]
    month_start_step[of "month_index n"] by linarith+

lemma month_start_mono: "j \<le> k \<Longrightarrow> month_start j \<le> month_start k"
proof (induction rule: int_ge_induct)
  case base
  then show ?case by simp
next
  case (step i)
  then show ?case using month_start_step[of i] mlen_bounds(1)[of i] by linarith
qed

lemma month_index_unique:
  assumes "month_start k \<le> n" "n < month_start (k + 1)"
  shows "month_index n = k"
proof -
  define d where "d = n - month_start k + 1"
  have "n = make_day (k div 12) (k mod 12) d"
    by (simp add: make_day_month_start d_def)
  moreover have "1 \<le> d" "d \<le> month_len (k div 12) (k mod 12)"
    using assms month_start_step[of k] by (simp_all add: d_def mlen_def)
  ultimately show ?thesis
    using month_index_make_day[OF mod12_range] by simp
qed

section \<open>Instants\<close>

definition Date_UTC :: "int \<Rightarrow> int \<Rightarrow> int \<Rightarrow> time" where
  "Date_UTC y m d = make_day y m d * ms_per_day"

definition getUTCFullYear :: "time \<Rightarrow> int" where "getUTCFullYear t = year_of_day (day_of t)"
definition getUTCMonth :: "time \<Rightarrow> int" where "getUTCMonth t = month_of_day (day_of t)"
definition getUTCDate :: "time \<Rightarrow> int" where "getUTCDate t = date_of_day (day_of t)"
definition getUTCDay :: "time \<Rightarrow> int" where "getUTCDay t = (day_of t + 4) mod 7"

lemma day_of_midnight [simp]: "day_of (n * ms_per_day) = n"
  by (simp add: day_of_def ms_per_day_def)

lemma day_of_le: "day_of t * ms_per_day \<le> t"
  and day_of_less: "t < (day_of t + 1) * ms_per_day"
  using div_bounds[of ms_per_day t] by (simp_all add: day_of_def ms_per_day_def)

lemma midnight_le_iff: "n * ms_per_day \<le> t \<longleftrightarrow> n \<le> day_of t"
  by (simp add: day_of_def ms_per_day_def) linarith

lemma day_of_Date_UTC [simp]: "day_of (Date_UTC y m d) = make_day y m d"
  by (simp add: Date_UTC_def)

lemma Date_UTC_getters:
  "Date_UTC (getUTCFullYear t) (getUTCMonth t) (getUTCDate t + k) = (day_of t + k) * ms_per_day"
proof -
  have "make_day y m (d + k) = make_day y m d + k" for y m d by (simp add: make_day_def)
  then show ?thesis
    by (simp add: Date_UTC_def getUTCFullYear_def getUTCMonth_def getUTCDate_def make_day_civil)
qed

end
