(* ===== verification/London.thy ===== *)
theory London
  imports Calendar
begin

text \<open>
  The Europe/London wall clock and the weekly availability windows of vouchers:
  \<open>src/api/shared/londonClock.ts\<close> and \<open>src/api/shared/voucherAvailability.ts\<close>.

  \<open>Intl.DateTimeFormat\<close> with \<open>timeZone: 'Europe/London'\<close> is modelled by the rule in force since
  1996: one hour ahead of UTC from 01:00 UTC on the last Sunday of March to 01:00 UTC on the last
  Sunday of October. A wall-clock reading at \<open>t\<close> is the UTC calendar reading of
  \<open>t\<close> plus the offset.

  The lemmas reduce the clock to arithmetic on the shifted instant, show what the scans over
  the windows return, and where the instants computed from wall-clock minutes are exact.
\<close>

section \<open>The clock\<close>

definition last_sunday :: "int \<Rightarrow> int \<Rightarrow> int" where
  "last_sunday y m = (let d = make_day y m 31 in d - (d + 4) mod 7)"

definition london_offset :: "time \<Rightarrow> int" where
  "london_offset t =
     (let y = getUTCFullYear t
      in if last_sunday y 2 * ms_per_day + 3600000 \<le> t \<and> t < last_sunday y 9 * ms_per_day + 3600000
         then 60 else 0)"

definition london_wall :: "time \<Rightarrow> time" where
  "london_wall t = t + london_offset t * 60000"

definition getLondonClock :: "time \<Rightarrow> int \<times> int" where
  "getLondonClock now =
     (let w = london_wall now;
          year = getUTCFullYear w; month = getUTCMonth w + 1; day = getUTCDate w;
          hour0 = (w mod ms_per_day) div 3600000;
          minute = ((w mod ms_per_day) mod 3600000) div 60000;
          hour = (if hour0 = 24 then 0 else hour0);
          dayOfWeek = getUTCDay (Date_UTC year (month - 1) day)
      in (dayOfWeek, hour * 60 + minute))"

definition londonDateAtMinute :: "time \<Rightarrow> int \<Rightarrow> int \<Rightarrow> time" where
  "londonDateAtMinute now dayOffset minute =
     (let w = london_wall now;
          year = getUTCFullYear w; month = getUTCMonth w + 1; day = getUTCDate w;
          utcMidnight = Date_UTC year (month - 1) (day + dayOffset);
          offsetMinutes = london_offset utcMidnight
      in utcMidnight - offsetMinutes * 60000 + minute * 60000)"

lemma london_offset_range: "london_offset t = 0 \<or> london_offset t = 60"
  by (simp add: london_offset_def Let_def)

definition london_dow :: "time \<Rightarrow> int" where
  "london_dow now = (day_of (london_wall now) + 4) mod 7"

definition london_minute :: "time \<Rightarrow> int" where
  "london_minute now = (london_wall now mod ms_per_day) div 60000"

lemma london_dow_range: "0 \<le> london_dow now" "london_dow now < 7"
  by (simp_all add: london_dow_def)

lemma minutes_split:
  assumes "0 \<le> (r::int)" "r < 86400000"
  shows "(if r div 3600000 = 24 then 0 else r div 3600000) * 60 + (r mod 3600000) div 60000 = r div 60000"
proof -
  have "r div 3600000 \<noteq> 24" using assms by linarith
  moreover have "r div 60000 = (r div 3600000) * 60 + (r mod 3600000) div 60000"
  proof -
    have "r = r mod 3600000 + (r div 3600000 * 60) * 60000" by simp
    then have "r div 60000 = (r mod 3600000 + (r div 3600000 * 60) * 60000) div 60000" by simp
    also have "\<dots> = r div 3600000 * 60 + (r mod 3600000) div 60000"
      by (rule div_mult_self1) simp
    finally show ?thesis .
  qed
  ultimately show ?thesis by simp
qed

lemma wall_ms_range: "0 \<le> t mod ms_per_day" "t mod ms_per_day < 86400000"
  by (simp_all add: ms_per_day_def)

lemma london_minute_range: "0 \<le> london_minute now" "london_minute now < 1440"
  using wall_ms_range[of "london_wall now"] div_bounds[of 60000 "london_wall now mod ms_per_day"]
  by (simp_all add: london_minute_def pos_imp_zdiv_nonneg_iff)

lemma getLondonClock_eq: "getLondonClock now = (london_dow now, london_minute now)"
proof -
  let ?w = "london_wall now"
  have "getUTCDay (Date_UTC (getUTCFullYear ?w) (getUTCMonth ?w) (getUTCDate ?w)) = london_dow now"
    using Date_UTC_getters[of ?w 0] by (simp add: getUTCDay_def london_dow_def)
  then show ?thesis
    using minutes_split[OF wall_ms_range, of ?w]
    by (simp add: getLondonClock_def Let_def london_minute_def)
qed

lemma londonDateAtMinute_eq:
  "londonDateAtMinute now k m =
     (let d = (day_of (london_wall now) + k) * ms_per_day in d - london_offset d * 60000 + m * 60000)"
  using Date_UTC_getters[of "london_wall now" k] by (simp add: londonDateAtMinute_def Let_def)

text \<open>
  The instant is exact when the offset that holds now also held at midnight UTC of the same
  London day: on all days but the two on which the clocks change.
\<close>

definition steady_day :: "time \<Rightarrow> bool" where
  "steady_day now \<longleftrightarrow> london_offset (day_of (london_wall now) * ms_per_day) = london_offset now"

lemma london_minute_bounds:
  "day_of (london_wall now) * ms_per_day + london_minute now * 60000 \<le> london_wall now \<and>
   london_wall now < day_of (london_wall now) * ms_per_day + london_minute now * 60000 + 60000"
proof -
  define d r m where "d = day_of (london_wall now) * ms_per_day"
    and "r = london_wall now mod ms_per_day" and "m = london_minute now"
  have "london_wall now = d + r" by (simp add: day_of_def d_def r_def)
  moreover have "60000 * m \<le> r \<and> r < 60000 * m + 60000"
    unfolding m_def london_minute_def r_def by (rule div_bounds) simp
  ultimately show ?thesis by (simp add: d_def m_def)
qed

lemma london_minute_instant_le:
  assumes "steady_day now"
  shows "londonDateAtMinute now 0 m \<le> now \<longleftrightarrow> m \<le> london_minute now"
proof -
  define d f k where "d = day_of (london_wall now) * ms_per_day"
    and "f = london_offset now * 60000" and "k = london_minute now"
  have "londonDateAtMinute now 0 m = d - f + m * 60000"
    using assms by (simp add: londonDateAtMinute_eq Let_def steady_day_def d_def f_def)
  moreover have "d + k * 60000 \<le> now + f" "now + f < d + k * 60000 + 60000"
    using london_minute_bounds[of now] by (simp_all add: d_def f_def k_def london_wall_def)
  ultimately show ?thesis unfolding k_def[symmetric] by linarith
qed

section \<open>Times of day\<close>

definition is_digit :: "char \<Rightarrow> bool" where
  "is_digit c \<longleftrightarrow> c \<in> set ''0123456789''"

definition digit_val :: "char \<Rightarrow> int" where
  "digit_val c = of_char c - 48"

text \<open>\<open>/^([01]\d|2[0-3]):[0-5]\d$/\<close>\<close>

fun TIME_REGEX :: "string \<Rightarrow> bool" where
  "TIME_REGEX [h1, h2, c, m1, m2] \<longleftrightarrow>
     (h1 \<in> set ''01'' \<and> is_digit h2 \<or> h1 = CHR ''2'' \<and> h2 \<in> set ''0123'') \<and>
     c = CHR '':'' \<and> m1 \<in> set ''012345'' \<and> is_digit m2"
| "TIME_REGEX s \<longleftrightarrow> False"

text \<open>\<open>s.split(':').map(n => parseInt(n, 10))\<close> on a string that matches the pattern.\<close>

fun hhmm_minutes :: "string \<Rightarrow> int" where
  "hhmm_minutes [h1, h2, c, m1, m2] =
     (digit_val h1 * 10 + digit_val h2) * 60 + (digit_val m1 * 10 + digit_val m2)"
| "hhmm_minutes s = 0"

definition parseTimeString :: "string \<Rightarrow> int result" where
  "parseTimeString s =
     (if s = ''24:00'' then returns 1440
      else if \<not> TIME_REGEX s then throw (UNHANDLED RuntimeError)
      else returns (hhmm_minutes s))"

lemma digit_val_range: "is_digit c \<Longrightarrow> 0 \<le> digit_val c \<and> digit_val c \<le> 9"
  by (auto simp: is_digit_def digit_val_def)

lemma TIME_REGEX_minutes: "TIME_REGEX s \<Longrightarrow> 0 \<le> hhmm_minutes s \<and> hhmm_minutes s < 1440"
proof (induction s rule: TIME_REGEX.induct)
  case (1 h1 h2 c m1 m2)
  then have h: "h1 \<in> set ''01'' \<and> is_digit h2 \<or> h1 = CHR ''2'' \<and> h2 \<in> set ''0123''"
    and m: "m1 \<in> set ''012345''" "is_digit m2" by simp_all
  have "0 \<le> digit_val h1 * 10 + digit_val h2 \<and> digit_val h1 * 10 + digit_val h2 \<le> 23"
    using h digit_val_range[of h2] by (auto simp: digit_val_def)
  moreover have "0 \<le> digit_val m1 * 10 + digit_val m2 \<and> digit_val m1 * 10 + digit_val m2 \<le> 59"
    using m digit_val_range[of m2] by (auto simp: digit_val_def)
  ultimately show ?case by simp
qed simp_all

section \<open>Availability windows\<close>

record availability_window =
  aw_dayOfWeek :: int
  aw_openTime :: string
  aw_closeTime :: string

text \<open>A window occurrence: \<open>startsAt\<close> and \<open>endsAt\<close>.\<close>

type_synonym window_occurrence = "time \<times> time"

text \<open>The loop of \<open>getCurrentWindowOccurrence\<close>: the first window of the day that holds the minute.
  A malformed time met before that throws.\<close>

fun scan_current :: "int \<Rightarrow> int \<Rightarrow> availability_window list \<Rightarrow> (int \<times> int) option result" where
  "scan_current dow minutes [] = returns None"
| "scan_current dow minutes (w # ws) =
     (if aw_dayOfWeek w \<noteq> dow then scan_current dow minutes ws
      else case parseTimeString (aw_openTime w) of Inl e \<Rightarrow> throw e
        | Inr openMin \<Rightarrow>
          (case parseTimeString (aw_closeTime w) of Inl e \<Rightarrow> throw e
            | Inr closeMin \<Rightarrow>
              if openMin \<le> minutes \<and> minutes < closeMin then returns (Some (openMin, closeMin))
              else scan_current dow minutes ws))"

definition getCurrentWindowOccurrence ::
  "availability_window list \<Rightarrow> time \<Rightarrow> window_occurrence option result" where
  "getCurrentWindowOccurrence windows now =
     (if length windows = 0 then returns None
      else let (dayOfWeek, minutes) = getLondonClock now
        in case scan_current dayOfWeek minutes windows of Inl e \<Rightarrow> throw e
          | Inr None \<Rightarrow> returns None
          | Inr (Some (openMin, closeMin)) \<Rightarrow>
              returns (Some (londonDateAtMinute now 0 openMin, londonDateAtMinute now 0 closeMin)))"

text \<open>Candidates of the forward scan: \<open>(dayOffset, openMin, closeMin)\<close>.\<close>

type_synonym candidate = "int \<times> int \<times> int"

fun next_candidates_of_day ::
  "int \<Rightarrow> int \<Rightarrow> int \<Rightarrow> availability_window list \<Rightarrow> candidate list result" where
  "next_candidates_of_day offset targetDow nowMin [] = returns []"
| "next_candidates_of_day offset targetDow nowMin (w # ws) =
     (if aw_dayOfWeek w \<noteq> targetDow then next_candidates_of_day offset targetDow nowMin ws
      else case parseTimeString (aw_openTime w) of Inl e \<Rightarrow> throw e
        | Inr openMin \<Rightarrow>
          (case parseTimeString (aw_closeTime w) of Inl e \<Rightarrow> throw e
            | Inr closeMin \<Rightarrow>
              (case next_candidates_of_day offset targetDow nowMin ws of Inl e \<Rightarrow> throw e
                | Inr cs \<Rightarrow>
                  returns (if offset = 0 \<and> openMin \<le> nowMin then cs
                           else (offset, openMin, closeMin) # cs))))"

fun next_candidates ::
  "int list \<Rightarrow> int \<Rightarrow> int \<Rightarrow> availability_window list \<Rightarrow> candidate list result" where
  "next_candidates [] nowDay nowMin windows = returns []"
| "next_candidates (offset # offsets) nowDay nowMin windows =
     (case next_candidates_of_day offset ((nowDay + offset) mod 7) nowMin windows of Inl e \<Rightarrow> throw e
      | Inr cs \<Rightarrow>
        (case next_candidates offsets nowDay nowMin windows of Inl e \<Rightarrow> throw e
          | Inr cs' \<Rightarrow> returns (cs @ cs')))"

definition getNextWindowOccurrence ::
  "availability_window list \<Rightarrow> time \<Rightarrow> window_occurrence option result" where
  "getNextWindowOccurrence windows now =
     (if length windows = 0 then returns None
      else let (nowDay, nowMin) = getLondonClock now
        in case next_candidates [0..7] nowDay nowMin windows of Inl e \<Rightarrow> throw e
          | Inr candidates \<Rightarrow>
            if length candidates = 0 then returns None
            else let (dayOffset, openMin, closeMin) =
                       hd (sort_key (\<lambda>(off, openM, closeM). (off, openM)) candidates)
              in returns (Some (londonDateAtMinute now dayOffset openMin,
                                londonDateAtMinute now dayOffset closeMin)))"

text \<open>The backward scan keeps a window of today once it has closed, and every window of the seven days
  before.\<close>

fun closed_candidates_of_day ::
  "int \<Rightarrow> int \<Rightarrow> int \<Rightarrow> availability_window list \<Rightarrow> candidate list result" where
  "closed_candidates_of_day offset targetDow nowMin [] = returns []"
| "closed_candidates_of_day offset targetDow nowMin (w # ws) =
     (if aw_dayOfWeek w \<noteq> targetDow then closed_candidates_of_day offset targetDow nowMin ws
      else case parseTimeString (aw_openTime w) of Inl e \<Rightarrow> throw e
        | Inr openMin \<Rightarrow>
          (case parseTimeString (aw_closeTime w) of Inl e \<Rightarrow> throw e
            | Inr closeMin \<Rightarrow>
              (case closed_candidates_of_day offset targetDow nowMin ws of Inl e \<Rightarrow> throw e
                | Inr cs \<Rightarrow>
                  returns (if offset = 0 \<and> nowMin < closeMin then cs
                           else (offset, openMin, closeMin) # cs))))"

fun closed_candidates ::
  "int list \<Rightarrow> int \<Rightarrow> int \<Rightarrow> availability_window list \<Rightarrow> candidate list result" where
  "closed_candidates [] nowDay nowMin windows = returns []"
| "closed_candidates (offset # offsets) nowDay nowMin windows =
     (case closed_candidates_of_day offset ((nowDay - offset + 7) mod 7) nowMin windows of Inl e \<Rightarrow> throw e
      | Inr cs \<Rightarrow>
        (case closed_candidates offsets nowDay nowMin windows of Inl e \<Rightarrow> throw e
          | Inr cs' \<Rightarrow> returns (cs @ cs')))"

definition getMostRecentlyClosedWindowOccurrence ::
  "availability_window list \<Rightarrow> time \<Rightarrow> window_occurrence option result" where
  "getMostRecentlyClosedWindowOccurrence windows now =
     (if length windows = 0 then returns None
      else let (nowDay, nowMin) = getLondonClock now
        in case closed_candidates [0..7] nowDay nowMin windows of Inl e \<Rightarrow> throw e
          | Inr candidates \<Rightarrow>
            if length candidates = 0 then returns None
            else let (dayOffset, openMin, closeMin) =
                       hd (sort_key (\<lambda>(off, openM, closeM). (off, - closeM)) candidates)
              in returns (Some (londonDateAtMinute now (- dayOffset) openMin,
                                londonDateAtMinute now (- dayOffset) closeMin)))"

section \<open>What the scans return\<close>

text \<open>Well-formed windows, as the create and edit routes store them.\<close>

definition time_ok :: "string \<Rightarrow> bool" where
  "time_ok s \<longleftrightarrow> s = ''24:00'' \<or> TIME_REGEX s"

definition time_minutes :: "string \<Rightarrow> int" where
  "time_minutes s = (if s = ''24:00'' then 1440 else hhmm_minutes s)"

abbreviation aw_open :: "availability_window \<Rightarrow> int" where
  "aw_open w \<equiv> time_minutes (aw_openTime w)"

abbreviation aw_close :: "availability_window \<Rightarrow> int" where
  "aw_close w \<equiv> time_minutes (aw_closeTime w)"

definition window_ok :: "availability_window \<Rightarrow> bool" where
  "window_ok w \<longleftrightarrow> 0 \<le> aw_dayOfWeek w \<and> aw_dayOfWeek w < 7 \<and>
     time_ok (aw_openTime w) \<and> time_ok (aw_closeTime w)"

definition windows_ok :: "availability_window list \<Rightarrow> bool" where
  "windows_ok ws \<longleftrightarrow> list_all window_ok ws"

definition window_holds :: "int \<Rightarrow> int \<Rightarrow> availability_window \<Rightarrow> bool" where
  "window_holds dow minutes w \<longleftrightarrow>
     aw_dayOfWeek w = dow \<and> aw_open w \<le> minutes \<and> minutes < aw_close w"

lemma parse_ok: "time_ok s \<Longrightarrow> parseTimeString s = Inr (time_minutes s)"
  by (auto simp: time_ok_def parseTimeString_def time_minutes_def)

lemma scan_current_sound:
  "scan_current dow m ws = Inr (Some (o1, c1)) \<Longrightarrow> o1 \<le> m \<and> m < c1"
  by (induction ws) (auto split: if_splits sum.splits)

lemma scan_current_find:
  "list_all window_ok ws \<Longrightarrow> scan_current dow m ws =
     Inr (map_option (\<lambda>w. (aw_open w, aw_close w)) (List.find (window_holds dow m) ws))"
  by (induction ws) (auto simp: window_ok_def parse_ok window_holds_def)

definition is_candidate ::
  "availability_window list \<Rightarrow> int \<Rightarrow> int \<Rightarrow> int \<Rightarrow> availability_window \<Rightarrow> bool" where
  "is_candidate ws nowDay nowMin off w \<longleftrightarrow> w \<in> set ws \<and>
     aw_dayOfWeek w = (nowDay + off) mod 7 \<and> (off = 0 \<longrightarrow> nowMin < aw_open w)"

lemma next_candidates_of_day_set:
  "list_all window_ok ws \<Longrightarrow> \<exists>cs. next_candidates_of_day off dow m ws = Inr cs \<and>
     set cs = {(off, aw_open w, aw_close w) |w. w \<in> set ws \<and> aw_dayOfWeek w = dow \<and>
       (off = 0 \<longrightarrow> m < aw_open w)}"
proof (induction ws)
  case Nil
  then show ?case by simp
next
  case (Cons w ws)
  then obtain cs where cs: "next_candidates_of_day off dow m ws = Inr cs"
    "set cs = {(off, aw_open w, aw_close w) |w. w \<in> set ws \<and> aw_dayOfWeek w = dow \<and>
       (off = 0 \<longrightarrow> m < aw_open w)}" by auto
  from Cons.prems have "time_ok (aw_openTime w)" "time_ok (aw_closeTime w)"
    by (simp_all add: window_ok_def)
  with cs show ?case by (auto simp: parse_ok)
qed

lemma next_candidates_set:
  "list_all window_ok ws \<Longrightarrow> \<exists>cs. next_candidates offs d m ws = Inr cs \<and>
     set cs = {(off, aw_open w, aw_close w) |off w. off \<in> set offs \<and> is_candidate ws d m off w}"
proof (induction offs)
  case Nil
  then show ?case by simp
next
  case (Cons off offs)
  then obtain cs' where "next_candidates offs d m ws = Inr cs'"
    "set cs' = {(off, aw_open w, aw_close w) |off w. off \<in> set offs \<and> is_candidate ws d m off w}"
    by auto
  moreover obtain cs where "next_candidates_of_day off ((d + off) mod 7) m ws = Inr cs"
    "set cs = {(off, aw_open w, aw_close w) |w. w \<in> set ws \<and> aw_dayOfWeek w = (d + off) mod 7 \<and>
       (off = 0 \<longrightarrow> m < aw_open w)}"
    using next_candidates_of_day_set[OF Cons.prems] by blast
  ultimately show ?case by (auto simp: is_candidate_def)
qed

text \<open>Within a week every window comes up again, so a non-empty schedule has a candidate.\<close>

lemma candidate_exists:
  assumes "w \<in> set ws" "window_ok w" "0 \<le> d"
  shows "\<exists>off\<in>{1..7}. is_candidate ws d m off w"
proof -
  define off where "off = (aw_dayOfWeek w - d - 1) mod 7 + 1"
  have "(d + off) mod 7 = (d + 1 + (aw_dayOfWeek w - d - 1)) mod 7"
    unfolding off_def using mod_add_right_eq[of "d + 1" "aw_dayOfWeek w - d - 1" 7]
    by (simp add: algebra_simps)
  also have "\<dots> = aw_dayOfWeek w"
    using assms(2) by (simp add: window_ok_def)
  finally have "(d + off) mod 7 = aw_dayOfWeek w" .
  moreover have "1 \<le> off" "off \<le> 7"
    using pos_mod_sign[of 7 "aw_dayOfWeek w - d - 1"] pos_mod_bound[of 7 "aw_dayOfWeek w - d - 1"]
    unfolding off_def by linarith+
  ultimately show ?thesis
    using assms(1) by (auto simp: is_candidate_def intro!: bexI[of _ off])
qed

lemma getNextWindowOccurrence_spec:
  assumes ok: "windows_ok ws" and ne: "ws \<noteq> []"
  obtains off w where "is_candidate ws (london_dow now) (london_minute now) off w" "0 \<le> off" "off \<le> 7"
    "getNextWindowOccurrence ws now =
       Inr (Some (londonDateAtMinute now off (aw_open w), londonDateAtMinute now off (aw_close w)))"
    "\<And>off' w'. is_candidate ws (london_dow now) (london_minute now) off' w' \<Longrightarrow> 0 \<le> off' \<Longrightarrow> off' \<le> 7 \<Longrightarrow>
       (off, aw_open w) \<le> (off', aw_open w')"
proof -
  let ?d = "london_dow now" and ?m = "london_minute now"
  let ?key = "\<lambda>(off, o1, c1). (off::int, o1::int)"
  from ok have all: "list_all window_ok ws" by (simp add: windows_ok_def)
  obtain cs where cs: "next_candidates [0..7] ?d ?m ws = Inr cs"
    "set cs = {(off, aw_open w, aw_close w) |off w. off \<in> set [0..7] \<and> is_candidate ws ?d ?m off w}"
    using next_candidates_set[OF all] by blast
  have "hd ws \<in> set ws" "window_ok (hd ws)" using ne all by (auto simp: list_all_iff)
  then obtain off0 where "off0 \<in> {1..7}" "is_candidate ws ?d ?m off0 (hd ws)"
    using candidate_exists london_dow_range(1) by blast
  then have "cs \<noteq> []" using cs(2) by fastforce
  define h where "h = hd (sort_key ?key cs)"
  have "h \<in> set cs" unfolding h_def by (rule hd_sort_key_in) fact
  then obtain off w where h: "h = (off, aw_open w, aw_close w)" "off \<in> set [0..7]"
    "is_candidate ws ?d ?m off w" using cs(2) by auto
  have get: "getNextWindowOccurrence ws now =
       Inr (Some (londonDateAtMinute now off (aw_open w), londonDateAtMinute now off (aw_close w)))"
    using ne cs(1) \<open>cs \<noteq> []\<close> h(1)
    by (simp add: getNextWindowOccurrence_def getLondonClock_eq Let_def flip: h_def)
  have min: "(off, aw_open w) \<le> (off', aw_open w')"
    if "is_candidate ws ?d ?m off' w'" "0 \<le> off'" "off' \<le> 7" for off' w'
  proof -
    have "(off', aw_open w', aw_close w') \<in> set cs" using cs(2) that by auto
    then show ?thesis using hd_sort_key_min[of _ cs ?key] h(1) unfolding h_def[symmetric] by fastforce
  qed
  show ?thesis using that[OF h(3) _ _ get min] h(2) by simp
qed

definition is_closed_candidate ::
  "availability_window list \<Rightarrow> int \<Rightarrow> int \<Rightarrow> int \<Rightarrow> availability_window \<Rightarrow> bool" where
  "is_closed_candidate ws nowDay nowMin off w \<longleftrightarrow> w \<in> set ws \<and>
     aw_dayOfWeek w = (nowDay - off + 7) mod 7 \<and> (off = 0 \<longrightarrow> aw_close w \<le> nowMin)"

lemma closed_candidates_of_day_set:
  "list_all window_ok ws \<Longrightarrow> \<exists>cs. closed_candidates_of_day off dow m ws = Inr cs \<and>
     set cs = {(off, aw_open w, aw_close w) |w. w \<in> set ws \<and> aw_dayOfWeek w = dow \<and>
       (off = 0 \<longrightarrow> aw_close w \<le> m)}"
proof (induction ws)
  case Nil
  then show ?case by simp
next
  case (Cons w ws)
  then obtain cs where cs: "closed_candidates_of_day off dow m ws = Inr cs"
    "set cs = {(off, aw_open w, aw_close w) |w. w \<in> set ws \<and> aw_dayOfWeek w = dow \<and>
       (off = 0 \<longrightarrow> aw_close w \<le> m)}" by auto
  from Cons.prems have "time_ok (aw_openTime w)" "time_ok (aw_closeTime w)"
    by (simp_all add: window_ok_def)
  with cs show ?case by (auto simp: parse_ok)
qed

lemma closed_candidates_set:
  "list_all window_ok ws \<Longrightarrow> \<exists>cs. closed_candidates offs d m ws = Inr cs \<and>
     set cs = {(off, aw_open w, aw_close w) |off w. off \<in> set offs \<and> is_closed_candidate ws d m off w}"
proof (induction offs)
  case Nil
  then show ?case by simp
next
  case (Cons off offs)
  then obtain cs' where "closed_candidates offs d m ws = Inr cs'"
    "set cs' = {(off, aw_open w, aw_close w) |off w. off \<in> set offs \<and> is_closed_candidate ws d m off w}"
    by auto
  moreover obtain cs where "closed_candidates_of_day off ((d - off + 7) mod 7) m ws = Inr cs"
    "set cs = {(off, aw_open w, aw_close w) |w. w \<in> set ws \<and> aw_dayOfWeek w = (d - off + 7) mod 7 \<and>
       (off = 0 \<longrightarrow> aw_close w \<le> m)}"
    using closed_candidates_of_day_set[OF Cons.prems] by blast
  ultimately show ?case by (auto simp: is_closed_candidate_def)
qed

lemma closed_candidate_exists:
  assumes "w \<in> set ws" "window_ok w"
  shows "\<exists>off\<in>{1..7}. is_closed_candidate ws d m off w"
proof -
  define off where "off = (d - aw_dayOfWeek w - 1) mod 7 + 1"
  have "(d - off + 7) mod 7 = (d - 1 - (d - aw_dayOfWeek w - 1) + 7) mod 7"
    unfolding off_def using mod_diff_right_eq[of "d - 1 + 7" "d - aw_dayOfWeek w - 1" 7]
    by (simp add: algebra_simps)
  also have "\<dots> = aw_dayOfWeek w"
    using assms(2) by (simp add: window_ok_def)
  finally have "(d - off + 7) mod 7 = aw_dayOfWeek w" .
  moreover have "1 \<le> off" "off \<le> 7"
    using pos_mod_sign[of 7 "d - aw_dayOfWeek w - 1"] pos_mod_bound[of 7 "d - aw_dayOfWeek w - 1"]
    unfolding off_def by linarith+
  ultimately show ?thesis
    using assms(1) by (auto simp: is_closed_candidate_def intro!: bexI[of _ off])
qed

lemma getMostRecentlyClosed_spec:
  assumes ok: "windows_ok ws" and ne: "ws \<noteq> []"
  obtains off w where "is_closed_candidate ws (london_dow now) (london_minute now) off w" "0 \<le> off" "off \<le> 7"
    "getMostRecentlyClosedWindowOccurrence ws now =
       Inr (Some (londonDateAtMinute now (- off) (aw_open w), londonDateAtMinute now (- off) (aw_close w)))"
    "\<And>off' w'. is_closed_candidate ws (london_dow now) (london_minute now) off' w' \<Longrightarrow> 0 \<le> off' \<Longrightarrow> off' \<le> 7 \<Longrightarrow>
       (off, - aw_close w) \<le> (off', - aw_close w')"
proof -
  let ?d = "london_dow now" and ?m = "london_minute now"
  let ?key = "\<lambda>(off, o1, c1). (off::int, - c1::int)"
  from ok have all: "list_all window_ok ws" by (simp add: windows_ok_def)
  obtain cs where cs: "closed_candidates [0..7] ?d ?m ws = Inr cs"
    "set cs = {(off, aw_open w, aw_close w) |off w. off \<in> set [0..7] \<and> is_closed_candidate ws ?d ?m off w}"
    using closed_candidates_set[OF all] by blast
  have "hd ws \<in> set ws" "window_ok (hd ws)" using ne all by (auto simp: list_all_iff)
  then obtain off0 where "off0 \<in> {1..7}" "is_closed_candidate ws ?d ?m off0 (hd ws)"
    using closed_candidate_exists by blast
  then have "cs \<noteq> []" using cs(2) by fastforce
  define h where "h = hd (sort_key ?key cs)"
  have "h \<in> set cs" unfolding h_def by (rule hd_sort_key_in) fact
  then obtain off w where h: "h = (off, aw_open w, aw_close w)" "off \<in> set [0..7]"
    "is_closed_candidate ws ?d ?m off w" using cs(2) by auto
  have get: "getMostRecentlyClosedWindowOccurrence ws now =
       Inr (Some (londonDateAtMinute now (- off) (aw_open w), londonDateAtMinute now (- off) (aw_close w)))"
    using ne cs(1) \<open>cs \<noteq> []\<close> h(1)
    by (simp add: getMostRecentlyClosedWindowOccurrence_def getLondonClock_eq Let_def flip: h_def)
  have min: "(off, - aw_close w) \<le> (off', - aw_close w')"
    if "is_closed_candidate ws ?d ?m off' w'" "0 \<le> off'" "off' \<le> 7" for off' w'
  proof -
    have "(off', aw_open w', aw_close w') \<in> set cs" using cs(2) that by auto
    then show ?thesis using hd_sort_key_min[of _ cs ?key] h(1) unfolding h_def[symmetric] by fastforce
  qed
  show ?thesis using that[OF h(3) _ _ get min] h(2) by simp
qed

section \<open>Properties\<close>

text \<open>An open window holds the present: on a day without a clock change, the occurrence that
  \<open>getCurrentWindowOccurrence\<close> returns is an interval \<open>[startsAt, endsAt)\<close> with \<open>now\<close> in it, so
  a redemption made now falls inside the range the redeem guard searches.\<close>

theorem current_window_holds_now:
  assumes "getCurrentWindowOccurrence windows now = Inr (Some (startsAt, endsAt))"
    and "steady_day now"
  shows "startsAt \<le> now \<and> now < endsAt"
proof -
  obtain o1 c1 where "scan_current (london_dow now) (london_minute now) windows = Inr (Some (o1, c1))"
    and "startsAt = londonDateAtMinute now 0 o1" "endsAt = londonDateAtMinute now 0 c1"
    using assms(1) by (auto simp: getCurrentWindowOccurrence_def getLondonClock_eq
        split: if_splits sum.splits option.splits)
  then show ?thesis
    using scan_current_sound london_minute_instant_le[OF assms(2)] by (fastforce simp flip: not_le)
qed

text \<open>Wednesday 10 June 2026, 10:30 in London (09:30 UTC), against a Wednesday window 10:00 to
  11:00.\<close>

theorem current_window_holds_now_witness:
  "\<exists>s e. getCurrentWindowOccurrence
      [\<lparr>aw_dayOfWeek = 3, aw_openTime = ''10:00'', aw_closeTime = ''11:00''\<rparr>] 1781083800000 = Inr (Some (s, e))
    \<and> s \<le> 1781083800000 \<and> 1781083800000 < e"
proof -
  let ?ws = "[\<lparr>aw_dayOfWeek = 3, aw_openTime = ''10:00'', aw_closeTime = ''11:00''\<rparr>]"
  have g: "getCurrentWindowOccurrence ?ws 1781083800000 = Inr (Some (1781082000000, 1781085600000))"
    by code_simp
  have "steady_day 1781083800000" by code_simp
  from current_window_holds_now[OF g this] g show ?thesis by blast
qed

text \<open>\<open>getCurrentWindowOccurrence\<close> misses nothing: on well-formed windows it never throws, and it
  returns no occurrence exactly when no window of the present London weekday holds the present
  London minute.\<close>

theorem current_window_complete:
  assumes "windows_ok windows"
  shows "isOk (getCurrentWindowOccurrence windows now) \<and>
    (getCurrentWindowOccurrence windows now = Inr None \<longleftrightarrow>
      \<not> (\<exists>w. w \<in> set windows \<and> window_holds (london_dow now) (london_minute now) w))"
proof -
  have "scan_current (london_dow now) (london_minute now) windows =
      Inr (map_option (\<lambda>w. (aw_open w, aw_close w))
        (List.find (window_holds (london_dow now) (london_minute now)) windows))"
    using assms by (intro scan_current_find) (simp add: windows_ok_def)
  then show ?thesis
    by (cases "List.find (window_holds (london_dow now) (london_minute now)) windows")
      (auto simp: getCurrentWindowOccurrence_def getLondonClock_eq find_None_all dest: find_Some_in)
qed

theorem current_window_complete_witness:
  "windows_ok [\<lparr>aw_dayOfWeek = 3, aw_openTime = ''10:00'', aw_closeTime = ''11:00''\<rparr>] \<and>
   isOk (getCurrentWindowOccurrence
      [\<lparr>aw_dayOfWeek = 3, aw_openTime = ''10:00'', aw_closeTime = ''11:00''\<rparr>] 0)"
proof -
  have "windows_ok [\<lparr>aw_dayOfWeek = 3, aw_openTime = ''10:00'', aw_closeTime = ''11:00''\<rparr>]"
    by code_simp
  from this current_window_complete[OF this, of 0] show ?thesis by simp
qed

text \<open>The next window is the earliest one to come: on a non-empty well-formed schedule
  \<open>getNextWindowOccurrence\<close> returns the occurrence of some window \<open>w\<close>, \<open>off\<close> days ahead (today only
  if it has not opened yet), and no occurrence of any window within the coming week opens
  before it.\<close>

theorem next_window_earliest:
  assumes "windows_ok windows" and "windows \<noteq> []"
  shows "\<exists>off w. is_candidate windows (london_dow now) (london_minute now) off w \<and> 0 \<le> off \<and> off \<le> 7 \<and>
    getNextWindowOccurrence windows now =
      Inr (Some (londonDateAtMinute now off (aw_open w), londonDateAtMinute now off (aw_close w))) \<and>
    (\<forall>off' w'. is_candidate windows (london_dow now) (london_minute now) off' w' \<longrightarrow>
      0 \<le> off' \<longrightarrow> off' \<le> 7 \<longrightarrow> (off, aw_open w) \<le> (off', aw_open w'))"
  using getNextWindowOccurrence_spec[OF assms, of now] by metis

theorem next_window_earliest_witness:
  "\<exists>off w. is_candidate [\<lparr>aw_dayOfWeek = 3, aw_openTime = ''10:00'', aw_closeTime = ''11:00''\<rparr>]
     (london_dow 0) (london_minute 0) off w"
proof -
  have "windows_ok [\<lparr>aw_dayOfWeek = 3, aw_openTime = ''10:00'', aw_closeTime = ''11:00''\<rparr>]"
    by code_simp
  from next_window_earliest[OF this, of 0] show ?thesis by auto
qed

text \<open>On the two days of the year on which the London clock changes the computed instants are an
  hour off: at 10:30 London time on Sunday 29 March 2026 (09:30 UTC) a Sunday window
  10:00 to 11:00 is found open, but its computed \<open>startsAt\<close> is 10:00 UTC, later than
  now. The offset is read at midnight UTC of the day, before the change at 01:00 UTC.\<close>

theorem clock_change_day_misplaces_window:
  "getLondonClock 1774776600000 = (0, 10 * 60 + 30) \<and>
   getCurrentWindowOccurrence
     [\<lparr>aw_dayOfWeek = 0, aw_openTime = ''10:00'', aw_closeTime = ''11:00''\<rparr>] 1774776600000
       = Inr (Some (1774778400000, 1774782000000)) \<and>
   \<not> (1774778400000 \<le> (1774776600000 :: time))"
  by code_simp

text \<open>The last closed window is the latest one past: on a non-empty well-formed schedule
  \<open>getMostRecentlyClosedWindowOccurrence\<close> returns the occurrence of some window \<open>w\<close>, \<open>off\<close> days ago
  (today only once it has closed), and no occurrence of the past week closes after it.\<close>

theorem closed_window_latest:
  assumes "windows_ok windows" and "windows \<noteq> []"
  shows "\<exists>off w. is_closed_candidate windows (london_dow now) (london_minute now) off w \<and> 0 \<le> off \<and> off \<le> 7 \<and>
    getMostRecentlyClosedWindowOccurrence windows now =
      Inr (Some (londonDateAtMinute now (- off) (aw_open w), londonDateAtMinute now (- off) (aw_close w))) \<and>
    (\<forall>off' w'. is_closed_candidate windows (london_dow now) (london_minute now) off' w' \<longrightarrow>
      0 \<le> off' \<longrightarrow> off' \<le> 7 \<longrightarrow> (off, - aw_close w) \<le> (off', - aw_close w'))"
  using getMostRecentlyClosed_spec[OF assms, of now] by metis

theorem closed_window_latest_witness:
  "\<exists>off w. is_closed_candidate [\<lparr>aw_dayOfWeek = 3, aw_openTime = ''10:00'', aw_closeTime = ''11:00''\<rparr>]
     (london_dow 0) (london_minute 0) off w"
proof -
  have "windows_ok [\<lparr>aw_dayOfWeek = 3, aw_openTime = ''10:00'', aw_closeTime = ''11:00''\<rparr>]"
    by code_simp
  from closed_window_latest[OF this, of 0] show ?thesis by auto
qed

end
