(* ===== verification/Redis.thy ===== *)
theory Redis
  imports Prelude
begin

text \<open>
  The Redis commands the program uses, over an explicit store. Counter keys and text keys
  live in two maps (the key families never share a name). An entry carries the instant it expires
  at, if it has one; an entry whose instant has come is absent to every command.

  Commands take the server time \<open>now\<close> in milliseconds; times to live are in seconds, and \<open>TTL\<close>
  answers rounded seconds, \<open>-1\<close> for a key without expiry and \<open>-2\<close> for an absent one.
\<close>

type_synonym key = string
type_synonym 'v entries = "key \<rightharpoonup> 'v \<times> time option"

record redis =
  counters :: "int entries"
  texts :: "string entries"

definition empty_redis :: redis where
  "empty_redis = \<lparr>counters = Map.empty, texts = Map.empty\<rparr>"

definition live_until :: "time \<Rightarrow> time option \<Rightarrow> bool" where
  "live_until now e \<longleftrightarrow> (case e of None \<Rightarrow> True | Some t \<Rightarrow> now < t)"

definition lookup_live :: "time \<Rightarrow> 'v entries \<Rightarrow> 'v entries" where
  "lookup_live now m k =
     (case m k of None \<Rightarrow> None | Some (v, e) \<Rightarrow> if live_until now e then Some (v, e) else None)"

section \<open>Counters\<close>

definition count_of :: "time \<Rightarrow> redis \<Rightarrow> key \<Rightarrow> int option" where
  "count_of now rs k = map_option fst (lookup_live now (counters rs) k)"

text \<open>\<open>tonumber(redis.call('GET', key) or '0')\<close>\<close>

definition get_number :: "time \<Rightarrow> redis \<Rightarrow> key \<Rightarrow> int" where
  "get_number now rs k = (case count_of now rs k of None \<Rightarrow> 0 | Some c \<Rightarrow> c)"

definition INCR :: "time \<Rightarrow> key \<Rightarrow> redis \<Rightarrow> redis" where
  "INCR now k rs =
     (let e = (case lookup_live now (counters rs) k of None \<Rightarrow> None | Some (_, e) \<Rightarrow> e)
      in rs\<lparr>counters := (counters rs)(k \<mapsto> (get_number now rs k + 1, e))\<rparr>)"

definition DECR :: "time \<Rightarrow> key \<Rightarrow> redis \<Rightarrow> redis" where
  "DECR now k rs =
     (let e = (case lookup_live now (counters rs) k of None \<Rightarrow> None | Some (_, e) \<Rightarrow> e)
      in rs\<lparr>counters := (counters rs)(k \<mapsto> (get_number now rs k - 1, e))\<rparr>)"

definition EXPIRE :: "time \<Rightarrow> key \<Rightarrow> int \<Rightarrow> redis \<Rightarrow> redis" where
  "EXPIRE now k sec rs =
     (case lookup_live now (counters rs) k of None \<Rightarrow> rs
      | Some (v, _) \<Rightarrow> rs\<lparr>counters := (counters rs)(k \<mapsto> (v, Some (now + sec * 1000)))\<rparr>)"

definition TTL :: "time \<Rightarrow> redis \<Rightarrow> key \<Rightarrow> int" where
  "TTL now rs k =
     (case lookup_live now (counters rs) k of None \<Rightarrow> - 2
      | Some (_, None) \<Rightarrow> - 1
      | Some (_, Some t) \<Rightarrow> (t - now + 500) div 1000)"

definition DEL :: "key \<Rightarrow> redis \<Rightarrow> redis" where
  "DEL k rs = rs\<lparr>counters := (counters rs)(k := None)\<rparr>"

text \<open>\<open>SET key 1 EX ttl NX\<close>: \<open>None\<close> when the key is already there.\<close>

definition SET_NX :: "time \<Rightarrow> key \<Rightarrow> int \<Rightarrow> redis \<Rightarrow> redis option" where
  "SET_NX now k ttl rs =
     (if count_of now rs k \<noteq> None then None
      else Some (rs\<lparr>counters := (counters rs)(k \<mapsto> (1, Some (now + ttl * 1000)))\<rparr>))"

section \<open>Texts\<close>

definition GET_text :: "time \<Rightarrow> redis \<Rightarrow> key \<Rightarrow> string option" where
  "GET_text now rs k = map_option fst (lookup_live now (texts rs) k)"

definition SET_EX :: "time \<Rightarrow> key \<Rightarrow> string \<Rightarrow> int \<Rightarrow> redis \<Rightarrow> redis" where
  "SET_EX now k v ttl rs = rs\<lparr>texts := (texts rs)(k \<mapsto> (v, Some (now + ttl * 1000)))\<rparr>"

definition DEL_text :: "key \<Rightarrow> redis \<Rightarrow> redis" where
  "DEL_text k rs = rs\<lparr>texts := (texts rs)(k := None)\<rparr>"

section \<open>Laws\<close>

named_theorems redis_simps "effect of each command on what a later command reads"

lemma lookup_live_upd [redis_simps]:
  "lookup_live now (m(k := x)) j =
     (if j = k then (case x of None \<Rightarrow> None | Some (v, e) \<Rightarrow> if live_until now e then Some (v, e) else None)
      else lookup_live now m j)"
  by (simp add: lookup_live_def)

lemma live_until_None [simp]: "live_until now None"
  by (simp add: live_until_def)

lemma live_until_Some [simp]: "live_until now (Some t) \<longleftrightarrow> now < t"
  by (simp add: live_until_def)

lemma lookup_live_entry: "lookup_live now m k = Some (v, e) \<Longrightarrow> live_until now e"
  by (simp add: lookup_live_def split: option.splits prod.splits if_splits)

lemma count_of_INCR [redis_simps]:
  "count_of now (INCR now k rs) j = (if j = k then Some (get_number now rs k + 1) else count_of now rs j)"
  by (auto simp: INCR_def count_of_def redis_simps Let_def split: option.splits dest: lookup_live_entry)

lemma count_of_EXPIRE [redis_simps]:
  "0 < sec \<Longrightarrow> count_of now (EXPIRE now k sec rs) j = count_of now rs j"
  by (auto simp: EXPIRE_def count_of_def redis_simps split: option.splits)

lemma count_of_DEL [redis_simps]:
  "count_of now (DEL k rs) j = (if j = k then None else count_of now rs j)"
  by (simp add: DEL_def count_of_def redis_simps)

lemma count_of_DECR [redis_simps]:
  "count_of now (DECR now k rs) j = (if j = k then Some (get_number now rs k - 1) else count_of now rs j)"
  by (auto simp: DECR_def count_of_def redis_simps Let_def split: option.splits dest: lookup_live_entry)

lemma count_of_SET_NX [redis_simps]:
  "SET_NX now k ttl rs = Some rs' \<Longrightarrow> 0 < ttl \<Longrightarrow>
     count_of now rs' j = (if j = k then Some 1 else count_of now rs j)"
  by (auto simp: SET_NX_def count_of_def redis_simps split: if_splits)

lemma SET_NX_None: "SET_NX now k ttl rs = None \<longleftrightarrow> count_of now rs k \<noteq> None"
  by (simp add: SET_NX_def)

lemma get_number_count: "count_of now rs j = count_of now rs' j \<Longrightarrow> get_number now rs j = get_number now rs' j"
  by (simp add: get_number_def)

text \<open>As time passes a counter only ever disappears.\<close>

lemma count_of_later:
  "now \<le> later \<Longrightarrow> count_of later rs k = None \<or> count_of later rs k = count_of now rs k"
  by (auto simp: count_of_def lookup_live_def live_until_def split: option.splits)

lemma get_number_later:
  "now \<le> later \<Longrightarrow> 0 \<le> get_number now rs k \<Longrightarrow> get_number later rs k \<le> get_number now rs k"
  using count_of_later[of now later rs k] by (auto simp: get_number_def split: option.splits)

lemma counters_frame:
  "j \<noteq> k \<Longrightarrow> counters (INCR now k rs) j = counters rs j"
  "j \<noteq> k \<Longrightarrow> counters (EXPIRE now k sec rs) j = counters rs j"
  "j \<noteq> k \<Longrightarrow> counters (DECR now k rs) j = counters rs j"
  "j \<noteq> k \<Longrightarrow> counters (DEL k rs) j = counters rs j"
  by (auto simp: INCR_def EXPIRE_def DECR_def DEL_def Let_def split: option.splits)

lemma GET_text_SET_EX [redis_simps]:
  "0 < ttl \<Longrightarrow> GET_text now (SET_EX now k v ttl rs) j = (if j = k then Some v else GET_text now rs j)"
  by (simp add: SET_EX_def GET_text_def redis_simps)

lemma GET_text_DEL [redis_simps]:
  "GET_text now (DEL_text k rs) j = (if j = k then None else GET_text now rs j)"
  by (simp add: DEL_text_def GET_text_def redis_simps)

end
