(* ===== verification/Limiter.thy ===== *)
theory Limiter
  imports Redis
begin

text \<open>
  \<open>src/api/shared/atomicLimiter.ts\<close>: one atomic check-and-count over gate, abuser and victim
  counters and an optional cooldown.

  \<open>consume_lua\<close> is the Lua script, with its index arithmetic over \<open>KEYS\<close> and \<open>ARGV\<close> (kept
  0-based); \<open>consume\<close> packs its input, runs the script and maps the reply; \<open>luaConsumeShim\<close> is
  the in-memory mirror and \<open>shimEval\<close> its wire adapter. \<open>consume_spec\<close> is the specification over
  the lists of limits, to which both are shown equal.
\<close>

section \<open>Input and result\<close>

record limit_spec =
  ls_key :: key
  ls_limit :: int
  ls_windowSec :: int

record consume_input =
  gateKeys :: "limit_spec list"
  abuserKeys :: "limit_spec list"
  victimKeys :: "limit_spec list"
  cooldown :: "(key \<times> int) option"

datatype scope = Gate | Abuser | Victim | Cooldown

datatype consume_result = Allowed | Blocked scope key int

datatype lua_reply = LuaOk | LuaBlocked int scope key

section \<open>The Lua script\<close>

text \<open>Sections 1 and 3: check only. \<open>base\<close> is the offset of the limits in \<open>ARGV\<close>, \<open>off\<close> that of the
  keys in \<open>KEYS\<close>, \<open>is\<close> the loop range.\<close>

fun lua_check :: "time \<Rightarrow> redis \<Rightarrow> key list \<Rightarrow> int list \<Rightarrow> scope \<Rightarrow> nat \<Rightarrow> nat \<Rightarrow> nat list
    \<Rightarrow> lua_reply option" where
  "lua_check now rs KEYS ARGV sc base off [] = None"
| "lua_check now rs KEYS ARGV sc base off (i # is) =
     (let limit = ARGV ! (base + i * 2); k = KEYS ! (off + i); c = get_number now rs k
      in if limit \<le> c then Some (LuaBlocked (TTL now rs k) sc k)
         else lua_check now rs KEYS ARGV sc base off is)"

text \<open>\<open>local v = INCR key; if v == 1 then EXPIRE key window\<close>\<close>

definition incr_window :: "time \<Rightarrow> key \<Rightarrow> int \<Rightarrow> redis \<Rightarrow> redis" where
  "incr_window now k window rs =
     (let rs' = INCR now k rs
      in if get_number now rs' k = 1 then EXPIRE now k window rs' else rs')"

fun lua_abuse :: "time \<Rightarrow> redis \<Rightarrow> key list \<Rightarrow> int list \<Rightarrow> nat \<Rightarrow> nat \<Rightarrow> nat list
    \<Rightarrow> lua_reply option \<times> redis" where
  "lua_abuse now rs KEYS ARGV base off [] = (None, rs)"
| "lua_abuse now rs KEYS ARGV base off (i # is) =
     (let limit = ARGV ! (base + i * 2); window = ARGV ! (base + i * 2 + 1); k = KEYS ! (off + i);
          rs' = incr_window now k window rs
      in if limit < get_number now rs' k then (Some (LuaBlocked (TTL now rs' k) Abuser k), rs')
         else lua_abuse now rs' KEYS ARGV base off is)"

fun lua_count :: "time \<Rightarrow> redis \<Rightarrow> key list \<Rightarrow> int list \<Rightarrow> nat \<Rightarrow> nat \<Rightarrow> nat list \<Rightarrow> redis" where
  "lua_count now rs KEYS ARGV base off [] = rs"
| "lua_count now rs KEYS ARGV base off (i # is) =
     lua_count now (incr_window now (KEYS ! (off + i)) (ARGV ! (base + i * 2 + 1)) rs)
       KEYS ARGV base off is"

definition consume_lua :: "time \<Rightarrow> redis \<Rightarrow> key list \<Rightarrow> int list \<Rightarrow> lua_reply \<times> redis" where
  "consume_lua now rs KEYS ARGV =
     (let nG = nat (ARGV ! 0); nA = nat (ARGV ! 1); nV = nat (ARGV ! 2);
          gbase = 3; abase = gbase + nG * 2; vbase = abase + nA * 2; cdIdx = nG + nA + nV
      in case lua_check now rs KEYS ARGV Gate gbase 0 [0..<nG] of
           Some r \<Rightarrow> (r, rs)
         | None \<Rightarrow>
           (case lua_abuse now rs KEYS ARGV abase nG [0..<nA] of
              (Some r, rs1) \<Rightarrow> (r, rs1)
            | (None, rs1) \<Rightarrow>
              (case lua_check now rs1 KEYS ARGV Victim vbase (nG + nA) [0..<nV] of
                 Some r \<Rightarrow> (r, rs1)
               | None \<Rightarrow>
                 (let cd = (if cdIdx < length KEYS
                            then SET_NX now (KEYS ! cdIdx) (ARGV ! (vbase + nV * 2)) rs1
                            else Some rs1)
                  in case cd of
                       None \<Rightarrow> (LuaBlocked (TTL now rs1 (KEYS ! cdIdx)) Cooldown (KEYS ! cdIdx), rs1)
                     | Some rs2 \<Rightarrow>
                       (LuaOk,
                        lua_count now (lua_count now rs2 KEYS ARGV gbase 0 [0..<nG])
                          KEYS ARGV vbase (nG + nA) [0..<nV])))))"

section \<open>The caller\<close>

definition spec_argv :: "limit_spec list \<Rightarrow> int list" where
  "spec_argv ss = concat (map (\<lambda>s. [ls_limit s, ls_windowSec s]) ss)"

definition consume_keys :: "consume_input \<Rightarrow> key list" where
  "consume_keys inp =
     map ls_key (gateKeys inp) @ map ls_key (abuserKeys inp) @ map ls_key (victimKeys inp) @
     (case cooldown inp of None \<Rightarrow> [] | Some (k, _) \<Rightarrow> [k])"

definition consume_argv :: "consume_input \<Rightarrow> int list" where
  "consume_argv inp =
     [int (length (gateKeys inp)), int (length (abuserKeys inp)), int (length (victimKeys inp))] @
     spec_argv (gateKeys inp) @ spec_argv (abuserKeys inp) @ spec_argv (victimKeys inp) @
     (case cooldown inp of None \<Rightarrow> [] | Some (_, ttl) \<Rightarrow> [ttl])"

definition fallbackWindow :: "consume_input \<Rightarrow> key \<Rightarrow> int" where
  "fallbackWindow inp blockedKey =
     (case List.find (\<lambda>s. ls_key s = blockedKey) (gateKeys inp) of Some s \<Rightarrow> ls_windowSec s
      | None \<Rightarrow>
       (case List.find (\<lambda>s. ls_key s = blockedKey) (abuserKeys inp) of Some s \<Rightarrow> ls_windowSec s
        | None \<Rightarrow>
         (case List.find (\<lambda>s. ls_key s = blockedKey) (victimKeys inp) of Some s \<Rightarrow> ls_windowSec s
          | None \<Rightarrow>
           (case cooldown inp of
              Some (k, ttl) \<Rightarrow> if k = blockedKey then ttl else 60
            | None \<Rightarrow> 60))))"

definition consume :: "time \<Rightarrow> redis \<Rightarrow> consume_input \<Rightarrow> consume_result \<times> redis" where
  "consume now rs inp =
     (case consume_lua now rs (consume_keys inp) (consume_argv inp) of
        (LuaOk, rs') \<Rightarrow> (Allowed, rs')
      | (LuaBlocked ttl sc k, rs') \<Rightarrow>
          (Blocked sc k (if 0 < ttl then ttl else fallbackWindow inp k), rs'))"

section \<open>The in-memory mirror\<close>

text \<open>The store is a \<open>Map\<close>: no expiry. \<open>ttlOf\<close> is the caller's reading of times to live.\<close>

type_synonym shim_store = "key \<rightharpoonup> int"

definition shim_number :: "shim_store \<Rightarrow> key \<Rightarrow> int" where
  "shim_number st k = (case st k of None \<Rightarrow> 0 | Some c \<Rightarrow> c)"

definition shim_blocked :: "consume_input \<Rightarrow> (key \<Rightarrow> int) \<Rightarrow> scope \<Rightarrow> key \<Rightarrow> consume_result" where
  "shim_blocked inp ttlOf sc k =
     Blocked sc k (if 0 < ttlOf k then ttlOf k else fallbackWindow inp k)"

fun shim_check :: "shim_store \<Rightarrow> limit_spec list \<Rightarrow> key option" where
  "shim_check st [] = None"
| "shim_check st (s # ss) =
     (if ls_limit s \<le> shim_number st (ls_key s) then Some (ls_key s) else shim_check st ss)"

fun shim_abuse :: "shim_store \<Rightarrow> limit_spec list \<Rightarrow> key option \<times> shim_store" where
  "shim_abuse st [] = (None, st)"
| "shim_abuse st (s # ss) =
     (let v = shim_number st (ls_key s) + 1; st' = st(ls_key s \<mapsto> v)
      in if ls_limit s < v then (Some (ls_key s), st') else shim_abuse st' ss)"

fun shim_count :: "shim_store \<Rightarrow> limit_spec list \<Rightarrow> shim_store" where
  "shim_count st [] = st"
| "shim_count st (s # ss) = shim_count (st(ls_key s \<mapsto> shim_number st (ls_key s) + 1)) ss"

definition luaConsumeShim ::
  "shim_store \<Rightarrow> consume_input \<Rightarrow> (key \<Rightarrow> int) \<Rightarrow> consume_result \<times> shim_store" where
  "luaConsumeShim st inp ttlOf =
     (case shim_check st (gateKeys inp) of
        Some k \<Rightarrow> (shim_blocked inp ttlOf Gate k, st)
      | None \<Rightarrow>
        (case shim_abuse st (abuserKeys inp) of
           (Some k, st1) \<Rightarrow> (shim_blocked inp ttlOf Abuser k, st1)
         | (None, st1) \<Rightarrow>
           (case shim_check st1 (victimKeys inp) of
              Some k \<Rightarrow> (shim_blocked inp ttlOf Victim k, st1)
            | None \<Rightarrow>
              (case cooldown inp of
                 Some (k, ttl) \<Rightarrow>
                   (if st1 k \<noteq> None then (shim_blocked inp ttlOf Cooldown k, st1)
                    else (Allowed,
                      shim_count (shim_count (st1(k \<mapsto> 1)) (gateKeys inp)) (victimKeys inp)))
               | None \<Rightarrow> (Allowed, shim_count (shim_count st1 (gateKeys inp)) (victimKeys inp))))))"

text \<open>\<open>take(count, keyOffset)\<close>, from position \<open>i\<close> of \<open>argv\<close>.\<close>

definition shim_take :: "key list \<Rightarrow> int list \<Rightarrow> nat \<Rightarrow> nat \<Rightarrow> nat \<Rightarrow> limit_spec list" where
  "shim_take ks argv i count keyOffset =
     map (\<lambda>j. \<lparr>ls_key = ks ! (keyOffset + j), ls_limit = argv ! (i + j * 2),
       ls_windowSec = argv ! (i + j * 2 + 1)\<rparr>) [0..<count]"

definition shim_unpack :: "key list \<Rightarrow> int list \<Rightarrow> consume_input" where
  "shim_unpack ks argv =
     (let nG = nat (argv ! 0); nA = nat (argv ! 1); nV = nat (argv ! 2)
      in \<lparr>gateKeys = shim_take ks argv 3 nG 0,
          abuserKeys = shim_take ks argv (3 + nG * 2) nA nG,
          victimKeys = shim_take ks argv (3 + nG * 2 + nA * 2) nV (nG + nA),
          cooldown = (if nG + nA + nV < length ks
                      then Some (ks ! (nG + nA + nV), argv ! (3 + nG * 2 + nA * 2 + nV * 2))
                      else None)\<rparr>)"

definition shimEval ::
  "shim_store \<Rightarrow> key list \<Rightarrow> int list \<Rightarrow> (key \<Rightarrow> int) \<Rightarrow> lua_reply \<times> shim_store" where
  "shimEval st ks argv ttlOf =
     (case luaConsumeShim st (shim_unpack ks argv) ttlOf of
        (Allowed, st') \<Rightarrow> (LuaOk, st')
      | (Blocked sc k retryAfter, st') \<Rightarrow> (LuaBlocked retryAfter sc k, st'))"

section \<open>Specification over the lists of limits\<close>

fun spec_check :: "time \<Rightarrow> redis \<Rightarrow> limit_spec list \<Rightarrow> key option" where
  "spec_check now rs [] = None"
| "spec_check now rs (s # ss) =
     (if ls_limit s \<le> get_number now rs (ls_key s) then Some (ls_key s) else spec_check now rs ss)"

fun spec_abuse :: "time \<Rightarrow> redis \<Rightarrow> limit_spec list \<Rightarrow> key option \<times> redis" where
  "spec_abuse now rs [] = (None, rs)"
| "spec_abuse now rs (s # ss) =
     (let rs' = incr_window now (ls_key s) (ls_windowSec s) rs
      in if ls_limit s < get_number now rs' (ls_key s) then (Some (ls_key s), rs')
         else spec_abuse now rs' ss)"

fun spec_count :: "time \<Rightarrow> redis \<Rightarrow> limit_spec list \<Rightarrow> redis" where
  "spec_count now rs [] = rs"
| "spec_count now rs (s # ss) = spec_count now (incr_window now (ls_key s) (ls_windowSec s) rs) ss"

definition blocked :: "time \<Rightarrow> redis \<Rightarrow> consume_input \<Rightarrow> scope \<Rightarrow> key \<Rightarrow> consume_result" where
  "blocked now rs inp sc k =
     Blocked sc k (if 0 < TTL now rs k then TTL now rs k else fallbackWindow inp k)"

definition acquire_cooldown :: "time \<Rightarrow> redis \<Rightarrow> (key \<times> int) option \<Rightarrow> redis option" where
  "acquire_cooldown now rs cd = (case cd of None \<Rightarrow> Some rs | Some (k, ttl) \<Rightarrow> SET_NX now k ttl rs)"

definition consume_spec :: "time \<Rightarrow> redis \<Rightarrow> consume_input \<Rightarrow> consume_result \<times> redis" where
  "consume_spec now rs inp =
     (case spec_check now rs (gateKeys inp) of
        Some k \<Rightarrow> (blocked now rs inp Gate k, rs)
      | None \<Rightarrow>
        (case spec_abuse now rs (abuserKeys inp) of
           (Some k, rs1) \<Rightarrow> (blocked now rs1 inp Abuser k, rs1)
         | (None, rs1) \<Rightarrow>
           (case spec_check now rs1 (victimKeys inp) of
              Some k \<Rightarrow> (blocked now rs1 inp Victim k, rs1)
            | None \<Rightarrow>
              (case acquire_cooldown now rs1 (cooldown inp) of
                 None \<Rightarrow> (blocked now rs1 inp Cooldown (fst (the (cooldown inp))), rs1)
               | Some rs2 \<Rightarrow>
                 (Allowed, spec_count now (spec_count now rs2 (gateKeys inp)) (victimKeys inp))))))"

subsection \<open>Packing\<close>

definition packed :: "key list \<Rightarrow> int list \<Rightarrow> nat \<Rightarrow> nat \<Rightarrow> limit_spec list \<Rightarrow> bool" where
  "packed ks argv base off ss \<longleftrightarrow>
     (\<forall>i<length ss. ks ! (off + i) = ls_key (ss ! i) \<and>
        argv ! (base + i * 2) = ls_limit (ss ! i) \<and> argv ! (base + i * 2 + 1) = ls_windowSec (ss ! i))"

lemma length_spec_argv [simp]: "length (spec_argv ss) = length ss * 2"
  by (induction ss) (simp_all add: spec_argv_def)

lemma spec_argv_nth:
  "i < length ss \<Longrightarrow> spec_argv ss ! (i * 2) = ls_limit (ss ! i) \<and>
     spec_argv ss ! (i * 2 + 1) = ls_windowSec (ss ! i)"
proof (induction ss arbitrary: i)
  case Nil
  then show ?case by simp
next
  case (Cons s ss)
  then show ?case by (cases i) (simp_all add: spec_argv_def)
qed

lemma packed_append:
  "packed (kpre @ map ls_key ss @ kpost) (apre @ spec_argv ss @ apost) (length apre) (length kpre) ss"
  unfolding packed_def using spec_argv_nth[of _ ss]
  by (auto simp: nth_append)

lemma packed_input:
  fixes inp :: consume_input
  defines "nG \<equiv> length (gateKeys inp)" and "nA \<equiv> length (abuserKeys inp)"
    and "nV \<equiv> length (victimKeys inp)"
  shows "packed (consume_keys inp) (consume_argv inp) 3 0 (gateKeys inp)"
    and "packed (consume_keys inp) (consume_argv inp) (3 + nG * 2) nG (abuserKeys inp)"
    and "packed (consume_keys inp) (consume_argv inp) (3 + nG * 2 + nA * 2) (nG + nA) (victimKeys inp)"
proof -
  let ?c = "[int nG, int nA, int nV]"
  let ?G = "gateKeys inp" and ?A = "abuserKeys inp" and ?V = "victimKeys inp"
  obtain ck ct where cd: "consume_keys inp = map ls_key ?G @ map ls_key ?A @ map ls_key ?V @ ck"
    "consume_argv inp = ?c @ spec_argv ?G @ spec_argv ?A @ spec_argv ?V @ ct"
    by (simp add: consume_keys_def consume_argv_def nG_def nA_def nV_def)
  show "packed (consume_keys inp) (consume_argv inp) 3 0 ?G"
    using packed_append[of "[]" ?G "map ls_key ?A @ map ls_key ?V @ ck" ?c] by (simp add: cd numeral_3_eq_3)
  show "packed (consume_keys inp) (consume_argv inp) (3 + nG * 2) nG ?A"
    using packed_append[of "map ls_key ?G" ?A "map ls_key ?V @ ck" "?c @ spec_argv ?G"]
    by (simp add: cd nG_def numeral_3_eq_3)
  show "packed (consume_keys inp) (consume_argv inp) (3 + nG * 2 + nA * 2) (nG + nA) ?V"
    using packed_append[of "map ls_key ?G @ map ls_key ?A" ?V ck "?c @ spec_argv ?G @ spec_argv ?A"]
    by (simp add: cd nG_def nA_def add.assoc numeral_3_eq_3)
qed

lemma cooldown_input:
  fixes inp :: consume_input
  defines "nG \<equiv> length (gateKeys inp)" and "nA \<equiv> length (abuserKeys inp)"
    and "nV \<equiv> length (victimKeys inp)"
  shows "cooldown inp =
    (if nG + nA + nV < length (consume_keys inp)
     then Some (consume_keys inp ! (nG + nA + nV), consume_argv inp ! (3 + nG * 2 + nA * 2 + nV * 2))
     else None)"
  unfolding consume_keys_def consume_argv_def nG_def nA_def nV_def
  by (cases "cooldown inp") (auto simp: nth_append)

lemma consume_argv_head:
  "consume_argv inp ! 0 = int (length (gateKeys inp))"
  "consume_argv inp ! 1 = int (length (abuserKeys inp))"
  "consume_argv inp ! 2 = int (length (victimKeys inp))"
  by (simp_all add: consume_argv_def)

lemma shim_take_packed: "packed ks argv i off ss \<Longrightarrow> shim_take ks argv i (length ss) off = ss"
  by (rule nth_equalityI) (auto simp: shim_take_def packed_def)

lemma shim_unpack_pack: "shim_unpack (consume_keys inp) (consume_argv inp) = inp"
  using packed_input[of inp] cooldown_input[of inp]
  unfolding shim_unpack_def Let_def consume_argv_head nat_int
  by (simp add: shim_take_packed)

subsection \<open>The script runs the specification\<close>

lemma lua_check_spec:
  assumes "packed ks argv base off ss" "\<forall>i\<in>set is. i < length ss"
  shows "lua_check now rs ks argv sc base off is =
    map_option (\<lambda>k. LuaBlocked (TTL now rs k) sc k) (spec_check now rs (map ((!) ss) is))"
  using assms by (induction "is") (auto simp: packed_def Let_def)

lemma lua_abuse_spec:
  assumes "packed ks argv base off ss" "\<forall>i\<in>set is. i < length ss"
  shows "lua_abuse now rs ks argv base off is =
    (case spec_abuse now rs (map ((!) ss) is) of
       (Some k, rs') \<Rightarrow> (Some (LuaBlocked (TTL now rs' k) Abuser k), rs')
     | (None, rs') \<Rightarrow> (None, rs'))"
  using assms(2)
proof (induction "is" arbitrary: rs)
  case Nil
  then show ?case by simp
next
  case (Cons i "is")
  have "ks ! (off + i) = ls_key (ss ! i)" "argv ! (base + i * 2) = ls_limit (ss ! i)"
    "argv ! Suc (base + i * 2) = ls_windowSec (ss ! i)"
    using assms(1) Cons.prems by (simp_all add: packed_def)
  then show ?case using Cons by (simp add: Let_def)
qed

lemma lua_count_spec:
  assumes "packed ks argv base off ss" "\<forall>i\<in>set is. i < length ss"
  shows "lua_count now rs ks argv base off is = spec_count now rs (map ((!) ss) is)"
  using assms(2)
proof (induction "is" arbitrary: rs)
  case Nil
  then show ?case by simp
next
  case (Cons i "is")
  have "ks ! (off + i) = ls_key (ss ! i)" "argv ! Suc (base + i * 2) = ls_windowSec (ss ! i)"
    using assms(1) Cons.prems by (simp_all add: packed_def)
  then show ?case using Cons by simp
qed

lemma lua_all_spec:
  assumes "packed ks argv base off ss"
  shows "lua_check now rs ks argv sc base off [0..<length ss] =
      map_option (\<lambda>k. LuaBlocked (TTL now rs k) sc k) (spec_check now rs ss)"
    and "lua_abuse now rs ks argv base off [0..<length ss] =
      (case spec_abuse now rs ss of
         (Some k, rs') \<Rightarrow> (Some (LuaBlocked (TTL now rs' k) Abuser k), rs')
       | (None, rs') \<Rightarrow> (None, rs'))"
    and "lua_count now rs ks argv base off [0..<length ss] = spec_count now rs ss"
  using lua_check_spec[OF assms, of "[0..<length ss]"] lua_abuse_spec[OF assms, of "[0..<length ss]"]
    lua_count_spec[OF assms, of "[0..<length ss]"]
  by (simp_all add: map_nth)

lemma consume_eq_spec: "consume now rs inp = consume_spec now rs inp"
proof -
  define nG nA nV where "nG = length (gateKeys inp)" and "nA = length (abuserKeys inp)"
    and "nV = length (victimKeys inp)"
  let ?ks = "consume_keys inp" and ?av = "consume_argv inp"
  note p = packed_input[of inp, folded nG_def nA_def nV_def]
  note G = lua_all_spec[OF p(1), folded nG_def] and A = lua_all_spec[OF p(2), folded nA_def]
    and V = lua_all_spec[OF p(3), folded nV_def]
  note hd = consume_argv_head[of inp, folded nG_def nA_def nV_def]
  note cd = cooldown_input[of inp, folded nG_def nA_def nV_def]
  have acq: "acquire_cooldown now rs1 (cooldown inp) =
      (if nG + nA + nV < length ?ks
       then SET_NX now (?ks ! (nG + nA + nV)) (?av ! (3 + nG * 2 + nA * 2 + nV * 2)) rs1 else Some rs1)"
    for rs1
    using cd by (auto simp: acquire_cooldown_def)
  have key: "fst (the (cooldown inp)) = ?ks ! (nG + nA + nV)" if "acquire_cooldown now rs1 (cooldown inp) = None"
    for rs1
    using that cd by (auto simp: acquire_cooldown_def split: if_splits)
  show ?thesis
    unfolding consume_def consume_spec_def consume_lua_def Let_def hd nat_int G A V acq[symmetric] blocked_def
    by (auto split: option.splits prod.splits dest!: key)
qed

section \<open>Effect on the counters\<close>

lemma get_number_INCR:
  "get_number now (INCR now k rs) j = (if j = k then get_number now rs k + 1 else get_number now rs j)"
  by (simp add: get_number_def redis_simps)

lemma count_of_incr_window [redis_simps]:
  "0 < w \<Longrightarrow> count_of now (incr_window now k w rs) = (count_of now rs)(k \<mapsto> get_number now rs k + 1)"
  by (auto simp: incr_window_def Let_def redis_simps)

lemma get_number_incr_window [redis_simps]:
  "0 < w \<Longrightarrow> get_number now (incr_window now k w rs) j =
     (if j = k then get_number now rs k + 1 else get_number now rs j)"
  by (simp add: get_number_def redis_simps)

lemma incr_window_frame: "j \<noteq> k \<Longrightarrow> counters (incr_window now k w rs) j = counters rs j"
  by (simp add: incr_window_def Let_def counters_frame)

lemma spec_abuse_frame:
  "spec_abuse now rs ss = (r, rs') \<Longrightarrow> j \<notin> ls_key ` set ss \<Longrightarrow> counters rs' j = counters rs j"
  by (induction ss arbitrary: rs) (auto simp: Let_def incr_window_frame split: if_splits)

lemma get_number_frame: "counters rs' j = counters rs j \<Longrightarrow> get_number now rs' j = get_number now rs j"
  by (simp add: get_number_def count_of_def lookup_live_def)

lemma acquire_cooldown_frame:
  "acquire_cooldown now rs cd = Some rs' \<Longrightarrow> j \<notin> fst ` set_option cd \<Longrightarrow> counters rs' j = counters rs j"
  by (auto simp: acquire_cooldown_def SET_NX_def split: option.splits if_splits)

definition pos_windows :: "limit_spec list \<Rightarrow> bool" where
  "pos_windows ss \<longleftrightarrow> list_all (\<lambda>s. 0 < ls_windowSec s) ss"

lemma get_number_spec_count:
  "pos_windows ss \<Longrightarrow> get_number now (spec_count now rs ss) k =
     get_number now rs k + int (count_list (map ls_key ss) k)"
  by (induction ss arbitrary: rs) (auto simp: redis_simps pos_windows_def)

lemma spec_check_None: "spec_check now rs ss = None \<Longrightarrow> s \<in> set ss \<Longrightarrow> get_number now rs (ls_key s) < ls_limit s"
  by (induction ss) (auto split: if_splits)

definition pos_input :: "consume_input \<Rightarrow> bool" where
  "pos_input inp \<longleftrightarrow> pos_windows (gateKeys inp) \<and> pos_windows (abuserKeys inp) \<and>
     pos_windows (victimKeys inp) \<and> (\<forall>k ttl. cooldown inp = Some (k, ttl) \<longrightarrow> 0 < ttl)"

section \<open>The mirror agrees with the script\<close>

lemma shim_number_count: "shim_number (count_of now rs) k = get_number now rs k"
  by (simp add: shim_number_def get_number_def)

lemma shim_check_spec: "shim_check (count_of now rs) ss = spec_check now rs ss"
  by (induction ss) (auto simp: shim_number_count)

lemma shim_abuse_spec:
  "pos_windows ss \<Longrightarrow> shim_abuse (count_of now rs) ss =
     (case spec_abuse now rs ss of (r, rs') \<Rightarrow> (r, count_of now rs'))"
proof (induction ss arbitrary: rs)
  case Nil
  then show ?case by simp
next
  case (Cons s ss)
  then have w: "0 < ls_windowSec s" and ss: "pos_windows ss" by (simp_all add: pos_windows_def)
  have step: "(count_of now rs)(ls_key s \<mapsto> get_number now rs (ls_key s) + 1) =
      count_of now (incr_window now (ls_key s) (ls_windowSec s) rs)"
    by (simp add: redis_simps w)
  show ?case
    using Cons.IH[OF ss] by (simp add: Let_def shim_number_count get_number_incr_window w step)
qed

lemma shim_count_spec:
  "pos_windows ss \<Longrightarrow> shim_count (count_of now rs) ss = count_of now (spec_count now rs ss)"
proof (induction ss arbitrary: rs)
  case Nil
  then show ?case by simp
next
  case (Cons s ss)
  then have w: "0 < ls_windowSec s" and ss: "pos_windows ss" by (simp_all add: pos_windows_def)
  have "(count_of now rs)(ls_key s \<mapsto> get_number now rs (ls_key s) + 1) =
      count_of now (incr_window now (ls_key s) (ls_windowSec s) rs)"
    by (simp add: redis_simps w)
  then show ?case using Cons.IH[OF ss] by (simp add: shim_number_count)
qed

lemma SET_NX_fresh: "SET_NX now k ttl rs = Some rs' \<Longrightarrow> count_of now rs k = None"
  by (simp add: SET_NX_def split: if_splits)

lemma shim_cooldown_spec:
  assumes "SET_NX now k ttl rs = Some rs'" "0 < ttl"
  shows "(count_of now rs)(k \<mapsto> 1) = count_of now rs'"
  using count_of_SET_NX[OF assms] by auto

lemma shim_eq_consume:
  assumes pos: "pos_input inp" and ttl: "ttlOf = TTL now (snd (consume now rs inp))"
  shows "luaConsumeShim (count_of now rs) inp ttlOf =
    (fst (consume now rs inp), count_of now (snd (consume now rs inp)))"
proof -
  have w: "pos_windows (gateKeys inp)" "pos_windows (abuserKeys inp)" "pos_windows (victimKeys inp)"
    "\<And>k t. cooldown inp = Some (k, t) \<Longrightarrow> 0 < t"
    using pos by (simp_all add: pos_input_def)
  show ?thesis
    using ttl w unfolding consume_eq_spec consume_spec_def luaConsumeShim_def
    by (auto simp: shim_check_spec shim_abuse_spec shim_count_spec blocked_def shim_blocked_def
        acquire_cooldown_def SET_NX_None shim_cooldown_spec
        split: option.splits prod.splits dest: SET_NX_fresh)
qed

section \<open>Quotas\<close>

lemma consume_Blocked_frame:
  assumes "consume now rs inp = (Blocked sc k r, rs')" "j \<notin> ls_key ` set (abuserKeys inp)"
  shows "counters rs' j = counters rs j"
  using assms unfolding consume_eq_spec consume_spec_def
  by (auto simp: blocked_def split: option.splits prod.splits dest: spec_abuse_frame)

lemma consume_Allowed:
  assumes "consume now rs inp = (Allowed, rs')"
  obtains rs1 rs2 where "spec_check now rs (gateKeys inp) = None"
    "spec_abuse now rs (abuserKeys inp) = (None, rs1)" "spec_check now rs1 (victimKeys inp) = None"
    "acquire_cooldown now rs1 (cooldown inp) = Some rs2"
    "rs' = spec_count now (spec_count now rs2 (gateKeys inp)) (victimKeys inp)"
  using assms that unfolding consume_eq_spec consume_spec_def
  by (auto simp: blocked_def split: option.splits prod.splits)

text \<open>A quota table gives the limit of some gate and victim keys. An input obeys it when it names
  each quota key at most once, with its limit, and uses none as an abuser or cooldown key.\<close>

definition obeys_quota :: "(key \<rightharpoonup> int) \<Rightarrow> consume_input \<Rightarrow> bool" where
  "obeys_quota caps inp \<longleftrightarrow> pos_input inp \<and>
     list_all (\<lambda>s. caps (ls_key s) = None \<or> caps (ls_key s) = Some (ls_limit s))
       (gateKeys inp @ victimKeys inp) \<and>
     (\<forall>k\<in>dom caps. count_list (map ls_key (gateKeys inp @ victimKeys inp)) k \<le> 1) \<and>
     list_all (\<lambda>s. caps (ls_key s) = None) (abuserKeys inp) \<and>
     (\<forall>k ttl. cooldown inp = Some (k, ttl) \<longrightarrow> caps k = None)"

definition within :: "(key \<rightharpoonup> int) \<Rightarrow> time \<Rightarrow> redis \<Rightarrow> bool" where
  "within caps now rs \<longleftrightarrow> (\<forall>k L. caps k = Some L \<longrightarrow> 0 \<le> get_number now rs k \<and> get_number now rs k \<le> L)"

lemma consume_within:
  assumes resp: "obeys_quota caps inp" and win: "within caps now rs"
  shows "within caps now (snd (consume now rs inp))"
proof -
  obtain v rs' where c: "consume now rs inp = (v, rs')" by fastforce
  have frame: "j \<notin> ls_key ` set (abuserKeys inp)" if "caps j = Some L" for j L
    using resp that by (auto simp: obeys_quota_def list_all_iff)
  show ?thesis
  proof (cases v)
    case (Blocked sc k r)
    have "get_number now rs' j = get_number now rs j" if "caps j = Some L" for j L
      by (rule get_number_frame[OF consume_Blocked_frame[OF c[unfolded Blocked] frame[OF that]]])
    then show ?thesis using win by (simp add: c within_def)
  next
    case Allowed
    obtain rs1 rs2 where a: "spec_check now rs (gateKeys inp) = None"
      "spec_abuse now rs (abuserKeys inp) = (None, rs1)" "spec_check now rs1 (victimKeys inp) = None"
      "acquire_cooldown now rs1 (cooldown inp) = Some rs2"
      "rs' = spec_count now (spec_count now rs2 (gateKeys inp)) (victimKeys inp)"
      by (rule consume_Allowed[OF c[unfolded Allowed]])
    have pos: "pos_windows (gateKeys inp)" "pos_windows (victimKeys inp)"
      using resp by (simp_all add: obeys_quota_def pos_input_def)
    show ?thesis unfolding c snd_conv within_def
    proof (intro allI impI)
      fix k L assume k: "caps k = Some L"
      have f1: "get_number now rs1 k = get_number now rs k"
        by (rule get_number_frame[OF spec_abuse_frame[OF a(2) frame[OF k]]])
      have "k \<notin> fst ` set_option (cooldown inp)"
        using resp k by (auto simp: obeys_quota_def)
      from acquire_cooldown_frame[OF a(4) this]
      have f2: "get_number now rs2 k = get_number now rs1 k" by (rule get_number_frame)
      let ?ks = "map ls_key (gateKeys inp @ victimKeys inp)"
      have n: "get_number now rs' k = get_number now rs k + int (count_list ?ks k)"
        by (simp add: a(5) get_number_spec_count pos f1 f2 count_list_append)
      have "count_list ?ks k \<le> 1"
        using resp k by (auto simp: obeys_quota_def)
      then have cl: "count_list ?ks k = (if k \<in> set ?ks then 1 else 0)"
        using count_list_0_iff[of ?ks k] by (cases "k \<in> set ?ks") auto
      have "get_number now rs k < L" if kin: "k \<in> set ?ks"
      proof -
        obtain s where s: "s \<in> set (gateKeys inp @ victimKeys inp)" "ls_key s = k" using kin by auto
        have "list_all (\<lambda>s. caps (ls_key s) = None \<or> caps (ls_key s) = Some (ls_limit s))
            (gateKeys inp @ victimKeys inp)"
          using resp by (simp only: obeys_quota_def)
        from bspec[OF this[unfolded list_all_iff] s(1)]
        have "ls_limit s = L" using k s(2) by simp
        then show ?thesis
          using s spec_check_None[OF a(1), of s] spec_check_None[OF a(3), of s] f1 by auto
      qed
      moreover have "0 \<le> get_number now rs k \<and> get_number now rs k \<le> L"
        using win k by (simp add: within_def)
      ultimately show "0 \<le> get_number now rs' k \<and> get_number now rs' k \<le> L"
        unfolding n cl by (cases "k \<in> set ?ks") simp_all
    qed
  qed
qed

lemma within_later:
  assumes "within caps now rs" "now \<le> later"
  shows "within caps later rs"
  unfolding within_def
proof (intro allI impI)
  fix k L assume "caps k = Some L"
  then have b: "0 \<le> get_number now rs k" "get_number now rs k \<le> L"
    using assms(1) by (simp_all add: within_def)
  then have "get_number later rs k \<le> get_number now rs k"
    using get_number_later[OF assms(2)] by simp
  moreover have "0 \<le> get_number later rs k"
    using count_of_later[OF assms(2), of rs k] b(1) by (auto simp: get_number_def)
  ultimately show "0 \<le> get_number later rs k \<and> get_number later rs k \<le> L"
    using b by simp
qed

text \<open>A history of attempts, each at its instant.\<close>

fun run_consumes :: "redis \<Rightarrow> (time \<times> consume_input) list \<Rightarrow> redis" where
  "run_consumes rs [] = rs"
| "run_consumes rs ((now, inp) # h) = run_consumes (snd (consume now rs inp)) h"

lemma run_consumes_within:
  assumes "within caps t0 rs" "sorted (t0 # map fst h)" "\<forall>(t, inp)\<in>set h. obeys_quota caps inp"
    "\<forall>t\<in>set (map fst h). t \<le> t1" "t0 \<le> t1"
  shows "within caps t1 (run_consumes rs h)"
  using assms
proof (induction h arbitrary: rs t0)
  case Nil
  then show ?case using within_later by simp
next
  case (Cons p h)
  obtain now inp where p: "p = (now, inp)" by fastforce
  have "within caps now rs" using Cons.prems(1,2) within_later by (auto simp: p)
  then have "within caps now (snd (consume now rs inp))"
    using Cons.prems(3) by (intro consume_within) (auto simp: p)
  then show ?case using Cons.prems by (simp add: p Cons.IH[of now])
qed

section \<open>Properties\<close>

text \<open>C20: the in-memory mirror used by the tests behaves as the Lua script run by \<open>consume\<close>: on a
  store with the same live counters it returns the same result (the same verdict, blocking scope and
  key, and \<open>retryAfter\<close> when it reads the same times to live) and leaves the same
  counters, for every input with positive windows.\<close>

theorem shim_agrees_with_lua:
  assumes "pos_input inp" and "ttlOf = TTL now (snd (consume now rs inp))"
  shows "luaConsumeShim (count_of now rs) inp ttlOf =
    (fst (consume now rs inp), count_of now (snd (consume now rs inp)))"
  using assms by (rule shim_eq_consume)

definition sample_input :: consume_input where
  "sample_input = \<lparr>gateKeys = [\<lparr>ls_key = ''g'', ls_limit = 1, ls_windowSec = 60\<rparr>],
     abuserKeys = [\<lparr>ls_key = ''a'', ls_limit = 5, ls_windowSec = 60\<rparr>],
     victimKeys = [\<lparr>ls_key = ''v'', ls_limit = 2, ls_windowSec = 60\<rparr>],
     cooldown = Some (''c'', 10)\<rparr>"

theorem shim_agrees_with_lua_witness:
  "fst (consume 0 empty_redis sample_input) = Allowed \<and>
   luaConsumeShim (count_of 0 empty_redis) sample_input
       (TTL 0 (snd (consume 0 empty_redis sample_input))) =
     (Allowed, count_of 0 (snd (consume 0 empty_redis sample_input)))"
proof -
  have "pos_input sample_input" by (simp add: pos_input_def sample_input_def pos_windows_def)
  from shim_agrees_with_lua[OF this refl, of 0 empty_redis]
  have e: "luaConsumeShim (count_of 0 empty_redis) sample_input
       (TTL 0 (snd (consume 0 empty_redis sample_input))) =
     (fst (consume 0 empty_redis sample_input), count_of 0 (snd (consume 0 empty_redis sample_input)))" .
  have "fst (consume 0 empty_redis sample_input) = Allowed" by code_simp
  with e show ?thesis by simp
qed

text \<open>The wire adapter of the mirror reads back exactly the input that \<open>consume\<close> packed into
  \<open>KEYS\<close> and \<open>ARGV\<close>: unpacking is the inverse of packing, for any number of keys of each
  class and with or without a cooldown.\<close>

theorem limiter_pack_roundtrip: "shim_unpack (consume_keys inp) (consume_argv inp) = inp"
  by (rule shim_unpack_pack)

text \<open>C21: gate and victim counters never overshoot: whatever the history of attempts (interleaved
  from any number of callers, since each runs atomically), if every attempt names
  the keys of a quota table once and with their limits then at every later instant each quota counter is between 0 and
  its limit.\<close>

theorem limiter_never_overshoots:
  assumes "within caps t0 rs" and "sorted (t0 # map fst h)"
    and "\<forall>(t, inp)\<in>set h. obeys_quota caps inp" and "\<forall>t\<in>set (map fst h). t \<le> t1" and "t0 \<le> t1"
  shows "within caps t1 (run_consumes rs h)"
  using assms by (rule run_consumes_within)

theorem limiter_never_overshoots_witness:
  "within [''g'' \<mapsto> 1, ''v'' \<mapsto> 2] 30000
     (run_consumes empty_redis [(0, sample_input), (1000, sample_input), (20000, sample_input)])"
proof -
  have "obeys_quota [''g'' \<mapsto> 1, ''v'' \<mapsto> 2] sample_input"
    by (simp add: obeys_quota_def pos_input_def sample_input_def pos_windows_def)
  then show ?thesis
    by (intro limiter_never_overshoots[where ?t0.0 = 0])
      (auto simp: within_def empty_redis_def get_number_def count_of_def lookup_live_def)
qed

text \<open>A refused attempt burns nobody's quota: when \<open>consume\<close> blocks, in whatever scope, every
  counter but the requester's own abuser keys is exactly as before, expiry included, and no cooldown
  is taken.\<close>

theorem blocked_attempt_keeps_quotas:
  assumes "consume now rs inp = (Blocked sc k retryAfter, rs')" and "j \<notin> ls_key ` set (abuserKeys inp)"
  shows "counters rs' j = counters rs j"
  using assms by (rule consume_Blocked_frame)

theorem blocked_attempt_keeps_quotas_witness:
  "\<exists>sc k r rs'. consume 1000 (snd (consume 0 empty_redis sample_input)) sample_input = (Blocked sc k r, rs') \<and>
     counters rs' ''v'' = counters (snd (consume 0 empty_redis sample_input)) ''v''"
proof -
  have "fst (consume 1000 (snd (consume 0 empty_redis sample_input)) sample_input) = Blocked Gate ''g'' 59"
    by code_simp
  then obtain rs' where
    "consume 1000 (snd (consume 0 empty_redis sample_input)) sample_input = (Blocked Gate ''g'' 59, rs')"
    by (metis prod.collapse)
  from this blocked_attempt_keeps_quotas[OF this, of "''v''"] show ?thesis
    by (auto simp: sample_input_def)
qed

end
