(* ===== verification/Sms.thy ===== *)
theory Sms
  imports Limiter
begin

text \<open>
  \<open>src/api/shared/smsLimiter.ts\<close> and \<open>src/api/shared/countryCallingCodes.ts\<close>: what stands before
  every paid SMS: destination format, country allowlist, and one \<open>consume\<close> over a global cost cap
  (gate), per-IP counters (abuser), per-phone, per-user and per-branch quotas (victim) and a resend
  cooldown.

  Environment variables are the record \<open>sms_env\<close>; \<open>Number(process.env.SMS_GLOBAL_DAILY_CAP)\<close>
  is its value when finite (a whole number here), \<open>None\<close> otherwise. The digest of \<open>hashPhone\<close> (Node's
  SHA-256, in hex) is a parameter.
\<close>

section \<open>Destinations\<close>

definition ASSIGNED_CALLING_CODES :: "string list" where
  "ASSIGNED_CALLING_CODES =
    [''+1'',
     ''+20'', ''+211'', ''+212'', ''+213'', ''+216'', ''+218'', ''+220'', ''+221'', ''+222'', ''+223'',
     ''+224'', ''+225'', ''+226'', ''+227'', ''+228'', ''+229'', ''+230'', ''+231'', ''+232'', ''+233'',
     ''+234'', ''+235'', ''+236'', ''+237'', ''+238'', ''+239'', ''+240'', ''+241'', ''+242'', ''+243'',
     ''+244'', ''+245'', ''+246'', ''+247'', ''+248'', ''+249'', ''+250'', ''+251'', ''+252'', ''+253'',
     ''+254'', ''+255'', ''+256'', ''+257'', ''+258'', ''+260'', ''+261'', ''+262'', ''+263'', ''+264'',
     ''+265'', ''+266'', ''+267'', ''+268'', ''+269'', ''+27'', ''+290'', ''+291'', ''+297'', ''+298'',
     ''+299'',
     ''+30'', ''+31'', ''+32'', ''+33'', ''+34'', ''+350'', ''+351'', ''+352'', ''+353'', ''+354'',
     ''+355'', ''+356'', ''+357'', ''+358'', ''+359'', ''+36'', ''+370'', ''+371'', ''+372'', ''+373'',
     ''+374'', ''+375'', ''+376'', ''+377'', ''+378'', ''+379'', ''+380'', ''+381'', ''+382'', ''+383'',
     ''+385'', ''+386'', ''+387'', ''+389'', ''+39'',
     ''+40'', ''+41'', ''+420'', ''+421'', ''+423'', ''+43'', ''+44'', ''+45'', ''+46'', ''+47'', ''+48'',
     ''+49'',
     ''+500'', ''+501'', ''+502'', ''+503'', ''+504'', ''+505'', ''+506'', ''+507'', ''+508'', ''+509'',
     ''+51'', ''+52'', ''+53'', ''+54'', ''+55'', ''+56'', ''+57'', ''+58'', ''+590'', ''+591'', ''+592'',
     ''+593'', ''+594'', ''+595'', ''+596'', ''+597'', ''+598'', ''+599'',
     ''+60'', ''+61'', ''+62'', ''+63'', ''+64'', ''+65'', ''+66'', ''+670'', ''+672'', ''+673'', ''+674'',
     ''+675'', ''+676'', ''+677'', ''+678'', ''+679'', ''+680'', ''+681'', ''+682'', ''+683'', ''+685'',
     ''+686'', ''+687'', ''+688'', ''+689'', ''+690'', ''+691'', ''+692'',
     ''+7'',
     ''+81'', ''+82'', ''+84'', ''+850'', ''+852'', ''+853'', ''+855'', ''+856'', ''+86'', ''+880'',
     ''+886'',
     ''+90'', ''+91'', ''+92'', ''+93'', ''+94'', ''+95'', ''+960'', ''+961'', ''+962'', ''+963'',
     ''+964'', ''+965'', ''+966'', ''+967'', ''+968'', ''+970'', ''+971'', ''+972'', ''+973'', ''+974'',
     ''+975'', ''+976'', ''+977'', ''+98'', ''+992'', ''+993'', ''+994'', ''+995'', ''+996'', ''+998'']"

definition isAssignedCallingCode :: "string \<Rightarrow> bool" where
  "isAssignedCallingCode value \<longleftrightarrow> value \<in> set ASSIGNED_CALLING_CODES"

text \<open>\<open>String.prototype.split(',')\<close>\<close>

fun split_commas :: "string \<Rightarrow> string list" where
  "split_commas [] = [[]]"
| "split_commas (c # cs) =
     (if c = CHR '','' then [] # split_commas cs
      else (c # hd (split_commas cs)) # tl (split_commas cs))"

record sms_env =
  SMS_ALLOWED_COUNTRY_CODES :: "string option"
  SMS_GLOBAL_DAILY_CAP :: "int option"
  RATE_LIMIT_RELAX :: bool
  NODE_ENV_production :: bool

definition parseSmsCountryCodeConfig :: "sms_env \<Rightarrow> string list \<times> string list" where
  "parseSmsCountryCodeConfig env =
     (let raw = (case SMS_ALLOWED_COUNTRY_CODES env of None \<Rightarrow> '''' | Some s \<Rightarrow> s);
          entries = filter (\<lambda>s. 0 < length s) (map js_trim (split_commas raw))
      in (filter isAssignedCallingCode entries, filter (\<lambda>s. \<not> isAssignedCallingCode s) entries))"

definition allowedSmsCountryCodes :: "sms_env \<Rightarrow> string list" where
  "allowedSmsCountryCodes env =
     (let valid = fst (parseSmsCountryCodeConfig env)
      in if 0 < length valid then valid else [''+44''])"

fun startsWith :: "string \<Rightarrow> string \<Rightarrow> bool" where
  "startsWith s [] = True"
| "startsWith [] (c # cs) = False"
| "startsWith (d # s) (c # cs) = (d = c \<and> startsWith s cs)"

definition isAllowedSmsDestination :: "sms_env \<Rightarrow> string \<Rightarrow> bool" where
  "isAllowedSmsDestination env phone \<longleftrightarrow>
     list_ex (\<lambda>cc. startsWith phone cc) (allowedSmsCountryCodes env)"

text \<open>\<open>/^\+[1-9]\d{7,14}$/\<close>\<close>

definition digits09 :: string where "digits09 = ''0123456789''"

fun isE164Format :: "string \<Rightarrow> bool" where
  "isE164Format (p # d # ds) \<longleftrightarrow>
     p = CHR ''+'' \<and> d \<in> set (tl digits09) \<and> 7 \<le> length ds \<and> length ds \<le> 14 \<and>
     list_all (\<lambda>c. c \<in> set digits09) ds"
| "isE164Format s \<longleftrightarrow> False"

section \<open>Volume caps\<close>

type_synonym cap = "int \<times> int"   \<comment> \<open>limit and windowSec\<close>

record sms_caps =
  phoneHour :: cap
  phoneDay :: cap
  userHour :: cap
  userDay :: cap
  ipHour :: cap
  ipDay :: cap
  branchPinDay :: cap
  cooldownSec :: int

definition PROD_caps :: sms_caps where
  "PROD_caps = \<lparr>phoneHour = (3, 3600), phoneDay = (6, 86400), userHour = (5, 3600), userDay = (8, 86400),
     ipHour = (10, 3600), ipDay = (20, 86400), branchPinDay = (10, 86400), cooldownSec = 45\<rparr>"

definition DEV_caps :: sms_caps where
  "DEV_caps = \<lparr>phoneHour = (1000, 3600), phoneDay = (1000, 86400), userHour = (1000, 3600),
     userDay = (1000, 86400), ipHour = (1000, 3600), ipDay = (1000, 86400),
     branchPinDay = (1000, 86400), cooldownSec = 1\<rparr>"

definition RELAX :: "sms_env \<Rightarrow> bool" where
  "RELAX env \<longleftrightarrow> RATE_LIMIT_RELAX env \<and> \<not> NODE_ENV_production env"

definition caps :: "sms_env \<Rightarrow> sms_caps" where
  "caps env = (if RELAX env then DEV_caps else PROD_caps)"

definition globalDailyCap :: "sms_env \<Rightarrow> int" where
  "globalDailyCap env =
     (case SMS_GLOBAL_DAILY_CAP env of None \<Rightarrow> 500 | Some n \<Rightarrow> if 0 < n then n else 500)"

datatype sms_scope = Otp | BranchPin

record sms_context =
  sc_phone :: string
  sc_userId :: "ident option"
  sc_ip :: "string option"
  sc_scope :: sms_scope
  sc_branchId :: "ident option"

definition toSpec :: "key \<Rightarrow> cap \<Rightarrow> limit_spec" where
  "toSpec k c = \<lparr>ls_key = k, ls_limit = fst c, ls_windowSec = snd c\<rparr>"

text \<open>An optional identifier guards a tier when it is present and not the empty string.\<close>

definition truthy :: "string option \<Rightarrow> bool" where
  "truthy s \<longleftrightarrow> s \<noteq> None \<and> s \<noteq> Some ''''"

definition sms_input :: "(string \<Rightarrow> string) \<Rightarrow> sms_env \<Rightarrow> sms_context \<Rightarrow> consume_input" where
  "sms_input hashPhone env ctx =
     (let c = caps env; ph = hashPhone (sc_phone ctx)
      in \<lparr>gateKeys = [\<lparr>ls_key = ''rl:sms:global:day'', ls_limit = globalDailyCap env, ls_windowSec = 86400\<rparr>],
          abuserKeys =
            (if truthy (sc_ip ctx)
             then [toSpec (''rl:otp:ip:'' @ the (sc_ip ctx)) (ipHour c),
                   toSpec (''rl:otp:ip:day:'' @ the (sc_ip ctx)) (ipDay c)]
             else []),
          victimKeys =
            [toSpec (''rl:otp:'' @ ph) (phoneHour c), toSpec (''rl:otp:day:'' @ ph) (phoneDay c)] @
            (if sc_scope ctx = Otp \<and> truthy (sc_userId ctx)
             then [toSpec (''rl:otp:user:'' @ the (sc_userId ctx)) (userHour c),
                   toSpec (''rl:otp:user:day:'' @ the (sc_userId ctx)) (userDay c)]
             else []) @
            (if sc_scope ctx = BranchPin \<and> truthy (sc_branchId ctx)
             then [toSpec (''rl:sms:branchpin:day:'' @ the (sc_branchId ctx)) (branchPinDay c)]
             else []),
          cooldown = Some (''rl:otp:cooldown:'' @ ph, cooldownSec c)\<rparr>)"

definition consumeSmsSend ::
  "(string \<Rightarrow> string) \<Rightarrow> sms_env \<Rightarrow> time \<Rightarrow> redis \<Rightarrow> sms_context \<Rightarrow> unit result \<times> redis" where
  "consumeSmsSend hashPhone env now rs ctx =
     (if \<not> isE164Format (sc_phone ctx) then (throw SMS_DESTINATION_NOT_ALLOWED, rs)
      else if \<not> isAllowedSmsDestination env (sc_phone ctx) then (throw SMS_DESTINATION_NOT_ALLOWED, rs)
      else case consume now rs (sms_input hashPhone env ctx) of
        (Allowed, rs') \<Rightarrow> (returns (), rs')
      | (Blocked Cooldown _ retryAfter, rs') \<Rightarrow> (throw (OTP_RESEND_COOLDOWN retryAfter), rs')
      | (Blocked Gate _ retryAfter, rs') \<Rightarrow> (throw (SMS_GLOBAL_LIMIT retryAfter), rs')
      | (Blocked _ _ retryAfter, rs') \<Rightarrow> (throw (SMS_RATE_LIMITED retryAfter), rs'))"

section \<open>Lemmas\<close>

lemma startsWith_append: "startsWith s p \<longleftrightarrow> (\<exists>t. s = p @ t)"
  by (induction s p rule: startsWith.induct) auto

lemma allowed_codes_assigned: "cc \<in> set (allowedSmsCountryCodes env) \<Longrightarrow> isAssignedCallingCode cc"
proof -
  have "isAssignedCallingCode ''+44''"
    by (simp add: isAssignedCallingCode_def ASSIGNED_CALLING_CODES_def)
  then show "cc \<in> set (allowedSmsCountryCodes env) \<Longrightarrow> isAssignedCallingCode cc"
    by (auto simp: allowedSmsCountryCodes_def parseSmsCountryCodeConfig_def Let_def split: if_splits)
qed

lemma sms_limits_pos:
  "0 < snd (phoneHour (caps env))" "0 < snd (phoneDay (caps env))" "0 < snd (userHour (caps env))"
  "0 < snd (userDay (caps env))" "0 < snd (ipHour (caps env))" "0 < snd (ipDay (caps env))"
  "0 < snd (branchPinDay (caps env))" "0 < cooldownSec (caps env)"
  by (simp_all add: caps_def PROD_caps_def DEV_caps_def)

lemma pos_sms_input: "pos_input (sms_input hashPhone env ctx)"
  by (simp add: pos_input_def sms_input_def Let_def pos_windows_def toSpec_def sms_limits_pos)

lemma consumeSmsSend_state:
  "snd (consumeSmsSend hashPhone env now rs ctx) =
     (if isE164Format (sc_phone ctx) \<and> isAllowedSmsDestination env (sc_phone ctx)
      then snd (consume now rs (sms_input hashPhone env ctx)) else rs)"
  by (auto simp: consumeSmsSend_def split: prod.splits consume_result.splits scope.splits)

text \<open>A history of sends runs as a history of the attempts that reach the limiter.\<close>

fun run_sms :: "(string \<Rightarrow> string) \<Rightarrow> sms_env \<Rightarrow> redis \<Rightarrow> (time \<times> sms_context) list \<Rightarrow> redis" where
  "run_sms hashPhone env rs [] = rs"
| "run_sms hashPhone env rs ((now, ctx) # h) =
     run_sms hashPhone env (snd (consumeSmsSend hashPhone env now rs ctx)) h"

definition sms_attempts ::
  "(string \<Rightarrow> string) \<Rightarrow> sms_env \<Rightarrow> (time \<times> sms_context) list \<Rightarrow> (time \<times> consume_input) list" where
  "sms_attempts hashPhone env h =
     map (\<lambda>(t, ctx). (t, sms_input hashPhone env ctx))
       (filter (\<lambda>(t, ctx). isE164Format (sc_phone ctx) \<and> isAllowedSmsDestination env (sc_phone ctx)) h)"

lemma run_sms_consumes: "run_sms hashPhone env rs h = run_consumes rs (sms_attempts hashPhone env h)"
  by (induction hashPhone env rs h rule: run_sms.induct)
    (auto simp: sms_attempts_def consumeSmsSend_state)

lemma sms_attempts_times:
  "sorted (map fst h) \<Longrightarrow> sorted (map fst (sms_attempts hashPhone env h)) \<and>
     set (map fst (sms_attempts hashPhone env h)) \<subseteq> set (map fst h)"
  by (induction h) (auto simp: sms_attempts_def)

lemma run_sms_within:
  assumes "within quota t0 rs" "sorted (t0 # map fst h)" "\<forall>t\<in>set (map fst h). t \<le> t1" "t0 \<le> t1"
    and "\<And>ctx. obeys_quota quota (sms_input hashPhone env ctx)"
  shows "within quota t1 (run_sms hashPhone env rs h)"
  unfolding run_sms_consumes
proof (rule run_consumes_within[OF assms(1)])
  show "sorted (t0 # map fst (sms_attempts hashPhone env h))"
    "\<forall>t\<in>set (map fst (sms_attempts hashPhone env h)). t \<le> t1"
    using assms(2,3) sms_attempts_times[of h hashPhone env] by (auto dest!: subsetD)
  show "\<forall>(t, inp)\<in>set (sms_attempts hashPhone env h). obeys_quota quota inp"
    using assms(5) by (auto simp: sms_attempts_def)
qed (rule assms(4))

lemma sms_input_select:
  "gateKeys (sms_input hp env ctx) =
     [\<lparr>ls_key = ''rl:sms:global:day'', ls_limit = globalDailyCap env, ls_windowSec = 86400\<rparr>]"
  "abuserKeys (sms_input hp env ctx) =
     (if truthy (sc_ip ctx)
      then [toSpec (''rl:otp:ip:'' @ the (sc_ip ctx)) (ipHour (caps env)),
            toSpec (''rl:otp:ip:day:'' @ the (sc_ip ctx)) (ipDay (caps env))] else [])"
  "cooldown (sms_input hp env ctx) = Some (''rl:otp:cooldown:'' @ hp (sc_phone ctx), cooldownSec (caps env))"
  "victimKeys (sms_input hp env ctx) =
     [toSpec (''rl:otp:'' @ hp (sc_phone ctx)) (phoneHour (caps env)),
      toSpec (''rl:otp:day:'' @ hp (sc_phone ctx)) (phoneDay (caps env))] @
     (if sc_scope ctx = Otp \<and> truthy (sc_userId ctx)
      then [toSpec (''rl:otp:user:'' @ the (sc_userId ctx)) (userHour (caps env)),
            toSpec (''rl:otp:user:day:'' @ the (sc_userId ctx)) (userDay (caps env))] else []) @
     (if sc_scope ctx = BranchPin \<and> truthy (sc_branchId ctx)
      then [toSpec (''rl:sms:branchpin:day:'' @ the (sc_branchId ctx)) (branchPinDay (caps env))] else [])"
  by (simp_all add: sms_input_def Let_def)

lemma toSpec_select [simp]: "ls_key (toSpec k c) = k" "ls_limit (toSpec k c) = fst c"
  by (simp_all add: toSpec_def)

lemma sms_obeys_global:
  "obeys_quota [''rl:sms:global:day'' \<mapsto> globalDailyCap env] (sms_input hashPhone env ctx)"
  unfolding obeys_quota_def sms_input_select by (simp add: pos_sms_input)

text \<open>A hex digest holds no colon, so the hourly key of a phone is no other key of the limiter.\<close>

definition hex_digest :: "(string \<Rightarrow> string) \<Rightarrow> bool" where
  "hex_digest h \<longleftrightarrow> (\<forall>s. set (h s) \<subseteq> set ''0123456789abcdef'')"

lemma hex_digest_no_colon: "hex_digest h \<Longrightarrow> h s \<noteq> p @ CHR '':'' # q"
proof
  assume hex: "hex_digest h" and eq: "h s = p @ CHR '':'' # q"
  have "CHR '':'' \<in> set (h s)" using eq by simp
  then have "CHR '':'' \<in> set ''0123456789abcdef''" using hex unfolding hex_digest_def by blast
  then show False by simp
qed

lemma hex_digest_prefixes:
  assumes "hex_digest h"
  shows "h s \<noteq> ''day:'' @ q" "h s \<noteq> ''user:'' @ q" "h s \<noteq> ''user:day:'' @ q" "h s \<noteq> ''ip:'' @ q"
    "h s \<noteq> ''ip:day:'' @ q" "h s \<noteq> ''cooldown:'' @ q"
  using hex_digest_no_colon[OF assms, of s "''day''" q] hex_digest_no_colon[OF assms, of s "''user''" q]
    hex_digest_no_colon[OF assms, of s "''user''" "''day:'' @ q"]
    hex_digest_no_colon[OF assms, of s "''ip''" q] hex_digest_no_colon[OF assms, of s "''ip''" "''day:'' @ q"]
    hex_digest_no_colon[OF assms, of s "''cooldown''" q]
  by simp_all

lemma otp_phone_key:
  assumes "hex_digest h"
  shows "''rl:otp:'' @ h s \<noteq> ''rl:otp:day:'' @ q" "''rl:otp:'' @ h s \<noteq> ''rl:otp:user:'' @ q"
    "''rl:otp:'' @ h s \<noteq> ''rl:otp:user:day:'' @ q" "''rl:otp:'' @ h s \<noteq> ''rl:otp:ip:'' @ q"
    "''rl:otp:'' @ h s \<noteq> ''rl:otp:ip:day:'' @ q" "''rl:otp:'' @ h s \<noteq> ''rl:otp:cooldown:'' @ q"
    "''rl:otp:'' @ h s \<noteq> ''rl:sms:branchpin:day:'' @ q" "''rl:otp:'' @ h s \<noteq> ''rl:sms:global:day''"
  using hex_digest_prefixes[OF assms, of s q] by simp_all

lemma sms_obeys_phone:
  assumes "hex_digest hashPhone"
  shows "obeys_quota [''rl:otp:'' @ hashPhone phone \<mapsto> fst (phoneHour (caps env))]
    (sms_input hashPhone env ctx)"
proof -
  define K where "K = ''rl:otp:'' @ hashPhone phone"
  note ne = otp_phone_key[OF assms, of phone, folded K_def]
  show ?thesis
    unfolding obeys_quota_def sms_input_select K_def[symmetric]
    by (simp add: pos_sms_input ne ne[symmetric] del: append_Cons append_Nil)
qed

section \<open>Properties\<close>

text \<open>No SMS to an unlisted place: an admitted send goes to a well-formed E.164 number that starts with
  an assigned calling code of the allowlist (a misconfigured entry never widens it), and a number
  that fails this is refused without touching any counter.\<close>

theorem sms_destination_gate:
  "(isOk (fst (consumeSmsSend hashPhone env now rs ctx)) \<longrightarrow>
      isE164Format (sc_phone ctx) \<and>
      (\<exists>cc rest. sc_phone ctx = cc @ rest \<and> cc \<in> set (allowedSmsCountryCodes env) \<and> isAssignedCallingCode cc)) \<and>
   (\<not> (isE164Format (sc_phone ctx) \<and> isAllowedSmsDestination env (sc_phone ctx)) \<longrightarrow>
      consumeSmsSend hashPhone env now rs ctx = (Inl SMS_DESTINATION_NOT_ALLOWED, rs))"
proof -
  have "isAllowedSmsDestination env (sc_phone ctx) \<longleftrightarrow>
      (\<exists>cc rest. sc_phone ctx = cc @ rest \<and> cc \<in> set (allowedSmsCountryCodes env))"
    by (auto simp: isAllowedSmsDestination_def list_ex_iff startsWith_append)
  then show ?thesis using allowed_codes_assigned
    by (auto simp: consumeSmsSend_def)
qed

text \<open>A number of the default allowlist is admitted on a fresh store.\<close>

definition sample_env :: sms_env where
  "sample_env = \<lparr>SMS_ALLOWED_COUNTRY_CODES = None, SMS_GLOBAL_DAILY_CAP = Some 2, RATE_LIMIT_RELAX = False,
     NODE_ENV_production = True\<rparr>"

definition sample_ctx :: sms_context where
  "sample_ctx = \<lparr>sc_phone = ''+447700900123'', sc_userId = Some ''u'', sc_ip = Some ''1.2.3.4'', sc_scope = Otp,
     sc_branchId = None\<rparr>"

theorem sms_destination_gate_witness:
  "isOk (fst (consumeSmsSend id sample_env 0 empty_redis sample_ctx)) \<and> isE164Format ''+447700900123''"
proof -
  have "isOk (fst (consumeSmsSend id sample_env 0 empty_redis sample_ctx))" by code_simp
  then show ?thesis using sms_destination_gate[of id sample_env 0 empty_redis sample_ctx]
    by (simp add: sample_ctx_def)
qed

text \<open>The daily SMS cost cap holds: over any history of sends, from any callers and to any numbers, the
  global counter never passes the configured cap (500 when unset or not positive).\<close>

theorem sms_cost_cap_holds:
  assumes "within [''rl:sms:global:day'' \<mapsto> globalDailyCap env] t0 rs" and "sorted (t0 # map fst h)"
    and "\<forall>t\<in>set (map fst h). t \<le> t1" and "t0 \<le> t1"
  shows "get_number t1 (run_sms hashPhone env rs h) ''rl:sms:global:day'' \<le> globalDailyCap env"
  using run_sms_within[OF assms sms_obeys_global] by (simp add: within_def)

theorem sms_cost_cap_holds_witness:
  "get_number 9 (run_sms id sample_env empty_redis [(0, sample_ctx), (5, sample_ctx)]) ''rl:sms:global:day'' \<le> 2"
proof -
  have "within [''rl:sms:global:day'' \<mapsto> globalDailyCap sample_env] 0 empty_redis"
    by (simp add: within_def get_number_def count_of_def lookup_live_def empty_redis_def globalDailyCap_def
        sample_env_def)
  from sms_cost_cap_holds[OF this, of "[(0, sample_ctx), (5, sample_ctx)]" 9 id] show ?thesis
    by (simp add: globalDailyCap_def sample_env_def)
qed

text \<open>A phone cannot be flooded: over any history of sends the hourly counter of any one number never
  passes its cap, three in production, whatever other numbers, users and branches are served
  (the digest of \<open>hashPhone\<close> being in hex, its key is no other key of the limiter).\<close>

theorem sms_phone_quota_holds:
  assumes "hex_digest hashPhone"
    and "within [''rl:otp:'' @ hashPhone phone \<mapsto> fst (phoneHour (caps env))] t0 rs"
    and "sorted (t0 # map fst h)" and "\<forall>t\<in>set (map fst h). t \<le> t1" and "t0 \<le> t1"
    and "NODE_ENV_production env"
  shows "get_number t1 (run_sms hashPhone env rs h) (''rl:otp:'' @ hashPhone phone) \<le> 3"
  using run_sms_within[OF assms(2-5) sms_obeys_phone[OF assms(1)]] assms(6)
  by (simp add: within_def caps_def RELAX_def PROD_caps_def)

theorem sms_phone_quota_holds_witness:
  "get_number 9 (run_sms (\<lambda>s. ''0a'') sample_env empty_redis [(0, sample_ctx), (5, sample_ctx)]) ''rl:otp:0a'' \<le> 3"
proof -
  have hex: "hex_digest (\<lambda>s. ''0a'')" by (simp add: hex_digest_def)
  have "within [''rl:otp:'' @ (\<lambda>s. ''0a'') [] \<mapsto> fst (phoneHour (caps sample_env))] 0 empty_redis"
    by (simp add: within_def get_number_def count_of_def lookup_live_def empty_redis_def caps_def RELAX_def
        PROD_caps_def sample_env_def)
  from sms_phone_quota_holds[OF hex this, of "[(0, sample_ctx), (5, sample_ctx)]" 9] show ?thesis
    by (simp add: sample_env_def)
qed

end
