(* ===== verification/Store.thy ===== *)
theory Store
  imports London
begin

text \<open>
  The rows the program keeps in PostgreSQL (\<open>prisma/schema.prisma\<close>), with the columns the modelled
  code reads or writes, and the store \<open>db\<close> that holds them. Tables keyed by an
  identifier are maps; \<open>redemptions\<close>, \<open>screenshotEvents\<close>, \<open>auditLog\<close> and \<open>notifications\<close> are lists in
  insertion order. The unique constraints of \<open>VoucherRedemption\<close> are checked by \<open>create_row\<close>; a
  foreign key that points nowhere cannot occur in the database and reads as an absent row.

  Money (\<open>Decimal(10,2)\<close>) is an integer number of pence.
\<close>

section \<open>Enumerations\<close>

datatype voucher_type =
  BOGO | SPEND_AND_SAVE | DISCOUNT_FIXED | DISCOUNT_PERCENT | FREEBIE | PACKAGE_DEAL | TIME_LIMITED | REUSABLE

datatype voucher_status = V_DRAFT | V_PENDING_APPROVAL | V_ACTIVE | V_INACTIVE | V_EXPIRED

datatype approval_status = A_PENDING | A_APPROVED | A_REJECTED | A_CHANGES_REQUESTED | A_WITHDRAWN

datatype merchant_status =
  M_REGISTERED | M_PENDING_APPROVAL | M_ACTIVE | M_INACTIVE | M_SUSPENDED | M_DELETED

datatype branch_lifecycle = PENDING_CREATE | LIVE | PENDING_CLOSE | CLOSED

datatype subscription_status = TRIALLING | S_ACTIVE | CANCELLED | EXPIRED | PAST_DUE

datatype validation_method = QR_SCAN | MANUAL

datatype merchant_role = OWNER | BRANCH_MANAGER | STAFF

section \<open>Rows\<close>

record merchant =
  m_status :: merchant_status
  m_businessName :: string

record voucher =
  v_merchantId :: ident
  v_type :: voucher_type
  v_title :: string
  v_estimatedSaving :: int
  v_expiryDate :: "time option"
  v_cooldownSeconds :: "int option"
  v_status :: voucher_status
  v_approvalStatus :: approval_status
  v_availabilityWindows :: "availability_window list"

record branch =
  b_merchantId :: ident
  b_name :: string
  b_redemptionPin :: "string option"
  b_isActive :: bool
  b_redemptionAlertsEnabled :: bool
  b_lifecycleStatus :: branch_lifecycle

record subscription =
  s_planId :: ident
  s_stripeSubscriptionId :: "ident option"
  s_stripeCustomerId :: "ident option"
  s_status :: subscription_status
  s_currentPeriodStart :: time
  s_currentPeriodEnd :: time
  s_cancelledAt :: "time option"
  s_cancelAtPeriodEnd :: bool
  s_promoCodeId :: "ident option"
  s_cycleAnchorDate :: time

record user =
  u_phoneVerified :: bool
  u_firstName :: "string option"
  u_lastName :: "string option"

record cycle_state =
  cycleStartDate :: time
  isRedeemedInCurrentCycle :: bool
  lastRedeemedAt :: "time option"

record redemption =
  r_id :: ident
  r_userId :: ident
  r_voucherId :: ident
  r_branchId :: ident
  r_redemptionCode :: string
  r_validatedById :: "ident option"
  r_validationMethod :: "validation_method option"
  r_isValidated :: bool
  r_validatedAt :: "time option"
  r_estimatedSaving :: int
  r_redeemedAt :: time
  r_windowStartsAt :: "time option"

record membership =
  mm_id :: ident
  mm_merchantId :: ident
  mm_merchantAdminId :: ident
  mm_active :: bool   \<comment> \<open>\<open>status = 'ACTIVE'\<close>\<close>
  mm_role :: merchant_role
  mm_allBranches :: bool
  mm_canManageVouchers :: bool
  mm_branches :: "ident list"

text \<open>The body of a notification is a template over the last three fields.\<close>

record notification =
  n_recipientId :: ident
  n_type :: string
  n_title :: string
  n_referenceType :: string
  n_referenceId :: ident
  n_voucherTitle :: string
  n_branchName :: string
  n_validatedAt :: time

record db =
  merchants :: "ident \<rightharpoonup> merchant"
  vouchers :: "ident \<rightharpoonup> voucher"
  branches :: "ident \<rightharpoonup> branch"
  subscriptions :: "ident \<rightharpoonup> subscription"   \<comment> \<open>keyed by \<open>userId\<close>, which is unique\<close>
  users :: "ident \<rightharpoonup> user"
  cycleStates :: "ident \<times> ident \<rightharpoonup> cycle_state"   \<comment> \<open>unique on \<open>(userId, voucherId)\<close>\<close>
  redemptions :: "redemption list"
  memberships :: "membership list"
  screenshotEvents :: "(ident \<times> ident) list"   \<comment> \<open>\<open>userId\<close> and \<open>redemptionId\<close>\<close>
  auditLog :: "(ident \<times> string \<times> string) list"   \<comment> \<open>entity, event, redemption code\<close>
  notifications :: "notification list"

text \<open>The review queue.\<close>

datatype approval_type =
    MERCHANT_ONBOARDING | VOUCHER | MERCHANT_PROFILE_EDIT | MERCHANT_IDENTITY_EDIT | BRANCH_IDENTITY_EDIT
  | BRANCH_CREATE | BRANCH_CLOSE | VOUCHER_EDIT

record approval =
  ap_id :: ident
  ap_type :: approval_type
  ap_status :: approval_status
  ap_referenceId :: ident
  ap_comment :: string
  ap_claimedById :: "ident option"
  ap_claimedAt :: "time option"
  ap_adminUserId :: "ident option"
  ap_actionedAt :: "time option"
  ap_lastStaleAlertAt :: "time option"

section \<open>Operations on redemption rows\<close>

text \<open>The unique constraints a write can violate (\<open>err.meta.target\<close> of Prisma's P2002).\<close>

datatype unique_target = T_redemptionCode | T_windowStartsAt | T_cycleState

text \<open>PostgreSQL treats nulls as distinct, so only a row with \<open>windowStartsAt\<close> set can clash on it.\<close>

definition same_window :: "redemption \<Rightarrow> redemption \<Rightarrow> bool" where
  "same_window r r' \<longleftrightarrow> r_userId r = r_userId r' \<and> r_voucherId r = r_voucherId r' \<and>
     r_windowStartsAt r \<noteq> None \<and> r_windowStartsAt r = r_windowStartsAt r'"

definition create_row :: "redemption \<Rightarrow> db \<Rightarrow> unique_target + db" where
  "create_row row d =
     (if list_ex (\<lambda>r. r_redemptionCode r = r_redemptionCode row) (redemptions d) then Inl T_redemptionCode
      else if list_ex (same_window row) (redemptions d) then Inl T_windowStartsAt
      else Inr (d\<lparr>redemptions := redemptions d @ [row]\<rparr>))"

definition rows_of :: "ident \<Rightarrow> ident \<Rightarrow> db \<Rightarrow> redemption list" where
  "rows_of u v d = filter (\<lambda>r. r_userId r = u \<and> r_voucherId r = v) (redemptions d)"

text \<open>\<open>findFirst\<close> ordered by \<open>redeemedAt\<close> descending.\<close>

definition latest_redeemedAt :: "ident \<Rightarrow> ident \<Rightarrow> db \<Rightarrow> time option" where
  "latest_redeemedAt u v d =
     (case map r_redeemedAt (rows_of u v d) of [] \<Rightarrow> None | t # ts \<Rightarrow> Some (fold max ts t))"

definition find_by_code :: "string \<Rightarrow> db \<Rightarrow> redemption option" where
  "find_by_code code d = List.find (\<lambda>r. r_redemptionCode r = code) (redemptions d)"

definition find_by_id :: "ident \<Rightarrow> db \<Rightarrow> redemption option" where
  "find_by_id i d = List.find (\<lambda>r. r_id r = i) (redemptions d)"

section \<open>Laws\<close>

named_theorems store_simps "effect of a write on what a later read returns"

lemma create_row_Inr:
  "create_row row d = Inr d' \<Longrightarrow> d' = d\<lparr>redemptions := redemptions d @ [row]\<rparr>"
  by (simp add: create_row_def split: if_splits)

lemma create_row_fresh:
  assumes "create_row row d = Inr d'" "r \<in> set (redemptions d)"
  shows "r_redemptionCode r \<noteq> r_redemptionCode row" "\<not> same_window row r"
  using assms by (auto simp: create_row_def list_ex_iff split: if_splits)

lemma rows_of_append [store_simps]:
  "rows_of u v (d\<lparr>redemptions := redemptions d @ [row]\<rparr>) =
     rows_of u v d @ (if r_userId row = u \<and> r_voucherId row = v then [row] else [])"
  by (simp add: rows_of_def)

lemma rows_of_cycleStates [store_simps]: "rows_of u v (d\<lparr>cycleStates := m\<rparr>) = rows_of u v d"
  by (simp add: rows_of_def)

lemma rows_of_create:
  "create_row row d = Inr d' \<Longrightarrow> rows_of u v d' =
     rows_of u v d @ (if r_userId row = u \<and> r_voucherId row = v then [row] else [])"
  by (drule create_row_Inr) (simp add: rows_of_append)

lemma fold_max_ge: "t \<le> fold max ts (t::int) \<and> (\<forall>x\<in>set ts. x \<le> fold max ts t)"
  by (induction ts arbitrary: t) (auto, (meson max.bounded_iff)+)

lemma latest_None: "latest_redeemedAt u v d = None \<longleftrightarrow> rows_of u v d = []"
  by (cases "rows_of u v d") (simp_all add: latest_redeemedAt_def)

lemma latest_Some:
  assumes "latest_redeemedAt u v d = Some t" "r \<in> set (rows_of u v d)"
  shows "r_redeemedAt r \<le> t"
proof -
  obtain a ts where a: "map r_redeemedAt (rows_of u v d) = a # ts" "t = fold max ts a"
    using assms(1) by (auto simp: latest_redeemedAt_def split: list.splits)
  have "r_redeemedAt r \<in> set (a # ts)" using assms(2) a(1)[symmetric] by simp
  then show ?thesis using fold_max_ge[of a ts] a(2) by auto
qed

text \<open>Codes are unique, so a lookup by code after an insert finds the new row and keeps the others.\<close>

definition codes_unique :: "db \<Rightarrow> bool" where
  "codes_unique d \<longleftrightarrow> distinct (map r_redemptionCode (redemptions d))"

lemma create_row_codes_unique [inv_intros]:
  "create_row row d = Inr d' \<Longrightarrow> codes_unique d \<Longrightarrow> codes_unique d'"
  by (auto simp: create_row_def codes_unique_def list_ex_iff split: if_splits) metis

lemma find_append: "List.find P (xs @ ys) = (case List.find P xs of None \<Rightarrow> List.find P ys | Some x \<Rightarrow> Some x)"
  by (induction xs) auto

lemma find_by_code_create:
  assumes "create_row row d = Inr d'"
  shows "find_by_code c d' = (if c = r_redemptionCode row then Some row else find_by_code c d)"
proof -
  have d': "d' = d\<lparr>redemptions := redemptions d @ [row]\<rparr>" using create_row_Inr[OF assms] .
  have "find_by_code (r_redemptionCode row) d = None"
    using create_row_fresh(1)[OF assms] by (auto simp: find_by_code_def find_None_all)
  then show ?thesis by (auto simp: d' find_by_code_def find_append split: option.splits)
qed

end
