(* ===== verification/Cycle.thy ===== *)
theory Cycle
  imports Calendar
begin

text \<open>
  \<open>src/api/subscription/cycle.ts\<close>: the subscription-anchored monthly cycle. The anchor
  date gives a day of the month; a cycle starts on that day of each month (on the month's last
  day where the month is shorter) at midnight UTC.

  The lemmas describe the cycles as one strictly increasing sequence \<open>cyc a k\<close>, indexed by the
  month: the code's window at \<open>now\<close> is the segment of that sequence that holds \<open>now\<close>.
\<close>

definition clampedDate :: "int \<Rightarrow> int \<Rightarrow> int \<Rightarrow> time" where
  "clampedDate year month day =
     (let lastDay = getUTCDate (Date_UTC year (month + 1) 0)
      in Date_UTC year month (min day lastDay))"

definition getCurrentCycleWindow :: "time \<Rightarrow> time \<Rightarrow> time \<times> time" where
  "getCurrentCycleWindow anchorDate now =
     (let anchorDay = getUTCDate anchorDate;
          cycleStart0 = clampedDate (getUTCFullYear now) (getUTCMonth now) anchorDay;
          prev = Date_UTC (getUTCFullYear now) (getUTCMonth now - 1) 1;
          cycleStart = (if now < cycleStart0
                        then clampedDate (getUTCFullYear prev) (getUTCMonth prev) anchorDay
                        else cycleStart0);
          nextM = Date_UTC (getUTCFullYear cycleStart) (getUTCMonth cycleStart + 1) 1;
          cycleEnd = clampedDate (getUTCFullYear nextM) (getUTCMonth nextM) anchorDay
      in (cycleStart, cycleEnd))"

definition cycleStart :: "time \<Rightarrow> time \<Rightarrow> time" where
  "cycleStart anchorDate now = fst (getCurrentCycleWindow anchorDate now)"

definition toMidnightUTC :: "time \<Rightarrow> time" where
  "toMidnightUTC date = Date_UTC (getUTCFullYear date) (getUTCMonth date) (getUTCDate date)"

section \<open>The sequence of cycle starts\<close>

text \<open>Specification: the cycle of month \<open>k\<close> for an anchor on the \<open>a\<close>-th, as a day number.\<close>

definition cyc :: "int \<Rightarrow> int \<Rightarrow> int" where
  "cyc a k = month_start k + min a (mlen k) - 1"

lemma make_day_prev: "make_day y (m + 1) 0 = month_start (12 * y + m) + mlen (12 * y + m) - 1"
  using make_day_month_start[of y "m + 1" 0] month_start_step[of "12 * y + m"]
  by (simp add: add.assoc)

lemma date_of_last:
  "date_of_day (month_start k + mlen k - 1) = mlen k"
proof -
  have "month_start k + mlen k - 1 = make_day (k div 12) (k mod 12) (mlen k)"
    using make_day_month_start[of "k div 12" "k mod 12" "mlen k"] by simp
  then show ?thesis
    using date_of_make_day[OF mod12_range[of k], of "mlen k" "k div 12"] mlen_bounds(1)[of k]
    by (simp add: mlen_def)
qed

lemma clampedDate_cyc: "clampedDate y m a = cyc a (12 * y + m) * ms_per_day"
proof -
  have "getUTCDate (Date_UTC y (m + 1) 0) = mlen (12 * y + m)"
    by (simp only: getUTCDate_def day_of_Date_UTC make_day_prev date_of_last)
  then show ?thesis
    by (simp add: clampedDate_def Date_UTC_def make_day_month_start cyc_def)
qed

lemma cyc_in_month:
  assumes "1 \<le> a"
  shows "month_start k \<le> cyc a k" "cyc a k < month_start (k + 1)"
  using assms mlen_bounds(1)[of k] month_start_step[of k] by (auto simp: cyc_def)

lemma cyc_step: "1 \<le> a \<Longrightarrow> cyc a k < cyc a (k + 1)"
  using cyc_in_month[of a k] cyc_in_month[of a "k + 1"] by linarith

lemma cyc_mono:
  assumes "1 \<le> a" "j \<le> k"
  shows "cyc a j \<le> cyc a k"
  using assms(2)
proof (induction rule: int_ge_induct)
  case base
  then show ?case by simp
next
  case (step i)
  then show ?case using cyc_step[OF assms(1), of i] by linarith
qed

lemma cyc_segment_unique:
  assumes "1 \<le> a" "cyc a j \<le> n" "n < cyc a (j + 1)" "cyc a k \<le> n" "n < cyc a (k + 1)"
  shows "j = k"
proof (rule ccontr)
  assume "j \<noteq> k"
  then consider "j + 1 \<le> k" | "k + 1 \<le> j" by linarith
  then show False
    using cyc_mono[OF assms(1)] assms(2-5) by cases (meson not_less order_trans)+
qed

lemma month_index_first: "month_index (month_start k) = k"
  using month_start_step[of k] mlen_bounds(1)[of k] by (intro month_index_unique) simp_all

lemma month_shift:
  "month_index (make_day (year_of_day n) (month_of_day n + i) 1) = month_index n + i"
  by (simp add: make_day_month_start month_index_first)
    (simp add: month_index_def)

lemma clamped_at: "clampedDate (year_of_day n) (month_of_day n) a = cyc a (month_index n) * ms_per_day"
  by (simp add: clampedDate_cyc month_index_def)

lemma clamped_shift:
  fixes n i :: int
  defines "p \<equiv> make_day (year_of_day n) (month_of_day n + i) 1"
  shows "clampedDate (year_of_day p) (month_of_day p) a = cyc a (month_index n + i) * ms_per_day"
  unfolding p_def by (simp only: clamped_at month_shift)

lemma month_index_cyc: "1 \<le> a \<Longrightarrow> month_index (cyc a k) = k"
  using cyc_in_month[of a k] by (intro month_index_unique)

text \<open>The month the current cycle starts in.\<close>

definition cycle_month :: "int \<Rightarrow> time \<Rightarrow> int" where
  "cycle_month a now =
     (let k = month_index (day_of now) in if day_of now < cyc a k then k - 1 else k)"

lemma cycle_month_segment:
  assumes "1 \<le> a"
  shows "cyc a (cycle_month a now) \<le> day_of now"
    and "day_of now < cyc a (cycle_month a now + 1)"
proof -
  define k where "k = month_index (day_of now)"
  have b: "month_start k \<le> day_of now" "day_of now < month_start (k + 1)"
    unfolding k_def by (rule month_index_bounds)+
  have p: "cyc a (k - 1) < month_start k"
    using cyc_in_month(2)[OF assms, of "k - 1"] by simp
  have q: "month_start (k + 1) \<le> cyc a (k + 1)"
    by (rule cyc_in_month(1)[OF assms])
  show "cyc a (cycle_month a now) \<le> day_of now"
    using b p by (auto simp: cycle_month_def Let_def k_def[symmetric])
  show "day_of now < cyc a (cycle_month a now + 1)"
    using b q by (auto simp: cycle_month_def Let_def k_def[symmetric])
qed

lemma getCurrentCycleWindow_cyc:
  fixes anchorDate now :: time
  defines "a \<equiv> getUTCDate anchorDate" and "k \<equiv> cycle_month (getUTCDate anchorDate) now"
  shows "getCurrentCycleWindow anchorDate now = (cyc a k * ms_per_day, cyc a (k + 1) * ms_per_day)"
proof -
  have a: "1 \<le> a" by (simp add: a_def getUTCDate_def date_of_day_range)
  let ?m = "month_index (day_of now)"
  have lt: "now < cyc a ?m * ms_per_day \<longleftrightarrow> day_of now < cyc a ?m"
    using midnight_le_iff[of "cyc a ?m" now] by linarith
  have prev: "month_index (make_day (year_of_day (day_of now)) (month_of_day (day_of now) - 1) 1)
      = ?m - 1"
    using month_shift[of "day_of now" "-1"] by simp
  have s: "(if now < cyc a ?m * ms_per_day then cyc a (?m - 1) * ms_per_day else cyc a ?m * ms_per_day)
      = cyc a k * ms_per_day"
    by (simp add: lt k_def cycle_month_def Let_def flip: a_def)
  show ?thesis
    unfolding getCurrentCycleWindow_def Let_def getUTCFullYear_def getUTCMonth_def
    by (simp only: a_def[symmetric] clamped_at day_of_Date_UTC prev s day_of_midnight month_shift
        month_index_cyc[OF a])
qed

lemma anchor_day_ge1 [simp]: "1 \<le> getUTCDate t"
  by (simp add: getUTCDate_def date_of_day_range)

lemma cycle_start_le: "fst (getCurrentCycleWindow anchorDate now) \<le> now"
  using cycle_month_segment(1)[where a = "getUTCDate anchorDate" and now = now, OF anchor_day_ge1]
  by (simp add: getCurrentCycleWindow_cyc midnight_le_iff)

lemma cycle_end_less: "now < snd (getCurrentCycleWindow anchorDate now)"
  using cycle_month_segment(2)[where a = "getUTCDate anchorDate" and now = now, OF anchor_day_ge1]
  by (simp add: getCurrentCycleWindow_cyc midnight_le_iff flip: not_le)

lemma cycle_window_stable:
  assumes "fst (getCurrentCycleWindow anchorDate now) \<le> t"
    and "t < snd (getCurrentCycleWindow anchorDate now)"
  shows "getCurrentCycleWindow anchorDate t = getCurrentCycleWindow anchorDate now"
proof -
  let ?a = "getUTCDate anchorDate"
  have "cyc ?a (cycle_month ?a now) \<le> day_of t" "day_of t < cyc ?a (cycle_month ?a now + 1)"
    using assms by (simp_all add: getCurrentCycleWindow_cyc midnight_le_iff flip: not_le)
  then have "cycle_month ?a t = cycle_month ?a now"
    using cycle_month_segment[where a = "getUTCDate anchorDate" and now = t, OF anchor_day_ge1]
    by (intro cyc_segment_unique[where a = ?a and n = "day_of t", OF anchor_day_ge1])
  then show ?thesis by (simp add: getCurrentCycleWindow_cyc)
qed

lemma cycle_next_start:
  "fst (getCurrentCycleWindow anchorDate (snd (getCurrentCycleWindow anchorDate now)))
    = snd (getCurrentCycleWindow anchorDate now)"
  by (simp add: getCurrentCycleWindow_cyc cycle_month_def[of _ "cyc _ _ * ms_per_day"]
      month_index_cyc)

section \<open>Properties\<close>

text \<open>The current cycle contains the present: \<open>getCurrentCycleWindow\<close> returns an interval
  \<open>[cycleStart, cycleEnd)\<close> that \<open>now\<close> lies in, for every anchor date and every instant, so the
  clamping of the anchor day in short months and the step back to the previous month never leave a
  gap.\<close>

theorem cycle_window_contains_now:
  "fst (getCurrentCycleWindow anchorDate now) \<le> now \<and> now < snd (getCurrentCycleWindow anchorDate now)"
  by (simp add: cycle_start_le cycle_end_less)

text \<open>C32: the cycles of one anchor partition time: every instant of a cycle computes that same cycle
  (so a stored \<open>cycleStartDate\<close> can be compared with a freshly computed one), and the instant a
  cycle ends is the start of the next.\<close>

theorem cycle_windows_partition:
  assumes "fst (getCurrentCycleWindow anchorDate now) \<le> t"
    and "t < snd (getCurrentCycleWindow anchorDate now)"
  shows "getCurrentCycleWindow anchorDate t = getCurrentCycleWindow anchorDate now \<and>
    fst (getCurrentCycleWindow anchorDate (snd (getCurrentCycleWindow anchorDate now)))
      = snd (getCurrentCycleWindow anchorDate now)"
  using cycle_window_stable[OF assms] cycle_next_start by simp

text \<open>Anchor on 31 January: the cycle of 10 March 2026 also holds 30 March.\<close>

theorem cycle_windows_partition_witness:
  "getCurrentCycleWindow 1769817600000 1774828800000 = getCurrentCycleWindow 1769817600000 1773100800000"
proof -
  have "getCurrentCycleWindow 1769817600000 1773100800000 = (1772236800000, 1774915200000)"
    by code_simp
  then show ?thesis
    using cycle_windows_partition[of 1769817600000 1773100800000 1774828800000] by simp
qed

end
