(* ===== verification/Gate.thy ===== *)
theory Gate
  imports Limiter
begin

text \<open>
  The contract of a rate gate: a counter of attempts in a fixed window that opens at the first
  attempt. A client that tries something at most once per admitted attempt gets, from any state,
  at most twice the limit of tries in any period of one window's length, and at most the limit
  when the counter is clear at its start. \<open>attempt_gate\<close> states the laws; \<open>abuser_attempt\<close> is \<open>consume\<close>
  with a single abuser key, as the PIN gate calls it, and keeps them.
\<close>

text \<open>How many of a list of attempts are admitted, and the state they leave.\<close>

fun run_attempts :: "(time \<Rightarrow> 's \<Rightarrow> bool \<times> 's) \<Rightarrow> 's \<Rightarrow> time list \<Rightarrow> nat \<times> 's" where
  "run_attempts attempt s [] = (0, s)"
| "run_attempts attempt s (t # ts) =
     (let (ok, s') = attempt t s; (n, s'') = run_attempts attempt s' ts
      in (if ok then Suc n else n, s''))"

locale attempt_gate =
  fixes attempt :: "time \<Rightarrow> 's \<Rightarrow> bool \<times> 's"
    and used :: "time \<Rightarrow> 's \<Rightarrow> int"
    and closes :: "'s \<Rightarrow> time"
    and inv :: "'s \<Rightarrow> bool"
    and limit :: int
    and window :: int
  assumes limit_pos: "0 < limit"
    and used_nonneg: "inv s \<Longrightarrow> 0 \<le> used t s"
    and used_later: "inv s \<Longrightarrow> t \<le> t' \<Longrightarrow> used t' s = (if 0 < used t s \<and> t' < closes s then used t s else 0)"
    and attempt_inv: "inv s \<Longrightarrow> attempt t s = (ok, s') \<Longrightarrow> inv s'"
    and attempt_used: "inv s \<Longrightarrow> attempt t s = (ok, s') \<Longrightarrow> used t s' = used t s + 1"
    and attempt_ok: "inv s \<Longrightarrow> attempt t s = (ok, s') \<Longrightarrow> ok \<longleftrightarrow> used t s < limit"
    and attempt_closes: "inv s \<Longrightarrow> attempt t s = (ok, s') \<Longrightarrow>
      closes s' = (if used t s = 0 then t + window else closes s)"
begin

text \<open>What may still be admitted before \<open>T\<close>: the rest of this window, and a whole new window if this
  one closes before \<open>T\<close>.\<close>

definition budget :: "time \<Rightarrow> time \<Rightarrow> 's \<Rightarrow> int" where
  "budget T t s =
     (if used t s = 0 then limit
      else max 0 (limit - used t s) + (if closes s < T then limit else 0))"

lemma budget_later:
  assumes "inv s" "t \<le> t'" "t' < T"
  shows "budget T t' s \<le> budget T t s"
  using used_later[OF assms(1,2)] used_nonneg[OF assms(1), of t] limit_pos assms(3)
  by (auto simp: budget_def)

lemma budget_attempt:
  assumes "inv s" "attempt t s = (ok, s')" "T \<le> t + window"
  shows "(if ok then 1 else 0) + budget T t s' \<le> budget T t s"
  using attempt_used[OF assms(1,2)] attempt_ok[OF assms(1,2)] attempt_closes[OF assms(1,2)]
    used_nonneg[OF assms(1), of t] limit_pos assms(3)
  by (auto simp: budget_def)

lemma budget_nonneg: "inv s \<Longrightarrow> 0 \<le> budget T t s"
  using limit_pos by (auto simp: budget_def)

lemma run_budget:
  assumes "inv s" "sorted (t0 # ts)" "\<forall>t\<in>set ts. t < T" "T \<le> t0 + window"
  shows "int (fst (run_attempts attempt s ts)) \<le> budget T t0 s"
  using assms
proof (induction ts arbitrary: s t0)
  case Nil
  then show ?case by (simp add: budget_nonneg)
next
  case (Cons t ts)
  obtain ok s' where a: "attempt t s = (ok, s')" by fastforce
  have t: "t0 \<le> t" "t < T" using Cons.prems by auto
  have "int (fst (run_attempts attempt s' ts)) \<le> budget T t s'"
    using Cons.prems t attempt_inv[OF Cons.prems(1) a] by (intro Cons.IH) auto
  moreover have "(if ok then 1 else 0) + budget T t s' \<le> budget T t0 s"
    using budget_attempt[OF Cons.prems(1) a, of T] budget_later[OF Cons.prems(1) t] t Cons.prems(4) by auto
  ultimately show ?case by (auto simp: a split: prod.splits if_splits)
qed

lemma budget_clear: "used t s = 0 \<Longrightarrow> budget T t s = limit"
  by (simp add: budget_def)

lemma budget_double: "inv s \<Longrightarrow> budget T t s \<le> 2 * limit"
  using limit_pos used_nonneg[of s t] by (auto simp: budget_def)

lemma admitted_within_window:
  assumes "inv s" "sorted (t0 # ts)" "\<forall>t\<in>set ts. t < t0 + window"
  shows "int (fst (run_attempts attempt s ts)) \<le> (if used t0 s = 0 then limit else 2 * limit)"
  using run_budget[OF assms] budget_clear[of t0 s "t0 + window"] budget_double[OF assms(1), of "t0 + window" t0]
  by auto

end

section \<open>One abuser key\<close>

definition one_abuser :: "key \<Rightarrow> int \<Rightarrow> int \<Rightarrow> consume_input" where
  "one_abuser k limit windowSec =
     \<lparr>gateKeys = [], abuserKeys = [\<lparr>ls_key = k, ls_limit = limit, ls_windowSec = windowSec\<rparr>],
      victimKeys = [], cooldown = None\<rparr>"

definition abuser_attempt :: "key \<Rightarrow> int \<Rightarrow> int \<Rightarrow> time \<Rightarrow> redis \<Rightarrow> bool \<times> redis" where
  "abuser_attempt k limit windowSec now rs =
     (let (v, rs') = consume now rs (one_abuser k limit windowSec) in (v = Allowed, rs'))"

text \<open>Counts are never negative, and a counter has an expiry.\<close>

definition counter_ok :: "key \<Rightarrow> redis \<Rightarrow> bool" where
  "counter_ok k rs \<longleftrightarrow> (case counters rs k of None \<Rightarrow> True | Some (c, e) \<Rightarrow> 0 \<le> c \<and> e \<noteq> None)"

definition counter_closes :: "key \<Rightarrow> redis \<Rightarrow> time" where
  "counter_closes k rs = (case counters rs k of Some (_, Some e) \<Rightarrow> e | _ \<Rightarrow> 0)"

lemma counter_ok_empty [simp]: "counter_ok k empty_redis"
  by (simp add: counter_ok_def empty_redis_def)

lemma get_number_entry:
  "get_number t rs k = (case counters rs k of None \<Rightarrow> 0 | Some (c, e) \<Rightarrow> if live_until t e then c else 0)"
  by (simp add: get_number_def count_of_def lookup_live_def split: option.splits)

lemma get_number_nonneg: "counter_ok k rs \<Longrightarrow> 0 \<le> get_number t rs k"
  by (auto simp: counter_ok_def get_number_entry split: option.splits)

lemma incr_window_entry:
  assumes "0 < w" "counter_ok k rs"
  shows "counters (incr_window t k w rs) k =
    Some (get_number t rs k + 1, Some (if get_number t rs k = 0 then t + w * 1000 else counter_closes k rs))"
proof (cases "get_number t rs k = 0")
  case True
  have e: "lookup_live t (counters (INCR t k rs)) k \<noteq> None"
    by (auto simp: INCR_def Let_def redis_simps split: option.splits dest: lookup_live_entry)
  have n: "get_number t (INCR t k rs) k = 1" by (simp add: get_number_INCR True)
  then show ?thesis
    using e assms True
    by (auto simp: incr_window_def Let_def EXPIRE_def get_number_def count_of_def)
next
  case False
  then obtain c e where e: "counters rs k = Some (c, Some e)" "t < e" "c = get_number t rs k"
    using assms(2) by (auto simp: get_number_entry counter_ok_def split: option.splits if_splits)
  have "lookup_live t (counters rs) k = Some (c, Some e)" using e by (simp add: lookup_live_def)
  moreover have "get_number t (INCR t k rs) k \<noteq> 1" using False by (simp add: get_number_INCR)
  ultimately show ?thesis
    using e False by (simp add: incr_window_def Let_def INCR_def counter_closes_def)
qed

lemma abuser_attempt_spec:
  "0 < w \<Longrightarrow> abuser_attempt k l w t rs = (get_number t rs k < l, incr_window t k w rs)"
  unfolding abuser_attempt_def consume_eq_spec consume_spec_def
  by (auto simp: one_abuser_def Let_def blocked_def acquire_cooldown_def get_number_incr_window)

lemma abuser_gate:
  assumes "0 < l" "0 < w"
  shows "attempt_gate (abuser_attempt k l w) (\<lambda>t rs. get_number t rs k) (counter_closes k)
    (counter_ok k) l (w * 1000)"
proof
  fix t t' :: time and rs rs' ok
  assume inv: "counter_ok k rs"
  show "0 \<le> get_number t rs k" using get_number_nonneg[OF inv] .
  show "get_number t' rs k = (if 0 < get_number t rs k \<and> t' < counter_closes k rs then get_number t rs k else 0)"
    if "t \<le> t'"
    using inv that
    by (auto simp: counter_ok_def counter_closes_def get_number_entry live_until_def split: option.splits if_splits)
  assume "abuser_attempt k l w t rs = (ok, rs')"
  then have a: "ok \<longleftrightarrow> get_number t rs k < l" "rs' = incr_window t k w rs"
    using abuser_attempt_spec[OF assms(2)] by auto
  note entry = incr_window_entry[OF assms(2) inv, of t]
  show "counter_ok k rs'" "get_number t rs' k = get_number t rs k + 1"
    "counter_closes k rs' = (if get_number t rs k = 0 then t + w * 1000 else counter_closes k rs)"
    "ok \<longleftrightarrow> get_number t rs k < l"
    using entry get_number_nonneg[OF inv, of t] a
    by (simp_all add: counter_ok_def counter_closes_def get_number_incr_window assms(2))
qed (rule assms(1))

end
