(* ===== verification/Redemption.thy ===== *)
theory Redemption
  imports Store Cycle Gate "HOL-Library.Word"
begin

text \<open>
  \<open>createRedemption\<close> of \<open>src/api/redemption/service.ts\<close>, with \<open>src/api/redemption/reusable.ts\<close>
  and \<open>src/api/shared/pinDecrypt.ts\<close>: the eligibility guards, the PIN rate gate, the PIN comparison
  and the three race-safe claims.

  \<open>decrypt\<close> (AES-GCM and the keyring) is a parameter; \<open>random_bytes\<close> and the row's
  \<open>id\<close> are the values the run draws from its random source. Each \<open>$transaction\<close> is one function on the store that
  either returns the committed store or the error that rolled it back.
\<close>

section \<open>Codes\<close>

definition ALPHANUMERIC :: string where
  "ALPHANUMERIC = ''ABCDEFGHJKLMNPQRSTUVWXYZ0123456789''"

definition generateRedemptionCode :: "8 word list \<Rightarrow> string" where
  "generateRedemptionCode random_bytes =
     map (\<lambda>b. ALPHANUMERIC ! (unat b mod length ALPHANUMERIC)) random_bytes"

section \<open>Reusable vouchers\<close>

definition DEFAULT_REUSABLE_COOLDOWN_SECONDS :: int where
  "DEFAULT_REUSABLE_COOLDOWN_SECONDS = 4 * 60 * 60"

definition MIN_REUSABLE_COOLDOWN_SECONDS :: int where
  "MIN_REUSABLE_COOLDOWN_SECONDS = 30 * 60"

definition effectiveCooldownSeconds :: "int option \<Rightarrow> int" where
  "effectiveCooldownSeconds cooldownSeconds =
     max (case cooldownSeconds of None \<Rightarrow> DEFAULT_REUSABLE_COOLDOWN_SECONDS | Some s \<Rightarrow> s)
       MIN_REUSABLE_COOLDOWN_SECONDS"

definition computeAvailableAgainAt :: "time option \<Rightarrow> int option \<Rightarrow> time option" where
  "computeAvailableAgainAt lastRedeemed cooldownSeconds =
     (case lastRedeemed of None \<Rightarrow> None
      | Some t \<Rightarrow> Some (t + effectiveCooldownSeconds cooldownSeconds * 1000))"

section \<open>Eligibility\<close>

definition is_not_live :: "db \<Rightarrow> voucher \<Rightarrow> bool" where
  "is_not_live d v \<longleftrightarrow> v_status v \<noteq> V_ACTIVE \<or> v_approvalStatus v \<noteq> A_APPROVED \<or>
     map_option m_status (merchants d (v_merchantId v)) \<noteq> Some M_ACTIVE"

text \<open>\<open>throw new AppError(code, { nextWindowAt: next?.startsAt ?? null })\<close>; a malformed stored time makes
  the scan itself throw first.\<close>

definition throw_next_window :: "(time option \<Rightarrow> app_error) \<Rightarrow> voucher \<Rightarrow> time \<Rightarrow> 'a result" where
  "throw_next_window code v now =
     (case getNextWindowOccurrence (v_availabilityWindows v) now of
        Inl e \<Rightarrow> throw e
      | Inr next \<Rightarrow> throw (code (map_option fst next)))"

text \<open>Guards 1 and 2 and the availability window.\<close>

definition check_voucher :: "db \<Rightarrow> time \<Rightarrow> ident \<Rightarrow> voucher result" where
  "check_voucher d now voucherId =
     (case vouchers d voucherId of
        None \<Rightarrow> throw VOUCHER_NOT_FOUND
      | Some v \<Rightarrow>
        if is_not_live d v then throw VOUCHER_NOT_FOUND
        else if (case v_expiryDate v of None \<Rightarrow> False | Some e \<Rightarrow> e \<le> now) then throw VOUCHER_NOT_FOUND
        else if v_type v = TIME_LIMITED then
          (case getCurrentWindowOccurrence (v_availabilityWindows v) now of
             Inl e \<Rightarrow> throw e
           | Inr None \<Rightarrow> throw_next_window VOUCHER_OUTSIDE_AVAILABILITY_WINDOW v now
           | Inr (Some occ) \<Rightarrow> returns v)
        else returns v)"

text \<open>Guards 3 and 4.\<close>

definition check_branch :: "db \<Rightarrow> voucher \<Rightarrow> ident \<Rightarrow> branch result" where
  "check_branch d v branchId =
     (case branches d branchId of
        None \<Rightarrow> throw BRANCH_UNAVAILABLE
      | Some b \<Rightarrow>
        if \<not> b_isActive b \<or> b_lifecycleStatus b = PENDING_CREATE then throw BRANCH_UNAVAILABLE
        else if b_merchantId b \<noteq> v_merchantId v then throw BRANCH_MERCHANT_MISMATCH
        else returns b)"

text \<open>Guards 5 and 6.\<close>

definition check_user :: "db \<Rightarrow> ident \<Rightarrow> subscription result" where
  "check_user d userId =
     (case subscriptions d userId of
        None \<Rightarrow> throw SUBSCRIPTION_REQUIRED
      | Some sub \<Rightarrow>
        if s_status sub \<notin> {S_ACTIVE, TRIALLING} then throw SUBSCRIPTION_REQUIRED
        else case users d userId of
            None \<Rightarrow> throw PHONE_NOT_VERIFIED
          | Some u \<Rightarrow> if u_phoneVerified u then returns sub else throw PHONE_NOT_VERIFIED)"

text \<open>Guard 7, by voucher type; its results are the variables hoisted to function scope.\<close>

record entitlement =
  e_cycleStart :: time
  e_windowStartsAt :: "time option"
  e_cooldownMs :: "int option"

definition in_cooldown :: "db \<Rightarrow> ident \<Rightarrow> ident \<Rightarrow> time \<Rightarrow> int \<Rightarrow> time option" where
  "in_cooldown d userId voucherId now coolMs =
     (case latest_redeemedAt userId voucherId d of
        None \<Rightarrow> None
      | Some t \<Rightarrow> if now < t + coolMs then Some (t + coolMs) else None)"

definition check_entitlement ::
  "db \<Rightarrow> time \<Rightarrow> ident \<Rightarrow> ident \<Rightarrow> voucher \<Rightarrow> subscription \<Rightarrow> entitlement result" where
  "check_entitlement d now userId voucherId v sub =
     (let start = fst (getCurrentCycleWindow (s_cycleAnchorDate sub) now)
      in if v_type v = TIME_LIMITED then
           (case getCurrentWindowOccurrence (v_availabilityWindows v) now of
              Inl e \<Rightarrow> throw e
            | Inr None \<Rightarrow> throw (UNHANDLED RuntimeError)
            | Inr (Some (startsAt, endsAt)) \<Rightarrow>
              if list_ex (\<lambda>r. startsAt \<le> r_redeemedAt r \<and> r_redeemedAt r < endsAt)
                   (rows_of userId voucherId d)
              then throw_next_window ALREADY_REDEEMED_THIS_WINDOW v now
              else returns \<lparr>e_cycleStart = start, e_windowStartsAt = Some startsAt, e_cooldownMs = None\<rparr>)
         else if v_type v = REUSABLE then
           (let coolMs = effectiveCooldownSeconds (v_cooldownSeconds v) * 1000
            in case in_cooldown d userId voucherId now coolMs of
                 Some again \<Rightarrow> throw (REUSABLE_COOLDOWN_ACTIVE again)
               | None \<Rightarrow> returns \<lparr>e_cycleStart = start, e_windowStartsAt = None, e_cooldownMs = Some coolMs\<rparr>)
         else
           (case cycleStates d (userId, voucherId) of
              None \<Rightarrow> returns \<lparr>e_cycleStart = start, e_windowStartsAt = None, e_cooldownMs = None\<rparr>
            | Some st \<Rightarrow>
              if start \<le> cycleStartDate st \<and> isRedeemedInCurrentCycle st then throw ALREADY_REDEEMED
              else returns \<lparr>e_cycleStart = start, e_windowStartsAt = None, e_cooldownMs = None\<rparr>))"

text \<open>All of steps 1 to 8, in the code's order.\<close>

record redeem_request =
  q_userId :: ident
  q_voucherId :: ident
  q_branchId :: ident
  q_pin :: string

definition check_eligible ::
  "db \<Rightarrow> time \<Rightarrow> redeem_request \<Rightarrow> (voucher \<times> string \<times> entitlement) result" where
  "check_eligible d now q =
     (case check_voucher d now (q_voucherId q) of Inl e \<Rightarrow> throw e | Inr v \<Rightarrow>
      case check_branch d v (q_branchId q) of Inl e \<Rightarrow> throw e | Inr b \<Rightarrow>
      case check_user d (q_userId q) of Inl e \<Rightarrow> throw e | Inr sub \<Rightarrow>
      case check_entitlement d now (q_userId q) (q_voucherId q) v sub of Inl e \<Rightarrow> throw e | Inr ent \<Rightarrow>
      case b_redemptionPin b of
        None \<Rightarrow> throw PIN_NOT_CONFIGURED
      | Some stored \<Rightarrow> if stored = '''' then throw PIN_NOT_CONFIGURED else returns (v, stored, ent))"

section \<open>The PIN\<close>

datatype decrypt_fault = KeyNotAvailableError | EnvelopeParseError | GcmAuthError | UnexpectedError

definition classifyPinDecryptError :: "decrypt_fault \<Rightarrow> app_error" where
  "classifyPinDecryptError err =
     (if err = KeyNotAvailableError then KEY_NOT_AVAILABLE
      else if err = EnvelopeParseError then REDEMPTION_PIN_UNREADABLE
      else if err = GcmAuthError then REDEMPTION_PIN_UNREADABLE
      else REDEMPTION_PIN_UNREADABLE)"

text \<open>\<open>Buffer.from(s, 'utf8').length\<close> for code units below 256; \<open>timingSafeEqual\<close> throws when the
  two buffers differ in length.\<close>

definition utf8_length :: "string \<Rightarrow> nat" where
  "utf8_length s = sum_list (map (\<lambda>c. if (of_char c :: nat) < 128 then 1 else 2) s)"

definition compare_pin ::
  "(string \<Rightarrow> decrypt_fault + string) \<Rightarrow> string \<Rightarrow> string \<Rightarrow> decrypt_fault + bool" where
  "compare_pin decrypt stored pin =
     (case decrypt stored of
        Inl err \<Rightarrow> Inl err
      | Inr decrypted \<Rightarrow>
        if length decrypted \<noteq> length pin then Inr False
        else if utf8_length pin \<noteq> utf8_length decrypted then Inl UnexpectedError
        else Inr (pin = decrypted))"

definition PIN_FAIL_LIMIT :: int where "PIN_FAIL_LIMIT = 5"
definition PIN_FAIL_WINDOW :: int where "PIN_FAIL_WINDOW = 15 * 60"

definition pinFailCount :: "ident \<Rightarrow> ident \<Rightarrow> key" where
  "pinFailCount userId branchId = ''pin:fail:'' @ userId @ '':'' @ branchId"

definition pin_gate :: "time \<Rightarrow> redis \<Rightarrow> key \<Rightarrow> consume_result \<times> redis" where
  "pin_gate now rs failKey =
     consume now rs (one_abuser failKey PIN_FAIL_LIMIT PIN_FAIL_WINDOW)"

text \<open>\<open>const v = await redis.decr(failKey); if (v < 0) await redis.del(failKey)\<close>\<close>

definition refund :: "time \<Rightarrow> key \<Rightarrow> redis \<Rightarrow> redis" where
  "refund now failKey rs =
     (let rs' = DECR now failKey rs
      in if get_number now rs' failKey < 0 then DEL failKey rs' else rs')"

definition remainingAttempts :: "time \<Rightarrow> redis \<Rightarrow> key \<Rightarrow> int" where
  "remainingAttempts now rs failKey =
     max 0 (PIN_FAIL_LIMIT - (case count_of now rs failKey of None \<Rightarrow> PIN_FAIL_LIMIT | Some c \<Rightarrow> c))"

text \<open>Steps 9 and 10 with the clearing of the counter.\<close>

definition check_pin ::
  "(string \<Rightarrow> decrypt_fault + string) \<Rightarrow> time \<Rightarrow> redis \<Rightarrow> redeem_request \<Rightarrow> string \<Rightarrow> unit result \<times> redis" where
  "check_pin decrypt now rs q stored =
     (let failKey = pinFailCount (q_userId q) (q_branchId q)
      in case pin_gate now rs failKey of
           (Blocked _ _ retryAfter, rs1) \<Rightarrow> (throw (PIN_RATE_LIMIT_EXCEEDED retryAfter), rs1)
         | (Allowed, rs1) \<Rightarrow>
           (case compare_pin decrypt stored (q_pin q) of
              Inl err \<Rightarrow> (throw (classifyPinDecryptError err), refund now failKey rs1)
            | Inr pinMatches \<Rightarrow>
              if \<not> pinMatches then (throw (INVALID_PIN (remainingAttempts now rs1 failKey)), rs1)
              else (returns (), DEL failKey rs1)))"

section \<open>The claims\<close>

definition claimable :: "time \<Rightarrow> cycle_state \<Rightarrow> bool" where
  "claimable start st \<longleftrightarrow> cycleStartDate st < start \<or> \<not> isRedeemedInCurrentCycle st"

definition claim_state :: "time \<Rightarrow> time \<Rightarrow> cycle_state" where
  "claim_state start now =
     \<lparr>cycleStartDate = start, isRedeemedInCurrentCycle = True, lastRedeemedAt = Some now\<rparr>"

definition put_state :: "redemption \<Rightarrow> time \<Rightarrow> db \<Rightarrow> db" where
  "put_state row start d =
     d\<lparr>cycleStates := (cycleStates d)((r_userId row, r_voucherId row) \<mapsto> claim_state start (r_redeemedAt row))\<rparr>"

text \<open>First transaction: conditional \<open>updateMany\<close>, else \<open>create\<close>; then the row. Second, in a fresh
  transaction: conditional \<open>updateMany\<close> only.\<close>

definition cycle_tx1 :: "redemption \<Rightarrow> time \<Rightarrow> db \<Rightarrow> unique_target + db" where
  "cycle_tx1 row start d =
     (case cycleStates d (r_userId row, r_voucherId row) of
        Some st \<Rightarrow> if claimable start st then create_row row (put_state row start d) else Inl T_cycleState
      | None \<Rightarrow> create_row row (put_state row start d))"

definition cycle_tx2 :: "redemption \<Rightarrow> time \<Rightarrow> db \<Rightarrow> db result" where
  "cycle_tx2 row start d =
     (case cycleStates d (r_userId row, r_voucherId row) of
        Some st \<Rightarrow>
          if claimable start st then
            (case create_row row (put_state row start d) of
               Inl target \<Rightarrow> throw (UNHANDLED P2002) | Inr d' \<Rightarrow> returns d')
          else throw ALREADY_REDEEMED
      | None \<Rightarrow> throw ALREADY_REDEEMED)"

definition claim_cycle :: "redemption \<Rightarrow> time \<Rightarrow> db \<Rightarrow> db result" where
  "claim_cycle row start d =
     (case cycle_tx1 row start d of Inr d' \<Rightarrow> returns d' | Inl target \<Rightarrow> cycle_tx2 row start d)"

definition claim_window :: "redemption \<Rightarrow> voucher \<Rightarrow> db \<Rightarrow> db result" where
  "claim_window row v d =
     (case create_row row d of
        Inr d' \<Rightarrow> returns d'
      | Inl target \<Rightarrow>
        if target = T_windowStartsAt
        then throw_next_window ALREADY_REDEEMED_THIS_WINDOW v (r_redeemedAt row)
        else throw (UNHANDLED P2002))"

text \<open>Under the advisory lock on \<open>(userId, voucherId)\<close>: the cooldown is read again, then the row.\<close>

definition claim_reusable :: "redemption \<Rightarrow> int \<Rightarrow> db \<Rightarrow> db result" where
  "claim_reusable row coolMs d =
     (case in_cooldown d (r_userId row) (r_voucherId row) (r_redeemedAt row) coolMs of
        Some again \<Rightarrow> throw (REUSABLE_COOLDOWN_ACTIVE again)
      | None \<Rightarrow>
        (case create_row (row\<lparr>r_windowStartsAt := None\<rparr>) d of
           Inl target \<Rightarrow> throw (UNHANDLED P2002) | Inr d' \<Rightarrow> returns d'))"

section \<open>The handler\<close>

definition redemption_row ::
  "redeem_request \<Rightarrow> voucher \<Rightarrow> entitlement \<Rightarrow> time \<Rightarrow> ident \<Rightarrow> 8 word list \<Rightarrow> redemption" where
  "redemption_row q v ent now rid random_bytes =
     \<lparr>r_id = rid, r_userId = q_userId q, r_voucherId = q_voucherId q, r_branchId = q_branchId q,
      r_redemptionCode = generateRedemptionCode random_bytes,
      r_validatedById = None, r_validationMethod = None, r_isValidated = False, r_validatedAt = None,
      r_estimatedSaving = v_estimatedSaving v, r_redeemedAt = now, r_windowStartsAt = e_windowStartsAt ent\<rparr>"

definition claim :: "redemption \<Rightarrow> voucher \<Rightarrow> entitlement \<Rightarrow> db \<Rightarrow> db result" where
  "claim row v ent d =
     (if v_type v = REUSABLE then claim_reusable row (the (e_cooldownMs ent)) d
      else if v_type v = TIME_LIMITED then claim_window row v d
      else claim_cycle row (e_cycleStart ent) d)"

definition createRedemption ::
  "(string \<Rightarrow> decrypt_fault + string) \<Rightarrow> time \<Rightarrow> redeem_request \<Rightarrow> ident \<Rightarrow> 8 word list
     \<Rightarrow> db \<Rightarrow> redis \<Rightarrow> redemption result \<times> db \<times> redis" where
  "createRedemption decrypt now q rid random_bytes d rs =
     (case check_eligible d now q of
        Inl e \<Rightarrow> (throw e, d, rs)
      | Inr (v, stored, ent) \<Rightarrow>
        (case check_pin decrypt now rs q stored of
           (Inl e, rs1) \<Rightarrow> (throw e, d, rs1)
         | (Inr _, rs1) \<Rightarrow>
           (let row = redemption_row q v ent now rid random_bytes
            in case claim row v ent d of
                 Inl e \<Rightarrow> (throw e, d, rs1)
               | Inr d1 \<Rightarrow>
                 (returns (last (redemptions d1)),
                  d1\<lparr>auditLog := auditLog d1 @ [(q_userId q, ''VOUCHER_REDEEMED'', r_redemptionCode row)]\<rparr>,
                  rs1))))"

section \<open>What makes a request eligible\<close>

text \<open>The specification of steps 1 to 8: no order, no error codes, no PIN.\<close>

definition unused :: "db \<Rightarrow> time \<Rightarrow> redeem_request \<Rightarrow> voucher \<Rightarrow> subscription \<Rightarrow> bool" where
  "unused d now q v sub \<longleftrightarrow>
     (if v_type v = TIME_LIMITED then
        \<exists>s e. getCurrentWindowOccurrence (v_availabilityWindows v) now = Inr (Some (s, e)) \<and>
          (\<forall>r\<in>set (rows_of (q_userId q) (q_voucherId q) d). r_redeemedAt r < s \<or> e \<le> r_redeemedAt r)
      else if v_type v = REUSABLE then
        \<forall>r\<in>set (rows_of (q_userId q) (q_voucherId q) d).
          r_redeemedAt r + effectiveCooldownSeconds (v_cooldownSeconds v) * 1000 \<le> now
      else
        \<forall>st. cycleStates d (q_userId q, q_voucherId q) = Some st \<longrightarrow> isRedeemedInCurrentCycle st \<longrightarrow>
          cycleStartDate st < fst (getCurrentCycleWindow (s_cycleAnchorDate sub) now))"

definition eligible :: "db \<Rightarrow> time \<Rightarrow> redeem_request \<Rightarrow> voucher \<Rightarrow> string \<Rightarrow> bool" where
  "eligible d now q v stored \<longleftrightarrow>
     vouchers d (q_voucherId q) = Some v \<and> v_status v = V_ACTIVE \<and> v_approvalStatus v = A_APPROVED \<and>
     (\<exists>m. merchants d (v_merchantId v) = Some m \<and> m_status m = M_ACTIVE) \<and>
     (\<forall>e. v_expiryDate v = Some e \<longrightarrow> now < e) \<and>
     (\<exists>b. branches d (q_branchId q) = Some b \<and> b_isActive b \<and> b_lifecycleStatus b \<noteq> PENDING_CREATE \<and>
        b_merchantId b = v_merchantId v \<and> b_redemptionPin b = Some stored \<and> stored \<noteq> '''') \<and>
     (\<exists>sub u. subscriptions d (q_userId q) = Some sub \<and> s_status sub \<in> {S_ACTIVE, TRIALLING} \<and>
        users d (q_userId q) = Some u \<and> u_phoneVerified u \<and> unused d now q v sub)"

lemma fold_max_in: "fold max ts (t::int) \<in> set (t # ts)"
proof (induction ts arbitrary: t)
  case Nil
  then show ?case by simp
next
  case (Cons a ts)
  then show ?case using Cons[of "max a t"] by (auto simp: max_def split: if_splits)
qed

lemma latest_Some_in: "latest_redeemedAt u v d = Some t \<Longrightarrow> \<exists>r\<in>set (rows_of u v d). r_redeemedAt r = t"
proof -
  assume "latest_redeemedAt u v d = Some t"
  then obtain a ts where a: "map r_redeemedAt (rows_of u v d) = a # ts" "t = fold max ts a"
    by (auto simp: latest_redeemedAt_def split: list.splits)
  then have "t \<in> r_redeemedAt ` set (rows_of u v d)"
    using fold_max_in[of ts a] by (metis list.set_map)
  then show ?thesis by auto
qed

lemma in_cooldown_None:
  "in_cooldown d u v now cool = None \<longleftrightarrow> (\<forall>r\<in>set (rows_of u v d). r_redeemedAt r + cool \<le> now)"
proof (cases "latest_redeemedAt u v d")
  case None
  moreover from None have "rows_of u v d = []" by (simp add: latest_None)
  ultimately show ?thesis by (simp add: in_cooldown_def)
next
  case (Some t)
  then show ?thesis
    using latest_Some[OF Some] latest_Some_in[OF Some] by (force simp: in_cooldown_def)
qed

lemma throw_next_window_not_Inr: "throw_next_window c v now \<noteq> Inr x"
  by (simp add: throw_next_window_def split: sum.splits)

lemma check_voucher_Inr:
  "check_voucher d now i = Inr v \<longleftrightarrow> vouchers d i = Some v \<and> \<not> is_not_live d v \<and>
     (\<forall>e. v_expiryDate v = Some e \<longrightarrow> now < e) \<and>
     (v_type v = TIME_LIMITED \<longrightarrow> (\<exists>occ. getCurrentWindowOccurrence (v_availabilityWindows v) now = Inr (Some occ)))"
  by (auto simp: check_voucher_def throw_next_window_not_Inr split: option.splits sum.splits)

lemma check_branch_Inr:
  "check_branch d v i = Inr b \<longleftrightarrow> branches d i = Some b \<and> b_isActive b \<and>
     b_lifecycleStatus b \<noteq> PENDING_CREATE \<and> b_merchantId b = v_merchantId v"
  by (auto simp: check_branch_def split: option.splits)

lemma check_user_Inr:
  "check_user d i = Inr sub \<longleftrightarrow> subscriptions d i = Some sub \<and> s_status sub \<in> {S_ACTIVE, TRIALLING} \<and>
     (\<exists>u. users d i = Some u \<and> u_phoneVerified u)"
  by (auto simp: check_user_def split: option.splits)

definition entitlement_of :: "time \<Rightarrow> voucher \<Rightarrow> subscription \<Rightarrow> entitlement" where
  "entitlement_of now v sub =
     \<lparr>e_cycleStart = fst (getCurrentCycleWindow (s_cycleAnchorDate sub) now),
      e_windowStartsAt =
        (if v_type v = TIME_LIMITED
         then (case getCurrentWindowOccurrence (v_availabilityWindows v) now of
                 Inr (Some (s, e)) \<Rightarrow> Some s | _ \<Rightarrow> None) else None),
      e_cooldownMs =
        (if v_type v = REUSABLE then Some (effectiveCooldownSeconds (v_cooldownSeconds v) * 1000) else None)\<rparr>"

lemma check_entitlement_Inr:
  "check_entitlement d now (q_userId q) (q_voucherId q) v sub = Inr ent \<longleftrightarrow>
     unused d now q v sub \<and> ent = entitlement_of now v sub"
proof (cases "v_type v = TIME_LIMITED")
  case True
  then show ?thesis
    by (auto simp: check_entitlement_def unused_def entitlement_of_def Let_def list_ex_iff not_less not_le
        throw_next_window_not_Inr split: sum.splits option.splits)
next
  case notTL: False
  show ?thesis
  proof (cases "v_type v = REUSABLE")
    case True
    have "in_cooldown d (q_userId q) (q_voucherId q) now (effectiveCooldownSeconds (v_cooldownSeconds v) * 1000) = None
        \<longleftrightarrow> unused d now q v sub"
      unfolding in_cooldown_None using True by (simp add: unused_def)
    then show ?thesis using True
      by (auto simp: check_entitlement_def entitlement_of_def Let_def split: option.splits)
  next
    case False
    then show ?thesis using notTL
      by (auto simp: check_entitlement_def unused_def entitlement_of_def Let_def not_le split: option.splits)
  qed
qed

lemma check_eligible_Inr:
  "check_eligible d now q = Inr (v, stored, ent) \<longleftrightarrow>
     eligible d now q v stored \<and> (\<exists>sub. subscriptions d (q_userId q) = Some sub \<and> ent = entitlement_of now v sub)"
proof -
  have occ: "\<exists>occ. getCurrentWindowOccurrence (v_availabilityWindows v) now = Inr (Some occ)"
    if "unused d now q v sub" "v_type v = TIME_LIMITED" for sub
    using that by (auto simp: unused_def)
  have "check_eligible d now q = Inr (v, stored, ent) \<longleftrightarrow>
    (\<exists>b sub. check_voucher d now (q_voucherId q) = Inr v \<and> check_branch d v (q_branchId q) = Inr b \<and>
      check_user d (q_userId q) = Inr sub \<and>
      check_entitlement d now (q_userId q) (q_voucherId q) v sub = Inr ent \<and>
      b_redemptionPin b = Some stored \<and> stored \<noteq> '''')"
    by (auto simp: check_eligible_def split: sum.splits option.splits if_splits)
  also have "\<dots> \<longleftrightarrow> eligible d now q v stored \<and>
      (\<exists>sub. subscriptions d (q_userId q) = Some sub \<and> ent = entitlement_of now v sub)"
    unfolding check_voucher_Inr check_branch_Inr check_user_Inr check_entitlement_Inr eligible_def
      is_not_live_def
    using occ by auto
  finally show ?thesis .
qed

section \<open>What the PIN step answers\<close>

text \<open>The PIN gate is an attempt gate, for each counter key.\<close>

interpretation pin: attempt_gate
  "abuser_attempt k PIN_FAIL_LIMIT PIN_FAIL_WINDOW" "\<lambda>t rs. get_number t rs k" "counter_closes k"
  "counter_ok k" PIN_FAIL_LIMIT "PIN_FAIL_WINDOW * 1000" for k
  by (rule abuser_gate) (simp_all add: PIN_FAIL_LIMIT_def PIN_FAIL_WINDOW_def)

lemma PIN_FAIL_pos: "0 < PIN_FAIL_WINDOW" "0 < PIN_FAIL_LIMIT"
  by (simp_all add: PIN_FAIL_WINDOW_def PIN_FAIL_LIMIT_def)

lemma pin_gate_attempt:
  "pin_gate now rs k = (v, rs') \<longleftrightarrow> consume now rs (one_abuser k PIN_FAIL_LIMIT PIN_FAIL_WINDOW) = (v, rs')"
  by (simp add: pin_gate_def)

lemma pin_gate_result:
  assumes "pin_gate now rs k = (v, rs')"
  shows "rs' = incr_window now k PIN_FAIL_WINDOW rs" "v = Allowed \<longleftrightarrow> get_number now rs k < PIN_FAIL_LIMIT"
  using assms abuser_attempt_spec[OF PIN_FAIL_pos(1), of k PIN_FAIL_LIMIT now rs]
  by (simp_all add: pin_gate_def abuser_attempt_def)

text \<open>The four outcomes of \<open>check_pin\<close>.\<close>

lemma check_pin_cases:
  fixes q now rs
  defines "k \<equiv> pinFailCount (q_userId q) (q_branchId q)"
  defines "rs1 \<equiv> incr_window now k PIN_FAIL_WINDOW rs"
  shows "\<not> get_number now rs k < PIN_FAIL_LIMIT \<Longrightarrow>
      \<exists>r. check_pin decrypt now rs q stored = (throw (PIN_RATE_LIMIT_EXCEEDED r), rs1)"
    and "get_number now rs k < PIN_FAIL_LIMIT \<Longrightarrow> compare_pin decrypt stored (q_pin q) = Inl err \<Longrightarrow>
      check_pin decrypt now rs q stored = (throw (classifyPinDecryptError err), refund now k rs1)"
    and "get_number now rs k < PIN_FAIL_LIMIT \<Longrightarrow> compare_pin decrypt stored (q_pin q) = Inr False \<Longrightarrow>
      check_pin decrypt now rs q stored =
        (throw (INVALID_PIN (max 0 (PIN_FAIL_LIMIT - (get_number now rs k + 1)))), rs1)"
    and "get_number now rs k < PIN_FAIL_LIMIT \<Longrightarrow> compare_pin decrypt stored (q_pin q) = Inr True \<Longrightarrow>
      check_pin decrypt now rs q stored = (returns (), DEL k rs1)"
proof -
  obtain v rs' where g: "pin_gate now rs k = (v, rs')" by fastforce
  note r = pin_gate_result[OF g]
  have cp: "check_pin decrypt now rs q stored =
    (case (v, rs1) of
       (Blocked _ _ retryAfter, rs1) \<Rightarrow> (throw (PIN_RATE_LIMIT_EXCEEDED retryAfter), rs1)
     | (Allowed, rs1) \<Rightarrow>
       (case compare_pin decrypt stored (q_pin q) of
          Inl err \<Rightarrow> (throw (classifyPinDecryptError err), refund now k rs1)
        | Inr pinMatches \<Rightarrow>
          if \<not> pinMatches then (throw (INVALID_PIN (remainingAttempts now rs1 k)), rs1)
          else (returns (), DEL k rs1)))"
    unfolding check_pin_def Let_def k_def[symmetric] g using r(1) by (simp add: rs1_def)
  have "count_of now rs1 k = Some (get_number now rs k + 1)"
    by (simp add: rs1_def count_of_incr_window PIN_FAIL_pos)
  then have rem: "remainingAttempts now rs1 k = max 0 (PIN_FAIL_LIMIT - (get_number now rs k + 1))"
    by (simp add: remainingAttempts_def)
  show "\<exists>r. check_pin decrypt now rs q stored = (throw (PIN_RATE_LIMIT_EXCEEDED r), rs1)"
    if "\<not> get_number now rs k < PIN_FAIL_LIMIT"
    using that r(2) cp by (cases v) auto
  show "check_pin decrypt now rs q stored = (throw (classifyPinDecryptError err), refund now k rs1)"
    if "get_number now rs k < PIN_FAIL_LIMIT" "compare_pin decrypt stored (q_pin q) = Inl err"
    using that r(2) cp by simp
  show "check_pin decrypt now rs q stored =
      (throw (INVALID_PIN (max 0 (PIN_FAIL_LIMIT - (get_number now rs k + 1)))), rs1)"
    if "get_number now rs k < PIN_FAIL_LIMIT" "compare_pin decrypt stored (q_pin q) = Inr False"
    using that r(2) cp rem by simp
  show "check_pin decrypt now rs q stored = (returns (), DEL k rs1)"
    if "get_number now rs k < PIN_FAIL_LIMIT" "compare_pin decrypt stored (q_pin q) = Inr True"
    using that r(2) cp by simp
qed

lemma check_pin_success:
  assumes "check_pin decrypt now rs q stored = (Inr x, rs')"
  shows "get_number now rs (pinFailCount (q_userId q) (q_branchId q)) < PIN_FAIL_LIMIT"
    and "decrypt stored = Inr (q_pin q)"
    and "count_of now rs' (pinFailCount (q_userId q) (q_branchId q)) = None"
proof -
  let ?k = "pinFailCount (q_userId q) (q_branchId q)"
  show n: "get_number now rs ?k < PIN_FAIL_LIMIT"
    using assms check_pin_cases(1)[where q = q and now = now and rs = rs and decrypt = decrypt and stored = stored]
    by auto
  have c: "compare_pin decrypt stored (q_pin q) = Inr True"
    using assms check_pin_cases(2,3)[OF n, where decrypt = decrypt and stored = stored]
    by (cases "compare_pin decrypt stored (q_pin q)"; cases "compare_pin decrypt stored (q_pin q) = Inr False") auto
  then show "decrypt stored = Inr (q_pin q)"
    by (auto simp: compare_pin_def split: sum.splits if_splits)
  show "count_of now rs' ?k = None"
    using assms check_pin_cases(4)[OF n c] by (auto simp: count_of_DEL)
qed

lemma get_number_refund:
  assumes "0 \<le> get_number now rs k"
  shows "get_number now (refund now k (incr_window now k PIN_FAIL_WINDOW rs)) k = get_number now rs k"
  using assms by (simp add: refund_def Let_def get_number_def redis_simps PIN_FAIL_pos)

lemma refund_frame: "j \<noteq> k \<Longrightarrow> counters (refund now k rs) j = counters rs j"
  by (simp add: refund_def Let_def counters_frame)

lemma compare_pin_True: "compare_pin decrypt stored pin = Inr True \<Longrightarrow> decrypt stored = Inr pin"
  by (auto simp: compare_pin_def split: sum.splits if_splits)

lemma last_create_row: "create_row row d = Inr d' \<Longrightarrow> redemptions d' = redemptions d @ [row]"
  by (drule create_row_Inr) simp

lemma create_row_put_state:
  "create_row row (put_state r st d) = Inr d' \<Longrightarrow>
     redemptions d' = redemptions d @ [row] \<and> create_row row d = Inr (d\<lparr>redemptions := redemptions d @ [row]\<rparr>)"
  by (auto simp: create_row_def put_state_def split: if_splits)

lemma cycle_tx1_row: "cycle_tx1 row start d = Inr d' \<Longrightarrow> redemptions d' = redemptions d @ [row]"
  by (auto simp: cycle_tx1_def create_row_put_state split: option.splits if_splits)

lemma cycle_tx2_row: "cycle_tx2 row start d = Inr d' \<Longrightarrow> redemptions d' = redemptions d @ [row]"
  by (auto simp: cycle_tx2_def create_row_put_state split: option.splits if_splits sum.splits)

lemma claim_cycle_row: "claim_cycle row start d = Inr d' \<Longrightarrow> redemptions d' = redemptions d @ [row]"
  by (auto simp: claim_cycle_def cycle_tx1_row cycle_tx2_row split: sum.splits)

lemma claim_window_row: "claim_window row v d = Inr d' \<Longrightarrow> redemptions d' = redemptions d @ [row]"
  by (auto simp: claim_window_def last_create_row throw_next_window_not_Inr split: sum.splits if_splits)

lemma claim_reusable_row:
  "claim_reusable row cool d = Inr d' \<Longrightarrow> redemptions d' = redemptions d @ [row\<lparr>r_windowStartsAt := None\<rparr>]"
  by (auto simp: claim_reusable_def last_create_row split: sum.splits option.splits)

lemmas claim_rows = claim_cycle_row claim_window_row claim_reusable_row

text \<open>The row of an eligible request carries a window exactly for a time-limited voucher, so the
  overriding \<open>windowStartsAt: null\<close> changes nothing.\<close>

lemma redemption_row_window:
  "v_type v = REUSABLE \<Longrightarrow>
     (redemption_row q v (entitlement_of now v sub) now rid bytes)\<lparr>r_windowStartsAt := None\<rparr> =
     redemption_row q v (entitlement_of now v sub) now rid bytes"
  by (simp add: redemption_row_def entitlement_of_def)

lemma claim_row:
  assumes "claim (redemption_row q v (entitlement_of now v sub) now rid bytes) v (entitlement_of now v sub) d = Inr d'"
  shows "redemptions d' = redemptions d @ [redemption_row q v (entitlement_of now v sub) now rid bytes]"
  using assms claim_reusable_row[of "redemption_row q v (entitlement_of now v sub) now rid bytes"]
    redemption_row_window[of v q now sub rid bytes]
  by (auto simp: claim_def claim_rows split: if_splits)

text \<open>The handler, by what \<open>check_eligible\<close> answers.\<close>

lemma createRedemption_ineligible:
  "check_eligible d now q = Inl e \<Longrightarrow> createRedemption decrypt now q rid bytes d rs = (throw e, d, rs)"
  by (simp add: createRedemption_def)

lemma createRedemption_pin_refused:
  assumes "check_eligible d now q = Inr (v, stored, ent)" "check_pin decrypt now rs q stored = (Inl e, rs')"
  shows "createRedemption decrypt now q rid bytes d rs = (throw e, d, rs')"
  by (simp add: createRedemption_def assms)

lemma createRedemption_success:
  assumes "createRedemption decrypt now q rid bytes d rs = (Inr row, d', rs')"
  obtains v stored sub x d1 where "eligible d now q v stored" "subscriptions d (q_userId q) = Some sub"
    "check_pin decrypt now rs q stored = (Inr x, rs')"
    "row = redemption_row q v (entitlement_of now v sub) now rid bytes"
    "claim row v (entitlement_of now v sub) d = Inr d1"
    "redemptions d' = redemptions d @ [row]"
    "d' = d1\<lparr>auditLog := auditLog d1 @ [(q_userId q, ''VOUCHER_REDEEMED'', generateRedemptionCode bytes)]\<rparr>"
proof -
  obtain v stored ent where e: "check_eligible d now q = Inr (v, stored, ent)"
    using assms by (auto simp: createRedemption_def split: sum.splits)
  then obtain sub where sub: "eligible d now q v stored" "subscriptions d (q_userId q) = Some sub"
    "ent = entitlement_of now v sub" by (auto simp: check_eligible_Inr)
  obtain x rs1 where p: "check_pin decrypt now rs q stored = (Inr x, rs1)"
    using assms by (auto simp: createRedemption_def e split: sum.splits prod.splits)
  let ?row = "redemption_row q v ent now rid bytes"
  obtain d1 where d1: "claim ?row v ent d = Inr d1"
    using assms by (auto simp: createRedemption_def e p Let_def split: sum.splits)
  have r: "redemptions d1 = redemptions d @ [?row]"
    using claim_row d1 unfolding sub(3) by blast
  have "rs' = rs1" "row = ?row"
    "d' = d1\<lparr>auditLog := auditLog d1 @ [(q_userId q, ''VOUCHER_REDEEMED'', generateRedemptionCode bytes)]\<rparr>"
    using assms by (simp_all add: createRedemption_def e p d1 r Let_def) (auto simp: redemption_row_def)
  then show ?thesis using that[OF sub(1,2), of x d1] p d1 r sub(3) by simp
qed

section \<open>Wrong guesses\<close>

definition pin_format :: "string \<Rightarrow> bool" where
  "pin_format p \<longleftrightarrow> length p = 4 \<and> list_all is_digit p"

lemma compare_pin_wrong:
  assumes "decrypt stored = Inr secret" "pin_format secret" "pin_format pin" "pin \<noteq> secret"
  shows "compare_pin decrypt stored pin = Inr False"
proof -
  have ascii: "utf8_length p = length p" if "list_all is_digit p" for p
    using that by (induction p) (auto simp: utf8_length_def is_digit_def)
  then show ?thesis using assms by (simp add: compare_pin_def pin_format_def)
qed

text \<open>A history of requests, each with its instant, row identifier and random bytes.\<close>

type_synonym arrival = "time \<times> redeem_request \<times> ident \<times> 8 word list"

fun run_redeems :: "(string \<Rightarrow> decrypt_fault + string) \<Rightarrow> db \<Rightarrow> redis \<Rightarrow> arrival list
    \<Rightarrow> redemption result list" where
  "run_redeems decrypt d rs [] = []"
| "run_redeems decrypt d rs ((now, q, rid, bytes) # h) =
     (let (r, d', rs') = createRedemption decrypt now q rid bytes d rs
      in r # run_redeems decrypt d' rs' h)"

fun is_wrong_pin :: "redemption result \<Rightarrow> bool" where
  "is_wrong_pin (Inl (INVALID_PIN n)) = True"
| "is_wrong_pin r = False"

text \<open>Every request of the history comes from the user, at the branch, with a wrong PIN.\<close>

definition guesses :: "ident \<Rightarrow> ident \<Rightarrow> string \<Rightarrow> arrival list \<Rightarrow> bool" where
  "guesses u b secret h \<longleftrightarrow> list_all (\<lambda>(t, q, rid, bytes).
     q_userId q = u \<and> q_branchId q = b \<and> pin_format (q_pin q) \<and> q_pin q \<noteq> secret) h"

definition branch_secret :: "(string \<Rightarrow> decrypt_fault + string) \<Rightarrow> db \<Rightarrow> ident \<Rightarrow> string \<Rightarrow> bool" where
  "branch_secret decrypt d b secret \<longleftrightarrow> pin_format secret \<and>
     (\<forall>br stored. branches d b = Some br \<longrightarrow> b_redemptionPin br = Some stored \<longrightarrow> stored \<noteq> '''' \<longrightarrow>
        decrypt stored = Inr secret)"

lemma parse_error: "parseTimeString s = Inl e \<Longrightarrow> e = UNHANDLED RuntimeError"
  by (auto simp: parseTimeString_def split: if_splits)

lemma scan_current_error: "scan_current dow m ws = Inl e \<Longrightarrow> e = UNHANDLED RuntimeError"
  by (induction ws) (auto split: if_splits sum.splits dest: parse_error)

lemma next_candidates_of_day_error:
  "next_candidates_of_day off dow m ws = Inl e \<Longrightarrow> e = UNHANDLED RuntimeError"
  by (induction ws) (auto split: if_splits sum.splits dest: parse_error)

lemma next_candidates_error: "next_candidates offs d m ws = Inl e \<Longrightarrow> e = UNHANDLED RuntimeError"
  by (induction offs) (auto split: if_splits sum.splits dest: next_candidates_of_day_error)

lemma occurrence_error:
  "getCurrentWindowOccurrence ws now = Inl e \<Longrightarrow> e = UNHANDLED RuntimeError"
  "getNextWindowOccurrence ws now = Inl e \<Longrightarrow> e = UNHANDLED RuntimeError"
  by (auto simp: getCurrentWindowOccurrence_def getNextWindowOccurrence_def Let_def
      split: if_splits sum.splits prod.splits option.splits dest: scan_current_error next_candidates_error)

text \<open>The answers that only a request which reached the PIN step can get.\<close>

definition is_pin_error :: "app_error \<Rightarrow> bool" where
  "is_pin_error e = (case e of INVALID_PIN n \<Rightarrow> True | PIN_RATE_LIMIT_EXCEEDED n \<Rightarrow> True | _ \<Rightarrow> False)"

lemma is_pin_error_simps [simp]:
  "is_pin_error (INVALID_PIN n)" "is_pin_error (PIN_RATE_LIMIT_EXCEEDED n)"
  "\<not> is_pin_error (UNHANDLED x)" "\<not> is_pin_error VOUCHER_NOT_FOUND" "\<not> is_pin_error BRANCH_UNAVAILABLE"
  "\<not> is_pin_error (VOUCHER_OUTSIDE_AVAILABILITY_WINDOW w)" "\<not> is_pin_error BRANCH_MERCHANT_MISMATCH"
  "\<not> is_pin_error SUBSCRIPTION_REQUIRED" "\<not> is_pin_error PHONE_NOT_VERIFIED"
  "\<not> is_pin_error (ALREADY_REDEEMED_THIS_WINDOW w)" "\<not> is_pin_error (REUSABLE_COOLDOWN_ACTIVE t)"
  "\<not> is_pin_error ALREADY_REDEEMED" "\<not> is_pin_error PIN_NOT_CONFIGURED"
  "\<not> is_pin_error KEY_NOT_AVAILABLE" "\<not> is_pin_error REDEMPTION_PIN_UNREADABLE"
  by (simp_all add: is_pin_error_def)

lemma throw_next_window_error:
  "throw_next_window c v now = Inl e \<Longrightarrow> (\<And>t. \<not> is_pin_error (c t)) \<Longrightarrow> \<not> is_pin_error e"
  by (auto simp: throw_next_window_def split: sum.splits dest: occurrence_error)

lemmas window_errors = throw_next_window_error[where c = ALREADY_REDEEMED_THIS_WINDOW, simplified]
  throw_next_window_error[where c = VOUCHER_OUTSIDE_AVAILABILITY_WINDOW, simplified]

lemma guard_errors:
  "check_voucher d now i = Inl e \<Longrightarrow> \<not> is_pin_error e"
  "check_branch d v j = Inl e \<Longrightarrow> \<not> is_pin_error e"
  "check_user d u = Inl e \<Longrightarrow> \<not> is_pin_error e"
  "check_entitlement d now u i v sub = Inl e \<Longrightarrow> \<not> is_pin_error e"
     apply (auto simp: check_voucher_def split: option.splits sum.splits if_splits
      dest: occurrence_error window_errors)[1]
    apply (auto simp: check_branch_def split: option.splits if_splits)[1]
   apply (auto simp: check_user_def split: option.splits if_splits)[1]
  apply (auto simp: check_entitlement_def Let_def split: option.splits sum.splits if_splits
      dest: occurrence_error window_errors)[1]
  done

lemma check_eligible_error: "check_eligible d now q = Inl e \<Longrightarrow> \<not> is_pin_error e"
  unfolding check_eligible_def
  by (auto split: sum.splits option.splits if_splits dest: guard_errors)

text \<open>A wrong guess changes neither the store nor, unless it reaches the gate, the counter.\<close>

lemma wrong_guess:
  fixes q now rs
  defines "at \<equiv> abuser_attempt (pinFailCount (q_userId q) (q_branchId q)) PIN_FAIL_LIMIT PIN_FAIL_WINDOW now rs"
  assumes "branch_secret decrypt d (q_branchId q) secret" "pin_format (q_pin q)" "q_pin q \<noteq> secret"
  shows "(\<exists>e. createRedemption decrypt now q rid bytes d rs = (Inl e, d, rs) \<and> \<not> is_pin_error e) \<or>
    (\<exists>e. createRedemption decrypt now q rid bytes d rs = (Inl e, d, snd at) \<and> is_wrong_pin (Inl e) = fst at)"
proof (cases "check_eligible d now q")
  case (Inl e)
  then show ?thesis using createRedemption_ineligible check_eligible_error by blast
next
  case (Inr a)
  then obtain v stored ent where e: "check_eligible d now q = Inr (v, stored, ent)" by (cases a) auto
  then have "eligible d now q v stored" by (simp add: check_eligible_Inr)
  then have "decrypt stored = Inr secret" "pin_format secret"
    using assms(2) by (auto simp: eligible_def branch_secret_def)
  then have c: "compare_pin decrypt stored (q_pin q) = Inr False"
    using assms(3,4) by (intro compare_pin_wrong)
  note spec = abuser_attempt_spec[OF PIN_FAIL_pos(1), of "pinFailCount (q_userId q) (q_branchId q)"
      PIN_FAIL_LIMIT now rs, folded at_def]
  show ?thesis
  proof (cases "get_number now rs (pinFailCount (q_userId q) (q_branchId q)) < PIN_FAIL_LIMIT")
    case True
    note r = createRedemption_pin_refused[OF e check_pin_cases(3)[OF True c], of rid bytes]
    show ?thesis by (simp add: r spec True)
  next
    case False
    then obtain r where "check_pin decrypt now rs q stored =
        (throw (PIN_RATE_LIMIT_EXCEEDED r),
         incr_window now (pinFailCount (q_userId q) (q_branchId q)) PIN_FAIL_WINDOW rs)"
      using check_pin_cases(1) by blast
    note r = createRedemption_pin_refused[OF e this, of rid bytes]
    show ?thesis by (simp add: r spec False)
  qed
qed

text \<open>So the wrong-PIN answers to a history of guesses are the admitted attempts of those requests that
  reach the gate.\<close>

lemma guesses_attempts:
  assumes "guesses u b secret h" "branch_secret decrypt d b secret" "sorted (t0 # map fst h)"
    and "\<forall>t\<in>set (map fst h). t < T"
  shows "\<exists>ts. sorted (t0 # ts) \<and> (\<forall>t\<in>set ts. t < T) \<and>
    length (filter is_wrong_pin (run_redeems decrypt d rs h)) =
      fst (run_attempts (abuser_attempt (pinFailCount u b) PIN_FAIL_LIMIT PIN_FAIL_WINDOW) rs ts)"
  using assms(1,3,4)
proof (induction h arbitrary: rs t0)
  case Nil
  show ?case by (intro exI[of _ "[]"]) simp
next
  case (Cons x h)
  let ?at = "abuser_attempt (pinFailCount u b) PIN_FAIL_LIMIT PIN_FAIL_WINDOW"
  obtain now q rid bytes where x: "x = (now, q, rid, bytes)" by (cases x) auto
  have q: "q_userId q = u" "q_branchId q = b" "pin_format (q_pin q)" "q_pin q \<noteq> secret"
    and h: "guesses u b secret h" using Cons.prems(1) by (simp_all add: guesses_def x)
  have times: "sorted (now # map fst h)" "\<forall>t\<in>set (map fst h). t < T" "t0 \<le> now" "now < T"
    "\<forall>t\<in>set (map fst h). now \<le> t"
    using Cons.prems(2,3) by (auto simp: x)
  have "branch_secret decrypt d (q_branchId q) secret" using assms(2) q(2) by simp
  from wrong_guess[OF this q(3,4), of now rid bytes rs] show ?case
  proof (elim disjE exE conjE)
    fix e assume c: "createRedemption decrypt now q rid bytes d rs = (Inl e, d, rs)" "\<not> is_pin_error e"
    have "\<not> is_wrong_pin (Inl e)" using c(2) by (cases e) auto
    moreover obtain ts where "sorted (now # ts)" "\<forall>t\<in>set ts. t < T"
      "length (filter is_wrong_pin (run_redeems decrypt d rs h)) = fst (run_attempts ?at rs ts)"
      using Cons.IH[OF h times(1,2)] by blast
    ultimately show ?thesis using times(3) c(1) by (intro exI[of _ ts]) (auto simp: x)
  next
    fix e assume c: "createRedemption decrypt now q rid bytes d rs =
        (Inl e, d, snd (abuser_attempt (pinFailCount (q_userId q) (q_branchId q)) PIN_FAIL_LIMIT PIN_FAIL_WINDOW now rs))"
      "is_wrong_pin (Inl e) = fst (abuser_attempt (pinFailCount (q_userId q) (q_branchId q)) PIN_FAIL_LIMIT PIN_FAIL_WINDOW now rs)"
    obtain ts where "sorted (now # ts)" "\<forall>t\<in>set ts. t < T"
      "length (filter is_wrong_pin (run_redeems decrypt d (snd (?at now rs)) h)) =
         fst (run_attempts ?at (snd (?at now rs)) ts)"
      using Cons.IH[OF h times(1,2)] by blast
    then show ?thesis using times(3,4) c q(1,2) by (intro exI[of _ "now # ts"]) (auto simp: x split: prod.splits)
  qed
qed

section \<open>A sample world\<close>

text \<open>One merchant, one branch with PIN 1234, a cycle voucher and one subscriber.\<close>

definition sample_decrypt :: "string \<Rightarrow> decrypt_fault + string" where
  "sample_decrypt s = (if s = ''enc'' then Inr ''1234'' else Inl GcmAuthError)"

definition sample_voucher :: voucher where
  "sample_voucher = \<lparr>v_merchantId = ''m'', v_type = BOGO, v_title = ''t'', v_estimatedSaving = 500,
     v_expiryDate = None, v_cooldownSeconds = None, v_status = V_ACTIVE, v_approvalStatus = A_APPROVED,
     v_availabilityWindows = []\<rparr>"

definition sample_branch :: "string \<Rightarrow> branch" where
  "sample_branch stored = \<lparr>b_merchantId = ''m'', b_name = ''B'', b_redemptionPin = Some stored, b_isActive = True,
     b_redemptionAlertsEnabled = True, b_lifecycleStatus = LIVE\<rparr>"

definition sample_subscription :: subscription where
  "sample_subscription = \<lparr>s_planId = ''p'', s_stripeSubscriptionId = None, s_stripeCustomerId = None,
     s_status = S_ACTIVE, s_currentPeriodStart = 0, s_currentPeriodEnd = 2678400000, s_cancelledAt = None,
     s_cancelAtPeriodEnd = False, s_promoCodeId = None, s_cycleAnchorDate = 0\<rparr>"

definition sample_db :: "string \<Rightarrow> db" where
  "sample_db stored =
     \<lparr>merchants = [''m'' \<mapsto> \<lparr>m_status = M_ACTIVE, m_businessName = ''M''\<rparr>], vouchers = [''v'' \<mapsto> sample_voucher],
      branches = [''b'' \<mapsto> sample_branch stored], subscriptions = [''u'' \<mapsto> sample_subscription],
      users = [''u'' \<mapsto> \<lparr>u_phoneVerified = True, u_firstName = Some ''Ann'', u_lastName = Some ''Lee''\<rparr>],
      cycleStates = Map.empty, redemptions = [], memberships = [], screenshotEvents = [], auditLog = [],
      notifications = []\<rparr>"

definition sample_request :: "string \<Rightarrow> redeem_request" where
  "sample_request pin = \<lparr>q_userId = ''u'', q_voucherId = ''v'', q_branchId = ''b'', q_pin = pin\<rparr>"

section \<open>Properties\<close>

text \<open>C11: no PIN oracle: when the request is not eligible (dead or expired voucher, closed window,
  unavailable or foreign branch, no subscription, unverified phone, already redeemed, in cooldown, no
  PIN set) the handler answers one and the same error for every submitted PIN, whatever the stored
  PIN's ciphertext decrypts to, never \<open>INVALID_PIN\<close> nor the lockout, and touches neither the store
  nor the counters.\<close>

theorem ineligible_answer_ignores_pin:
  assumes "\<nexists>v stored. eligible d now q v stored"
  shows "\<exists>e. \<not> is_pin_error e \<and>
    (\<forall>pin decrypt rid bytes rs. createRedemption decrypt now (q\<lparr>q_pin := pin\<rparr>) rid bytes d rs = (Inl e, d, rs))"
proof -
  have same: "check_eligible d now (q\<lparr>q_pin := pin\<rparr>) = check_eligible d now q" for pin
    by (auto simp: check_eligible_def split: sum.splits option.splits)
  have "check_eligible d now q \<noteq> Inr (v, stored, ent)" for v stored ent
    using assms check_eligible_Inr by blast
  then obtain e where "check_eligible d now q = Inl e" by (cases "check_eligible d now q") auto
  then show ?thesis
    using check_eligible_error createRedemption_ineligible same by (intro exI[of _ e]) simp
qed

theorem ineligible_answer_ignores_pin_witness:
  "\<exists>e. \<not> is_pin_error e \<and> (\<forall>pin decrypt rid bytes rs.
     createRedemption decrypt 0 (sample_request pin) rid bytes
       ((sample_db ''enc'')\<lparr>subscriptions := Map.empty\<rparr>) rs =
     (Inl e, (sample_db ''enc'')\<lparr>subscriptions := Map.empty\<rparr>, rs))"
proof -
  have "\<nexists>v stored. eligible ((sample_db ''enc'')\<lparr>subscriptions := Map.empty\<rparr>) 0 (sample_request '''') v stored"
    by (simp add: eligible_def)
  from ineligible_answer_ignores_pin[OF this] show ?thesis by (simp add: sample_request_def)
qed

text \<open>C10: a redemption takes an eligible request and the right PIN: when the handler returns a row, the
  request satisfied every eligibility rule, fewer than five failures were on the counter, the stored
  PIN decrypts to the submitted one, the row is the request's, unvalidated, and is the only one added
  to the store, and the failure counter is cleared.\<close>

theorem redemption_needs_right_pin:
  assumes "createRedemption decrypt now q rid bytes d rs = (Inr row, d', rs')"
  shows "\<exists>v stored. eligible d now q v stored \<and> decrypt stored = Inr (q_pin q) \<and>
    get_number now rs (pinFailCount (q_userId q) (q_branchId q)) < 5 \<and>
    r_userId row = q_userId q \<and> r_voucherId row = q_voucherId q \<and> r_branchId row = q_branchId q \<and>
    r_redeemedAt row = now \<and> \<not> r_isValidated row \<and> redemptions d' = redemptions d @ [row] \<and>
    count_of now rs' (pinFailCount (q_userId q) (q_branchId q)) = None"
proof -
  obtain v stored sub x where s: "eligible d now q v stored" "check_pin decrypt now rs q stored = (Inr x, rs')"
    "row = redemption_row q v (entitlement_of now v sub) now rid bytes" "redemptions d' = redemptions d @ [row]"
    using createRedemption_success[OF assms] by metis
  show ?thesis
    using s(1,3,4) check_pin_success[OF s(2)]
    by (intro exI[of _ v] exI[of _ stored]) (simp add: redemption_row_def PIN_FAIL_LIMIT_def)
qed

theorem redemption_needs_right_pin_witness:
  "\<exists>row. fst (createRedemption sample_decrypt 1000 (sample_request ''1234'') ''r'' [1, 2, 3] (sample_db ''enc'') empty_redis)
      = Inr row \<and> r_redeemedAt row = 1000"
proof -
  let ?r = "createRedemption sample_decrypt 1000 (sample_request ''1234'') ''r'' [1, 2, 3] (sample_db ''enc'') empty_redis"
  have "isOk (fst ?r)" by code_simp
  then obtain row d' rs' where r: "?r = (Inr row, d', rs')" by (metis isOk_iff prod.collapse)
  from redemption_needs_right_pin[OF this] have "r_redeemedAt row = 1000" by blast
  then show ?thesis by (simp add: r)
qed

text \<open>A key or ciphertext fault is never a wrong guess: when the stored PIN does not decrypt, an
  eligible request admitted by the gate gets the fault's error (never \<open>INVALID_PIN\<close>), leaves the
  store alone and every failure counter at the value it had.\<close>

theorem decrypt_fault_never_counts:
  assumes "eligible d now q v stored" and "decrypt stored = Inl err"
    and "0 \<le> get_number now rs (pinFailCount (q_userId q) (q_branchId q))"
    and "get_number now rs (pinFailCount (q_userId q) (q_branchId q)) < 5"
  shows "fst (createRedemption decrypt now q rid bytes d rs) = Inl (classifyPinDecryptError err) \<and>
    \<not> is_pin_error (classifyPinDecryptError err) \<and>
    fst (snd (createRedemption decrypt now q rid bytes d rs)) = d \<and>
    get_number now (snd (snd (createRedemption decrypt now q rid bytes d rs))) k = get_number now rs k"
proof -
  let ?k = "pinFailCount (q_userId q) (q_branchId q)"
  obtain sub where "subscriptions d (q_userId q) = Some sub" using assms(1) by (auto simp: eligible_def)
  then have e: "check_eligible d now q = Inr (v, stored, entitlement_of now v sub)"
    using assms(1) by (simp add: check_eligible_Inr)
  have n: "get_number now rs ?k < PIN_FAIL_LIMIT" using assms(4) by (simp add: PIN_FAIL_LIMIT_def)
  have "compare_pin decrypt stored (q_pin q) = Inl err" using assms(2) by (simp add: compare_pin_def)
  note c = createRedemption_pin_refused[OF e check_pin_cases(2)[OF n this]]
  have "get_number now (refund now ?k (incr_window now ?k PIN_FAIL_WINDOW rs)) k = get_number now rs k"
    using get_number_refund[OF assms(3)]
    by (cases "k = ?k") (auto intro!: get_number_frame simp: refund_frame incr_window_frame)
  then show ?thesis by (simp add: c classifyPinDecryptError_def)
qed

theorem decrypt_fault_never_counts_witness:
  "fst (createRedemption sample_decrypt 1000 (sample_request ''1234'') ''r'' [1] (sample_db ''bad'') empty_redis)
     = Inl REDEMPTION_PIN_UNREADABLE"
proof -
  have sub: "subscriptions (sample_db ''bad'') ''u'' = Some sample_subscription" by (simp add: sample_db_def)
  have "case check_eligible (sample_db ''bad'') 1000 (sample_request ''1234'') of
      Inr (v, stored, e) \<Rightarrow> stored = ''bad'' | _ \<Rightarrow> False"
    by code_simp
  then obtain v ent where "check_eligible (sample_db ''bad'') 1000 (sample_request ''1234'') = Inr (v, ''bad'', ent)"
    by (auto simp: isOk_iff split: sum.splits prod.splits)
  then have e: "eligible (sample_db ''bad'') 1000 (sample_request ''1234'') v ''bad''"
    by (simp add: check_eligible_Inr)
  have "sample_decrypt ''bad'' = Inl GcmAuthError" by (simp add: sample_decrypt_def)
  moreover have "get_number 1000 empty_redis j = 0" for j
    by (simp add: get_number_def count_of_def lookup_live_def empty_redis_def)
  ultimately show ?thesis
    using decrypt_fault_never_counts[where decrypt = sample_decrypt and rs = empty_redis, OF e]
    by (simp add: classifyPinDecryptError_def)
qed

text \<open>C2: the branch PIN cannot be brute-forced: whatever vouchers a user names, a history of
  well-formed wrong guesses at one branch within fifteen minutes is answered \<open>INVALID_PIN\<close> at most
  ten times (the end of one counting window and the whole of the next), and at most five times
  when the counter is clear at the start; every other guess never reaches the comparison.\<close>

theorem pin_bruteforce_bounded:
  assumes "guesses u b secret h" and "branch_secret decrypt d b secret"
    and "sorted (t0 # map fst h)" and "\<forall>t\<in>set (map fst h). t < t0 + 15 * 60 * 1000"
    and "counter_ok (pinFailCount u b) rs"
  shows "length (filter is_wrong_pin (run_redeems decrypt d rs h)) \<le>
    (if get_number t0 rs (pinFailCount u b) = 0 then 5 else 10)"
proof -
  have T: "\<forall>t\<in>set (map fst h). t < t0 + PIN_FAIL_WINDOW * 1000"
    using assms(4) by (simp add: PIN_FAIL_WINDOW_def)
  obtain ts where ts: "sorted (t0 # ts)" "\<forall>t\<in>set ts. t < t0 + PIN_FAIL_WINDOW * 1000"
    "length (filter is_wrong_pin (run_redeems decrypt d rs h)) =
      fst (run_attempts (abuser_attempt (pinFailCount u b) PIN_FAIL_LIMIT PIN_FAIL_WINDOW) rs ts)"
    using guesses_attempts[OF assms(1-3) T] by blast
  show ?thesis
    using pin.admitted_within_window[OF assms(5) ts(1,2)] ts(3)
    by (auto simp: PIN_FAIL_LIMIT_def split: if_splits)
qed

definition sample_guesses :: "arrival list" where
  "sample_guesses = map (\<lambda>t. (t, sample_request ''9999'', ''r'', [])) [0, 1, 2, 3, 4, 5, 6]"

theorem pin_bruteforce_bounded_witness:
  "length sample_guesses = 7 \<and>
   length (filter is_wrong_pin (run_redeems sample_decrypt (sample_db ''enc'') empty_redis sample_guesses)) \<le> 5"
proof -
  have g: "guesses ''u'' ''b'' ''1234'' sample_guesses"
    by (simp add: guesses_def sample_guesses_def sample_request_def pin_format_def is_digit_def)
  have s: "branch_secret sample_decrypt (sample_db ''enc'') ''b'' ''1234''"
    by (simp add: branch_secret_def pin_format_def is_digit_def sample_db_def sample_branch_def sample_decrypt_def)
  have t: "sorted (0 # map fst sample_guesses)" "\<forall>t\<in>set (map fst sample_guesses). t < 0 + 15 * 60 * 1000"
    by (simp_all add: sample_guesses_def)
  have z: "get_number 0 empty_redis (pinFailCount ''u'' ''b'') = 0"
    by (simp add: get_number_def count_of_def lookup_live_def empty_redis_def)
  show ?thesis
    using pin_bruteforce_bounded[OF g s t counter_ok_empty] by (simp add: z sample_guesses_def)
qed

text \<open>A code collision answers \<open>ALREADY_REDEEMED\<close> to a customer who has not redeemed: nothing draws
  the code again (a comment says the caller does), and the unique violation of \<open>redemptionCode\<close> is
  taken for that of the cycle row, which the rolled-back first transaction did not leave.\<close>

theorem code_collision_reads_as_redeemed:
  assumes "cycleStates d (r_userId row, r_voucherId row) = None"
    and "r \<in> set (redemptions d)" and "r_redemptionCode r = r_redemptionCode row"
  shows "claim_cycle row start d = Inl ALREADY_REDEEMED"
proof -
  have "list_ex (\<lambda>r. r_redemptionCode r = r_redemptionCode row) (redemptions d)"
    using assms(2,3) by (auto simp: list_ex_iff)
  then have "cycle_tx1 row start d = Inl T_redemptionCode"
    by (simp add: cycle_tx1_def assms(1) create_row_def put_state_def)
  then show ?thesis by (simp add: claim_cycle_def cycle_tx2_def assms(1))
qed

definition sample_row :: redemption where
  "sample_row = redemption_row (sample_request ''1234'') sample_voucher
     (entitlement_of 1000 sample_voucher sample_subscription) 1000 ''r'' [1, 2, 3]"

theorem code_collision_reads_as_redeemed_witness:
  "rows_of ''u'' ''v'' ((sample_db ''enc'')\<lparr>redemptions := [sample_row\<lparr>r_userId := ''x''\<rparr>]\<rparr>) = [] \<and>
   claim_cycle sample_row 0 ((sample_db ''enc'')\<lparr>redemptions := [sample_row\<lparr>r_userId := ''x''\<rparr>]\<rparr>) = Inl ALREADY_REDEEMED"
proof -
  let ?d = "(sample_db ''enc'')\<lparr>redemptions := [sample_row\<lparr>r_userId := ''x''\<rparr>]\<rparr>"
  have "claim_cycle sample_row 0 ?d = Inl ALREADY_REDEEMED"
    by (rule code_collision_reads_as_redeemed[of _ _ "sample_row\<lparr>r_userId := ''x''\<rparr>"])
      (simp_all add: sample_db_def)
  then show ?thesis by (simp add: rows_of_def)
qed

end
