(* ===== verification/Claims.thy ===== *)
theory Claims
  imports Redemption
begin

text \<open>
  Concurrent redemptions. The guards of \<open>createRedemption\<close> read without locks, so two requests may
  both pass them; what holds the line is the claim. Its transactions run here in any order, from
  any number of requests: \<open>claim_step\<close> is the commit of one transaction (or the P2002 that sends a cycle
  claim to its second transaction), and \<open>claim_discipline\<close> is the contract that each claim keeps: a
  commit adds at most one redemption, and one that is apart from all earlier ones.

  Under READ COMMITTED the two statements of the first cycle transaction may straddle another
  commit; the outcome is then a commit that a single step describes or a P2002, so the step relation allows the
  P2002 at any moment.
\<close>

section \<open>The contract\<close>

locale claim_discipline =
  fixes step :: "'w \<Rightarrow> 'w \<Rightarrow> bool"
    and slots :: "'w \<Rightarrow> 's list"
    and apart :: "'s \<Rightarrow> 's \<Rightarrow> bool"
    and inv :: "'w \<Rightarrow> bool"
  assumes step_inv: "inv w \<Longrightarrow> step w w' \<Longrightarrow> inv w'"
    and step_slots: "inv w \<Longrightarrow> step w w' \<Longrightarrow>
      slots w' = slots w \<or> (\<exists>s. slots w' = slots w @ [s] \<and> (\<forall>x\<in>set (slots w). apart x s))"
begin

lemma reach_inv: "step\<^sup>*\<^sup>* w w' \<Longrightarrow> inv w \<Longrightarrow> inv w'"
  by (induction rule: rtranclp_induct) (auto intro: step_inv)

lemma reach_apart:
  assumes "step\<^sup>*\<^sup>* w w'" "inv w" "sorted_wrt apart (slots w)"
  shows "sorted_wrt apart (slots w')"
  using assms(1)
proof (induction rule: rtranclp_induct)
  case base
  then show ?case using assms(3) .
next
  case (step w1 w2)
  then have "inv w1" using reach_inv assms(2) by blast
  from step_slots[OF this step.hyps(2)] step.IH show ?case
    by (auto simp: sorted_wrt_snoc)
qed

text \<open>History is append-only.\<close>

lemma reach_prefix:
  assumes "step\<^sup>*\<^sup>* w w'" "inv w"
  shows "\<exists>ss. slots w' = slots w @ ss"
  using assms(1)
proof (induction rule: rtranclp_induct)
  case base
  show ?case by simp
next
  case (step w1 w2)
  then have "inv w1" using reach_inv assms(2) by blast
  from step_slots[OF this step.hyps(2)] step.IH show ?case by auto
qed

end

section \<open>The transactions of concurrent requests\<close>

text \<open>The store, and the cycle claims whose first transaction failed with P2002.\<close>

type_synonym claims_world = "db \<times> (redemption \<times> time) list"

definition is_cycle :: "voucher \<Rightarrow> bool" where
  "is_cycle v \<longleftrightarrow> v_type v \<noteq> TIME_LIMITED \<and> v_type v \<noteq> REUSABLE"

text \<open>\<open>vs\<close>: the vouchers; \<open>anchor\<close>: the cycle anchor of each user's subscription, immutable.\<close>

definition start_of :: "(ident \<Rightarrow> time) \<Rightarrow> redemption \<Rightarrow> time" where
  "start_of anchor row = fst (getCurrentCycleWindow (anchor (r_userId row)) (r_redeemedAt row))"

inductive claim_step ::
  "(ident \<rightharpoonup> voucher) \<Rightarrow> (ident \<Rightarrow> time) \<Rightarrow> claims_world \<Rightarrow> claims_world \<Rightarrow> bool"
  for vs anchor where
  cycle_first: "claim_step vs anchor (d, P) (d', P)"
    if "vs (r_voucherId row) = Some v" "is_cycle v" "r_windowStartsAt row = None"
      "cycle_tx1 row (start_of anchor row) d = Inr d'"
| cycle_conflict: "claim_step vs anchor (d, P) (d, (row, start_of anchor row) # P)"
    if "vs (r_voucherId row) = Some v" "is_cycle v" "r_windowStartsAt row = None"
| cycle_retry: "claim_step vs anchor (d, P) (d', remove1 (row, start) P)"
    if "(row, start) \<in> set P" "cycle_tx2 row start d = Inr d'"
| cycle_lost: "claim_step vs anchor (d, P) (d, remove1 (row, start) P)"
    if "(row, start) \<in> set P"
| window: "claim_step vs anchor (d, P) (d', P)"
    if "vs (r_voucherId row) = Some v" "v_type v = TIME_LIMITED"
      "getCurrentWindowOccurrence (v_availabilityWindows v) (r_redeemedAt row) = Inr (Some (s, e))"
      "r_windowStartsAt row = Some s" "claim_window row v d = Inr d'"
| reusable: "claim_step vs anchor (d, P) (d', P)"
    if "vs (r_voucherId row) = Some v" "v_type v = REUSABLE" "r_windowStartsAt row = None"
      "claim_reusable row (effectiveCooldownSeconds (v_cooldownSeconds v) * 1000) d = Inr d'"

inductive_cases claim_stepE: "claim_step vs anchor w w'"

text \<open>Pending retries are cycle claims with the start their instant gives.\<close>

definition retries_ok :: "(ident \<rightharpoonup> voucher) \<Rightarrow> (ident \<Rightarrow> time) \<Rightarrow> claims_world \<Rightarrow> bool" where
  "retries_ok vs anchor w \<longleftrightarrow> (\<forall>(row, start)\<in>set (snd w). start = start_of anchor row \<and>
     r_windowStartsAt row = None \<and> (\<exists>v. vs (r_voucherId row) = Some v \<and> is_cycle v))"

lemma retries_ok_step: "claim_step vs anchor w w' \<Longrightarrow> retries_ok vs anchor w \<Longrightarrow> retries_ok vs anchor w'"
  by (induction rule: claim_step.induct)
    (auto simp: retries_ok_def dest: notin_set_remove1 set_remove1_subset[THEN subsetD])

section \<open>Rows\<close>

lemma rows_snoc:
  "redemptions d' = redemptions d @ [row] \<Longrightarrow> rows_of u i d' =
     rows_of u i d @ (if r_userId row = u \<and> r_voucherId row = i then [row] else [])"
  by (simp add: rows_of_def)

text \<open>Every step adds nothing, or the row of one committed claim.\<close>

lemma claim_step_rows:
  assumes "claim_step vs anchor w w'" "retries_ok vs anchor w"
  shows "fst w' = fst w \<or>
    (\<exists>row v. vs (r_voucherId row) = Some v \<and> redemptions (fst w') = redemptions (fst w) @ [row] \<and>
      (is_cycle v \<and> r_windowStartsAt row = None \<and>
         (cycle_tx1 row (start_of anchor row) (fst w) = Inr (fst w') \<or>
          cycle_tx2 row (start_of anchor row) (fst w) = Inr (fst w')) \<or>
       v_type v = TIME_LIMITED \<and> r_windowStartsAt row \<noteq> None \<and> claim_window row v (fst w) = Inr (fst w') \<or>
       v_type v = REUSABLE \<and> r_windowStartsAt row = None \<and>
         claim_reusable row (effectiveCooldownSeconds (v_cooldownSeconds v) * 1000) (fst w) = Inr (fst w')))"
  using assms
proof (induction rule: claim_step.induct)
  case (cycle_first row v d d' P)
  then show ?case using cycle_tx1_row by fastforce
next
  case (cycle_retry row start P d d')
  moreover have "start = start_of anchor row" "r_windowStartsAt row = None"
    "\<exists>v. vs (r_voucherId row) = Some v \<and> is_cycle v"
    using cycle_retry by (auto simp: retries_ok_def)
  ultimately show ?case using cycle_tx2_row by fastforce
next
  case (window row v s e d d' P)
  then show ?case using claim_window_row by fastforce
next
  case (reusable row v d d' P)
  moreover have "row\<lparr>r_windowStartsAt := None\<rparr> = row" using reusable(3) by simp
  ultimately show ?case using claim_reusable_row[OF reusable(4)] by fastforce
qed simp_all

text \<open>The claim state of a pair changes only with a commit for that pair.\<close>

lemma create_row_cycleStates: "create_row row d = Inr d' \<Longrightarrow> cycleStates d' = cycleStates d"
  by (drule create_row_Inr) simp

lemma put_state_cycleStates:
  "cycleStates (put_state row start d) =
     (cycleStates d)((r_userId row, r_voucherId row) \<mapsto> claim_state start (r_redeemedAt row))"
  by (simp add: put_state_def)

lemma cycle_commit_state:
  assumes "cycle_tx1 row start d = Inr d' \<or> cycle_tx2 row start d = Inr d'"
  shows "cycleStates d' = (cycleStates d)((r_userId row, r_voucherId row) \<mapsto> claim_state start (r_redeemedAt row))"
    and "\<forall>st. cycleStates d (r_userId row, r_voucherId row) = Some st \<longrightarrow> claimable start st"
  using assms
  by (auto simp: cycle_tx1_def cycle_tx2_def put_state_cycleStates
      split: option.splits if_splits sum.splits dest: create_row_cycleStates)

lemma other_commit_state:
  "claim_window row v d = Inr d' \<Longrightarrow> cycleStates d' = cycleStates d"
  "claim_reusable row cool d = Inr d' \<Longrightarrow> cycleStates d' = cycleStates d"
  by (auto simp: claim_window_def claim_reusable_def throw_next_window_not_Inr
      split: sum.splits option.splits if_splits dest: create_row_cycleStates)

section \<open>Each claim keeps the contract\<close>

text \<open>The claims are interpreted for a fixed assignment of vouchers and anchors and one pair of user and
  voucher, as subrelations with the type of that voucher.\<close>

definition step_for ::
  "(voucher \<Rightarrow> bool) \<Rightarrow> (ident \<rightharpoonup> voucher) \<Rightarrow> (ident \<Rightarrow> time) \<Rightarrow> ident \<Rightarrow> claims_world \<Rightarrow> claims_world \<Rightarrow> bool" where
  "step_for kind vs anchor i w w' \<longleftrightarrow>
     claim_step vs anchor w w' \<and> (\<exists>v. vs i = Some v \<and> kind v)"

lemma step_for_reach:
  assumes "(claim_step vs anchor)\<^sup>*\<^sup>* w w'" "vs i = Some v" "kind v"
  shows "(step_for kind vs anchor i)\<^sup>*\<^sup>* w w'"
  using assms(1)
  by (induction rule: rtranclp_induct)
    (auto intro: rtranclp.rtrancl_into_rtrancl simp: step_for_def assms(2,3))

text \<open>Cycle vouchers: the slot of a row is the start of its cycle.\<close>

definition cycle_slots :: "(ident \<Rightarrow> time) \<Rightarrow> ident \<Rightarrow> ident \<Rightarrow> claims_world \<Rightarrow> time list" where
  "cycle_slots anchor u i w = map (start_of anchor) (rows_of u i (fst w))"

definition cycle_inv :: "(ident \<rightharpoonup> voucher) \<Rightarrow> (ident \<Rightarrow> time) \<Rightarrow> ident \<Rightarrow> ident \<Rightarrow> claims_world \<Rightarrow> bool" where
  "cycle_inv vs anchor u i w \<longleftrightarrow> retries_ok vs anchor w \<and>
     (\<forall>s\<in>set (cycle_slots anchor u i w). \<exists>st. cycleStates (fst w) (u, i) = Some st \<and>
        isRedeemedInCurrentCycle st \<and> s \<le> cycleStartDate st)"

lemma cycle_commit_slots:
  assumes inv: "cycle_inv vs anchor u i (d, P)"
    and tx: "cycle_tx1 row (start_of anchor row) d = Inr d' \<or> cycle_tx2 row (start_of anchor row) d = Inr d'"
    and row: "r_userId row = u" "r_voucherId row = i" "redemptions d' = redemptions d @ [row]"
  shows "cycle_slots anchor u i (d', P') = cycle_slots anchor u i (d, P) @ [start_of anchor row]"
    and "\<forall>x\<in>set (cycle_slots anchor u i (d, P)). x < start_of anchor row"
    and "cycleStates d' (u, i) = Some (claim_state (start_of anchor row) (r_redeemedAt row))"
proof -
  show "cycle_slots anchor u i (d', P') = cycle_slots anchor u i (d, P) @ [start_of anchor row]"
    using row by (simp add: cycle_slots_def rows_snoc)
  note st = cycle_commit_state[OF tx, unfolded row(1,2)]
  show "\<forall>x\<in>set (cycle_slots anchor u i (d, P)). x < start_of anchor row"
    using inv st(2) by (fastforce simp: cycle_inv_def claimable_def)
  show "cycleStates d' (u, i) = Some (claim_state (start_of anchor row) (r_redeemedAt row))"
    using st(1) by simp
qed

lemma cycle_other_row:
  assumes "redemptions d' = redemptions d @ [row]" "\<not> (r_userId row = u \<and> r_voucherId row = i)"
  shows "cycle_slots anchor u i (d', P') = cycle_slots anchor u i (d, P)"
  using assms by (auto simp: cycle_slots_def rows_snoc)

lemma cycle_other_state:
  assumes "vs (r_voucherId row) = Some v" "vs i = Some vi" "is_cycle vi"
    "\<not> (r_userId row = u \<and> r_voucherId row = i)"
    "is_cycle v \<and> r_windowStartsAt row = None \<and>
         (cycle_tx1 row start d = Inr d' \<or> cycle_tx2 row start d = Inr d') \<or>
       claim_window row v d = Inr d' \<or> claim_reusable row cool d = Inr d'"
  shows "cycleStates d' (u, i) = cycleStates d (u, i)"
  using assms cycle_commit_state(1)[of row start d d'] other_commit_state by auto

lemma cycle_step_cases:
  assumes "claim_step vs anchor (d, P) (d', P')" "retries_ok vs anchor (d, P)" "vs i = Some vi" "is_cycle vi"
  obtains "d' = d"
  | "cycle_slots anchor u i (d', P') = cycle_slots anchor u i (d, P)" "cycleStates d' (u, i) = cycleStates d (u, i)"
  | row where "r_userId row = u" "r_voucherId row = i" "redemptions d' = redemptions d @ [row]"
    "cycle_tx1 row (start_of anchor row) d = Inr d' \<or> cycle_tx2 row (start_of anchor row) d = Inr d'"
proof (cases "d' = d")
  case False
  then obtain row v where r: "vs (r_voucherId row) = Some v" "redemptions d' = redemptions d @ [row]"
    "is_cycle v \<and> r_windowStartsAt row = None \<and>
       (cycle_tx1 row (start_of anchor row) d = Inr d' \<or> cycle_tx2 row (start_of anchor row) d = Inr d') \<or>
     v_type v = TIME_LIMITED \<and> r_windowStartsAt row \<noteq> None \<and> claim_window row v d = Inr d' \<or>
     v_type v = REUSABLE \<and> r_windowStartsAt row = None \<and>
       claim_reusable row (effectiveCooldownSeconds (v_cooldownSeconds v) * 1000) d = Inr d'"
    using claim_step_rows[OF assms(1,2)] by auto
  show ?thesis
  proof (cases "r_userId row = u \<and> r_voucherId row = i")
    case True
    then have "is_cycle v" using r(1) assms(3,4) by auto
    then show ?thesis using that(3)[of row] r(2,3) True by (auto simp: is_cycle_def)
  next
    case other: False
    have "cycleStates d' (u, i) = cycleStates d (u, i)"
      using cycle_other_state[OF r(1) assms(3,4) other] r(3) by blast
    then show ?thesis using that(2) cycle_other_row[OF r(2) other] by blast
  qed
qed (rule that(1))

lemma cycle_step_keeps:
  assumes inv: "cycle_inv vs anchor u i w" and step: "step_for is_cycle vs anchor i w w'"
  shows "cycle_inv vs anchor u i w' \<and> (cycle_slots anchor u i w' = cycle_slots anchor u i w \<or>
    (\<exists>s. cycle_slots anchor u i w' = cycle_slots anchor u i w @ [s] \<and> (\<forall>x\<in>set (cycle_slots anchor u i w). x < s)))"
proof -
  obtain d P where w: "w = (d, P)" by fastforce
  obtain d' P' where w': "w' = (d', P')" by fastforce
  obtain vi where vi: "vs i = Some vi" "is_cycle vi" using step by (auto simp: step_for_def)
  have st: "claim_step vs anchor (d, P) (d', P')" using step by (simp add: step_for_def w w')
  have ok: "retries_ok vs anchor (d, P)" using inv by (simp add: cycle_inv_def w)
  have ok': "retries_ok vs anchor (d', P')" using retries_ok_step[OF st ok] .
  from st ok vi show ?thesis
  proof (rule cycle_step_cases)
    assume "d' = d"
    then show ?thesis using inv ok' by (simp add: w w' cycle_inv_def cycle_slots_def)
  next
    assume "cycle_slots anchor u i (d', P') = cycle_slots anchor u i (d, P)"
      "cycleStates d' (u, i) = cycleStates d (u, i)"
    then show ?thesis using inv ok' by (simp add: w w' cycle_inv_def)
  next
    fix row assume r: "r_userId row = u" "r_voucherId row = i" "redemptions d' = redemptions d @ [row]"
      and tx: "cycle_tx1 row (start_of anchor row) d = Inr d' \<or> cycle_tx2 row (start_of anchor row) d = Inr d'"
    note c = cycle_commit_slots[OF inv[unfolded w] tx r]
    show ?thesis unfolding w w' cycle_inv_def
      using c(2) ok' by (auto simp: c(1)[of P'] c(3) claim_state_def)
  qed
qed

interpretation cycle: claim_discipline
  "step_for is_cycle vs anchor i" "cycle_slots anchor u i" "(<)" "cycle_inv vs anchor u i" for vs anchor u i
  using cycle_step_keeps by unfold_locales metis+

text \<open>Time-limited vouchers: the slot of a row is the window occurrence it carries.\<close>

definition window_slots :: "ident \<Rightarrow> ident \<Rightarrow> claims_world \<Rightarrow> time option list" where
  "window_slots u i w = map r_windowStartsAt (rows_of u i (fst w))"

definition window_inv :: "(ident \<rightharpoonup> voucher) \<Rightarrow> (ident \<Rightarrow> time) \<Rightarrow> claims_world \<Rightarrow> bool" where
  "window_inv vs anchor w \<longleftrightarrow> retries_ok vs anchor w"

definition is_time_limited :: "voucher \<Rightarrow> bool" where
  "is_time_limited v \<longleftrightarrow> v_type v = TIME_LIMITED"

lemma window_commit_fresh:
  assumes "claim_window row v d = Inr d'" "r_windowStartsAt row \<noteq> None"
    "r \<in> set (rows_of (r_userId row) (r_voucherId row) d)"
  shows "r_windowStartsAt r \<noteq> r_windowStartsAt row"
proof -
  have "create_row row d = Inr d'"
    using assms(1) by (auto simp: claim_window_def throw_next_window_not_Inr split: sum.splits if_splits)
  from create_row_fresh(2)[OF this, of r] show ?thesis
    using assms(2,3) by (auto simp: rows_of_def same_window_def)
qed

text \<open>What a step adds to the rows of one pair, whose voucher has one type.\<close>

lemma step_rows_of:
  assumes "claim_step vs anchor w w'" "retries_ok vs anchor w" "vs i = Some vi" "\<not> is_cycle vi"
  obtains "rows_of u i (fst w') = rows_of u i (fst w)"
  | row where "rows_of u i (fst w') = rows_of u i (fst w) @ [row]" "r_userId row = u" "r_voucherId row = i"
    "v_type vi = TIME_LIMITED \<and> r_windowStartsAt row \<noteq> None \<and> claim_window row vi (fst w) = Inr (fst w') \<or>
     v_type vi = REUSABLE \<and> claim_reusable row (effectiveCooldownSeconds (v_cooldownSeconds vi) * 1000) (fst w) = Inr (fst w')"
proof (cases "fst w' = fst w")
  case False
  then obtain row v where r: "vs (r_voucherId row) = Some v" "redemptions (fst w') = redemptions (fst w) @ [row]"
    "is_cycle v \<or>
     v_type v = TIME_LIMITED \<and> r_windowStartsAt row \<noteq> None \<and> claim_window row v (fst w) = Inr (fst w') \<or>
     v_type v = REUSABLE \<and> claim_reusable row (effectiveCooldownSeconds (v_cooldownSeconds v) * 1000) (fst w) = Inr (fst w')"
    using claim_step_rows[OF assms(1,2)] by auto
  show ?thesis
  proof (cases "r_userId row = u \<and> r_voucherId row = i")
    case True
    then have "v = vi" using r(1) assms(3) by simp
    then show ?thesis using that(2)[of row] True rows_snoc[OF r(2), of u i] r(3) assms(4) by auto
  next
    case False
    then show ?thesis using that(1) rows_snoc[OF r(2), of u i] by auto
  qed
qed (simp add: that(1))

interpretation occurrence: claim_discipline
  "step_for is_time_limited vs anchor i" "window_slots u i" "(\<noteq>)" "window_inv vs anchor" for vs anchor u i
proof
  fix w w' :: claims_world
  assume inv: "window_inv vs anchor w" and step: "step_for is_time_limited vs anchor i w w'"
  then obtain vi where st: "claim_step vs anchor w w'" "retries_ok vs anchor w" "vs i = Some vi" "\<not> is_cycle vi"
    and tl: "v_type vi = TIME_LIMITED"
    by (auto simp: step_for_def window_inv_def is_time_limited_def is_cycle_def)
  show "window_inv vs anchor w'" using retries_ok_step[OF st(1,2)] by (simp add: window_inv_def)
  show "window_slots u i w' = window_slots u i w \<or>
    (\<exists>s. window_slots u i w' = window_slots u i w @ [s] \<and> (\<forall>x\<in>set (window_slots u i w). x \<noteq> s))"
    using st
    by (rule step_rows_of[of _ _ _ _ _ _ u])
      (use tl window_commit_fresh in \<open>fastforce simp: window_slots_def\<close>)+
qed

text \<open>Reusable vouchers: the slot of a row is its instant; a commit comes a cooldown after every earlier
  one.\<close>

definition instant_slots :: "ident \<Rightarrow> ident \<Rightarrow> claims_world \<Rightarrow> time list" where
  "instant_slots u i w = map r_redeemedAt (rows_of u i (fst w))"

definition cools :: "int \<Rightarrow> voucher \<Rightarrow> bool" where
  "cools coolMs v \<longleftrightarrow> v_type v = REUSABLE \<and> coolMs = effectiveCooldownSeconds (v_cooldownSeconds v) * 1000"

lemma reusable_commit_cool:
  assumes "claim_reusable row cool d = Inr d'" "r \<in> set (rows_of (r_userId row) (r_voucherId row) d)"
  shows "r_redeemedAt r + cool \<le> r_redeemedAt row"
proof -
  have "in_cooldown d (r_userId row) (r_voucherId row) (r_redeemedAt row) cool = None"
    using assms(1) by (auto simp: claim_reusable_def split: option.splits)
  then show ?thesis using assms(2) by (simp add: in_cooldown_None)
qed

interpretation cooling: claim_discipline
  "step_for (cools c) vs anchor i" "instant_slots u i" "\<lambda>x y. x + c \<le> y" "window_inv vs anchor" for c vs anchor u i
proof
  fix w w' :: claims_world
  assume inv: "window_inv vs anchor w" and step: "step_for (cools c) vs anchor i w w'"
  then obtain vi where st: "claim_step vs anchor w w'" "retries_ok vs anchor w" "vs i = Some vi" "\<not> is_cycle vi"
    and tl: "v_type vi = REUSABLE" "c = effectiveCooldownSeconds (v_cooldownSeconds vi) * 1000"
    by (auto simp: step_for_def window_inv_def cools_def is_cycle_def)
  show "window_inv vs anchor w'" using retries_ok_step[OF st(1,2)] by (simp add: window_inv_def)
  show "instant_slots u i w' = instant_slots u i w \<or>
    (\<exists>s. instant_slots u i w' = instant_slots u i w @ [s] \<and> (\<forall>x\<in>set (instant_slots u i w). x + c \<le> s))"
    using st
    by (rule step_rows_of[of _ _ _ _ _ _ u])
      (use tl reusable_commit_cool in \<open>fastforce simp: instant_slots_def\<close>)+
qed

lemma sorted_wrt_distinct: "sorted_wrt (\<noteq>) xs \<longleftrightarrow> distinct xs"
  by (induction xs) auto

section \<open>The handler runs as claim steps\<close>

text \<open>A successful \<open>createRedemption\<close> commits as claim steps do, so every property of reachable stores
  holds of the stores that handlers leave.\<close>

lemma claim_cycle_steps:
  assumes "vs (r_voucherId row) = Some v" "is_cycle v" "r_windowStartsAt row = None"
    and c: "claim_cycle row (start_of anchor row) d = Inr d'"
  shows "(claim_step vs anchor)\<^sup>*\<^sup>* (d, P) (d', P)"
proof (cases "cycle_tx1 row (start_of anchor row) d")
  case (Inr d1)
  then have "claim_step vs anchor (d, P) (d', P)"
    using c assms(1-3) by (intro cycle_first) (auto simp: claim_cycle_def)
  then show ?thesis by blast
next
  case (Inl t)
  then have tx2: "cycle_tx2 row (start_of anchor row) d = Inr d'" using c by (simp add: claim_cycle_def)
  have "claim_step vs anchor (d, P) (d, (row, start_of anchor row) # P)"
    using assms(1-3) by (rule cycle_conflict)
  moreover have "claim_step vs anchor (d, (row, start_of anchor row) # P) (d', P)"
    using cycle_retry[OF _ tx2, of "(row, start_of anchor row) # P" vs anchor] by simp
  ultimately show ?thesis by (meson converse_rtranclp_into_rtranclp r_into_rtranclp)
qed

lemma redemption_row_select [simp]:
  "r_userId (redemption_row q v ent now rid bytes) = q_userId q"
  "r_voucherId (redemption_row q v ent now rid bytes) = q_voucherId q"
  "r_redeemedAt (redemption_row q v ent now rid bytes) = now"
  "r_windowStartsAt (redemption_row q v ent now rid bytes) = e_windowStartsAt ent"
  by (simp_all add: redemption_row_def)

lemma claim_steps:
  fixes q v sub now rid bytes
  defines "row \<equiv> redemption_row q v (entitlement_of now v sub) now rid bytes"
  assumes v: "vs (q_voucherId q) = Some v" and a: "anchor (q_userId q) = s_cycleAnchorDate sub"
    and used: "unused d now q v sub" and c: "claim row v (entitlement_of now v sub) d = Inr d'"
  shows "(claim_step vs anchor)\<^sup>*\<^sup>* (d, P) (d', P)"
proof -
  have row: "r_voucherId row = q_voucherId q" "start_of anchor row = e_cycleStart (entitlement_of now v sub)"
    by (simp_all add: row_def start_of_def a entitlement_of_def)
  consider (tl) "v_type v = TIME_LIMITED" | (re) "v_type v = REUSABLE" | (cy) "is_cycle v"
    by (auto simp: is_cycle_def)
  then show ?thesis
  proof cases
    case tl
    then obtain s e where occ: "getCurrentWindowOccurrence (v_availabilityWindows v) now = Inr (Some (s, e))"
      using used by (auto simp: unused_def)
    have "claim_step vs anchor (d, P) (d', P)"
      using tl occ c v row(1) by (intro window[of vs row v s e]) (simp_all add: row_def entitlement_of_def claim_def)
    then show ?thesis by blast
  next
    case re
    then have "claim_step vs anchor (d, P) (d', P)"
      using c v row(1) by (intro reusable[of vs row v]) (simp_all add: row_def entitlement_of_def claim_def)
    then show ?thesis by blast
  next
    case cy
    then have "claim_cycle row (start_of anchor row) d = Inr d'"
      using c by (simp add: claim_def is_cycle_def row(2))
    then show ?thesis
      using cy v row(1) by (intro claim_cycle_steps) (simp_all add: row_def entitlement_of_def is_cycle_def)
  qed
qed

section \<open>Properties\<close>

text \<open>C9: the handler refines the claim transactions: whenever \<open>createRedemption\<close> returns a row, the
  store it leaves is, up to the audit entry, reached from the one it read by claim steps of the same
  vouchers and anchors, whatever other claims are waiting for their second transaction.\<close>

theorem handler_refines_claim_steps:
  assumes "createRedemption decrypt now q rid bytes d rs = (Inr row, d', rs')"
    and "\<And>sub. subscriptions d (q_userId q) = Some sub \<Longrightarrow> anchor (q_userId q) = s_cycleAnchorDate sub"
  shows "\<exists>d1. (claim_step (vouchers d) anchor)\<^sup>*\<^sup>* (d, P) (d1, P) \<and>
    d' = d1\<lparr>auditLog := auditLog d1 @ [(q_userId q, ''VOUCHER_REDEEMED'', r_redemptionCode row)]\<rparr>"
proof -
  obtain v stored sub d1 where s: "eligible d now q v stored" "subscriptions d (q_userId q) = Some sub"
    "row = redemption_row q v (entitlement_of now v sub) now rid bytes"
    "claim row v (entitlement_of now v sub) d = Inr d1"
    "d' = d1\<lparr>auditLog := auditLog d1 @ [(q_userId q, ''VOUCHER_REDEEMED'', generateRedemptionCode bytes)]\<rparr>"
    using createRedemption_success[OF assms(1)] by metis
  have "vouchers d (q_voucherId q) = Some v" "unused d now q v sub"
    using s(1,2) by (auto simp: eligible_def)
  then have "(claim_step (vouchers d) anchor)\<^sup>*\<^sup>* (d, P) (d1, P)"
    using assms(2)[OF s(2)] s(4)[unfolded s(3)] by (intro claim_steps)
  then show ?thesis using s(3,5) by (auto simp: redemption_row_def)
qed

theorem handler_refines_claim_steps_witness:
  "\<exists>d1. (claim_step (vouchers (sample_db ''enc'')) (\<lambda>_. 0))\<^sup>*\<^sup>* (sample_db ''enc'', []) (d1, []) \<and>
     length (redemptions d1) = 1"
proof -
  let ?r = "createRedemption sample_decrypt 1000 (sample_request ''1234'') ''r'' [1, 2, 3] (sample_db ''enc'') empty_redis"
  have "isOk (fst ?r)" "length (redemptions (fst (snd ?r))) = 1" by code_simp+
  then obtain row d' rs' where r: "?r = (Inr row, d', rs')" and n: "length (redemptions d') = 1"
    by (metis isOk_iff prod.collapse fst_conv snd_conv)
  have "subscriptions (sample_db ''enc'') (q_userId (sample_request ''1234'')) = Some sub \<Longrightarrow>
      (\<lambda>_. 0) (q_userId (sample_request ''1234'')) = s_cycleAnchorDate sub" for sub
    by (auto simp: sample_db_def sample_request_def sample_subscription_def)
  from handler_refines_claim_steps[OF r, of "\<lambda>_. 0" "[]", OF this] show ?thesis using n by fastforce
qed

text \<open>C1: one redemption per cycle, under any interleaving: from a store with no redemption of a cycle
  voucher by a user, every store that claim transactions of any requests reach in any order
  (including the P2002 retries) holds that user's redemptions of the voucher with strictly increasing
  cycle starts, so never two in one cycle.\<close>

theorem one_redemption_per_cycle:
  assumes "(claim_step vs anchor)\<^sup>*\<^sup>* (d, []) (d', P)" and "vs i = Some v" and "is_cycle v"
    and "rows_of u i d = []"
  shows "sorted_wrt (<) (map (start_of anchor) (rows_of u i d'))"
proof -
  have reach: "(step_for is_cycle vs anchor i)\<^sup>*\<^sup>* (d, []) (d', P)"
    using assms(1-3) by (rule step_for_reach)
  have "cycle_inv vs anchor u i (d, [])" "cycle_slots anchor u i (d, []) = []"
    by (simp_all add: cycle_inv_def cycle_slots_def retries_ok_def assms(4))
  from cycle.reach_apart[OF reach this(1)] show ?thesis by (simp add: cycle_slots_def assms(4))
qed

theorem one_redemption_per_cycle_witness:
  "\<exists>d'. claim_step [''v'' \<mapsto> sample_voucher] (\<lambda>_. 0) (sample_db ''enc'', []) (d', []) \<and>
     rows_of ''u'' ''v'' d' = [sample_row] \<and>
     sorted_wrt (<) (map (start_of (\<lambda>_. 0)) (rows_of ''u'' ''v'' d'))"
proof -
  have w: "r_voucherId sample_row = ''v''" "r_userId sample_row = ''u''" "r_windowStartsAt sample_row = None"
    by (simp_all add: sample_row_def sample_request_def entitlement_of_def sample_voucher_def)
  have cy: "is_cycle sample_voucher" by (simp add: is_cycle_def sample_voucher_def)
  let ?d = "put_state sample_row (start_of (\<lambda>_. 0) sample_row) (sample_db ''enc'')"
  have "cycle_tx1 sample_row (start_of (\<lambda>_. 0) sample_row) (sample_db ''enc'') =
      Inr (?d\<lparr>redemptions := redemptions ?d @ [sample_row]\<rparr>)"
    by (simp add: cycle_tx1_def sample_db_def create_row_def put_state_def)
  from cycle_first[of "[''v'' \<mapsto> sample_voucher]", OF _ cy w(3) this, of "[]"]
  have st: "claim_step [''v'' \<mapsto> sample_voucher] (\<lambda>_. 0) (sample_db ''enc'', [])
      (?d\<lparr>redemptions := redemptions ?d @ [sample_row]\<rparr>, [])"
    by (simp add: w)
  have "rows_of ''u'' ''v'' (?d\<lparr>redemptions := redemptions ?d @ [sample_row]\<rparr>) = [sample_row]"
    by (simp add: rows_of_def w put_state_def sample_db_def)
  moreover have "sorted_wrt (<) (map (start_of (\<lambda>_. 0)) (rows_of ''u'' ''v'' (?d\<lparr>redemptions := redemptions ?d @ [sample_row]\<rparr>)))"
    using st cy
    by (intro one_redemption_per_cycle[of "[''v'' \<mapsto> sample_voucher]" _ "sample_db ''enc''"])
      (auto simp: rows_of_def sample_db_def)
  ultimately show ?thesis using st by blast
qed

text \<open>C18: one redemption per window occurrence: under any interleaving a user's redemptions of a
  time-limited voucher carry pairwise different window starts.\<close>

theorem one_redemption_per_window:
  assumes "(claim_step vs anchor)\<^sup>*\<^sup>* (d, []) (d', P)" and "vs i = Some v" and "v_type v = TIME_LIMITED"
    and "rows_of u i d = []"
  shows "distinct (map r_windowStartsAt (rows_of u i d'))"
proof -
  have "is_time_limited v" by (simp add: is_time_limited_def assms(3))
  then have reach: "(step_for is_time_limited vs anchor i)\<^sup>*\<^sup>* (d, []) (d', P)"
    using step_for_reach[OF assms(1,2)] by blast
  have "window_inv vs anchor (d, [])" by (simp add: window_inv_def retries_ok_def)
  from occurrence.reach_apart[OF reach this, of u] show ?thesis
    by (simp add: window_slots_def assms(4) sorted_wrt_distinct)
qed

theorem one_redemption_per_window_witness:
  "\<exists>v row d'. v_type v = TIME_LIMITED \<and> claim_step [''v'' \<mapsto> v] (\<lambda>_. 0) (sample_db ''enc'', []) (d', []) \<and>
     distinct (map r_windowStartsAt (rows_of ''u'' ''v'' d')) \<and> rows_of ''u'' ''v'' d' = [row]"
proof -
  let ?v = "sample_voucher\<lparr>v_type := TIME_LIMITED,
    v_availabilityWindows := [\<lparr>aw_dayOfWeek = 3, aw_openTime = ''10:00'', aw_closeTime = ''11:00''\<rparr>]\<rparr>"
  let ?row = "sample_row\<lparr>r_redeemedAt := 1781083800000, r_windowStartsAt := Some 1781082000000\<rparr>"
  let ?d = "(sample_db ''enc'')\<lparr>redemptions := [?row]\<rparr>"
  have w: "r_voucherId ?row = ''v''" "r_userId ?row = ''u''"
    by (simp_all add: sample_row_def sample_request_def)
  have occ: "getCurrentWindowOccurrence [\<lparr>aw_dayOfWeek = 3, aw_openTime = ''10:00'', aw_closeTime = ''11:00''\<rparr>]
      1781083800000 = Inr (Some (1781082000000, 1781085600000))" by code_simp
  have "claim_window ?row ?v (sample_db ''enc'') = Inr ?d"
    by (simp add: claim_window_def create_row_def sample_db_def)
  with occ w have st: "claim_step [''v'' \<mapsto> ?v] (\<lambda>_. 0) (sample_db ''enc'', []) (?d, [])"
    by (intro window[of _ ?row ?v 1781082000000 1781085600000]) simp_all
  have "rows_of ''u'' ''v'' ?d = [?row]" by (simp add: rows_of_def w[simplified])
  moreover have "distinct (map r_windowStartsAt (rows_of ''u'' ''v'' ?d))"
    using st by (intro one_redemption_per_window[of "[''v'' \<mapsto> ?v]" _ "sample_db ''enc''"])
      (auto simp: rows_of_def sample_db_def)
  moreover have "v_type ?v = TIME_LIMITED" by simp
  ultimately show ?thesis using st by blast
qed

text \<open>C19: the cooldown holds under any interleaving: a user's redemptions of a reusable voucher follow
  each other by at least its effective cooldown, hence by at least thirty minutes.\<close>

theorem reusable_redemptions_apart:
  assumes "(claim_step vs anchor)\<^sup>*\<^sup>* (d, []) (d', P)" and "vs i = Some v" and "v_type v = REUSABLE"
    and "rows_of u i d = []"
  shows "sorted_wrt (\<lambda>r r'. r_redeemedAt r + effectiveCooldownSeconds (v_cooldownSeconds v) * 1000 \<le> r_redeemedAt r' \<and>
    r_redeemedAt r + 30 * 60 * 1000 \<le> r_redeemedAt r') (rows_of u i d')"
proof -
  let ?c = "effectiveCooldownSeconds (v_cooldownSeconds v) * 1000"
  have "cools ?c v" by (simp add: cools_def assms(3))
  then have reach: "(step_for (cools ?c) vs anchor i)\<^sup>*\<^sup>* (d, []) (d', P)"
    using step_for_reach[OF assms(1,2)] by blast
  have "window_inv vs anchor (d, [])" by (simp add: window_inv_def retries_ok_def)
  from cooling.reach_apart[OF reach this, of u]
  have "sorted_wrt (\<lambda>r r'. r_redeemedAt r + ?c \<le> r_redeemedAt r') (rows_of u i d')"
    by (simp add: instant_slots_def assms(4) sorted_wrt_map)
  moreover have "30 * 60 * 1000 \<le> ?c"
    by (simp add: effectiveCooldownSeconds_def MIN_REUSABLE_COOLDOWN_SECONDS_def)
  ultimately show ?thesis by (auto elim!: sorted_wrt_mono_rel[rotated])
qed

theorem reusable_redemptions_apart_witness:
  "\<exists>d'. claim_step [''v'' \<mapsto> sample_voucher\<lparr>v_type := REUSABLE\<rparr>] (\<lambda>_. 0) (sample_db ''enc'', []) (d', []) \<and>
     rows_of ''u'' ''v'' d' = [sample_row] \<and>
     sorted_wrt (\<lambda>r r'. r_redeemedAt r + 30 * 60 * 1000 \<le> r_redeemedAt r') (rows_of ''u'' ''v'' d')"
proof -
  let ?v = "sample_voucher\<lparr>v_type := REUSABLE\<rparr>" and ?d = "(sample_db ''enc'')\<lparr>redemptions := [sample_row]\<rparr>"
  have w: "r_voucherId sample_row = ''v''" "r_userId sample_row = ''u''" "r_windowStartsAt sample_row = None"
    by (simp_all add: sample_row_def sample_request_def entitlement_of_def sample_voucher_def)
  have "sample_row\<lparr>r_windowStartsAt := None\<rparr> = sample_row" using w(3) by simp
  then have "claim_reusable sample_row (effectiveCooldownSeconds (v_cooldownSeconds ?v) * 1000) (sample_db ''enc'') = Inr ?d"
    by (simp add: claim_reusable_def create_row_def in_cooldown_def latest_redeemedAt_def rows_of_def sample_db_def)
  with w have st: "claim_step [''v'' \<mapsto> ?v] (\<lambda>_. 0) (sample_db ''enc'', []) (?d, [])"
    by (intro reusable[of _ sample_row ?v]) simp_all
  have "sorted_wrt (\<lambda>r r'. r_redeemedAt r + effectiveCooldownSeconds (v_cooldownSeconds ?v) * 1000 \<le> r_redeemedAt r' \<and>
      r_redeemedAt r + 30 * 60 * 1000 \<le> r_redeemedAt r') (rows_of ''u'' ''v'' ?d)"
    using st by (intro reusable_redemptions_apart[of "[''v'' \<mapsto> ?v]" "\<lambda>_. 0" "sample_db ''enc''"])
      (auto simp: rows_of_def sample_db_def)
  then have "sorted_wrt (\<lambda>r r'. r_redeemedAt r + 30 * 60 * 1000 \<le> r_redeemedAt r') (rows_of ''u'' ''v'' ?d)"
    by (auto elim: sorted_wrt_mono_rel[rotated])
  moreover have "rows_of ''u'' ''v'' ?d = [sample_row]" by (simp add: rows_of_def w)
  ultimately show ?thesis using st by blast
qed

end
