(* ===== verification/Membership.thy ===== *)
theory Membership
  imports Store
begin

text \<open>
  \<open>src/api/merchant/shared.ts\<close> and \<open>src/api/shared/merchantMembership.ts\<close>: who a merchant-side
  caller is, what they may do at which branch, and the guards over it. The onboarding step is a string, as in
  the source; a missing status is \<open>None\<close>.

  \<open>resolveTopLevelCategoryId\<close> takes the category table as its argument.
\<close>

section \<open>Memberships\<close>

record merchant_context =
  mc_adminId :: ident
  mc_merchantId :: ident
  mc_role :: merchant_role
  mc_allBranches :: bool
  mc_allowedBranchIds :: "ident list"
  mc_canManageVouchers :: bool

definition merchant_status_of :: "db \<Rightarrow> membership \<Rightarrow> merchant_status option" where
  "merchant_status_of d m = map_option m_status (merchants d (mm_merchantId m))"

definition getOwnerMembership :: "db \<Rightarrow> ident \<Rightarrow> membership option" where
  "getOwnerMembership d adminId =
     List.find (\<lambda>m. mm_merchantAdminId m = adminId \<and> mm_role m = OWNER \<and> mm_active m) (memberships d)"

text \<open>\<open>findMany\<close> with \<open>take: 2\<close>.\<close>

definition getActiveMembership :: "db \<Rightarrow> ident \<Rightarrow> membership option result" where
  "getActiveMembership d adminId =
     (let rows = take 2 (filter (\<lambda>m. mm_merchantAdminId m = adminId \<and> mm_active m) (memberships d))
      in if length rows = 0 then returns None
         else if 1 < length rows then throw MULTI_MEMBERSHIP_UNSUPPORTED
         else returns (Some (hd rows)))"

definition assertNotLastOwner :: "db \<Rightarrow> ident \<Rightarrow> ident \<Rightarrow> unit result" where
  "assertNotLastOwner d merchantId membershipId =
     (let otherActiveOwners = length (filter (\<lambda>m. mm_merchantId m = merchantId \<and> mm_role m = OWNER \<and>
            mm_active m \<and> mm_id m \<noteq> membershipId) (memberships d))
      in if otherActiveOwners = 0 then throw LAST_OWNER_PROTECTED else returns ())"

section \<open>Resolvers\<close>

definition isDraftWindow :: "merchant_status option \<Rightarrow> string option \<Rightarrow> bool" where
  "isDraftWindow status onboardingStep \<longleftrightarrow>
     status = Some M_REGISTERED \<or> onboardingStep = Some ''NEEDS_CHANGES''"

definition resolveTopLevelCategoryId :: "(ident \<rightharpoonup> ident option) \<Rightarrow> ident \<Rightarrow> ident" where
  "resolveTopLevelCategoryId categories categoryId =
     (case categories categoryId of
        None \<Rightarrow> categoryId
      | Some parentId \<Rightarrow> (case parentId of None \<Rightarrow> categoryId | Some p \<Rightarrow> p))"

definition resolveAdminMerchant :: "db \<Rightarrow> ident \<Rightarrow> (ident \<times> ident) result" where
  "resolveAdminMerchant d adminId =
     (case getOwnerMembership d adminId of
        None \<Rightarrow>
          (case getActiveMembership d adminId of
             Inl e \<Rightarrow> throw e
           | Inr (Some m) \<Rightarrow> throw INSUFFICIENT_PERMISSIONS
           | Inr None \<Rightarrow> throw INVALID_CREDENTIALS)
      | Some m \<Rightarrow>
          if merchant_status_of d m = Some M_SUSPENDED then throw MERCHANT_SUSPENDED
          else returns (adminId, mm_merchantId m))"

definition resolveTargetMerchantForAdmin :: "db \<Rightarrow> ident \<Rightarrow> (ident \<times> merchant_status) result" where
  "resolveTargetMerchantForAdmin d merchantId =
     (case merchants d merchantId of
        None \<Rightarrow> throw MERCHANT_NOT_FOUND | Some m \<Rightarrow> returns (merchantId, m_status m))"

definition resolveMerchantContext :: "db \<Rightarrow> ident \<Rightarrow> merchant_context result" where
  "resolveMerchantContext d adminId =
     (case getActiveMembership d adminId of
        Inl e \<Rightarrow> throw e
      | Inr None \<Rightarrow> throw INVALID_CREDENTIALS
      | Inr (Some m) \<Rightarrow>
          if merchant_status_of d m = Some M_SUSPENDED then throw MERCHANT_SUSPENDED
          else returns \<lparr>mc_adminId = adminId, mc_merchantId = mm_merchantId m, mc_role = mm_role m,
                 mc_allBranches = mm_allBranches m, mc_allowedBranchIds = mm_branches m,
                 mc_canManageVouchers = (mm_role m = OWNER \<or> mm_canManageVouchers m)\<rparr>)"

section \<open>Guards\<close>

definition assertOwner :: "merchant_context \<Rightarrow> unit result" where
  "assertOwner ctx = (if mc_role ctx \<noteq> OWNER then throw INSUFFICIENT_PERMISSIONS else returns ())"

definition assertCanManageVouchers :: "merchant_context \<Rightarrow> unit result" where
  "assertCanManageVouchers ctx =
     (if \<not> (mc_role ctx = OWNER \<or> mc_canManageVouchers ctx) then throw INSUFFICIENT_PERMISSIONS else returns ())"

definition assertBranchAllowed :: "merchant_context \<Rightarrow> ident \<Rightarrow> unit result" where
  "assertBranchAllowed ctx branchId =
     (if \<not> (mc_allBranches ctx \<or> branchId \<in> set (mc_allowedBranchIds ctx)) then throw INSUFFICIENT_PERMISSIONS
      else returns ())"

definition canManageBranchPredicate :: "merchant_context \<Rightarrow> ident \<Rightarrow> bool" where
  "canManageBranchPredicate ctx branchId =
     (if mc_role ctx = OWNER then True
      else mc_role ctx = BRANCH_MANAGER \<and> (mc_allBranches ctx \<or> branchId \<in> set (mc_allowedBranchIds ctx)))"

definition assertCanManageBranch :: "merchant_context \<Rightarrow> ident \<Rightarrow> unit result" where
  "assertCanManageBranch ctx branchId =
     (if \<not> canManageBranchPredicate ctx branchId then throw INSUFFICIENT_PERMISSIONS else returns ())"

section \<open>Lemmas\<close>

text \<open>An active membership is resolved only when it is the person's only one.\<close>

lemma getActiveMembership_Some:
  "getActiveMembership d adminId = Inr (Some m) \<longleftrightarrow>
     filter (\<lambda>m. mm_merchantAdminId m = adminId \<and> mm_active m) (memberships d) = [m]"
proof -
  let ?xs = "filter (\<lambda>m. mm_merchantAdminId m = adminId \<and> mm_active m) (memberships d)"
  show ?thesis
    by (cases ?xs; cases "tl ?xs") (auto simp: getActiveMembership_def Let_def numeral_2_eq_2)
qed

lemma getActiveMembership_sound:
  assumes "getActiveMembership d adminId = Inr (Some m)"
  shows "m \<in> set (memberships d)" "mm_merchantAdminId m = adminId" "mm_active m"
    "\<And>m'. m' \<in> set (memberships d) \<Longrightarrow> mm_merchantAdminId m' = adminId \<Longrightarrow> mm_active m' \<Longrightarrow> m' = m"
proof -
  let ?P = "\<lambda>m. mm_merchantAdminId m = adminId \<and> mm_active m"
  have "set (filter ?P (memberships d)) = {m}"
    using assms by (simp add: getActiveMembership_Some)
  then have "\<And>x. x \<in> set (memberships d) \<and> ?P x \<longleftrightarrow> x = m" by auto
  then show "m \<in> set (memberships d)" "mm_merchantAdminId m = adminId" "mm_active m"
    "\<And>m'. m' \<in> set (memberships d) \<Longrightarrow> mm_merchantAdminId m' = adminId \<Longrightarrow> mm_active m' \<Longrightarrow> m' = m"
    by blast+
qed

lemma resolveMerchantContext_sound:
  assumes "resolveMerchantContext d adminId = Inr ctx"
  obtains m where "getActiveMembership d adminId = Inr (Some m)" "merchant_status_of d m \<noteq> Some M_SUSPENDED"
    "mc_merchantId ctx = mm_merchantId m" "mc_role ctx = mm_role m" "mc_allBranches ctx = mm_allBranches m"
    "mc_allowedBranchIds ctx = mm_branches m"
    "mc_canManageVouchers ctx \<longleftrightarrow> mm_role m = OWNER \<or> mm_canManageVouchers m"
  using assms that by (auto simp: resolveMerchantContext_def split: sum.splits option.splits if_splits)

section \<open>Properties\<close>

text \<open>Managing a branch takes an active, unsuspended, sufficient membership: when a caller's context
  resolves and passes the branch-management guard, the caller has exactly one active membership, its
  merchant is not suspended, and it is an owner's, or a branch manager's that covers the branch; a staff
  member never passes, even at an assigned branch.\<close>

theorem branch_management_needs_membership:
  assumes "resolveMerchantContext d adminId = Inr ctx" and "assertCanManageBranch ctx branchId = Inr ()"
  shows "\<exists>m\<in>set (memberships d). mm_merchantAdminId m = adminId \<and> mm_active m \<and>
    (\<forall>m'\<in>set (memberships d). mm_merchantAdminId m' = adminId \<longrightarrow> mm_active m' \<longrightarrow> m' = m) \<and>
    mc_merchantId ctx = mm_merchantId m \<and>
    map_option m_status (merchants d (mm_merchantId m)) \<noteq> Some M_SUSPENDED \<and> mm_role m \<noteq> STAFF \<and>
    (mm_role m = OWNER \<or> mm_allBranches m \<or> branchId \<in> set (mm_branches m))"
proof -
  obtain m where m: "getActiveMembership d adminId = Inr (Some m)" "merchant_status_of d m \<noteq> Some M_SUSPENDED"
    "mc_merchantId ctx = mm_merchantId m" "mc_role ctx = mm_role m" "mc_allBranches ctx = mm_allBranches m"
    "mc_allowedBranchIds ctx = mm_branches m"
    by (rule resolveMerchantContext_sound[OF assms(1)])
  have can: "mm_role m = OWNER \<or> mm_role m = BRANCH_MANAGER \<and> (mm_allBranches m \<or> branchId \<in> set (mm_branches m))"
    using assms(2) m(4-6) by (simp add: assertCanManageBranch_def canManageBranchPredicate_def split: if_splits)
  note s = getActiveMembership_sound[OF m(1)]
  show ?thesis
  proof (intro bexI[of _ m] conjI ballI impI)
    show "mm_merchantAdminId m = adminId" "mm_active m" "mc_merchantId ctx = mm_merchantId m" "m \<in> set (memberships d)"
      by (fact s m)+
    show "m' = m" if "m' \<in> set (memberships d)" "mm_merchantAdminId m' = adminId" "mm_active m'" for m'
      using s(4) that .
    show "map_option m_status (merchants d (mm_merchantId m)) \<noteq> Some M_SUSPENDED"
      using m(2) unfolding merchant_status_of_def .
    show "mm_role m \<noteq> STAFF" "mm_role m = OWNER \<or> mm_allBranches m \<or> branchId \<in> set (mm_branches m)"
      using can by auto
  qed
qed

definition sample_membership :: "merchant_role \<Rightarrow> membership" where
  "sample_membership r = \<lparr>mm_id = ''mm'', mm_merchantId = ''m'', mm_merchantAdminId = ''a'', mm_active = True,
     mm_role = r, mm_allBranches = False, mm_canManageVouchers = False, mm_branches = [''b'']\<rparr>"

definition sample_merchants :: "membership list \<Rightarrow> db" where
  "sample_merchants ms =
     \<lparr>merchants = [''m'' \<mapsto> \<lparr>m_status = M_ACTIVE, m_businessName = ''M''\<rparr>], vouchers = Map.empty,
      branches = Map.empty, subscriptions = Map.empty, users = Map.empty, cycleStates = Map.empty,
      redemptions = [], memberships = ms, screenshotEvents = [], auditLog = [], notifications = []\<rparr>"

theorem branch_management_needs_membership_witness:
  "\<exists>ctx. resolveMerchantContext (sample_merchants [sample_membership BRANCH_MANAGER]) ''a'' = Inr ctx \<and>
     assertCanManageBranch ctx ''b'' = Inr () \<and>
     (\<exists>m\<in>set (memberships (sample_merchants [sample_membership BRANCH_MANAGER])). mm_role m \<noteq> STAFF)"
proof -
  let ?d = "sample_merchants [sample_membership BRANCH_MANAGER]"
  obtain ctx where c: "resolveMerchantContext ?d ''a'' = Inr ctx" "assertCanManageBranch ctx ''b'' = Inr ()"
    by (simp add: resolveMerchantContext_def getActiveMembership_def sample_merchants_def sample_membership_def
        merchant_status_of_def assertCanManageBranch_def canManageBranchPredicate_def)
  from branch_management_needs_membership[OF this] c show ?thesis by auto
qed

text \<open>The two resolvers agree: whoever the owner-only resolver admits with a single active membership
  resolves to a context of the same merchant with the owner role, and a caller with one active
  non-owner membership is refused by the owner-only resolver with an authorization, not an
  authentication, error.\<close>

theorem owner_resolvers_agree:
  assumes "getActiveMembership d adminId = Inr (Some m)"
  shows "(\<forall>mid. resolveAdminMerchant d adminId = Inr (adminId, mid) \<longrightarrow>
      (\<exists>ctx. resolveMerchantContext d adminId = Inr ctx \<and> mc_merchantId ctx = mid \<and> mc_role ctx = OWNER)) \<and>
    (mm_role m \<noteq> OWNER \<longrightarrow> resolveAdminMerchant d adminId = Inl INSUFFICIENT_PERMISSIONS)"
proof -
  have owner: "mm_role m = OWNER \<and> m' = m" if "getOwnerMembership d adminId = Some m'" for m'
    using find_Some_in[OF that[unfolded getOwnerMembership_def]] getActiveMembership_sound(4)[OF assms] by blast
  show ?thesis
  proof (cases "getOwnerMembership d adminId")
    case None
    then have "resolveAdminMerchant d adminId = Inl INSUFFICIENT_PERMISSIONS"
      by (simp add: resolveAdminMerchant_def assms)
    then show ?thesis by simp
  next
    case (Some m')
    then have "mm_role m = OWNER" "getOwnerMembership d adminId = Some m" using owner[OF Some] by simp_all
    then show ?thesis
      by (simp add: resolveAdminMerchant_def resolveMerchantContext_def assms)
  qed
qed

theorem owner_resolvers_agree_witness:
  "resolveAdminMerchant (sample_merchants [sample_membership STAFF]) ''a'' = Inl INSUFFICIENT_PERMISSIONS"
proof -
  have "getActiveMembership (sample_merchants [sample_membership STAFF]) ''a'' = Inr (Some (sample_membership STAFF))"
    by (simp add: getActiveMembership_Some sample_merchants_def sample_membership_def)
  from owner_resolvers_agree[OF this] show ?thesis by (simp add: sample_membership_def)
qed

text \<open>A merchant never loses its last owner: if removal of an active owner's membership passes the
  guard, some other active owner of that merchant remains after it.\<close>

theorem last_owner_remains:
  assumes "assertNotLastOwner d merchantId membershipId = Inr ()"
  shows "\<exists>m\<in>set (filter (\<lambda>m. mm_id m \<noteq> membershipId) (memberships d)).
    mm_merchantId m = merchantId \<and> mm_role m = OWNER \<and> mm_active m"
proof -
  have "filter (\<lambda>m. mm_merchantId m = merchantId \<and> mm_role m = OWNER \<and> mm_active m \<and> mm_id m \<noteq> membershipId)
      (memberships d) \<noteq> []"
    using assms by (auto simp: assertNotLastOwner_def Let_def split: if_splits)
  then show ?thesis by (auto simp: filter_empty_conv)
qed

theorem last_owner_remains_witness:
  "\<exists>m\<in>set (filter (\<lambda>m. mm_id m \<noteq> ''mm'') (memberships (sample_merchants [sample_membership OWNER,
      (sample_membership OWNER)\<lparr>mm_id := ''mm2''\<rparr>]))). mm_role m = OWNER"
proof -
  have "assertNotLastOwner (sample_merchants [sample_membership OWNER, (sample_membership OWNER)\<lparr>mm_id := ''mm2''\<rparr>])
      ''m'' ''mm'' = Inr ()"
    by (simp add: assertNotLastOwner_def sample_merchants_def sample_membership_def)
  from last_owner_remains[OF this] show ?thesis by auto
qed

end
