(* ===== verification/Verify.thy ===== *)
theory Verify
  imports Redemption Membership
begin

text \<open>
  The staff and customer sides of a redemption, \<open>src/api/redemption/service.ts\<close> from
  \<open>verifyRedemption\<close> on, with \<open>src/api/shared/customerName.ts\<close> and the recipients of
  \<open>src/api/shared/merchantNotify.ts\<close>.

  \<open>verifyRedemption\<close> is its checks on the store it reads, then its write: the composition is the handler
  run alone, the two halves apart describe two requests in a race. Case mapping and white space
  are those of ASCII. The notification writes always succeed here; in the code a failing one is swallowed.
\<close>

section \<open>Names and codes\<close>

definition formatCustomerName :: "string option \<Rightarrow> string option \<Rightarrow> string" where
  "formatCustomerName firstName lastName =
     (let first = js_trim (case firstName of None \<Rightarrow> '''' | Some s \<Rightarrow> s);
          last = js_trim (case lastName of None \<Rightarrow> '''' | Some s \<Rightarrow> s)
      in if first = '''' \<and> last = '''' then ''Customer''
         else if last = '''' then first
         else if first = '''' then js_upper (hd last) # ''.''
         else first @ '' '' @ [js_upper (hd last)] @ ''.'')"

text \<open>\<open>[firstName, lastName].filter(Boolean).join(' ')\<close>\<close>

definition fullName :: "string option \<Rightarrow> string option \<Rightarrow> string" where
  "fullName firstName lastName =
     (case filter (\<lambda>s. s \<noteq> '''') (map the (filter (\<lambda>s. s \<noteq> None) [firstName, lastName])) of
        [] \<Rightarrow> ''''
      | s # ss \<Rightarrow> s @ concat (map (\<lambda>t. '' '' @ t) ss))"

text \<open>\<open>code.replace(/[\s-]/g, '').toUpperCase()\<close>\<close>

definition normaliseCode :: "string \<Rightarrow> string" where
  "normaliseCode code = map js_upper (filter (\<lambda>c. \<not> (is_space c \<or> c = CHR ''-'')) code)"

section \<open>Alerts\<close>

text \<open>Insertion order of a JavaScript \<open>Set\<close>: first occurrences.\<close>

definition js_set :: "'a list \<Rightarrow> 'a list" where
  "js_set xs = rev (remdups (rev xs))"

definition resolveRedemptionAlertRecipients ::
  "db \<Rightarrow> ident \<Rightarrow> ident \<Rightarrow> ident option \<Rightarrow> ident list" where
  "resolveRedemptionAlertRecipients d merchantId branchId exclude =
     js_set (map mm_merchantAdminId
       (filter (\<lambda>m. (mm_role m = OWNER \<or> mm_role m = BRANCH_MANAGER) \<and>
             (mm_role m = OWNER \<or> mm_allBranches m \<or> branchId \<in> set (mm_branches m)) \<and>
             \<not> (exclude \<noteq> None \<and> exclude \<noteq> Some '''' \<and> Some (mm_merchantAdminId m) = exclude))
         (filter (\<lambda>m. mm_merchantId m = merchantId \<and> mm_active m \<and> mm_role m \<in> {OWNER, BRANCH_MANAGER})
           (memberships d))))"

definition merchantNotify :: "notification \<Rightarrow> db \<Rightarrow> db" where
  "merchantNotify n d = d\<lparr>notifications := notifications d @ [n]\<rparr>"

section \<open>Staff validation\<close>

datatype actor_role = BranchActor | MerchantActor

record verify_actor =
  a_role :: actor_role
  a_branchId :: "ident option"
  a_merchantId :: ident
  a_actorId :: ident

text \<open>The joined voucher and branch of a redemption row.\<close>

definition voucher_of :: "db \<Rightarrow> redemption \<Rightarrow> voucher option" where
  "voucher_of d r = vouchers d (r_voucherId r)"

definition verify_check ::
  "db \<Rightarrow> string \<Rightarrow> verify_actor \<Rightarrow> merchant_context option \<Rightarrow> redemption result" where
  "verify_check d code actor ctx =
     (case find_by_code code d of
        None \<Rightarrow> throw REDEMPTION_NOT_FOUND
      | Some r \<Rightarrow>
        if a_role actor = MerchantActor \<and> map_option v_merchantId (voucher_of d r) \<noteq> Some (a_merchantId actor)
          then throw MERCHANT_MISMATCH
        else if a_role actor = MerchantActor \<and> ctx = None then throw INSUFFICIENT_PERMISSIONS
        else if a_role actor = MerchantActor \<and> \<not> mc_allBranches (the ctx) \<and>
             r_branchId r \<notin> set (mc_allowedBranchIds (the ctx)) then throw REDEMPTION_NOT_FOUND
        else if r_isValidated r then throw ALREADY_VALIDATED
        else if a_role actor = BranchActor \<and> Some (r_branchId r) \<noteq> a_branchId actor then throw BRANCH_ACCESS_DENIED
        else if Option.bind (voucher_of d r) (\<lambda>v. map_option m_status (merchants d (v_merchantId v))) \<noteq> Some M_ACTIVE
          then throw MERCHANT_SUSPENDED
        else if map_option b_isActive (branches d (r_branchId r)) \<noteq> Some True then throw BRANCH_UNAVAILABLE
        else returns r)"

definition validated_row :: "time \<Rightarrow> validation_method \<Rightarrow> verify_actor \<Rightarrow> redemption \<Rightarrow> redemption" where
  "validated_row now method actor r =
     r\<lparr>r_isValidated := True, r_validatedAt := Some now, r_validationMethod := Some method,
       r_validatedById := (if a_role actor = BranchActor then Some (a_actorId actor) else None)\<rparr>"

text \<open>\<open>update({ where: { id }, data })\<close>\<close>

definition update_row :: "ident \<Rightarrow> (redemption \<Rightarrow> redemption) \<Rightarrow> db \<Rightarrow> db" where
  "update_row i f d = d\<lparr>redemptions := map (\<lambda>r. if r_id r = i then f r else r) (redemptions d)\<rparr>"

definition alert :: "time \<Rightarrow> verify_actor \<Rightarrow> redemption \<Rightarrow> db \<Rightarrow> db" where
  "alert now actor r d =
     (case branches d (r_branchId r) of
        None \<Rightarrow> d
      | Some b \<Rightarrow>
        if \<not> b_redemptionAlertsEnabled b then d
        else fold (\<lambda>admin. merchantNotify
               \<lparr>n_recipientId = admin, n_type = ''VOUCHER_REDEEMED'',
                n_title = ''Voucher redeemed at '' @ b_name b, n_referenceType = ''redemption'',
                n_referenceId = r_id r,
                n_voucherTitle = (case voucher_of d r of None \<Rightarrow> '''' | Some v \<Rightarrow> v_title v),
                n_branchName = b_name b, n_validatedAt = now\<rparr>)
             (resolveRedemptionAlertRecipients d (b_merchantId b) (r_branchId r)
                (if a_role actor = MerchantActor then Some (a_actorId actor) else None)) d)"

record verify_response =
  vr_id :: ident
  vr_isValidated :: bool
  vr_validatedAt :: "time option"
  vr_validationMethod :: "validation_method option"
  vr_customerName :: string

definition verify_write ::
  "time \<Rightarrow> validation_method \<Rightarrow> verify_actor \<Rightarrow> redemption \<Rightarrow> db \<Rightarrow> verify_response \<times> db" where
  "verify_write now method actor r d =
     (let d1 = update_row (r_id r) (validated_row now method actor) d;
          d2 = d1\<lparr>auditLog := auditLog d1 @ [(r_userId r, ''VOUCHER_VERIFIED'', r_redemptionCode r)]\<rparr>;
          d3 = alert now actor r d2;
          (first, last) = (case users d (r_userId r) of None \<Rightarrow> (None, None)
                           | Some u \<Rightarrow> (u_firstName u, u_lastName u));
          updated = validated_row now method actor r
      in (\<lparr>vr_id = r_id updated, vr_isValidated = r_isValidated updated, vr_validatedAt = r_validatedAt updated,
           vr_validationMethod = r_validationMethod updated,
           vr_customerName = (if a_role actor = MerchantActor then formatCustomerName first last
                              else fullName first last)\<rparr>, d3))"

definition verifyRedemption ::
  "time \<Rightarrow> db \<Rightarrow> string \<Rightarrow> validation_method \<Rightarrow> verify_actor \<Rightarrow> merchant_context option
     \<Rightarrow> verify_response result \<times> db" where
  "verifyRedemption now d code method actor ctx =
     (case verify_check d code actor ctx of
        Inl e \<Rightarrow> (throw e, d)
      | Inr r \<Rightarrow> (case verify_write now method actor r d of (resp, d') \<Rightarrow> (returns resp, d')))"

section \<open>Customer reads\<close>

definition page :: "nat \<Rightarrow> nat \<Rightarrow> 'a list \<Rightarrow> 'a list" where
  "page limit offset xs = take limit (drop offset xs)"

definition newest_first :: "redemption list \<Rightarrow> redemption list" where
  "newest_first rs = sort_key (\<lambda>r. - r_redeemedAt r) rs"

definition listMyRedemptions :: "db \<Rightarrow> ident \<Rightarrow> nat \<Rightarrow> nat \<Rightarrow> redemption list" where
  "listMyRedemptions d userId limit offset =
     page limit offset (newest_first (filter (\<lambda>r. r_userId r = userId) (redemptions d)))"

definition getMyRedemption :: "db \<Rightarrow> ident \<Rightarrow> ident \<Rightarrow> redemption result" where
  "getMyRedemption d userId redemptionId =
     (case find_by_id redemptionId d of
        None \<Rightarrow> throw REDEMPTION_NOT_FOUND
      | Some r \<Rightarrow> if r_userId r \<noteq> userId then throw REDEMPTION_NOT_FOUND else returns r)"

record code_status =
  cs_code :: string
  cs_isValidated :: bool
  cs_validatedAt :: "time option"
  cs_validationMethod :: "validation_method option"
  cs_voucherId :: ident
  cs_merchantName :: "string option"
  cs_branchName :: "string option"

definition getMyRedemptionByCode :: "db \<Rightarrow> ident \<Rightarrow> string \<Rightarrow> code_status result" where
  "getMyRedemptionByCode d userId code =
     (case find_by_code (normaliseCode code) d of
        None \<Rightarrow> throw REDEMPTION_NOT_FOUND
      | Some r \<Rightarrow>
        if r_userId r \<noteq> userId then throw REDEMPTION_NOT_FOUND
        else returns
          \<lparr>cs_code = r_redemptionCode r, cs_isValidated = r_isValidated r, cs_validatedAt = r_validatedAt r,
           cs_validationMethod = r_validationMethod r, cs_voucherId = r_voucherId r,
           cs_merchantName = map_option m_businessName
             (Option.bind (voucher_of d r) (\<lambda>v. merchants d (v_merchantId v))),
           cs_branchName = map_option b_name (branches d (r_branchId r))\<rparr>)"

definition SCREENSHOT_DEDUP_TTL_SECONDS :: int where "SCREENSHOT_DEDUP_TTL_SECONDS = 5"

definition redemptionScreenshotDedup :: "ident \<Rightarrow> string \<Rightarrow> key" where
  "redemptionScreenshotDedup userId code = ''rl:ss:'' @ userId @ '':'' @ code"

text \<open>\<open>redis_up\<close>: whether the \<open>SET\<close> returns at all; an exception degrades to not accepted.\<close>

definition flagRedemptionScreenshot ::
  "time \<Rightarrow> bool \<Rightarrow> db \<Rightarrow> redis \<Rightarrow> ident \<Rightarrow> string \<Rightarrow> bool result \<times> db \<times> redis" where
  "flagRedemptionScreenshot now redis_up d rs userId code =
     (let normalised = normaliseCode code
      in case find_by_code normalised d of
           None \<Rightarrow> (throw REDEMPTION_NOT_FOUND, d, rs)
         | Some r \<Rightarrow>
           if r_userId r \<noteq> userId then (throw REDEMPTION_NOT_FOUND, d, rs)
           else if \<not> redis_up then (returns False, d, rs)
           else (case SET_NX now (redemptionScreenshotDedup userId normalised) SCREENSHOT_DEDUP_TTL_SECONDS rs of
                   None \<Rightarrow> (returns False, d, rs)
                 | Some rs' \<Rightarrow>
                   (returns True, d\<lparr>screenshotEvents := screenshotEvents d @ [(userId, r_id r)]\<rparr>, rs')))"

definition in_range :: "time option \<Rightarrow> time option \<Rightarrow> time \<Rightarrow> bool" where
  "in_range from to t \<longleftrightarrow> (case from of None \<Rightarrow> True | Some f \<Rightarrow> f \<le> t) \<and>
     (case to of None \<Rightarrow> True | Some u \<Rightarrow> t \<le> u)"

definition listBranchRedemptions ::
  "db \<Rightarrow> ident \<Rightarrow> nat \<Rightarrow> nat \<Rightarrow> time option \<Rightarrow> time option \<Rightarrow> nat \<times> (redemption \<times> string) list" where
  "listBranchRedemptions d branchId limit offset from to =
     (let rows = filter (\<lambda>r. r_branchId r = branchId \<and> in_range from to (r_redeemedAt r)) (redemptions d);
          name = (\<lambda>r. case users d (r_userId r) of None \<Rightarrow> ''''
                      | Some u \<Rightarrow> fullName (u_firstName u) (u_lastName u))
      in (length rows, map (\<lambda>r. (r, name r)) (page limit offset (newest_first rows))))"

section \<open>Lemmas\<close>

lemma find_map_same: "(\<And>x. P (f x) = P x) \<Longrightarrow> List.find P (map f xs) = map_option f (List.find P xs)"
  by (induction xs) auto

lemma verify_check_Inr:
  assumes "verify_check d code actor ctx = Inr r"
  shows "find_by_code code d = Some r" "\<not> r_isValidated r"
    "a_role actor = BranchActor \<Longrightarrow> a_branchId actor = Some (r_branchId r)"
    "a_role actor = MerchantActor \<Longrightarrow> \<exists>v c. voucher_of d r = Some v \<and> v_merchantId v = a_merchantId actor \<and>
       ctx = Some c \<and> (mc_allBranches c \<or> r_branchId r \<in> set (mc_allowedBranchIds c))"
    "\<exists>v m. voucher_of d r = Some v \<and> merchants d (v_merchantId v) = Some m \<and> m_status m = M_ACTIVE"
    "\<exists>b. branches d (r_branchId r) = Some b \<and> b_isActive b"
  using assms unfolding verify_check_def by (auto split: option.splits if_splits bind_splits)

lemma merchantNotify_frame:
  "redemptions (fold (\<lambda>a. merchantNotify (n a)) xs d) = redemptions d"
  "vouchers (fold (\<lambda>a. merchantNotify (n a)) xs d) = vouchers d"
  "branches (fold (\<lambda>a. merchantNotify (n a)) xs d) = branches d"
  "merchants (fold (\<lambda>a. merchantNotify (n a)) xs d) = merchants d"
  "memberships (fold (\<lambda>a. merchantNotify (n a)) xs d) = memberships d"
  "users (fold (\<lambda>a. merchantNotify (n a)) xs d) = users d"
  "notifications (fold (\<lambda>a. merchantNotify (n a)) xs d) = notifications d @ map n xs"
  by (induction xs arbitrary: d) (simp_all add: merchantNotify_def)

lemma alert_frame:
  "redemptions (alert now actor r d) = redemptions d"
  "vouchers (alert now actor r d) = vouchers d"
  "branches (alert now actor r d) = branches d"
  "merchants (alert now actor r d) = merchants d"
  "users (alert now actor r d) = users d"
  by (simp_all add: alert_def merchantNotify_frame split: option.splits)

lemma verify_write_redemptions:
  assumes "verify_write now method actor r d = (resp, d')"
  shows "redemptions d' = map (\<lambda>x. if r_id x = r_id r then validated_row now method actor x else x) (redemptions d)"
    and "vouchers d' = vouchers d" "branches d' = branches d" "merchants d' = merchants d" "users d' = users d"
    and "vr_id resp = r_id r" "vr_isValidated resp" "vr_validatedAt resp = Some now"
  using assms by (auto simp: verify_write_def Let_def alert_frame update_row_def validated_row_def split: prod.splits)

lemma find_by_code_write:
  assumes "verify_write now method actor r d = (resp, d')"
  shows "find_by_code code d' =
    map_option (\<lambda>x. if r_id x = r_id r then validated_row now method actor x else x) (find_by_code code d)"
  unfolding find_by_code_def verify_write_redemptions(1)[OF assms]
  by (rule find_map_same) (simp add: validated_row_def)

lemma verifyRedemption_Inr:
  assumes "verifyRedemption now d code method actor ctx = (Inr resp, d')"
  obtains r where "verify_check d code actor ctx = Inr r" "verify_write now method actor r d = (resp, d')"
  using assms that by (auto simp: verifyRedemption_def split: sum.splits prod.splits)

text \<open>A new row's code is no earlier row's code.\<close>

lemma cycle_commit_code:
  "cycle_tx1 row start d = Inr d' \<or> cycle_tx2 row start d = Inr d' \<Longrightarrow>
     \<exists>d1 d2. create_row row d1 = Inr d2 \<and> redemptions d1 = redemptions d"
  by (auto simp: cycle_tx1_def cycle_tx2_def put_state_def split: option.splits if_splits sum.splits)

lemma claim_fresh_code:
  assumes "claim row v ent d = Inr d'" "r \<in> set (redemptions d)"
  shows "r_redemptionCode r \<noteq> r_redemptionCode row"
proof -
  obtain row' d1 d2 where "create_row row' d1 = Inr d2" "redemptions d1 = redemptions d"
    "r_redemptionCode row' = r_redemptionCode row"
  proof (cases "v_type v = REUSABLE \<or> v_type v = TIME_LIMITED")
    case True
    then show ?thesis using assms(1) that[of "row\<lparr>r_windowStartsAt := None\<rparr>" d] that[of row d]
      by (auto simp: claim_def claim_reusable_def claim_window_def throw_next_window_not_Inr
          split: sum.splits option.splits if_splits)
  next
    case False
    then have "cycle_tx1 row (e_cycleStart ent) d = Inr d' \<or> cycle_tx2 row (e_cycleStart ent) d = Inr d'"
      using assms(1) by (auto simp: claim_def claim_cycle_def split: sum.splits)
    from cycle_commit_code[OF this] show ?thesis using that by blast
  qed
  then show ?thesis using create_row_fresh(1) assms(2) by metis
qed

lemma find_by_code_snoc:
  assumes "redemptions d' = redemptions d @ [row]"
    and "\<And>r. r \<in> set (redemptions d) \<Longrightarrow> r_redemptionCode r \<noteq> r_redemptionCode row"
  shows "find_by_code (r_redemptionCode row) d' = Some row"
proof -
  have "List.find (\<lambda>r. r_redemptionCode r = r_redemptionCode row) (redemptions d) = None"
    using assms(2) by (auto simp: find_None_all)
  then show ?thesis by (simp add: find_by_code_def assms(1) find_append)
qed

text \<open>A generated code is in canonical form.\<close>

lemma alphabet_canonical: "list_all (\<lambda>c. \<not> is_space c \<and> c \<noteq> CHR ''-'' \<and> js_upper c = c) ALPHANUMERIC"
  by code_simp

lemma normaliseCode_canonical:
  "list_all (\<lambda>c. \<not> is_space c \<and> c \<noteq> CHR ''-'' \<and> js_upper c = c) s \<Longrightarrow> normaliseCode s = s"
  by (induction s) (auto simp: normaliseCode_def)

lemma normaliseCode_generated: "normaliseCode (generateRedemptionCode bs) = generateRedemptionCode bs"
proof (rule normaliseCode_canonical)
  have "ALPHANUMERIC ! (unat b mod length ALPHANUMERIC) \<in> set ALPHANUMERIC" for b :: "8 word"
    by (rule nth_mem) (simp add: ALPHANUMERIC_def)
  then show "list_all (\<lambda>c. \<not> is_space c \<and> c \<noteq> CHR ''-'' \<and> js_upper c = c) (generateRedemptionCode bs)"
    using alphabet_canonical unfolding generateRedemptionCode_def list_all_iff by auto
qed

section \<open>Properties\<close>

text \<open>C35: a validation is authorised and exact: when \<open>verifyRedemption\<close> succeeds, the code was an
  unvalidated redemption's, a branch actor stands at its branch, a merchant actor belongs to its
  merchant and has its branch in scope, the merchant is active and the branch open; only the rows with
  that id change, and only in their validation fields.\<close>

theorem validation_authorised:
  assumes "verifyRedemption now d code method actor ctx = (Inr resp, d')"
  shows "\<exists>r. find_by_code code d = Some r \<and> \<not> r_isValidated r \<and> vr_id resp = r_id r \<and>
    (a_role actor = BranchActor \<longrightarrow> a_branchId actor = Some (r_branchId r)) \<and>
    (a_role actor = MerchantActor \<longrightarrow> (\<exists>v c. voucher_of d r = Some v \<and> v_merchantId v = a_merchantId actor \<and>
       ctx = Some c \<and> (mc_allBranches c \<or> r_branchId r \<in> set (mc_allowedBranchIds c)))) \<and>
    (\<exists>v m. voucher_of d r = Some v \<and> merchants d (v_merchantId v) = Some m \<and> m_status m = M_ACTIVE) \<and>
    (\<exists>b. branches d (r_branchId r) = Some b \<and> b_isActive b) \<and>
    redemptions d' = map (\<lambda>x. if r_id x = r_id r then validated_row now method actor x else x) (redemptions d)"
proof -
  obtain r where r: "verify_check d code actor ctx = Inr r" "verify_write now method actor r d = (resp, d')"
    by (rule verifyRedemption_Inr[OF assms])
  show ?thesis
    using verify_check_Inr[OF r(1)] verify_write_redemptions(1,6)[OF r(2)]
    by (intro exI[of _ r]) simp
qed

definition sample_redeemed :: db where
  "sample_redeemed = (sample_db ''enc'')\<lparr>redemptions := [sample_row\<lparr>r_redemptionCode := ''BCD''\<rparr>]\<rparr>"

definition sample_staff :: "ident \<Rightarrow> verify_actor" where
  "sample_staff b = \<lparr>a_role = BranchActor, a_branchId = Some b, a_merchantId = ''m'', a_actorId = ''s''\<rparr>"

lemma sample_check: "verify_check sample_redeemed ''BCD'' (sample_staff ''b'') None =
    Inr (sample_row\<lparr>r_redemptionCode := ''BCD''\<rparr>)"
  by (simp add: verify_check_def find_by_code_def sample_redeemed_def sample_staff_def voucher_of_def sample_db_def
      sample_row_def redemption_row_def sample_request_def sample_voucher_def sample_branch_def)

lemma sample_verified:
  "\<exists>resp d'. verifyRedemption 2000 sample_redeemed ''BCD'' QR_SCAN (sample_staff ''b'') None = (Inr resp, d')"
  by (cases "verify_write 2000 QR_SCAN (sample_staff ''b'') (sample_row\<lparr>r_redemptionCode := ''BCD''\<rparr>) sample_redeemed")
    (simp add: verifyRedemption_def sample_check)

theorem validation_authorised_witness:
  "\<exists>resp d'. verifyRedemption 2000 sample_redeemed ''BCD'' QR_SCAN (sample_staff ''b'') None = (Inr resp, d') \<and>
     vr_id resp = ''r''"
proof -
  obtain resp d' where v: "verifyRedemption 2000 sample_redeemed ''BCD'' QR_SCAN (sample_staff ''b'') None = (Inr resp, d')"
    using sample_verified by blast
  obtain r where "find_by_code ''BCD'' sample_redeemed = Some r" "vr_id resp = r_id r"
    using validation_authorised[OF v] by blast
  moreover have "find_by_code ''BCD'' sample_redeemed = Some (sample_row\<lparr>r_redemptionCode := ''BCD''\<rparr>)"
    by (simp add: find_by_code_def sample_redeemed_def)
  ultimately have "vr_id resp = r_id sample_row" by auto
  then show ?thesis using v by (simp add: sample_row_def redemption_row_def)
qed

text \<open>A code validates once: after one successful validation every later request for the same code,
  by any actor, fails and changes nothing.\<close>

theorem validation_only_once:
  assumes "verifyRedemption now d code method actor ctx = (Inr resp, d')"
  shows "\<exists>e. verifyRedemption now' d' code method' actor' ctx' = (Inl e, d')"
proof -
  obtain r where r: "verify_check d code actor ctx = Inr r" "verify_write now method actor r d = (resp, d')"
    by (rule verifyRedemption_Inr[OF assms])
  have "find_by_code code d' = Some (validated_row now method actor r)"
    using find_by_code_write[OF r(2)] verify_check_Inr(1)[OF r(1)] by simp
  then have "verify_check d' code actor' ctx' \<noteq> Inr x" for x
    using verify_check_Inr(1,2)[of d' code actor' ctx' x] by (auto simp: validated_row_def)
  then show ?thesis
    by (cases "verify_check d' code actor' ctx'") (auto simp: verifyRedemption_def)
qed

theorem validation_only_once_witness:
  "\<exists>resp d' e. verifyRedemption 2000 sample_redeemed ''BCD'' QR_SCAN (sample_staff ''b'') None = (Inr resp, d') \<and>
     verifyRedemption 2001 d' ''BCD'' MANUAL (sample_staff ''b'') None = (Inl e, d')"
proof -
  obtain resp d' where v: "verifyRedemption 2000 sample_redeemed ''BCD'' QR_SCAN (sample_staff ''b'') None = (Inr resp, d')"
    using sample_verified by blast
  from validation_only_once[OF this] v show ?thesis by blast
qed

text \<open>But two requests in a race both validate: the check reads and the write does not test
  \<open>isValidated\<close> again, so when both check before either writes, both are told they validated the code
  and the second overwrites who validated it, when and how.\<close>

theorem racing_validations_both_succeed:
  assumes "verify_check d code actor1 ctx1 = Inr r" and "verify_check d code actor2 ctx2 = Inr r"
    and "verify_write t1 method1 actor1 r d = (resp1, d1)" and "verify_write t2 method2 actor2 r d1 = (resp2, d2)"
  shows "vr_isValidated resp1 \<and> vr_isValidated resp2 \<and> vr_validatedAt resp1 = Some t1 \<and> vr_validatedAt resp2 = Some t2 \<and>
    map_option r_validatedAt (find_by_code code d2) = Some (Some t2) \<and>
    map_option r_validationMethod (find_by_code code d2) = Some (Some method2)"
proof -
  have "find_by_code code d1 = Some (validated_row t1 method1 actor1 r)"
    using find_by_code_write[OF assms(3)] verify_check_Inr(1)[OF assms(1)] by simp
  then have "find_by_code code d2 = Some (validated_row t2 method2 actor2 (validated_row t1 method1 actor1 r))"
    using find_by_code_write[OF assms(4), of code] by (simp add: validated_row_def)
  then show ?thesis
    using verify_write_redemptions(7,8)[OF assms(3)] verify_write_redemptions(7,8)[OF assms(4)]
    by (simp add: validated_row_def)
qed

theorem racing_validations_both_succeed_witness:
  "\<exists>resp1 d1 resp2 d2.
     verify_write 5 QR_SCAN (sample_staff ''b'') (sample_row\<lparr>r_redemptionCode := ''BCD''\<rparr>) sample_redeemed = (resp1, d1) \<and>
     verify_write 6 MANUAL (sample_staff ''b'') (sample_row\<lparr>r_redemptionCode := ''BCD''\<rparr>) d1 = (resp2, d2) \<and>
     vr_isValidated resp1 \<and> vr_isValidated resp2"
proof -
  let ?r = "sample_row\<lparr>r_redemptionCode := ''BCD''\<rparr>"
  obtain resp1 d1 where w1: "verify_write 5 QR_SCAN (sample_staff ''b'') ?r sample_redeemed = (resp1, d1)" by fastforce
  obtain resp2 d2 where w2: "verify_write 6 MANUAL (sample_staff ''b'') ?r d1 = (resp2, d2)" by fastforce
  from racing_validations_both_succeed[OF sample_check sample_check w1 w2] w1 w2 show ?thesis by blast
qed

text \<open>A scoped member cannot probe sibling branches: for a merchant actor whose scope does not cover
  the redemption's branch the answer is, whether or not the code is already validated, exactly that for a
  code that does not exist.\<close>

theorem sibling_code_is_masked:
  assumes "find_by_code code d = Some r" and "a_role actor = MerchantActor"
    and "map_option v_merchantId (voucher_of d r) = Some (a_merchantId actor)"
    and "\<not> mc_allBranches c" and "r_branchId r \<notin> set (mc_allowedBranchIds c)"
    and "find_by_code absent d = None"
  shows "verifyRedemption now d code method actor (Some c) = (Inl REDEMPTION_NOT_FOUND, d) \<and>
    verifyRedemption now d code method actor (Some c) = verifyRedemption now d absent method actor (Some c)"
  using assms by (simp add: verifyRedemption_def verify_check_def)

theorem sibling_code_is_masked_witness:
  "verifyRedemption 0 sample_redeemed ''BCD'' MANUAL
     \<lparr>a_role = MerchantActor, a_branchId = None, a_merchantId = ''m'', a_actorId = ''a''\<rparr>
     (Some \<lparr>mc_adminId = ''a'', mc_merchantId = ''m'', mc_role = STAFF, mc_allBranches = False,
        mc_allowedBranchIds = [''other''], mc_canManageVouchers = False\<rparr>) = (Inl REDEMPTION_NOT_FOUND, sample_redeemed)"
proof -
  let ?r = "sample_row\<lparr>r_redemptionCode := ''BCD''\<rparr>"
  have f: "find_by_code ''BCD'' sample_redeemed = Some ?r" "find_by_code ''ZZZ'' sample_redeemed = None"
    by (simp_all add: find_by_code_def sample_redeemed_def)
  have v: "map_option v_merchantId (voucher_of sample_redeemed ?r) = Some ''m''" "r_branchId ?r = ''b''"
    by (simp_all add: voucher_of_def sample_redeemed_def sample_row_def redemption_row_def sample_request_def
        sample_db_def sample_voucher_def)
  show ?thesis using sibling_code_is_masked[OF f(1) _ _ _ _ f(2)] v by simp
qed

text \<open>The alert goes to exactly the right people: each recipient once, and a merchant admin is one
  if and only if they hold an active owner membership of the merchant, or an active branch manager's that
  covers the branch, and are not the validating admin; never staff.\<close>

theorem alert_recipients_exact:
  assumes "exclude \<noteq> Some ''''"
  shows "distinct (resolveRedemptionAlertRecipients d merchantId branchId exclude) \<and>
    (admin \<in> set (resolveRedemptionAlertRecipients d merchantId branchId exclude) \<longleftrightarrow>
      exclude \<noteq> Some admin \<and>
      (\<exists>m\<in>set (memberships d). mm_merchantId m = merchantId \<and> mm_active m \<and> mm_merchantAdminId m = admin \<and>
        (mm_role m = OWNER \<or> mm_role m = BRANCH_MANAGER \<and> (mm_allBranches m \<or> branchId \<in> set (mm_branches m)))))"
proof -
  have d: "distinct (js_set xs)" "set (js_set xs) = set xs" for xs :: "ident list"
    by (simp_all add: js_set_def)
  show ?thesis
    using assms unfolding resolveRedemptionAlertRecipients_def d(2)
    by (auto simp: d(1))
qed

theorem alert_recipients_exact_witness:
  "''a'' \<in> set (resolveRedemptionAlertRecipients (sample_merchants [sample_membership BRANCH_MANAGER]) ''m'' ''b'' None)"
  using alert_recipients_exact[of None "sample_merchants [sample_membership BRANCH_MANAGER]" "''m''" "''b''" "''a''"]
  by (simp add: sample_merchants_def sample_membership_def)

text \<open>A customer can follow a redemption from creation on: right after \<open>createRedemption\<close> the owner
  finds it under its code, typed in any grouping with spaces, hyphens or lower case, as not
  validated, and anyone else gets the answer for an unknown code.\<close>

theorem new_redemption_found_by_code:
  assumes "createRedemption decrypt now q rid bytes d rs = (Inr row, d', rs')"
    and "normaliseCode typed = normaliseCode (r_redemptionCode row)"
  shows "(\<exists>st. getMyRedemptionByCode d' (q_userId q) typed = Inr st \<and> cs_code st = r_redemptionCode row \<and>
      cs_voucherId st = q_voucherId q \<and> \<not> cs_isValidated st) \<and>
    (other \<noteq> q_userId q \<longrightarrow> getMyRedemptionByCode d' other typed = Inl REDEMPTION_NOT_FOUND)"
proof -
  obtain v stored sub x d1 where s: "row = redemption_row q v (entitlement_of now v sub) now rid bytes"
    "claim row v (entitlement_of now v sub) d = Inr d1" "redemptions d' = redemptions d @ [row]"
    by (rule createRedemption_success[OF assms(1)])
  have code: "r_redemptionCode row = generateRedemptionCode bytes"
    by (simp add: s(1) redemption_row_def)
  have "find_by_code (r_redemptionCode row) d' = Some row"
    using find_by_code_snoc[OF s(3)] claim_fresh_code[OF s(2)] by blast
  then have "find_by_code (normaliseCode typed) d' = Some row"
    using assms(2) by (simp add: code normaliseCode_generated)
  then show ?thesis using s(1) by (simp add: getMyRedemptionByCode_def redemption_row_def)
qed

theorem new_redemption_found_by_code_witness:
  "\<exists>row d' rs'. createRedemption sample_decrypt 1000 (sample_request ''1234'') ''r'' [1, 2, 3] (sample_db ''enc'') empty_redis
      = (Inr row, d', rs') \<and> isOk (getMyRedemptionByCode d' ''u'' ''b-C d'')"
proof -
  let ?r = "createRedemption sample_decrypt 1000 (sample_request ''1234'') ''r'' [1, 2, 3] (sample_db ''enc'') empty_redis"
  have "isOk (fst ?r)" by code_simp
  then obtain row d' rs' where r: "?r = (Inr row, d', rs')" by (metis isOk_iff prod.collapse)
  have "map_option r_redemptionCode (case fst ?r of Inr row \<Rightarrow> Some row | _ \<Rightarrow> None) = Some ''BCD''" by code_simp
  then have "normaliseCode ''b-C d'' = normaliseCode (r_redemptionCode row)"
    by (simp add: r) code_simp
  from new_redemption_found_by_code[OF r this] r show ?thesis
    by (auto simp: sample_request_def isOk_iff)
qed

text \<open>A burst of screenshots is recorded once: after an accepted flag, the same user's flag of the same
  code within five seconds, however it is typed, is not accepted and writes nothing.\<close>

theorem screenshot_flag_deduplicated:
  assumes "flagRedemptionScreenshot now up d rs userId code = (Inr True, d', rs')"
    and "now \<le> later" and "later < now + 5000" and "normaliseCode again = normaliseCode code"
  shows "flagRedemptionScreenshot later up' d' rs' userId again = (Inr False, d', rs')"
proof -
  let ?k = "redemptionScreenshotDedup userId (normaliseCode code)"
  obtain r where r: "find_by_code (normaliseCode code) d = Some r" "r_userId r = userId"
    "SET_NX now ?k SCREENSHOT_DEDUP_TTL_SECONDS rs = Some rs'"
    "d' = d\<lparr>screenshotEvents := screenshotEvents d @ [(userId, r_id r)]\<rparr>"
    using assms(1) by (auto simp: flagRedemptionScreenshot_def Let_def split: option.splits if_splits)
  have "count_of later rs' ?k \<noteq> None"
    using r(3) assms(3)
    by (auto simp: SET_NX_def SCREENSHOT_DEDUP_TTL_SECONDS_def count_of_def lookup_live_def split: if_splits)
  then have "SET_NX later ?k SCREENSHOT_DEDUP_TTL_SECONDS rs' = None" by (simp add: SET_NX_None)
  moreover have "find_by_code (normaliseCode again) d' = Some r"
    using r(1,4) assms(4) by (simp add: find_by_code_def)
  ultimately show ?thesis using r(2) assms(4) by (simp add: flagRedemptionScreenshot_def)
qed

theorem screenshot_flag_deduplicated_witness:
  "\<exists>d' rs'. flagRedemptionScreenshot 0 True sample_redeemed empty_redis ''u'' ''BCD'' = (Inr True, d', rs') \<and>
     flagRedemptionScreenshot 4999 True d' rs' ''u'' ''bcd'' = (Inr False, d', rs')"
proof -
  have n: "normaliseCode ''BCD'' = ''BCD''" "normaliseCode ''bcd'' = normaliseCode ''BCD''" by code_simp+
  obtain d' rs' where f: "flagRedemptionScreenshot 0 True sample_redeemed empty_redis ''u'' ''BCD'' = (Inr True, d', rs')"
    by (simp add: flagRedemptionScreenshot_def Let_def n find_by_code_def sample_redeemed_def sample_row_def
        redemption_row_def sample_request_def SET_NX_def count_of_def lookup_live_def empty_redis_def)
  from screenshot_flag_deduplicated[OF f, of 4999 "''bcd''" True] f show ?thesis by (simp add: n)
qed

text \<open>Pages tile the list: reading a user's redemptions page by page, with any page sizes, gives the
  same rows in the same order as reading them at once, newest first.\<close>

theorem redemption_pages_tile:
  "listMyRedemptions d u n k @ listMyRedemptions d u m (k + n) = listMyRedemptions d u (n + m) k \<and>
   sorted_wrt (\<lambda>r r'. r_redeemedAt r' \<le> r_redeemedAt r) (listMyRedemptions d u n k)"
proof -
  have s: "sorted_wrt (\<lambda>r r'. r_redeemedAt r' \<le> r_redeemedAt r) (newest_first rs)" for rs
    using sorted_sort_key[of "\<lambda>r. - r_redeemedAt r" rs]
    by (simp add: newest_first_def sorted_map)
  have "take n xs @ take m (drop n xs) = take (n + m) xs" for xs :: "redemption list"
    by (simp add: take_add)
  then show ?thesis
    using s by (simp add: listMyRedemptions_def page_def sorted_wrt_take sorted_wrt_drop add.commute[of k n]
        flip: drop_drop)
qed

end
