(* ===== verification/Subscription.thy ===== *)
theory Subscription
  imports Redemption
begin

text \<open>
  \<open>src/api/subscription/service.ts\<close>, \<open>src/api/subscription/webhook.ts\<close> and
  \<open>resetVoucherCycleForUser\<close> of \<open>src/api/subscription/cycle.ts\<close>.

  Stripe is outside: what each call answers in a run is the record \<open>stripe_env\<close> (\<open>None\<close> or \<open>False\<close> where
  the SDK throws), and the calls that reached it are logged in \<open>stripeCalls\<close>, in order.
  The subscription table is a list of rows with their \<open>userId\<close>; \<open>core\<close> is the store of the
  redemption side, whose \<open>subscriptions\<close> is the same table read by \<open>userId\<close>. Instants from Stripe are in
  seconds.
\<close>

section \<open>State\<close>

record plan =
  pl_stripePriceId :: ident
  pl_isActive :: bool
  pl_sortOrder :: int

record promo =
  pr_id :: ident
  pr_isActive :: bool
  pr_expiresAt :: "time option"
  pr_maxUses :: "int option"
  pr_usesCount :: int
  pr_stripeCouponId :: "ident option"

record customer =
  cu_email :: string
  cu_stripeCustomerId :: "ident option"

datatype stripe_call =
    CustomersCreate string
  | SetupIntentsCreate ident
  | PaymentMethodsAttach ident ident
  | SubscriptionsCreate ident ident "ident option"
  | SubscriptionsCancelAtPeriodEnd ident

record billing =
  core :: db
  subs :: "(ident \<times> subscription) list"
  plans :: "(ident \<times> plan) list"
  promos :: "string \<rightharpoonup> promo"   \<comment> \<open>keyed by \<open>code\<close>, which is unique\<close>
  customers :: "ident \<rightharpoonup> customer"
  webhookEvents :: "ident list"   \<comment> \<open>\<open>stripeEventId\<close>, unique\<close>
  stripeCalls :: "stripe_call list"

record stripe_sub =
  ss_id :: ident
  ss_status :: string
  ss_items :: "(int \<times> int) list"   \<comment> \<open>current period start and end\<close>

record stripe_env =
  se_customer :: "ident option"
  se_intent :: "string option"
  se_attach :: bool
  se_subscription :: "stripe_sub option"
  se_update :: bool

section \<open>Writes\<close>

definition put_subs :: "(ident \<times> subscription) list \<Rightarrow> billing \<Rightarrow> billing" where
  "put_subs rows b = b\<lparr>subs := rows, core := (core b)\<lparr>subscriptions := map_of rows\<rparr>\<rparr>"

definition update_sub :: "ident \<Rightarrow> (subscription \<Rightarrow> subscription) \<Rightarrow> billing \<Rightarrow> billing" where
  "update_sub userId f b = put_subs (map (\<lambda>(u, s). (u, if u = userId then f s else s)) (subs b)) b"

text \<open>\<open>subscription.create\<close>: \<open>userId\<close> and \<open>stripeSubscriptionId\<close> are unique.\<close>

definition create_sub :: "ident \<Rightarrow> subscription \<Rightarrow> billing \<Rightarrow> billing option" where
  "create_sub userId sub b =
     (if userId \<in> set (map fst (subs b)) then None
      else if s_stripeSubscriptionId sub \<noteq> None \<and>
              list_ex (\<lambda>(u, s). s_stripeSubscriptionId s = s_stripeSubscriptionId sub) (subs b) then None
      else Some (put_subs (subs b @ [(userId, sub)]) b))"

definition find_by_stripe :: "ident \<Rightarrow> billing \<Rightarrow> (ident \<times> subscription) option" where
  "find_by_stripe sid b = List.find (\<lambda>(u, s). s_stripeSubscriptionId s = Some sid) (subs b)"

definition stripe_log :: "stripe_call \<Rightarrow> billing \<Rightarrow> billing" where
  "stripe_log c b = b\<lparr>stripeCalls := stripeCalls b @ [c]\<rparr>"

definition audit :: "ident \<Rightarrow> string \<Rightarrow> string \<Rightarrow> billing \<Rightarrow> billing" where
  "audit entity event detail b = b\<lparr>core := (core b)\<lparr>auditLog := auditLog (core b) @ [(entity, event, detail)]\<rparr>\<rparr>"

definition increment_uses :: "ident \<Rightarrow> billing \<Rightarrow> billing" where
  "increment_uses promoId b =
     b\<lparr>promos := (\<lambda>c. map_option (\<lambda>p. if pr_id p = promoId then p\<lparr>pr_usesCount := pr_usesCount p + 1\<rparr> else p)
                  (promos b c))\<rparr>"

section \<open>The service\<close>

definition SETUP_KEY :: "ident \<Rightarrow> key" where
  "SETUP_KEY userId = ''sub:setup:'' @ userId"

definition SETUP_TTL :: int where "SETUP_TTL = 3600"

definition ACTIVE_STATUSES :: "subscription_status list" where
  "ACTIVE_STATUSES = [S_ACTIVE, TRIALLING, PAST_DUE]"

definition stripeStatusToLocal :: "string \<Rightarrow> subscription_status" where
  "stripeStatusToLocal status =
     (if status = ''trialing'' then TRIALLING
      else if status = ''active'' then S_ACTIVE
      else if status = ''canceled'' then CANCELLED
      else if status = ''past_due'' then PAST_DUE
      else if status = ''unpaid'' then PAST_DUE
      else if status = ''incomplete'' then PAST_DUE
      else EXPIRED)"

definition getActivePlans :: "billing \<Rightarrow> (ident \<times> plan) list" where
  "getActivePlans b = sort_key (\<lambda>(i, p). pl_sortOrder p) (filter (\<lambda>(i, p). pl_isActive p) (plans b))"

definition getMySubscription :: "billing \<Rightarrow> ident \<Rightarrow> (subscription \<times> plan option) option" where
  "getMySubscription b userId =
     map_option (\<lambda>s. (s, map_of (plans b) (s_planId s))) (map_of (subs b) userId)"

definition createSetupIntent ::
  "stripe_env \<Rightarrow> time \<Rightarrow> ident \<Rightarrow> billing \<Rightarrow> redis \<Rightarrow> string result \<times> billing \<times> redis" where
  "createSetupIntent se now userId b rs =
     (case customers b userId of
        None \<Rightarrow> (throw INVALID_CREDENTIALS, b, rs)
      | Some cu \<Rightarrow>
        (let fresh = (cu_stripeCustomerId cu = None \<or> cu_stripeCustomerId cu = Some '''');
             b1 = (if fresh then stripe_log (CustomersCreate (cu_email cu)) b else b)
         in case (if fresh then se_customer se else cu_stripeCustomerId cu) of
              None \<Rightarrow> (throw (BILLING STRIPE_ERROR), b1, rs)
            | Some cid \<Rightarrow>
              (let b2 = (if fresh then b1\<lparr>customers := (customers b1)(userId \<mapsto> cu\<lparr>cu_stripeCustomerId := Some cid\<rparr>)\<rparr>
                         else b1);
                   rs1 = SET_EX now (SETUP_KEY userId) cid SETUP_TTL rs;
                   b3 = stripe_log (SetupIntentsCreate cid) b2
               in case se_intent se of
                    None \<Rightarrow> (throw (BILLING STRIPE_ERROR), b3, rs1)
                  | Some secret \<Rightarrow> (returns secret, b3, rs1))))"

definition promo_check :: "time \<Rightarrow> string option \<Rightarrow> billing \<Rightarrow> (ident \<times> ident option) option result" where
  "promo_check now promoCode b =
     (if promoCode = None \<or> promoCode = Some '''' then returns None
      else case promos b (the promoCode) of
          None \<Rightarrow> throw (BILLING PROMO_CODE_INVALID)
        | Some p \<Rightarrow>
          if \<not> pr_isActive p \<or> (case pr_expiresAt p of None \<Rightarrow> False | Some t \<Rightarrow> t < now) then throw (BILLING PROMO_CODE_INVALID)
          else if (case pr_maxUses p of None \<Rightarrow> False | Some m \<Rightarrow> m \<le> pr_usesCount p) then throw (BILLING PROMO_CODE_EXHAUSTED)
          else returns (Some (pr_id p, pr_stripeCouponId p)))"

definition new_subscription ::
  "ident \<Rightarrow> ident \<Rightarrow> stripe_sub \<Rightarrow> int \<Rightarrow> int \<Rightarrow> ident option \<Rightarrow> subscription" where
  "new_subscription planId customerId ss startSec endSec promoCodeId =
     \<lparr>s_planId = planId, s_stripeSubscriptionId = Some (ss_id ss), s_stripeCustomerId = Some customerId,
      s_status = stripeStatusToLocal (ss_status ss), s_currentPeriodStart = startSec * 1000,
      s_currentPeriodEnd = endSec * 1000, s_cancelledAt = None, s_cancelAtPeriodEnd = False,
      s_promoCodeId = promoCodeId, s_cycleAnchorDate = toMidnightUTC (startSec * 1000)\<rparr>"

text \<open>\<open>createSubscription\<close> in its two halves: the guards, which only read, and the calls to Stripe with the
  writes after them.\<close>

definition subscribe_checks ::
  "time \<Rightarrow> ident \<Rightarrow> ident \<Rightarrow> string option \<Rightarrow> billing \<Rightarrow> redis
     \<Rightarrow> (ident \<times> plan \<times> (ident \<times> ident option) option) result" where
  "subscribe_checks now userId planId promoCode b rs =
     (case GET_text now rs (SETUP_KEY userId) of
        None \<Rightarrow> throw (BILLING PAYMENT_METHOD_REQUIRED)
      | Some cid \<Rightarrow>
        if cid = '''' then throw (BILLING PAYMENT_METHOD_REQUIRED)
        else if (case map_of (subs b) userId of None \<Rightarrow> False | Some s \<Rightarrow> s_status s \<in> set ACTIVE_STATUSES)
          then throw (BILLING SUBSCRIPTION_ALREADY_ACTIVE)
        else case map_of (plans b) planId of
          None \<Rightarrow> throw (BILLING PLAN_NOT_FOUND)
        | Some pl \<Rightarrow>
          if \<not> pl_isActive pl then throw (BILLING PLAN_NOT_FOUND)
          else case promo_check now promoCode b of
            Inl e \<Rightarrow> throw e
          | Inr pr \<Rightarrow> returns (cid, pl, pr))"

definition record_subscription ::
  "ident \<Rightarrow> ident \<Rightarrow> ident \<Rightarrow> (ident \<times> ident option) option \<Rightarrow> stripe_sub \<Rightarrow> int \<Rightarrow> int \<Rightarrow> billing \<Rightarrow> redis
     \<Rightarrow> subscription result \<times> billing \<times> redis" where
  "record_subscription userId planId cid pr ss startSec endSec b rs =
     (let sub = new_subscription planId cid ss startSec endSec (map_option fst pr)
      in case create_sub userId sub b of
           None \<Rightarrow> (throw (UNHANDLED P2002), b, rs)
         | Some b3 \<Rightarrow>
           (let b4 = (case pr of None \<Rightarrow> b3
                      | Some (pid, c) \<Rightarrow> audit userId ''SUBSCRIPTION_PROMO_APPLIED'' pid (increment_uses pid b3))
            in (returns sub, audit userId ''SUBSCRIPTION_CREATED'' (ss_id ss) b4, DEL_text (SETUP_KEY userId) rs)))"

definition subscribe_stripe ::
  "stripe_env \<Rightarrow> ident \<Rightarrow> ident \<Rightarrow> ident \<Rightarrow> ident \<Rightarrow> plan \<Rightarrow> (ident \<times> ident option) option \<Rightarrow> billing \<Rightarrow> redis
     \<Rightarrow> subscription result \<times> billing \<times> redis" where
  "subscribe_stripe se userId planId paymentMethodId cid pl pr b rs =
     (let coupon = (case pr of None \<Rightarrow> None | Some (pid, c) \<Rightarrow> if c = Some '''' then None else c);
          b1 = stripe_log (PaymentMethodsAttach paymentMethodId cid) b
      in if \<not> se_attach se then (throw (BILLING STRIPE_ERROR), b1, rs)
         else (let b2 = stripe_log (SubscriptionsCreate cid (pl_stripePriceId pl) coupon) b1
           in case se_subscription se of
                None \<Rightarrow> (throw (BILLING STRIPE_ERROR), b2, rs)
              | Some ss \<Rightarrow>
                (case ss_items ss of
                   [] \<Rightarrow> (throw (BILLING STRIPE_ERROR), b2, rs)
                 | (startSec, endSec) # _ \<Rightarrow> record_subscription userId planId cid pr ss startSec endSec b2 rs)))"

definition createSubscription ::
  "stripe_env \<Rightarrow> time \<Rightarrow> ident \<Rightarrow> ident \<Rightarrow> ident \<Rightarrow> string option \<Rightarrow> billing \<Rightarrow> redis
     \<Rightarrow> subscription result \<times> billing \<times> redis" where
  "createSubscription se now userId planId paymentMethodId promoCode b rs =
     (case subscribe_checks now userId planId promoCode b rs of
        Inl e \<Rightarrow> (throw e, b, rs)
      | Inr (cid, pl, pr) \<Rightarrow> subscribe_stripe se userId planId paymentMethodId cid pl pr b rs)"

definition cancelSubscription ::
  "stripe_env \<Rightarrow> time \<Rightarrow> ident \<Rightarrow> billing \<Rightarrow> subscription result \<times> billing" where
  "cancelSubscription se now userId b =
     (case map_of (subs b) userId of
        None \<Rightarrow> (throw (BILLING SUBSCRIPTION_NOT_FOUND), b)
      | Some sub \<Rightarrow>
        if s_status sub = CANCELLED \<or> s_status sub = EXPIRED then (throw (BILLING SUBSCRIPTION_NOT_CANCELLABLE), b)
        else
          (let remote = (s_stripeSubscriptionId sub \<noteq> None \<and> s_stripeSubscriptionId sub \<noteq> Some '''');
               b1 = (if remote then stripe_log (SubscriptionsCancelAtPeriodEnd (the (s_stripeSubscriptionId sub))) b else b)
           in if remote \<and> \<not> se_update se then (throw (BILLING STRIPE_ERROR), b1)
              else (let upd = (\<lambda>s. s\<lparr>s_cancelAtPeriodEnd := True, s_cancelledAt := Some now\<rparr>)
                in (returns (upd sub),
                    audit userId ''SUBSCRIPTION_CANCELLED''
                      (case s_stripeSubscriptionId sub of None \<Rightarrow> '''' | Some i \<Rightarrow> i)
                      (update_sub userId upd b1)))))"

section \<open>The webhook\<close>

text \<open>\<open>updateMany\<close> over the user's claimed states: the flag is cleared and the start set to now.\<close>

definition reset_state :: "time \<Rightarrow> cycle_state \<Rightarrow> cycle_state" where
  "reset_state now st =
     (if isRedeemedInCurrentCycle st then st\<lparr>isRedeemedInCurrentCycle := False, cycleStartDate := now\<rparr> else st)"

definition resetVoucherCycleForUser :: "time \<Rightarrow> ident \<Rightarrow> db \<Rightarrow> db" where
  "resetVoucherCycleForUser now userId d =
     d\<lparr>cycleStates := (\<lambda>(u, v). if u = userId then map_option (reset_state now) (cycleStates d (u, v))
                       else cycleStates d (u, v))\<rparr>"

definition mapStripeStatus :: "string \<Rightarrow> subscription_status" where
  "mapStripeStatus s =
     (if s = ''active'' then S_ACTIVE
      else if s = ''trialing'' then TRIALLING
      else if s = ''past_due'' then PAST_DUE
      else if s = ''unpaid'' then PAST_DUE
      else if s = ''canceled'' then CANCELLED
      else if s = ''incomplete'' then PAST_DUE
      else if s = ''incomplete_expired'' then EXPIRED
      else EXPIRED)"

record stripe_object =
  so_id :: ident
  so_status :: string
  so_period :: "int \<times> int"
  so_items :: "(int \<times> int) list"

record invoice =
  in_id :: ident
  in_billing_reason :: string
  in_subscription :: ident

datatype event_body =
    SubscriptionUpdated stripe_object
  | SubscriptionDeleted stripe_object
  | PaymentSucceeded invoice
  | PaymentFailed invoice
  | Unrecognised

record stripe_event =
  ev_id :: ident
  ev_body :: event_body

definition period_of :: "stripe_object \<Rightarrow> int \<times> int" where
  "period_of so = (case so_items so of [] \<Rightarrow> so_period so | p # _ \<Rightarrow> p)"

definition set_status :: "subscription_status \<Rightarrow> stripe_object \<Rightarrow> subscription \<Rightarrow> subscription" where
  "set_status st so s =
     s\<lparr>s_status := st, s_currentPeriodStart := fst (period_of so) * 1000,
       s_currentPeriodEnd := snd (period_of so) * 1000\<rparr>"

definition handle_event :: "time \<Rightarrow> event_body \<Rightarrow> billing \<Rightarrow> billing" where
  "handle_event now body b =
     (case body of
        SubscriptionUpdated so \<Rightarrow>
          (case find_by_stripe (so_id so) b of
             None \<Rightarrow> b
           | Some (u, s) \<Rightarrow> audit u ''SUBSCRIPTION_RENEWED'' '''' (update_sub u (set_status (mapStripeStatus (so_status so)) so) b))
      | SubscriptionDeleted so \<Rightarrow>
          (case find_by_stripe (so_id so) b of
             None \<Rightarrow> b
           | Some (u, s) \<Rightarrow> audit u ''SUBSCRIPTION_CANCELLED'' '''' (update_sub u (set_status CANCELLED so) b))
      | PaymentSucceeded i \<Rightarrow>
          if in_billing_reason i \<noteq> ''subscription_cycle'' then b
          else (case find_by_stripe (in_subscription i) b of
                  None \<Rightarrow> b
                | Some (u, s) \<Rightarrow>
                  audit u ''SUBSCRIPTION_RENEWED'' (in_id i)
                    (audit u ''VOUCHER_CYCLE_RESET'' '''' (b\<lparr>core := resetVoucherCycleForUser now u (core b)\<rparr>)))
      | PaymentFailed i \<Rightarrow>
          (case find_by_stripe (in_subscription i) b of
             None \<Rightarrow> b
           | Some (u, s) \<Rightarrow>
             audit u ''SUBSCRIPTION_PAYMENT_FAILED'' (in_id i) (update_sub u (\<lambda>s. s\<lparr>s_status := PAST_DUE\<rparr>) b))
      | Unrecognised \<Rightarrow> b)"

text \<open>The route: signature, idempotency row, then the event. \<open>works\<close>: whether the statements after the
  idempotency row succeed; a fault there is thrown before anything is written.\<close>

definition webhook :: "time \<Rightarrow> bool \<Rightarrow> bool \<Rightarrow> stripe_event \<Rightarrow> billing \<Rightarrow> unit result \<times> billing" where
  "webhook now sig_ok works ev b =
     (if \<not> sig_ok then (throw (BILLING WEBHOOK_SIGNATURE_INVALID), b)
      else if ev_id ev \<in> set (webhookEvents b) then (returns (), b)
      else (let b1 = b\<lparr>webhookEvents := webhookEvents b @ [ev_id ev]\<rparr>
        in if \<not> works then (throw (UNHANDLED RuntimeError), b1)
           else (returns (), handle_event now (ev_body ev) b1)))"

section \<open>Lemmas\<close>

lemma map_of_update:
  "map_of (map (\<lambda>(u, s). (u, if u = i then f s else s)) xs) u =
     map_option (\<lambda>s. if u = i then f s else s) (map_of xs u)"
  by (induction xs) auto

lemma put_subs_select [simp]:
  "subs (put_subs rows b) = rows" "core (put_subs rows b) = (core b)\<lparr>subscriptions := map_of rows\<rparr>"
  "plans (put_subs rows b) = plans b" "promos (put_subs rows b) = promos b"
  "webhookEvents (put_subs rows b) = webhookEvents b" "stripeCalls (put_subs rows b) = stripeCalls b"
  by (simp_all add: put_subs_def)

lemma stripe_log_select [simp]:
  "subs (stripe_log c b) = subs b" "core (stripe_log c b) = core b" "promos (stripe_log c b) = promos b"
  "plans (stripe_log c b) = plans b" "webhookEvents (stripe_log c b) = webhookEvents b"
  "stripeCalls (stripe_log c b) = stripeCalls b @ [c]"
  by (simp_all add: stripe_log_def)

lemma audit_select [simp]:
  "subs (audit u e x b) = subs b" "promos (audit u e x b) = promos b" "plans (audit u e x b) = plans b"
  "webhookEvents (audit u e x b) = webhookEvents b" "stripeCalls (audit u e x b) = stripeCalls b"
  "core (audit u e x b) = (core b)\<lparr>auditLog := auditLog (core b) @ [(u, e, x)]\<rparr>"
  by (simp_all add: audit_def)

lemma increment_uses_select [simp]:
  "subs (increment_uses p b) = subs b" "core (increment_uses p b) = core b" "plans (increment_uses p b) = plans b"
  "stripeCalls (increment_uses p b) = stripeCalls b" "webhookEvents (increment_uses p b) = webhookEvents b"
  by (simp_all add: increment_uses_def)

lemma update_sub_select [simp]:
  "subs (update_sub u f b) = map (\<lambda>(i, s). (i, if i = u then f s else s)) (subs b)"
  "promos (update_sub u f b) = promos b" "webhookEvents (update_sub u f b) = webhookEvents b"
  "stripeCalls (update_sub u f b) = stripeCalls b" "plans (update_sub u f b) = plans b"
  by (simp_all add: update_sub_def)

lemma handle_event_webhookEvents [simp]: "webhookEvents (handle_event now body b) = webhookEvents b"
  by (simp add: handle_event_def split: event_body.splits option.splits prod.splits)

lemma find_by_stripe_Some:
  "find_by_stripe sid b = Some (u, s) \<Longrightarrow> (u, s) \<in> set (subs b) \<and> s_stripeSubscriptionId s = Some sid"
  unfolding find_by_stripe_def by (drule find_Some_in) simp

text \<open>\<open>createSubscription\<close> by its outcome.\<close>

lemma subscribe_checks_Inr:
  "subscribe_checks now userId planId promoCode b rs = Inr (cid, pl, pr) \<longleftrightarrow>
     GET_text now rs (SETUP_KEY userId) = Some cid \<and> cid \<noteq> '''' \<and>
     \<not> (case map_of (subs b) userId of None \<Rightarrow> False | Some s \<Rightarrow> s_status s \<in> set ACTIVE_STATUSES) \<and>
     map_of (plans b) planId = Some pl \<and> pl_isActive pl \<and> promo_check now promoCode b = Inr pr"
  unfolding subscribe_checks_def by (auto split: option.splits sum.splits if_splits)

lemma record_subscription_Inl:
  "record_subscription u p cid pr ss st en b rs = (Inl e, b', rs') \<Longrightarrow> b' = b \<and> rs' = rs"
  unfolding record_subscription_def Let_def by (auto split: option.splits)

lemma record_subscription_Inr:
  assumes "record_subscription u p cid pr ss st en b rs = (Inr sub, b', rs')"
  shows "sub = new_subscription p cid ss st en (map_option fst pr) \<and> u \<notin> set (map fst (subs b)) \<and>
    subs b' = subs b @ [(u, sub)] \<and> subscriptions (core b') = map_of (subs b') \<and>
    promos b' = promos (case pr of None \<Rightarrow> b | Some (pid, c) \<Rightarrow> increment_uses pid b) \<and>
    rs' = DEL_text (SETUP_KEY u) rs \<and> plans b' = plans b"
  using assms unfolding record_subscription_def create_sub_def Let_def
  by (auto simp: increment_uses_def split: if_splits option.splits prod.splits)

lemma createSubscription_Inl:
  "createSubscription se now userId planId pm promoCode b rs = (Inl e, b', rs') \<Longrightarrow>
     subs b' = subs b \<and> promos b' = promos b \<and> core b' = core b \<and> rs' = rs"
  unfolding createSubscription_def subscribe_stripe_def Let_def
  by (auto dest!: record_subscription_Inl split: option.splits if_splits sum.splits list.splits prod.splits)

lemma subscribe_stripe_Inr:
  assumes "subscribe_stripe se u p pm cid pl pr b rs = (Inr sub, b', rs')"
  shows "\<exists>ss startSec endSec rest coupon. se_subscription se = Some ss \<and> ss_items ss = (startSec, endSec) # rest \<and>
    record_subscription u p cid pr ss startSec endSec
      (stripe_log (SubscriptionsCreate cid (pl_stripePriceId pl) coupon) (stripe_log (PaymentMethodsAttach pm cid) b)) rs
      = (Inr sub, b', rs')"
  using assms unfolding subscribe_stripe_def Let_def
  by (cases "se_subscription se"; cases "ss_items (the (se_subscription se))") (auto split: if_splits prod.splits)

lemma createSubscription_Inr:
  assumes "createSubscription se now userId planId pm promoCode b rs = (Inr sub, b', rs')"
  obtains cid pl ss startSec endSec rest pr b2 where
    "subscribe_checks now userId planId promoCode b rs = Inr (cid, pl, pr)"
    "se_subscription se = Some ss" "ss_items ss = (startSec, endSec) # rest"
    "subs b2 = subs b" "promos b2 = promos b" "core b2 = core b" "plans b2 = plans b"
    "record_subscription userId planId cid pr ss startSec endSec b2 rs = (Inr sub, b', rs')"
proof -
  obtain cid pl pr where c: "subscribe_checks now userId planId promoCode b rs = Inr (cid, pl, pr)"
    using assms by (auto simp: createSubscription_def split: sum.splits)
  then have "subscribe_stripe se userId planId pm cid pl pr b rs = (Inr sub, b', rs')"
    using assms by (simp add: createSubscription_def)
  from subscribe_stripe_Inr[OF this] show ?thesis
    by (elim exE conjE) (rule that[OF c], assumption+, simp_all)
qed

text \<open>The two mappings of Stripe's statuses.\<close>

lemma status_maps_equal: "mapStripeStatus s = stripeStatusToLocal s"
  by (simp add: mapStripeStatus_def stripeStatusToLocal_def)

section \<open>Billing histories\<close>

text \<open>One request or delivery, with whatever Stripe answers.\<close>

inductive billing_step :: "billing \<times> redis \<Rightarrow> billing \<times> redis \<Rightarrow> bool" where
  intent: "billing_step (b, rs) (b', rs')" if "createSetupIntent se now u b rs = (res, b', rs')"
| subscribe: "billing_step (b, rs) (b', rs')" if "createSubscription se now u p pm pc b rs = (res, b', rs')"
| cancel: "billing_step (b, rs) (b', rs)" if "cancelSubscription se now u b = (res, b')"
| deliver: "billing_step (b, rs) (b', rs)" if "webhook now sig_ok works ev b = (res, b')"

definition billing_ok :: "billing \<Rightarrow> bool" where
  "billing_ok b \<longleftrightarrow> subscriptions (core b) = map_of (subs b) \<and> distinct (map fst (subs b))"

definition anchor_of :: "billing \<Rightarrow> ident \<rightharpoonup> time" where
  "anchor_of b u = map_option s_cycleAnchorDate (map_of (subs b) u)"

lemma map_fst_update: "map fst (map (\<lambda>(i, s). (i, if i = u then f s else s)) xs) = map fst xs"
  by (induction xs) auto

lemma update_sub_ok:
  "billing_ok b \<Longrightarrow> billing_ok (update_sub u f b)"
  unfolding billing_ok_def update_sub_select map_fst_update by (simp add: update_sub_def)

lemma update_sub_anchor:
  "(\<And>s. s_cycleAnchorDate (f s) = s_cycleAnchorDate s) \<Longrightarrow> anchor_of (update_sub u f b) = anchor_of b"
  by (rule ext) (auto simp: anchor_of_def map_of_update option.map_comp intro!: option.map_cong)

lemma same_subs: "subs b' = subs b \<Longrightarrow> subscriptions (core b') = subscriptions (core b) \<Longrightarrow>
    billing_ok b' = billing_ok b \<and> anchor_of b' = anchor_of b"
  by (simp add: billing_ok_def anchor_of_def fun_eq_iff)

lemma audit_ok: "billing_ok (audit u e x b) = billing_ok b" "anchor_of (audit u e x b) = anchor_of b"
  using same_subs[of "audit u e x b" b] by simp_all

lemma log_ok: "billing_ok (stripe_log c b) = billing_ok b" "anchor_of (stripe_log c b) = anchor_of b"
  using same_subs[of "stripe_log c b" b] by simp_all

lemma handle_event_keeps:
  assumes "billing_ok b"
  shows "billing_ok (handle_event now body b) \<and> anchor_of (handle_event now body b) = anchor_of b"
proof -
  have r: "billing_ok (b\<lparr>core := resetVoucherCycleForUser now u (core b)\<rparr>) \<and>
      anchor_of (b\<lparr>core := resetVoucherCycleForUser now u (core b)\<rparr>) = anchor_of b" for u
    using assms by (simp add: billing_ok_def anchor_of_def fun_eq_iff resetVoucherCycleForUser_def)
  have s: "s_cycleAnchorDate (set_status st so s) = s_cycleAnchorDate s" for st so s
    by (simp add: set_status_def)
  show ?thesis
    by (cases body)
      (simp_all add: handle_event_def audit_ok update_sub_ok update_sub_anchor s r assms split: option.splits prod.splits)
qed

lemma createSetupIntent_subs:
  "createSetupIntent se now u b rs = (res, b', rs') \<Longrightarrow> subs b' = subs b \<and> core b' = core b"
  unfolding createSetupIntent_def Let_def by (auto split: option.splits if_splits)

lemma cancel_keeps:
  assumes "cancelSubscription se now u b = (res, b')" "billing_ok b"
  shows "billing_ok b' \<and> anchor_of b' = anchor_of b"
  using assms unfolding cancelSubscription_def Let_def
  by (auto simp: audit_ok update_sub_ok update_sub_anchor log_ok split: option.splits if_splits)

lemma webhook_keeps:
  assumes "webhook now sig_ok works ev b = (res, b')" "billing_ok b"
  shows "billing_ok b' \<and> anchor_of b' = anchor_of b"
proof -
  let ?b1 = "b\<lparr>webhookEvents := webhookEvents b @ [ev_id ev]\<rparr>"
  have "billing_ok ?b1" "anchor_of ?b1 = anchor_of b" using assms(2) same_subs[of ?b1 b] by simp_all
  then show ?thesis using handle_event_keeps[of ?b1 now "ev_body ev"] assms
    by (auto simp: webhook_def Let_def split: if_splits)
qed

lemma subscribe_keeps:
  assumes "createSubscription se now u p pm pc b rs = (res, b', rs')" "billing_ok b"
  shows "billing_ok b' \<and> anchor_of b \<subseteq>\<^sub>m anchor_of b'"
proof (cases res)
  case (Inl e)
  then show ?thesis using createSubscription_Inl assms same_subs[of b' b] by (metis map_le_refl)
next
  case (Inr sub)
  have "u \<notin> set (map fst (subs b)) \<and> subs b' = subs b @ [(u, sub)] \<and> subscriptions (core b') = map_of (subs b')"
    by (rule createSubscription_Inr[OF assms(1)[unfolded Inr]]) (drule record_subscription_Inr, simp)
  then show ?thesis using assms(2)
    by (auto simp: billing_ok_def map_le_def anchor_of_def map_add_Some_iff)
qed

lemma billing_step_keeps:
  "billing_step w w' \<Longrightarrow> billing_ok (fst w) \<Longrightarrow> billing_ok (fst w') \<and> anchor_of (fst w) \<subseteq>\<^sub>m anchor_of (fst w')"
proof (induction rule: billing_step.induct)
  case (intent se now u b rs res b' rs')
  then show ?case using createSetupIntent_subs same_subs[of b' b] by fastforce
next
  case (subscribe se now u p pm pc b rs res b' rs')
  then show ?case using subscribe_keeps by simp
next
  case (cancel se now u b res b' rs)
  then show ?case using cancel_keeps by simp
next
  case (deliver now sig_ok works ev b res b' rs)
  then show ?case using webhook_keeps by simp
qed

lemma billing_reach_keeps:
  assumes "billing_step\<^sup>*\<^sup>* w w'" "billing_ok (fst w)"
  shows "billing_ok (fst w') \<and> anchor_of (fst w) \<subseteq>\<^sub>m anchor_of (fst w')"
  using assms(1)
proof (induction rule: rtranclp_induct)
  case base
  then show ?case using assms(2) by simp
next
  case (step y z)
  then show ?case using billing_step_keeps map_le_trans by metis
qed

section \<open>A sample\<close>

definition sample_ss :: stripe_sub where
  "sample_ss = \<lparr>ss_id = ''sub_2'', ss_status = ''active'', ss_items = [(5000, 2683400)]\<rparr>"

definition sample_env :: stripe_env where
  "sample_env = \<lparr>se_customer = Some ''cus'', se_intent = Some ''secret'', se_attach = True,
     se_subscription = Some sample_ss, se_update = True\<rparr>"

definition sample_billing :: "(ident \<times> subscription) list \<Rightarrow> billing" where
  "sample_billing rows =
     \<lparr>core = (sample_db ''enc'')\<lparr>subscriptions := map_of rows\<rparr>, subs = rows,
      plans = [(''p'', \<lparr>pl_stripePriceId = ''price'', pl_isActive = True, pl_sortOrder = 0\<rparr>)],
      promos = [''WELCOME'' \<mapsto> \<lparr>pr_id = ''promo'', pr_isActive = True, pr_expiresAt = None, pr_maxUses = Some 1,
                 pr_usesCount = 0, pr_stripeCouponId = Some ''coupon''\<rparr>],
      customers = [''u'' \<mapsto> \<lparr>cu_email = ''a@b'', cu_stripeCustomerId = Some ''cus''\<rparr>],
      webhookEvents = [], stripeCalls = []\<rparr>"

definition sample_sub :: "subscription_status \<Rightarrow> subscription" where
  "sample_sub st = sample_subscription\<lparr>s_stripeSubscriptionId := Some ''sub_1'', s_status := st\<rparr>"

definition sample_redis :: redis where
  "sample_redis = SET_EX 0 (SETUP_KEY ''u'') ''cus'' SETUP_TTL empty_redis"

section \<open>Properties\<close>

text \<open>A subscription request either fails and leaves the table, the promo codes, the redemption store and
  the setup key as they were, or the user's subscription is the one returned, on the requested plan, with
  its cycle anchored at the midnight of the first billing period, and the setup key is spent.\<close>

theorem subscription_recorded_or_nothing:
  assumes "createSubscription se now u planId pm promoCode b rs = (res, b', rs')" "billing_ok b"
  shows "case res of
           Inl e \<Rightarrow> subs b' = subs b \<and> promos b' = promos b \<and> core b' = core b \<and> rs' = rs
         | Inr sub \<Rightarrow>
             getMySubscription b' u = Some (sub, map_of (plans b) planId) \<and> s_planId sub = planId \<and>
             s_cycleAnchorDate sub = toMidnightUTC (s_currentPeriodStart sub) \<and>
             subscriptions (core b') u = Some sub \<and> GET_text now rs' (SETUP_KEY u) = None"
proof (cases res)
  case (Inl e)
  then show ?thesis using createSubscription_Inl assms(1) by simp
next
  case (Inr sub)
  obtain cid pl ss st en rest pr b2 where c: "plans b2 = plans b" "subs b2 = subs b"
    "record_subscription u planId cid pr ss st en b2 rs = (Inr sub, b', rs')"
    using createSubscription_Inr[OF assms(1)[unfolded Inr]] by metis
  note r = record_subscription_Inr[OF c(3)]
  have "map_of (subs b2) u = None" using r by (simp add: map_of_eq_None_iff)
  then have "map_of (subs b') u = Some sub" using r by (simp add: map_add_def)
  then show ?thesis using r c Inr
    by (simp add: getMySubscription_def new_subscription_def GET_text_DEL)
qed

theorem subscription_recorded_or_nothing_witness:
  "\<exists>sub b' rs'. createSubscription sample_env 0 ''u'' ''p'' ''pm'' (Some ''WELCOME'') (sample_billing []) sample_redis
       = (Inr sub, b', rs') \<and> getMySubscription b' ''u'' = Some (sub, map_of (plans (sample_billing [])) ''p'')"
proof -
  obtain res b' rs' where r: "createSubscription sample_env 0 ''u'' ''p'' ''pm'' (Some ''WELCOME'') (sample_billing [])
      sample_redis = (res, b', rs')" by (metis prod_cases3)
  have "isOk (fst (createSubscription sample_env 0 ''u'' ''p'' ''pm'' (Some ''WELCOME'') (sample_billing []) sample_redis))"
    by code_simp
  then obtain sub where s: "res = Inr sub" using r by (cases res) simp_all
  have "billing_ok (sample_billing [])" by (simp add: billing_ok_def sample_billing_def)
  then show ?thesis using subscription_recorded_or_nothing[OF r] r s by auto
qed



text \<open>A Stripe event delivered again, at any time and whatever became of the first delivery, answers
  200 and changes nothing.\<close>

theorem redelivery_changes_nothing:
  "webhook t2 True works' ev (snd (webhook t1 True works ev b)) = (returns (), snd (webhook t1 True works ev b))"
  by (simp add: webhook_def Let_def)

text \<open>When the work after the idempotency row fails, Stripe's retry is acknowledged as a duplicate: the
  event is never applied, and the subscription and the voucher states stay as they were.\<close>

theorem failed_delivery_is_lost:
  assumes "ev_id ev \<notin> set (webhookEvents b)"
  shows "\<exists>b1. webhook t1 True False ev b = (throw (UNHANDLED RuntimeError), b1) \<and>
    webhook t2 True True ev b1 = (returns (), b1) \<and> subs b1 = subs b \<and> core b1 = core b"
  using assms by (simp add: webhook_def Let_def)

definition sample_renewal :: stripe_event where
  "sample_renewal = \<lparr>ev_id = ''evt'', ev_body = PaymentSucceeded
     \<lparr>in_id = ''in'', in_billing_reason = ''subscription_cycle'', in_subscription = ''sub_1''\<rparr>\<rparr>"

theorem failed_delivery_is_lost_witness:
  "\<exists>b1. webhook 0 True False sample_renewal (sample_billing []) = (throw (UNHANDLED RuntimeError), b1) \<and>
     webhook 1 True True sample_renewal b1 = (returns (), b1)"
  using failed_delivery_is_lost[of sample_renewal "sample_billing []"] by (auto simp: sample_billing_def)

text \<open>A user whose subscription was cancelled or has expired, and who subscribes again, is taken through
  Stripe's subscription call and then refused by the unique user id: the store has no new subscription,
  the request answers an unhandled error, and the call to Stripe has been made.\<close>

theorem resubscribe_charges_then_fails:
  assumes "map_of (subs b) u = Some s" "s_status s = CANCELLED \<or> s_status s = EXPIRED"
    and "subscribe_checks now u planId promoCode b rs = Inr (cid, pl, pr)"
    and "se_attach se" "se_subscription se = Some ss" "ss_items ss \<noteq> []"
  shows "\<exists>b' coupon. createSubscription se now u planId pm promoCode b rs = (throw (UNHANDLED P2002), b', rs) \<and>
    subs b' = subs b \<and> stripeCalls b' =
      stripeCalls b @ [PaymentMethodsAttach pm cid, SubscriptionsCreate cid (pl_stripePriceId pl) coupon]"
proof -
  obtain st en rest where i: "ss_items ss = (st, en) # rest" using assms(6) by (cases "ss_items ss") auto
  have "u \<in> set (map fst (subs b))" using map_of_SomeD[OF assms(1)] by force
  then have "record_subscription u planId cid pr ss st en b2 rs = (throw (UNHANDLED P2002), b2, rs)"
    if "subs b2 = subs b" for b2
    using that unfolding record_subscription_def create_sub_def by simp
  then show ?thesis using assms(4,5) i
    by (simp add: createSubscription_def assms(3) subscribe_stripe_def Let_def)
qed

theorem resubscribe_charges_then_fails_witness:
  "\<exists>b'. createSubscription sample_env 0 ''u'' ''p'' ''pm'' None (sample_billing [(''u'', sample_sub CANCELLED)])
     sample_redis = (throw (UNHANDLED P2002), b', sample_redis)"
proof -
  let ?b = "sample_billing [(''u'', sample_sub CANCELLED)]"
  have "GET_text 0 sample_redis (SETUP_KEY ''u'') = Some ''cus''"
    by (simp add: sample_redis_def GET_text_SET_EX SETUP_TTL_def)
  then have c: "subscribe_checks 0 ''u'' ''p'' None ?b sample_redis =
      Inr (''cus'', \<lparr>pl_stripePriceId = ''price'', pl_isActive = True, pl_sortOrder = 0\<rparr>, None)"
    by (simp add: subscribe_checks_Inr sample_billing_def sample_sub_def ACTIVE_STATUSES_def promo_check_def)
  show ?thesis
    using resubscribe_charges_then_fails[of ?b "''u''" "sample_sub CANCELLED", OF _ _ c, of sample_env sample_ss "''pm''"]
    by (auto simp: sample_billing_def sample_sub_def sample_env_def sample_ss_def)
qed

text \<open>The renewal webhook reopens vouchers of the cycle that is already running: a voucher claimed in the
  current cycle is refused before the delivery and granted after it, in the same cycle.\<close>

theorem renewal_reopens_claimed_voucher:
  assumes "ev_body ev = PaymentSucceeded i" "in_billing_reason i = ''subscription_cycle''"
    and "ev_id ev \<notin> set (webhookEvents b)" "find_by_stripe (in_subscription i) b = Some (r_userId row, sub)"
    and "cycleStates (core b) (r_userId row, r_voucherId row) = Some (claim_state start t)"
    and "\<forall>r \<in> set (redemptions (core b)). r_redemptionCode r \<noteq> r_redemptionCode row" "r_windowStartsAt row = None"
  shows "claim_cycle row start (core b) = Inl ALREADY_REDEEMED \<and>
    (\<exists>d'. claim_cycle row start (core (snd (webhook now True True ev b))) = Inr d' \<and>
      rows_of (r_userId row) (r_voucherId row) d' = rows_of (r_userId row) (r_voucherId row) (core b) @ [row])"
proof
  show "claim_cycle row start (core b) = Inl ALREADY_REDEEMED"
    by (simp add: claim_cycle_def cycle_tx1_def cycle_tx2_def assms(5) claimable_def claim_state_def)
  let ?d = "core (snd (webhook now True True ev b))"
  have f: "find_by_stripe s (b\<lparr>webhookEvents := w\<rparr>) = find_by_stripe s b" for s w
    by (simp add: find_by_stripe_def)
  have d: "redemptions ?d = redemptions (core b)"
    "cycleStates ?d (r_userId row, r_voucherId row) = Some (reset_state now (claim_state start t))"
    using assms by (simp_all add: webhook_def Let_def handle_event_def resetVoucherCycleForUser_def f)
  have n: "\<not> list_ex (\<lambda>r. r_redemptionCode r = r_redemptionCode row) (redemptions (core b))"
    "\<not> list_ex (same_window row) (redemptions (core b))"
    using assms(6,7) by (auto simp: list_ex_iff same_window_def)
  have "create_row row (put_state row start ?d) =
      Inr ((put_state row start ?d)\<lparr>redemptions := redemptions (core b) @ [row]\<rparr>)"
    by (simp add: create_row_def put_state_def d n)
  then have "claim_cycle row start ?d = Inr ((put_state row start ?d)\<lparr>redemptions := redemptions (core b) @ [row]\<rparr>)"
    by (simp add: claim_cycle_def cycle_tx1_def d(2) claimable_def reset_state_def claim_state_def)
  then show "\<exists>d'. claim_cycle row start ?d = Inr d' \<and>
      rows_of (r_userId row) (r_voucherId row) d' = rows_of (r_userId row) (r_voucherId row) (core b) @ [row]"
    by (simp add: rows_of_def)
qed

theorem renewal_reopens_claimed_voucher_witness:
  "\<exists>d'. claim_cycle sample_row 0 (core (snd (webhook 5 True True sample_renewal
      ((sample_billing [(''u'', sample_sub S_ACTIVE)])
         \<lparr>core := (sample_db ''enc'')\<lparr>cycleStates := [(''u'', ''v'') \<mapsto> claim_state 0 3]\<rparr>\<rparr>)))) = Inr d'"
proof -
  let ?b = "(sample_billing [(''u'', sample_sub S_ACTIVE)])
         \<lparr>core := (sample_db ''enc'')\<lparr>cycleStates := [(''u'', ''v'') \<mapsto> claim_state 0 3]\<rparr>\<rparr>"
  let ?i = "\<lparr>in_id = ''in'', in_billing_reason = ''subscription_cycle'', in_subscription = ''sub_1''\<rparr>"
  have r: "r_userId sample_row = ''u'' \<and> r_voucherId sample_row = ''v'' \<and> r_windowStartsAt sample_row = None"
    by (simp add: sample_row_def redemption_row_def sample_request_def entitlement_of_def sample_voucher_def)
  have f: "find_by_stripe ''sub_1'' ?b = Some (''u'', sample_sub S_ACTIVE)"
    by (simp add: find_by_stripe_def sample_billing_def sample_sub_def)
  show ?thesis
    using renewal_reopens_claimed_voucher[of sample_renewal ?i ?b sample_row "sample_sub S_ACTIVE" 0 3 5] r f
    by (auto simp: sample_renewal_def sample_billing_def sample_db_def)
qed

end
