(* ===== verification/Session.thy ===== *)
theory Session
  imports Prelude "HOL-Library.AList"
begin

text \<open>
  \<open>src/api/shared/session.ts\<close> and \<open>src/api/auth/merchant/atomicRotate.ts\<close>: refresh tokens in Redis, the
  session rows of the database, and the atomic rotation and revocation of merchant sessions.

  A key family that is listed with \<open>KEYS\<close> is an association list with an expiry instant for each entry.
  A stored text is what \<open>JSON.parse\<close> and \<open>cjson.decode\<close> make of it: an object with the fields that
  \<open>storeRefreshToken\<close> writes, or \<open>NotJson\<close>. \<open>hash\<close> is SHA-256 in hex. A Redis command that throws may or
  may not have been applied: \<open>Threw applied\<close>.
\<close>

section \<open>Keys with expiry\<close>

type_synonym key = string
type_synonym 'v expiring = "(key \<times> 'v \<times> time) list"

definition GETX :: "time \<Rightarrow> 'v expiring \<Rightarrow> key \<Rightarrow> 'v option" where
  "GETX now m k = (case map_of m k of None \<Rightarrow> None | Some (v, e) \<Rightarrow> if now < e then Some v else None)"

definition SETX :: "time \<Rightarrow> key \<Rightarrow> 'v \<Rightarrow> int \<Rightarrow> 'v expiring \<Rightarrow> 'v expiring" where
  "SETX now k v ttl m = AList.update k (v, now + ttl * 1000) m"

definition DELX :: "key list \<Rightarrow> 'v expiring \<Rightarrow> 'v expiring" where
  "DELX ks m = filter (\<lambda>(k, v). k \<notin> set ks) m"

text \<open>\<open>KEYS pattern*\<close>\<close>

definition has_prefix :: "string \<Rightarrow> string \<Rightarrow> bool" where
  "has_prefix p k \<longleftrightarrow> take (length p) k = p"

definition KEYSX :: "time \<Rightarrow> string \<Rightarrow> 'v expiring \<Rightarrow> key list" where
  "KEYSX now p m = map fst (filter (\<lambda>(k, v, e). now < e \<and> has_prefix p k) m)"

section \<open>State\<close>

record refresh_blob =
  rb_tokenHash :: "string option"
  rb_deviceId :: string
  rb_deviceType :: string
  rb_deviceName :: "string option"
  rb_createdAt :: time

datatype stored = Json refresh_blob | NotJson

record user_session =
  us_entityId :: ident
  us_entityType :: string
  us_sessionId :: ident
  us_deviceType :: string
  us_lastActiveAt :: time
  us_revokedAt :: "time option"
  us_revokedReason :: "string option"

record sessions =
  tokens :: "stored expiring"        \<comment> \<open>\<open>refresh:*\<close>\<close>
  marks :: "string expiring"         \<comment> \<open>\<open>session-revoked:*\<close>, \<open>sessions:mobile:*\<close>, \<open>auth:*\<close>\<close>
  userSessions :: "user_session list"
  authLog :: "(ident \<times> string \<times> string) list"

definition REFRESH_TOKEN_TTL_SECONDS :: int where
  "REFRESH_TOKEN_TTL_SECONDS = 90 * 24 * 60 * 60"

definition refreshToken :: "string \<Rightarrow> ident \<Rightarrow> ident \<Rightarrow> key" where
  "refreshToken role entityId sessionId = ''refresh:'' @ role @ '':'' @ entityId @ '':'' @ sessionId"

definition sessionRevoked :: "string \<Rightarrow> ident \<Rightarrow> ident \<Rightarrow> key" where
  "sessionRevoked role entityId sessionId = ''session-revoked:'' @ role @ '':'' @ entityId @ '':'' @ sessionId"

definition activeMobileSession :: "string \<Rightarrow> ident \<Rightarrow> key" where
  "activeMobileSession role entityId = ''sessions:mobile:'' @ role @ '':'' @ entityId"

definition auth_cache :: "string \<Rightarrow> ident \<Rightarrow> key" where
  "auth_cache role entityId = ''auth:'' @ role @ '':'' @ entityId"

section \<open>Refresh tokens\<close>

definition storeRefreshToken ::
  "time \<Rightarrow> string \<Rightarrow> ident \<Rightarrow> ident \<Rightarrow> string \<Rightarrow> string \<Rightarrow> string \<Rightarrow> string option \<Rightarrow> sessions \<Rightarrow> sessions" where
  "storeRefreshToken now role entityId sessionId tokenHash deviceId deviceType deviceName s =
     s\<lparr>tokens := SETX now (refreshToken role entityId sessionId)
         (Json \<lparr>rb_tokenHash = Some tokenHash, rb_deviceId = deviceId, rb_deviceType = deviceType,
                rb_deviceName = deviceName, rb_createdAt = now\<rparr>) REFRESH_TOKEN_TTL_SECONDS (tokens s)\<rparr>"

definition revokeRefreshToken :: "string \<Rightarrow> ident \<Rightarrow> ident \<Rightarrow> sessions \<Rightarrow> sessions" where
  "revokeRefreshToken role entityId sessionId s =
     s\<lparr>tokens := DELX [refreshToken role entityId sessionId] (tokens s)\<rparr>"

definition entity_pattern :: "string \<Rightarrow> ident \<Rightarrow> string" where
  "entity_pattern role entityId = ''refresh:'' @ role @ '':'' @ entityId @ '':''"

definition revokeAllSessionsForEntity :: "time \<Rightarrow> string \<Rightarrow> ident \<Rightarrow> sessions \<Rightarrow> sessions" where
  "revokeAllSessionsForEntity now role entityId s =
     s\<lparr>tokens := DELX (KEYSX now (entity_pattern role entityId) (tokens s)) (tokens s)\<rparr>"

definition revokeOtherSessionsForEntity ::
  "time \<Rightarrow> string \<Rightarrow> ident \<Rightarrow> ident \<Rightarrow> sessions \<Rightarrow> nat \<times> sessions" where
  "revokeOtherSessionsForEntity now role entityId keepSessionId s =
     (let toDelete = filter (\<lambda>k. k \<noteq> refreshToken role entityId keepSessionId)
                       (KEYSX now (entity_pattern role entityId) (tokens s))
      in (length toDelete, s\<lparr>tokens := DELX toDelete (tokens s)\<rparr>))"

definition getActiveMobileSessionId :: "time \<Rightarrow> string \<Rightarrow> ident \<Rightarrow> sessions \<Rightarrow> ident option" where
  "getActiveMobileSessionId now role entityId s = GETX now (marks s) (activeMobileSession role entityId)"

definition setActiveMobileSession :: "time \<Rightarrow> string \<Rightarrow> ident \<Rightarrow> ident \<Rightarrow> sessions \<Rightarrow> sessions" where
  "setActiveMobileSession now role entityId sessionId s =
     s\<lparr>marks := SETX now (activeMobileSession role entityId) sessionId REFRESH_TOKEN_TTL_SECONDS (marks s)\<rparr>"

definition clearActiveMobileSession :: "string \<Rightarrow> ident \<Rightarrow> sessions \<Rightarrow> sessions" where
  "clearActiveMobileSession role entityId s = s\<lparr>marks := DELX [activeMobileSession role entityId] (marks s)\<rparr>"

definition validateRefreshToken :: "(string \<Rightarrow> string) \<Rightarrow> stored \<Rightarrow> string \<Rightarrow> bool result" where
  "validateRefreshToken hash st presented =
     (case st of NotJson \<Rightarrow> throw (UNHANDLED RuntimeError)
      | Json b \<Rightarrow> returns (rb_tokenHash b = Some (hash presented)))"

section \<open>Session rows\<close>

definition writeUserSession :: "time \<Rightarrow> ident \<Rightarrow> string \<Rightarrow> ident \<Rightarrow> string \<Rightarrow> sessions \<Rightarrow> sessions" where
  "writeUserSession now entityId entityType sessionId deviceType s =
     s\<lparr>userSessions := userSessions s @
         [\<lparr>us_entityId = entityId, us_entityType = entityType, us_sessionId = sessionId, us_deviceType = deviceType,
           us_lastActiveAt = now, us_revokedAt = None, us_revokedReason = None\<rparr>]\<rparr>"

definition revoke_row :: "time \<Rightarrow> string \<Rightarrow> user_session \<Rightarrow> user_session" where
  "revoke_row now reason r = r\<lparr>us_revokedAt := Some now, us_revokedReason := Some reason\<rparr>"

definition revokeUserSessionRecord :: "time \<Rightarrow> ident \<Rightarrow> string \<Rightarrow> sessions \<Rightarrow> sessions" where
  "revokeUserSessionRecord now sessionId reason s =
     s\<lparr>userSessions := map (\<lambda>r. if us_sessionId r = sessionId \<and> us_revokedAt r = None
                                then revoke_row now reason r else r) (userSessions s)\<rparr>"

definition revokeAllUserSessionRecords ::
  "time \<Rightarrow> ident \<Rightarrow> string \<Rightarrow> string \<Rightarrow> ident option \<Rightarrow> sessions \<Rightarrow> sessions" where
  "revokeAllUserSessionRecords now entityId entityType reason exceptSessionId s =
     s\<lparr>userSessions := map (\<lambda>r. if us_entityId r = entityId \<and> us_entityType r = entityType \<and> us_revokedAt r = None \<and>
                                  (exceptSessionId = None \<or> exceptSessionId = Some '''' \<or>
                                   Some (us_sessionId r) \<noteq> exceptSessionId)
                                then revoke_row now reason r else r) (userSessions s)\<rparr>"

definition touch_session :: "time \<Rightarrow> ident \<Rightarrow> sessions \<Rightarrow> sessions" where
  "touch_session now sessionId s =
     s\<lparr>userSessions := map (\<lambda>r. if us_sessionId r = sessionId then r\<lparr>us_lastActiveAt := now\<rparr> else r) (userSessions s)\<rparr>"

definition log_auth :: "ident \<Rightarrow> string \<Rightarrow> string \<Rightarrow> sessions \<Rightarrow> sessions" where
  "log_auth entityId entityType event s = s\<lparr>authLog := authLog s @ [(entityId, entityType, event)]\<rparr>"

section \<open>Atomic rotation of a merchant session\<close>

datatype refusal = Missing | Mismatch | Corrupt | Revoked

datatype rotate_result = Rotated | Refused refusal

text \<open>\<open>ROTATE_LUA\<close>: one atomic step of the server.\<close>

definition rotate_lua ::
  "time \<Rightarrow> key \<Rightarrow> key \<Rightarrow> string \<Rightarrow> refresh_blob \<Rightarrow> int \<Rightarrow> sessions \<Rightarrow> rotate_result \<times> sessions" where
  "rotate_lua now tokenKey tombstoneKey expectedHash replacement ttl s =
     (if GETX now (marks s) tombstoneKey \<noteq> None
      then (Refused Revoked, s\<lparr>tokens := DELX [tokenKey] (tokens s), marks := DELX [tombstoneKey] (marks s)\<rparr>)
      else case GETX now (tokens s) tokenKey of
        None \<Rightarrow> (Refused Missing, s)
      | Some NotJson \<Rightarrow> (Refused Corrupt, s)
      | Some (Json parsed) \<Rightarrow>
        if rb_tokenHash parsed \<noteq> Some expectedHash then (Refused Mismatch, s)
        else (Rotated, s\<lparr>tokens := SETX now tokenKey (Json replacement) ttl (tokens s)\<rparr>))"

definition rotateMerchantRefreshTokenAtomic ::
  "time \<Rightarrow> ident \<Rightarrow> ident \<Rightarrow> string \<Rightarrow> refresh_blob \<Rightarrow> int \<Rightarrow> sessions \<Rightarrow> rotate_result \<times> sessions" where
  "rotateMerchantRefreshTokenAtomic now entityId sessionId expectedHash replacement ttl s =
     rotate_lua now (refreshToken ''merchant'' entityId sessionId) (sessionRevoked ''merchant'' entityId sessionId)
       expectedHash replacement ttl s"

section \<open>Revocation of a merchant session\<close>

datatype reply = Replied | Threw bool

definition applied :: "reply \<Rightarrow> bool" where
  "applied r = (case r of Replied \<Rightarrow> True | Threw a \<Rightarrow> a)"

definition run_del :: "reply \<Rightarrow> key \<Rightarrow> sessions \<Rightarrow> sessions" where
  "run_del r k s = (if applied r then s\<lparr>tokens := DELX [k] (tokens s)\<rparr> else s)"

definition REVOKE_MAX_ATTEMPTS :: nat where "REVOKE_MAX_ATTEMPTS = 3"

datatype revoke_outcome = Confirmed | Pending | Unavailable

text \<open>The retry loop, by the attempts that remain; \<open>replies n\<close> is what the attempt with \<open>n\<close> remaining
  answers.\<close>

primrec del_retry :: "nat \<Rightarrow> (nat \<Rightarrow> reply) \<Rightarrow> key \<Rightarrow> sessions \<Rightarrow> bool \<times> sessions" where
  "del_retry 0 replies k s = (False, s)"
| "del_retry (Suc n) replies k s =
     (let s1 = run_del (replies n) k s
      in if replies n = Replied then (True, s1) else del_retry n replies k s1)"

definition revokeMerchantSessionUnconditional ::
  "time \<Rightarrow> (nat \<Rightarrow> reply) \<Rightarrow> reply \<Rightarrow> ident \<Rightarrow> ident \<Rightarrow> sessions \<Rightarrow> revoke_outcome \<times> sessions" where
  "revokeMerchantSessionUnconditional now replies set_reply entityId sessionId s =
     (case del_retry REVOKE_MAX_ATTEMPTS replies (refreshToken ''merchant'' entityId sessionId) s of
        (True, s1) \<Rightarrow> (Confirmed, s1)
      | (False, s1) \<Rightarrow>
        (let s2 = (if applied set_reply
                   then s1\<lparr>marks := SETX now (sessionRevoked ''merchant'' entityId sessionId) ''1''
                             REFRESH_TOKEN_TTL_SECONDS (marks s1)\<rparr>
                   else s1)
         in (if set_reply = Replied then Pending else Unavailable, s2)))"

text \<open>\<open>Buffer.from(s, 'hex')\<close>: decoding stops at the first pair that is not hexadecimal.\<close>

definition hex_digit :: "char \<Rightarrow> nat option" where
  "hex_digit c = (let n = of_char c :: nat in
     if 48 \<le> n \<and> n \<le> 57 then Some (n - 48)
     else if 97 \<le> n \<and> n \<le> 102 then Some (n - 87)
     else if 65 \<le> n \<and> n \<le> 70 then Some (n - 55) else None)"

fun from_hex :: "string \<Rightarrow> nat list" where
  "from_hex (a # b # rest) =
     (case (hex_digit a, hex_digit b) of (Some x, Some y) \<Rightarrow> (16 * x + y) # from_hex rest | _ \<Rightarrow> [])"
| "from_hex _ = []"

text \<open>\<open>timingSafeEqual\<close> throws on different byte lengths; the catch makes that a mismatch.\<close>

definition hashes_match :: "string \<Rightarrow> string \<Rightarrow> bool" where
  "hashes_match presentedHash storedHash \<longleftrightarrow>
     length presentedHash = length storedHash \<and> from_hex presentedHash = from_hex storedHash"

datatype possession_outcome = P_Confirmed | P_Absent | P_Stale | P_Unavailable

definition revokeMerchantSessionByPossession ::
  "(string \<Rightarrow> string) \<Rightarrow> time \<Rightarrow> bool \<Rightarrow> reply \<Rightarrow> ident \<Rightarrow> ident \<Rightarrow> string \<Rightarrow> sessions
     \<Rightarrow> possession_outcome \<times> sessions" where
  "revokeMerchantSessionByPossession hash now get_ok del_reply entityId sessionId presented s =
     (let k = refreshToken ''merchant'' entityId sessionId
      in if \<not> get_ok then (P_Unavailable, s)
         else case GETX now (tokens s) k of
           None \<Rightarrow> (P_Absent, s)
         | Some NotJson \<Rightarrow> (P_Stale, s)
         | Some (Json parsed) \<Rightarrow>
           (let storedHash = (case rb_tokenHash parsed of None \<Rightarrow> '''' | Some h \<Rightarrow> h)
            in if \<not> hashes_match (hash presented) storedHash then (P_Stale, s)
               else (if del_reply = Replied then P_Confirmed else P_Unavailable, run_del del_reply k s)))"

section \<open>Laws of the keyed store\<close>

named_theorems session_simps "what a read returns after a write"

lemma map_of_SETX [session_simps]:
  "map_of (SETX now k v ttl m) j = (if j = k then Some (v, now + ttl * 1000) else map_of m j)"
  by (simp add: SETX_def update_conv')

lemma map_of_DELX [session_simps]: "map_of (DELX ks m) j = (if j \<in> set ks then None else map_of m j)"
  by (induction m) (auto simp: DELX_def)

lemma GETX_SETX [session_simps]:
  "0 < ttl \<Longrightarrow> GETX now (SETX now k v ttl m) j = (if j = k then Some v else GETX now m j)"
  by (simp add: GETX_def map_of_SETX)

lemma GETX_DELX [session_simps]: "GETX now (DELX ks m) j = (if j \<in> set ks then None else GETX now m j)"
  by (simp add: GETX_def map_of_DELX)

lemma has_prefix_append [simp]: "has_prefix p (p @ x)"
  by (simp add: has_prefix_def)

lemma GETX_not_KEYSX: "has_prefix p k \<Longrightarrow> k \<notin> set (KEYSX now p m) \<Longrightarrow> GETX now m k = None"
  by (induction m) (auto simp: GETX_def KEYSX_def split: if_splits prod.splits)

lemma KEYSX_prefix: "k \<in> set (KEYSX now p m) \<Longrightarrow> has_prefix p k"
  by (auto simp: KEYSX_def)

lemma REFRESH_TTL_pos [simp]: "0 < REFRESH_TOKEN_TTL_SECONDS"
  by (simp add: REFRESH_TOKEN_TTL_SECONDS_def)

lemma refreshToken_pattern [simp]: "has_prefix (entity_pattern role e) (refreshToken role e sid)"
  by (simp add: has_prefix_def entity_pattern_def refreshToken_def)

lemma refreshToken_inj [simp]: "refreshToken role e sid = refreshToken role e sid' \<longleftrightarrow> sid = sid'"
  by (simp add: refreshToken_def)

text \<open>The tombstone and the token of a session share their suffix, so tombstones clash only where tokens do.\<close>

lemma tombstone_iff_token:
  "sessionRevoked role e sid = sessionRevoked role e' sid' \<longleftrightarrow> refreshToken role e sid = refreshToken role e' sid'"
  by (simp add: sessionRevoked_def refreshToken_def)

lemma mark_families [simp]:
  "activeMobileSession role e \<noteq> sessionRevoked role' e' sid" "auth_cache role e \<noteq> sessionRevoked role' e' sid"
  "sessionRevoked role' e' sid \<noteq> activeMobileSession role e" "sessionRevoked role' e' sid \<noteq> auth_cache role e"
  "auth_cache role e \<noteq> activeMobileSession role' e'" "activeMobileSession role' e' \<noteq> auth_cache role e"
  by (simp_all add: activeMobileSession_def auth_cache_def sessionRevoked_def)

text \<open>After \<open>revokeAllSessionsForEntity\<close> no session of the entity can be read; with a session to keep, only that one.\<close>

lemma revokeAll_empties:
  "has_prefix (entity_pattern role e) k \<Longrightarrow> GETX now (tokens (revokeAllSessionsForEntity now role e s)) k = None"
  by (simp add: revokeAllSessionsForEntity_def session_simps GETX_not_KEYSX)

lemma revokeOther_keeps:
  "has_prefix (entity_pattern role e) k \<Longrightarrow>
     GETX now (tokens (snd (revokeOtherSessionsForEntity now role e keep s))) k =
       (if k = refreshToken role e keep then GETX now (tokens s) k else None)"
  by (simp add: revokeOtherSessionsForEntity_def Let_def session_simps GETX_not_KEYSX)

section \<open>Sealed sessions\<close>

text \<open>A state that nothing but an opening operation can bring back to life, along histories in time order.\<close>

locale sealed_key =
  fixes shut :: "time \<Rightarrow> 's \<Rightarrow> bool"
    and step :: "time \<Rightarrow> 'op \<Rightarrow> 's \<Rightarrow> 's"
    and opens :: "'op \<Rightarrow> bool"
  assumes shut_later: "now \<le> later \<Longrightarrow> shut now s \<Longrightarrow> shut later s"
    and shut_step: "shut now s \<Longrightarrow> \<not> opens op \<Longrightarrow> shut now (step now op s)"
begin

primrec run :: "(time \<times> 'op) list \<Rightarrow> 's \<Rightarrow> 's" where
  "run [] s = s"
| "run (x # xs) s = run xs (step (fst x) (snd x) s)"

lemma shut_run:
  "shut t s \<Longrightarrow> sorted (t # map fst xs) \<Longrightarrow> \<forall>x \<in> set xs. \<not> opens (snd x) \<Longrightarrow>
     \<forall>x \<in> set xs. fst x \<le> now \<Longrightarrow> t \<le> now \<Longrightarrow> shut now (run xs s)"
proof (induction xs arbitrary: t s)
  case Nil
  then show ?case using shut_later by simp
next
  case (Cons x xs)
  have "shut (fst x) (step (fst x) (snd x) s)"
    using Cons.prems shut_later shut_step by (simp, meson)
  then show ?case using Cons.IH[of "fst x" "step (fst x) (snd x) s"] Cons.prems by simp
qed

end

text \<open>Every operation of the two modules that writes a token or a mark.\<close>

datatype session_op =
    Store string ident ident string string string "string option"
  | Revoke string ident ident
  | RevokeAll string ident
  | RevokeOthers string ident ident
  | SetMobile string ident ident
  | ClearMobile string ident
  | Evict string ident
  | Rotate ident ident string refresh_blob
  | Logout ident ident "nat \<Rightarrow> reply" reply
  | Possess ident ident string bool reply

primrec exec_op :: "(string \<Rightarrow> string) \<Rightarrow> time \<Rightarrow> session_op \<Rightarrow> sessions \<Rightarrow> sessions" where
  "exec_op hash now (Store role e sid h d ty n) s = storeRefreshToken now role e sid h d ty n s"
| "exec_op hash now (Revoke role e sid) s = revokeRefreshToken role e sid s"
| "exec_op hash now (RevokeAll role e) s = revokeAllSessionsForEntity now role e s"
| "exec_op hash now (RevokeOthers role e keep) s = snd (revokeOtherSessionsForEntity now role e keep s)"
| "exec_op hash now (SetMobile role e sid) s = setActiveMobileSession now role e sid s"
| "exec_op hash now (ClearMobile role e) s = clearActiveMobileSession role e s"
| "exec_op hash now (Evict role e) s = s\<lparr>marks := DELX [auth_cache role e] (marks s)\<rparr>"
| "exec_op hash now (Rotate e sid h b) s =
     snd (rotateMerchantRefreshTokenAtomic now e sid h b REFRESH_TOKEN_TTL_SECONDS s)"
| "exec_op hash now (Logout e sid replies sr) s = snd (revokeMerchantSessionUnconditional now replies sr e sid s)"
| "exec_op hash now (Possess e sid p ok r) s = snd (revokeMerchantSessionByPossession hash now ok r e sid p s)"

definition opens_key :: "key \<Rightarrow> session_op \<Rightarrow> bool" where
  "opens_key k op \<longleftrightarrow> (case op of Store role e sid _ _ _ _ \<Rightarrow> refreshToken role e sid = k | _ \<Rightarrow> False)"

text \<open>The token is gone, has expired, or a tombstone outlives it; and every token expires within its time to
  live, so that a tombstone written now outlives it.\<close>

definition sealed :: "ident \<Rightarrow> ident \<Rightarrow> time \<Rightarrow> sessions \<Rightarrow> bool" where
  "sealed e sid now s \<longleftrightarrow>
     (\<forall>v t. map_of (tokens s) (refreshToken ''merchant'' e sid) = Some (v, t) \<longrightarrow>
        t \<le> now \<or> (\<exists>w u. map_of (marks s) (sessionRevoked ''merchant'' e sid) = Some (w, u) \<and> t \<le> u))"

definition tokens_bounded :: "time \<Rightarrow> sessions \<Rightarrow> bool" where
  "tokens_bounded now s \<longleftrightarrow>
     (\<forall>k v t. map_of (tokens s) k = Some (v, t) \<longrightarrow> t \<le> now + REFRESH_TOKEN_TTL_SECONDS * 1000)"

text \<open>What an operation does to the tokens and tombstones of one session: it stores a bounded token where it
  opens the key, and otherwise removes or keeps what is there, or rotates where no tombstone is live.\<close>

lemma run_del_select [simp]:
  "marks (run_del r k s) = marks s" "tokens (run_del r k s) = (if applied r then DELX [k] (tokens s) else tokens s)"
  by (simp_all add: run_del_def)

lemma del_retry_effect:
  "snd (del_retry n replies k s) = s \<or> snd (del_retry n replies k s) = s\<lparr>tokens := DELX [k] (tokens s)\<rparr>"
proof (induction n arbitrary: s)
  case (Suc n)
  have "DELX [k] (DELX [k] m) = DELX [k] m" for m :: "stored expiring" by (simp add: DELX_def)
  then show ?case using Suc[of "run_del (replies n) k s"] by (auto simp: Let_def run_del_def)
qed simp

lemma del_retry_confirmed:
  "del_retry n replies k s = (True, s1) \<Longrightarrow> map_of (tokens s1) k = None"
  by (induction n arbitrary: s) (auto simp: Let_def run_del_def applied_def session_simps split: if_splits)

lemma Logout_tokens:
  "map_of (tokens (snd (revokeMerchantSessionUnconditional now replies sr e sid s))) k = None \<or>
   map_of (tokens (snd (revokeMerchantSessionUnconditional now replies sr e sid s))) k = map_of (tokens s) k"
proof -
  obtain ok s1 where r: "del_retry REVOKE_MAX_ATTEMPTS replies (refreshToken ''merchant'' e sid) s = (ok, s1)"
    by fastforce
  then have "s1 = s \<or> s1 = s\<lparr>tokens := DELX [refreshToken ''merchant'' e sid] (tokens s)\<rparr>"
    using del_retry_effect[of REVOKE_MAX_ATTEMPTS replies "refreshToken ''merchant'' e sid" s] by simp
  then show ?thesis
    by (auto simp: revokeMerchantSessionUnconditional_def r Let_def session_simps split: bool.splits)
qed

lemma Logout_marks:
  "map_of (marks (snd (revokeMerchantSessionUnconditional now replies sr e sid s))) k = map_of (marks s) k \<or>
   map_of (marks (snd (revokeMerchantSessionUnconditional now replies sr e sid s))) k =
     Some (''1'', now + REFRESH_TOKEN_TTL_SECONDS * 1000)"
proof -
  obtain ok s1 where r: "del_retry REVOKE_MAX_ATTEMPTS replies (refreshToken ''merchant'' e sid) s = (ok, s1)"
    by fastforce
  then have "marks s1 = marks s"
    using del_retry_effect[of REVOKE_MAX_ATTEMPTS replies "refreshToken ''merchant'' e sid" s] by auto
  then show ?thesis
    by (auto simp: revokeMerchantSessionUnconditional_def r Let_def session_simps split: bool.splits)
qed

lemma Possess_state:
  "snd (revokeMerchantSessionByPossession hash now ok r e sid p s) = s \<or>
   snd (revokeMerchantSessionByPossession hash now ok r e sid p s) =
     s\<lparr>tokens := DELX [refreshToken ''merchant'' e sid] (tokens s)\<rparr>"
  by (auto simp: revokeMerchantSessionByPossession_def Let_def run_del_def split: option.splits stored.splits)

text \<open>The cases of an operation on one token key.\<close>

lemma exec_tokens:
  "map_of (tokens (exec_op hash now op s)) k = map_of (tokens s) k \<or> map_of (tokens (exec_op hash now op s)) k = None \<or>
   (\<exists>v. map_of (tokens (exec_op hash now op s)) k = Some (v, now + REFRESH_TOKEN_TTL_SECONDS * 1000))"
proof (cases op)
  case (Logout e sid replies sr)
  then show ?thesis using Logout_tokens[of now replies sr e sid s k] by auto
next
  case (Possess e sid p ok r)
  then show ?thesis using Possess_state[of hash now ok r e sid p s] by (auto simp: session_simps)
next
  case (Rotate e sid h b)
  then show ?thesis
    by (auto simp: rotateMerchantRefreshTokenAtomic_def rotate_lua_def session_simps split: option.splits stored.splits)
qed (auto simp: storeRefreshToken_def revokeRefreshToken_def revokeAllSessionsForEntity_def
    revokeOtherSessionsForEntity_def setActiveMobileSession_def clearActiveMobileSession_def Let_def session_simps)

lemma exec_bounded: "tokens_bounded now s \<Longrightarrow> tokens_bounded now (exec_op hash now op s)"
  unfolding tokens_bounded_def
proof (intro allI impI)
  fix k v t assume a: "\<forall>k v t. map_of (tokens s) k = Some (v, t) \<longrightarrow> t \<le> now + REFRESH_TOKEN_TTL_SECONDS * 1000"
    and m: "map_of (tokens (exec_op hash now op s)) k = Some (v, t)"
  show "t \<le> now + REFRESH_TOKEN_TTL_SECONDS * 1000"
    using exec_tokens[of hash now op s k] spec[OF spec[OF spec[OF a]], of k v t] m by auto
qed

lemma sealed_trivial:
  assumes "sealed e sid now s"
    and "map_of (tokens s') (refreshToken ''merchant'' e sid) = None \<or>
      map_of (tokens s') (refreshToken ''merchant'' e sid) = map_of (tokens s) (refreshToken ''merchant'' e sid)"
    and "map_of (marks s') (sessionRevoked ''merchant'' e sid) = map_of (marks s) (sessionRevoked ''merchant'' e sid)"
  shows "sealed e sid now s'"
  using assms by (auto simp: sealed_def)

lemma sealed_rotate:
  assumes "sealed e sid now s"
  shows "sealed e sid now (snd (rotateMerchantRefreshTokenAtomic now e' sid' h b ttl s))"
proof (cases "refreshToken ''merchant'' e' sid' = refreshToken ''merchant'' e sid")
  case True
  then have k: "sessionRevoked ''merchant'' e' sid' = sessionRevoked ''merchant'' e sid"
    by (simp add: tombstone_iff_token)
  show ?thesis
  proof (cases "GETX now (marks s) (sessionRevoked ''merchant'' e sid)")
    case None
    then have "GETX now (tokens s) (refreshToken ''merchant'' e sid) = None"
      using assms by (auto simp: sealed_def GETX_def split: option.splits if_splits)
    then show ?thesis using assms None by (simp add: rotateMerchantRefreshTokenAtomic_def rotate_lua_def True k)
  next
    case (Some w)
    then show ?thesis
      by (simp add: rotateMerchantRefreshTokenAtomic_def rotate_lua_def True k sealed_def session_simps)
  qed
next
  case False
  then have k: "sessionRevoked ''merchant'' e' sid' \<noteq> sessionRevoked ''merchant'' e sid"
    by (simp add: tombstone_iff_token)
  show ?thesis
    by (rule sealed_trivial[OF assms]) (use False k in \<open>auto simp: rotateMerchantRefreshTokenAtomic_def rotate_lua_def
      session_simps split: option.splits stored.splits\<close>)
qed

lemma sealed_logout:
  assumes "sealed e sid now s" "tokens_bounded now s"
  shows "sealed e sid now (snd (revokeMerchantSessionUnconditional now replies sr e' sid' s))"
  unfolding sealed_def
proof (intro allI impI)
  let ?s = "snd (revokeMerchantSessionUnconditional now replies sr e' sid' s)"
  let ?k = "refreshToken ''merchant'' e sid" and ?r = "sessionRevoked ''merchant'' e sid"
  fix v t assume m: "map_of (tokens ?s) ?k = Some (v, t)"
  then have old: "map_of (tokens s) ?k = Some (v, t)" using Logout_tokens[of now replies sr e' sid' s ?k] by auto
  then have t: "t \<le> now + REFRESH_TOKEN_TTL_SECONDS * 1000" using assms(2) unfolding tokens_bounded_def by blast
  have "t \<le> now \<or> (\<exists>w u. map_of (marks s) ?r = Some (w, u) \<and> t \<le> u)"
    using assms(1) old unfolding sealed_def by blast
  then show "t \<le> now \<or> (\<exists>w u. map_of (marks ?s) ?r = Some (w, u) \<and> t \<le> u)"
    using Logout_marks[of now replies sr e' sid' s ?r] t by auto
qed

lemma sealed_exec:
  assumes "sealed e sid now s" "tokens_bounded now s" "\<not> opens_key (refreshToken ''merchant'' e sid) op"
  shows "sealed e sid now (exec_op hash now op s)"
proof (cases op)
  case (Rotate e' sid' h b)
  then show ?thesis using sealed_rotate[OF assms(1)] by simp
next
  case (Logout e' sid' replies sr)
  then show ?thesis using sealed_logout[OF assms(1,2)] by simp
next
  case (Possess e' sid' p ok r)
  show ?thesis
    by (rule sealed_trivial[OF assms(1)])
      (use Possess_state[of hash now ok r e' sid' p s] in \<open>auto simp: Possess session_simps\<close>)
next
  case (RevokeAll role e')
  show ?thesis
    by (rule sealed_trivial[OF assms(1)]) (auto simp: RevokeAll revokeAllSessionsForEntity_def session_simps)
next
  case (RevokeOthers role e' keep)
  show ?thesis
    by (rule sealed_trivial[OF assms(1)])
      (auto simp: RevokeOthers revokeOtherSessionsForEntity_def Let_def session_simps)
qed (use assms(3) in \<open>auto intro!: sealed_trivial[OF assms(1)] simp: opens_key_def storeRefreshToken_def
    revokeRefreshToken_def setActiveMobileSession_def clearActiveMobileSession_def session_simps\<close>)

interpretation merchant_key: sealed_key "\<lambda>now s. sealed e sid now s \<and> tokens_bounded now s" "exec_op hash"
    "opens_key (refreshToken ''merchant'' e sid)" for hash e sid
proof
  fix now later :: time and s
  assume "now \<le> later" "sealed e sid now s \<and> tokens_bounded now s"
  then show "sealed e sid later s \<and> tokens_bounded later s"
    unfolding sealed_def tokens_bounded_def by (meson add_mono_thms_linordered_semiring(3) order_trans)
next
  fix now s op
  assume "sealed e sid now s \<and> tokens_bounded now s" "\<not> opens_key (refreshToken ''merchant'' e sid) op"
  then show "sealed e sid now (exec_op hash now op s) \<and> tokens_bounded now (exec_op hash now op s)"
    using sealed_exec exec_bounded by blast
qed

text \<open>A logout that is confirmed or pending seals the session; a sealed session is never rotated.\<close>

lemma logout_seals:
  assumes "revokeMerchantSessionUnconditional now replies sr e sid s = (out, s1)" "out \<noteq> Unavailable"
    and "tokens_bounded now s"
  shows "sealed e sid now s1 \<and> tokens_bounded now s1"
proof
  show "tokens_bounded now s1"
    using exec_bounded[OF assms(3), of _ "Logout e sid replies sr"] assms(1) by simp
  obtain ok s' where r: "del_retry REVOKE_MAX_ATTEMPTS replies (refreshToken ''merchant'' e sid) s = (ok, s')"
    by fastforce
  show "sealed e sid now s1"
  proof (cases ok)
    case True
    then have "map_of (tokens s') (refreshToken ''merchant'' e sid) = None" using r del_retry_confirmed by simp
    then show ?thesis using assms(1) True by (simp add: revokeMerchantSessionUnconditional_def r sealed_def)
  next
    case False
    have b: "t \<le> now + REFRESH_TOKEN_TTL_SECONDS * 1000" if "map_of (tokens s1) k = Some (v, t)" for k v t
      using \<open>tokens_bounded now s1\<close> that unfolding tokens_bounded_def by blast
    have "map_of (marks s1) (sessionRevoked ''merchant'' e sid) =
        Some (''1'', now + REFRESH_TOKEN_TTL_SECONDS * 1000)"
      using assms(1,2) False
      by (auto simp: revokeMerchantSessionUnconditional_def r Let_def applied_def session_simps split: if_splits)
    then show ?thesis using b unfolding sealed_def by fastforce
  qed
qed

lemma sealed_not_rotated:
  assumes "sealed e sid now s"
  shows "fst (rotateMerchantRefreshTokenAtomic now e sid h b ttl s) \<noteq> Rotated"
proof (cases "GETX now (marks s) (sessionRevoked ''merchant'' e sid)")
  case None
  then have "GETX now (tokens s) (refreshToken ''merchant'' e sid) = None"
    using assms by (auto simp: sealed_def GETX_def split: option.splits if_splits)
  then show ?thesis using None by (simp add: rotateMerchantRefreshTokenAtomic_def rotate_lua_def)
next
  case (Some w)
  then show ?thesis by (simp add: rotateMerchantRefreshTokenAtomic_def rotate_lua_def)
qed

text \<open>A history of operations, each at its time.\<close>

primrec run_ops :: "(string \<Rightarrow> string) \<Rightarrow> (time \<times> session_op) list \<Rightarrow> sessions \<Rightarrow> sessions" where
  "run_ops hash [] s = s"
| "run_ops hash (x # xs) s = run_ops hash xs (exec_op hash (fst x) (snd x) s)"

lemma run_ops_eq: "run_ops hash xs s = merchant_key.run hash xs s"
  by (induction xs arbitrary: s) simp_all

lemma sealed_run:
  assumes "sealed e sid t s" "tokens_bounded t s" "sorted (t # map fst xs)"
    and "\<forall>x \<in> set xs. \<not> opens_key (refreshToken ''merchant'' e sid) (snd x)" "\<forall>x \<in> set xs. fst x \<le> now" "t \<le> now"
  shows "sealed e sid now (run_ops hash xs s)"
  using merchant_key.shut_run[of e sid t s xs now hash] assms by (simp add: run_ops_eq)

end
