(* ===== verification/Auth.thy ===== *)
theory Auth
  imports Session Membership
begin

text \<open>
  The session side of \<open>src/api/auth\<close>: login, refresh and logout of customers, branch users, admins and merchant
  admins (\<open>customer/service.ts\<close>, \<open>customer/plugin.ts\<close>, \<open>branch/service.ts\<close>, \<open>admin/service.ts\<close>,
  \<open>merchant/service.ts\<close>) and the password policy of \<open>shared/schemas.ts\<close>.

  Parameters: \<open>hash\<close> (SHA-256), \<open>verify_pw\<close> and \<open>hash_pw\<close> (bcrypt), \<open>verify_jwt\<close> (the claims of a token whose
  signature verifies), and the fresh session ids and refresh tokens that the code draws at random. An
  access token is its claims. The lookups of an account by email or id are arguments.
\<close>

section \<open>Accounts and requests\<close>

datatype user_status = U_ACTIVE | U_INACTIVE | U_SUSPENDED | U_DELETED

record account =
  ac_id :: ident
  ac_passwordHash :: "string option"
  ac_status :: user_status

record branch_account =
  ba_id :: ident
  ba_passwordHash :: string
  ba_inactive :: bool
  ba_mustChangePassword :: bool
  ba_merchantStatus :: merchant_status

record device =
  dv_deviceId :: string
  dv_deviceType :: string
  dv_deviceName :: "string option"

record refresh_request =
  rq_refreshToken :: string
  rq_sessionId :: ident
  rq_entityId :: ident

record access_claims =
  cl_sub :: ident
  cl_role :: string
  cl_deviceId :: "string option"
  cl_deviceType :: "string option"
  cl_sessionId :: ident

record token_pair =
  tp_access :: access_claims
  tp_refresh :: string

definition is_mobile :: "string \<Rightarrow> bool" where
  "is_mobile deviceType \<longleftrightarrow> deviceType = ''ios'' \<or> deviceType = ''android''"

section \<open>The password policy\<close>

definition char_in :: "nat \<Rightarrow> nat \<Rightarrow> char \<Rightarrow> bool" where
  "char_in a b c \<longleftrightarrow> a \<le> of_char c \<and> (of_char c :: nat) \<le> b"

text \<open>The class of special characters: every printable one that is not a letter, a digit or a space.\<close>

definition is_special :: "char \<Rightarrow> bool" where
  "is_special c \<longleftrightarrow> char_in 33 47 c \<or> char_in 58 64 c \<or> char_in 91 96 c \<or> char_in 123 126 c"

definition validatePasswordPolicy :: "string \<Rightarrow> bool" where
  "validatePasswordPolicy p \<longleftrightarrow> 8 \<le> length p \<and> list_ex (char_in 65 90) p \<and> list_ex (char_in 97 122) p \<and>
     list_ex (char_in 48 57) p \<and> list_ex is_special p"

section \<open>Login\<close>

definition supersede :: "time \<Rightarrow> string \<Rightarrow> ident \<Rightarrow> sessions \<Rightarrow> sessions" where
  "supersede now role userId s =
     (case getActiveMobileSessionId now role userId s of
        None \<Rightarrow> s
      | Some prev \<Rightarrow>
        if prev = '''' then s
        else revokeUserSessionRecord now prev ''SUPERSEDED_BY_NEW_LOGIN'' (revokeRefreshToken role userId prev s))"

definition issueCustomerTokens ::
  "(string \<Rightarrow> string) \<Rightarrow> time \<Rightarrow> ident \<Rightarrow> device \<Rightarrow> ident \<Rightarrow> string \<Rightarrow> sessions \<Rightarrow> token_pair \<times> sessions" where
  "issueCustomerTokens hash now userId dev sessionId rawRefresh s =
     (let mobile = is_mobile (dv_deviceType dev);
          s1 = (if mobile then supersede now ''customer'' userId s else s);
          s2 = storeRefreshToken now ''customer'' userId sessionId (hash rawRefresh) (dv_deviceId dev)
                 (dv_deviceType dev) (dv_deviceName dev) s1;
          s3 = (if mobile then setActiveMobileSession now ''customer'' userId sessionId s2 else s2);
          s4 = writeUserSession now userId ''customer'' sessionId (dv_deviceType dev) s3;
          s5 = s4\<lparr>marks := SETX now (auth_cache ''customer'' userId)
                 ''{\"subscriptionStatus\":null,\"isActive\":true}'' 3600 (marks s4)\<rparr>
      in (\<lparr>tp_access = \<lparr>cl_sub = userId, cl_role = ''customer'', cl_deviceId = Some (dv_deviceId dev),
                        cl_deviceType = Some (dv_deviceType dev), cl_sessionId = sessionId\<rparr>,
           tp_refresh = rawRefresh\<rparr>, s5))"

definition loginCustomer ::
  "(string \<Rightarrow> string \<Rightarrow> bool) \<Rightarrow> (string \<Rightarrow> string) \<Rightarrow> time \<Rightarrow> account option \<Rightarrow> string \<Rightarrow> device \<Rightarrow> ident \<Rightarrow> string \<Rightarrow> sessions
     \<Rightarrow> token_pair result \<times> sessions" where
  "loginCustomer verify_pw hash now found password dev sessionId rawRefresh s =
     (case found of
        None \<Rightarrow> (throw INVALID_CREDENTIALS, s)
      | Some user \<Rightarrow>
        (case ac_passwordHash user of
           None \<Rightarrow> (throw INVALID_CREDENTIALS, s)
         | Some h \<Rightarrow>
           if h = '''' then (throw INVALID_CREDENTIALS, s)
           else if ac_status user = U_INACTIVE then (throw (AUTH ACCOUNT_INACTIVE), s)
           else if ac_status user = U_SUSPENDED then (throw (AUTH ACCOUNT_SUSPENDED), s)
           else if ac_status user = U_DELETED then (throw INVALID_CREDENTIALS, s)
           else if \<not> verify_pw password h
             then (throw INVALID_CREDENTIALS, log_auth (ac_id user) ''customer'' ''AUTH_LOGIN_FAILED'' s)
           else (case issueCustomerTokens hash now (ac_id user) dev sessionId rawRefresh s of
                   (issued, s1) \<Rightarrow> (returns issued, log_auth (ac_id user) ''customer'' ''AUTH_LOGIN_SUCCESS'' s1))))"

datatype branch_login = PasswordChangeRequired | LoggedIn token_pair

text \<open>The short-lived token of a forced password change is kept in a key of its own, outside the session store.\<close>

definition loginBranchUser ::
  "(string \<Rightarrow> string \<Rightarrow> bool) \<Rightarrow> (string \<Rightarrow> string) \<Rightarrow> time \<Rightarrow> branch_account option \<Rightarrow> string \<Rightarrow> device \<Rightarrow> ident \<Rightarrow> string \<Rightarrow> sessions
     \<Rightarrow> branch_login result \<times> sessions" where
  "loginBranchUser verify_pw hash now found password dev sessionId rawRefresh s =
     (case found of
        None \<Rightarrow> (throw INVALID_CREDENTIALS, s)
      | Some u \<Rightarrow>
        if \<not> verify_pw password (ba_passwordHash u)
          then (throw INVALID_CREDENTIALS, log_auth (ba_id u) ''branch'' ''AUTH_LOGIN_FAILED'' s)
        else if ba_inactive u then (throw (AUTH BRANCH_USER_DEACTIVATED), s)
        else if ba_merchantStatus u = M_SUSPENDED then (throw MERCHANT_SUSPENDED, s)
        else if ba_mustChangePassword u then (returns PasswordChangeRequired, s)
        else
          (let s1 = supersede now ''branch'' (ba_id u) s;
               s2 = storeRefreshToken now ''branch'' (ba_id u) sessionId (hash rawRefresh) (dv_deviceId dev)
                      (dv_deviceType dev) None s1;
               s3 = setActiveMobileSession now ''branch'' (ba_id u) sessionId s2;
               s4 = writeUserSession now (ba_id u) ''branch'' sessionId (dv_deviceType dev) s3;
               s5 = s4\<lparr>marks := SETX now (auth_cache ''branch'' (ba_id u)) ''{\"isActive\":true}'' 3600 (marks s4)\<rparr>
           in (returns (LoggedIn \<lparr>tp_access = \<lparr>cl_sub = ba_id u, cl_role = ''branch'', cl_deviceId = Some (dv_deviceId dev),
                 cl_deviceType = None, cl_sessionId = sessionId\<rparr>, tp_refresh = rawRefresh\<rparr>),
               log_auth (ba_id u) ''branch'' ''AUTH_LOGIN_SUCCESS'' s5)))"

section \<open>The request gate of the customer application\<close>

record customer_claims =
  cc_sub :: "string option"
  cc_deviceType :: "string option"
  cc_sessionId :: "string option"

definition present :: "string option \<Rightarrow> bool" where
  "present x \<longleftrightarrow> x \<noteq> None \<and> x \<noteq> Some ''''"

definition authenticateCustomer :: "time \<Rightarrow> customer_claims option \<Rightarrow> sessions \<Rightarrow> unit result" where
  "authenticateCustomer now verified s =
     (case verified of
        None \<Rightarrow> throw (AUTH REFRESH_TOKEN_INVALID)
      | Some claims \<Rightarrow>
        if cc_deviceType claims = Some ''ios'' \<or> cc_deviceType claims = Some ''android'' then
          (if \<not> present (cc_sub claims) \<or> \<not> present (cc_sessionId claims) then throw (AUTH REFRESH_TOKEN_INVALID)
           else (let active = getActiveMobileSessionId now ''customer'' (the (cc_sub claims)) s
                 in if present active \<and> active \<noteq> cc_sessionId claims then throw (AUTH SESSION_REPLACED) else returns ()))
        else returns ())"

section \<open>Refresh\<close>

text \<open>\<open>GET\<close> and \<open>validateRefreshToken\<close>: \<open>None\<close> when the stored token is absent or another one.\<close>

definition refresh_read ::
  "(string \<Rightarrow> string) \<Rightarrow> time \<Rightarrow> string \<Rightarrow> refresh_request \<Rightarrow> sessions \<Rightarrow> refresh_blob option result" where
  "refresh_read hash now role q s =
     (case GETX now (tokens s) (refreshToken role (rq_entityId q) (rq_sessionId q)) of
        None \<Rightarrow> returns None
      | Some NotJson \<Rightarrow> throw (UNHANDLED RuntimeError)
      | Some (Json b) \<Rightarrow>
          (case validateRefreshToken hash (Json b) (rq_refreshToken q) of
             Inl e \<Rightarrow> throw e
           | Inr ok \<Rightarrow> returns (if ok then Some b else None)))"

text \<open>The status denial of customers, admins and branch users: logged, then both clean-ups, each best-effort.\<close>

definition deny_status :: "time \<Rightarrow> bool \<Rightarrow> bool \<Rightarrow> string \<Rightarrow> ident \<Rightarrow> sessions \<Rightarrow> sessions" where
  "deny_status now redis_up db_up role entityId s =
     (let s1 = log_auth entityId role ''AUTH_REFRESH_DENIED_STATUS'' s;
          s2 = (if redis_up then revokeAllSessionsForEntity now role entityId s1 else s1)
      in if db_up then revokeAllUserSessionRecords now entityId role ''ACCOUNT_STATUS_CHANGED'' None s2 else s2)"

text \<open>\<open>del\<close>, then \<open>storeRefreshToken\<close>, as two commands; then the session row.\<close>

definition refresh_write ::
  "(string \<Rightarrow> string) \<Rightarrow> time \<Rightarrow> string \<Rightarrow> refresh_request \<Rightarrow> refresh_blob \<Rightarrow> string \<Rightarrow> sessions \<Rightarrow> sessions" where
  "refresh_write hash now role q b newRefresh s =
     touch_session now (rq_sessionId q)
       (storeRefreshToken now role (rq_entityId q) (rq_sessionId q) (hash newRefresh) (rb_deviceId b)
          (rb_deviceType b) None
          (revokeRefreshToken role (rq_entityId q) (rq_sessionId q) s))"

definition pair_of :: "string \<Rightarrow> refresh_request \<Rightarrow> string option \<Rightarrow> string option \<Rightarrow> string \<Rightarrow> token_pair" where
  "pair_of role q deviceId deviceType newRefresh =
     \<lparr>tp_access = \<lparr>cl_sub = rq_entityId q, cl_role = role, cl_deviceId = deviceId, cl_deviceType = deviceType,
                   cl_sessionId = rq_sessionId q\<rparr>, tp_refresh = newRefresh\<rparr>"

definition superseded_by_login :: "refresh_request \<Rightarrow> sessions \<Rightarrow> bool" where
  "superseded_by_login q s \<longleftrightarrow>
     (case List.find (\<lambda>r. us_sessionId r = rq_sessionId q \<and> us_entityId r = rq_entityId q \<and>
                          us_entityType r = ''customer'') (userSessions s) of
        None \<Rightarrow> False | Some r \<Rightarrow> us_revokedReason r = Some ''SUPERSEDED_BY_NEW_LOGIN'')"

definition refreshCustomerToken ::
  "(string \<Rightarrow> string) \<Rightarrow> time \<Rightarrow> bool \<Rightarrow> bool \<Rightarrow> (ident \<rightharpoonup> user_status) \<Rightarrow> refresh_request \<Rightarrow> string \<Rightarrow> sessions
     \<Rightarrow> token_pair result \<times> sessions" where
  "refreshCustomerToken hash now redis_up db_up status_of q newRefresh s =
     (case refresh_read hash now ''customer'' q s of
        Inl e \<Rightarrow> (throw e, s)
      | Inr None \<Rightarrow>
          if superseded_by_login q s
          then (throw (AUTH SESSION_REPLACED), log_auth (rq_entityId q) ''customer'' ''AUTH_SESSION_REPLACED'' s)
          else (throw (AUTH REFRESH_TOKEN_INVALID), log_auth (rq_entityId q) ''customer'' ''AUTH_REFRESH_FAILED'' s)
      | Inr (Some b) \<Rightarrow>
          if status_of (rq_entityId q) \<noteq> Some U_ACTIVE then
            (throw (if status_of (rq_entityId q) = Some U_INACTIVE then (AUTH ACCOUNT_INACTIVE)
                    else if status_of (rq_entityId q) = Some U_SUSPENDED then (AUTH ACCOUNT_SUSPENDED)
                    else INVALID_CREDENTIALS),
             deny_status now redis_up db_up ''customer'' (rq_entityId q) s)
          else (returns (pair_of ''customer'' q (Some (rb_deviceId b)) (Some (rb_deviceType b)) newRefresh),
                refresh_write hash now ''customer'' q b newRefresh s))"

definition refreshAdminToken ::
  "(string \<Rightarrow> string) \<Rightarrow> time \<Rightarrow> bool \<Rightarrow> bool \<Rightarrow> (ident \<rightharpoonup> bool) \<Rightarrow> refresh_request \<Rightarrow> string \<Rightarrow> sessions
     \<Rightarrow> token_pair result \<times> sessions" where
  "refreshAdminToken hash now redis_up db_up active q newRefresh s =
     (case refresh_read hash now ''admin'' q s of
        Inl e \<Rightarrow> (throw e, s)
      | Inr None \<Rightarrow> (throw (AUTH REFRESH_TOKEN_INVALID), log_auth (rq_entityId q) ''admin'' ''AUTH_REFRESH_FAILED'' s)
      | Inr (Some b) \<Rightarrow>
          if active (rq_entityId q) \<noteq> Some True
          then (throw (AUTH ACCOUNT_SUSPENDED), deny_status now redis_up db_up ''admin'' (rq_entityId q) s)
          else (returns (pair_of ''admin'' q None None newRefresh), refresh_write hash now ''admin'' q b newRefresh s))"

text \<open>A branch user: whether inactive, and the status of the merchant, when there is one.\<close>

definition refreshBranchToken ::
  "(string \<Rightarrow> string) \<Rightarrow> time \<Rightarrow> bool \<Rightarrow> bool \<Rightarrow> (ident \<rightharpoonup> bool \<times> merchant_status option) \<Rightarrow> refresh_request \<Rightarrow> string
     \<Rightarrow> sessions \<Rightarrow> token_pair result \<times> sessions" where
  "refreshBranchToken hash now redis_up db_up lookup q newRefresh s =
     (case refresh_read hash now ''branch'' q s of
        Inl e \<Rightarrow> (throw e, s)
      | Inr None \<Rightarrow> (throw (AUTH REFRESH_TOKEN_INVALID), log_auth (rq_entityId q) ''branch'' ''AUTH_REFRESH_FAILED'' s)
      | Inr (Some b) \<Rightarrow>
          (let denied = (throw (AUTH BRANCH_USER_DEACTIVATED), deny_status now redis_up db_up ''branch'' (rq_entityId q) s)
           in case lookup (rq_entityId q) of
                None \<Rightarrow> denied
              | Some (inactive, merchantStatus) \<Rightarrow>
                  if inactive then denied
                  else if merchantStatus = Some M_SUSPENDED
                    then (throw MERCHANT_SUSPENDED, deny_status now redis_up db_up ''branch'' (rq_entityId q) s)
                  else (returns (pair_of ''branch'' q (Some (rb_deviceId b)) None newRefresh),
                        refresh_write hash now ''branch'' q b newRefresh s)))"

text \<open>Merchants: the checks, then the atomic rotation, at a later time of its own.\<close>

definition refresh_check_merchant ::
  "(string \<Rightarrow> string) \<Rightarrow> time \<Rightarrow> db \<Rightarrow> refresh_request \<Rightarrow> sessions \<Rightarrow> refresh_blob result \<times> sessions" where
  "refresh_check_merchant hash now d q s =
     (let failed = log_auth (rq_entityId q) ''merchant'' ''AUTH_REFRESH_FAILED'' s
      in case refresh_read hash now ''merchant'' q s of
        Inl e \<Rightarrow> (throw e, s)
      | Inr None \<Rightarrow> (throw (AUTH REFRESH_TOKEN_INVALID), failed)
      | Inr (Some b) \<Rightarrow>
          (case getActiveMembership d (rq_entityId q) of
             Inl e \<Rightarrow> (throw e, s)
           | Inr m \<Rightarrow>
               if Option.bind m (merchant_status_of d) = Some M_SUSPENDED then (throw MERCHANT_SUSPENDED, failed)
               else (returns b, s)))"

definition refresh_rotate_merchant ::
  "(string \<Rightarrow> string) \<Rightarrow> time \<Rightarrow> refresh_request \<Rightarrow> refresh_blob \<Rightarrow> string \<Rightarrow> sessions \<Rightarrow> token_pair result \<times> sessions" where
  "refresh_rotate_merchant hash now q b newRefresh s =
     (case rotateMerchantRefreshTokenAtomic now (rq_entityId q) (rq_sessionId q) (hash (rq_refreshToken q))
             \<lparr>rb_tokenHash = Some (hash newRefresh), rb_deviceId = rb_deviceId b, rb_deviceType = rb_deviceType b,
              rb_deviceName = rb_deviceName b, rb_createdAt = now\<rparr> REFRESH_TOKEN_TTL_SECONDS s of
        (Refused reason, s1) \<Rightarrow>
          (throw (AUTH REFRESH_TOKEN_INVALID),
           log_auth (rq_entityId q) ''merchant''
             (if reason = Revoked then ''AUTH_REFRESH_REFUSED_REVOKED'' else ''AUTH_REFRESH_FAILED'') s1)
      | (Rotated, s1) \<Rightarrow>
          (returns (pair_of ''merchant'' q (Some (rb_deviceId b)) None newRefresh), touch_session now (rq_sessionId q) s1))"

definition refreshMerchantToken ::
  "(string \<Rightarrow> string) \<Rightarrow> time \<Rightarrow> time \<Rightarrow> db \<Rightarrow> refresh_request \<Rightarrow> string \<Rightarrow> sessions \<Rightarrow> token_pair result \<times> sessions" where
  "refreshMerchantToken hash now1 now2 d q newRefresh s =
     (case refresh_check_merchant hash now1 d q s of
        (Inl e, s1) \<Rightarrow> (throw e, s1)
      | (Inr b, s1) \<Rightarrow> refresh_rotate_merchant hash now2 q b newRefresh s1)"

section \<open>Logout\<close>

definition logout_role :: "string \<Rightarrow> ident \<Rightarrow> ident \<Rightarrow> sessions \<Rightarrow> sessions" where
  "logout_role role entityId sessionId s =
     (let s1 = revokeRefreshToken role entityId sessionId s
      in log_auth entityId role ''AUTH_LOGOUT'' (s1\<lparr>marks := DELX [auth_cache role entityId] (marks s1)\<rparr>))"

definition logoutCustomer :: "time \<Rightarrow> ident \<Rightarrow> ident \<Rightarrow> sessions \<Rightarrow> sessions" where
  "logoutCustomer now entityId sessionId s =
     (let s1 = revokeUserSessionRecord now sessionId ''USER_LOGOUT''
                 (revokeRefreshToken ''customer'' entityId sessionId s)
      in log_auth entityId ''customer'' ''AUTH_LOGOUT''
           (s1\<lparr>marks := DELX [auth_cache ''customer'' entityId] (marks s1)\<rparr>))"

definition logoutAdmin :: "ident \<Rightarrow> ident \<Rightarrow> sessions \<Rightarrow> sessions" where
  "logoutAdmin entityId sessionId s = logout_role ''admin'' entityId sessionId s"

definition logoutBranchUser :: "ident \<Rightarrow> ident \<Rightarrow> sessions \<Rightarrow> sessions" where
  "logoutBranchUser entityId sessionId s = logout_role ''branch'' entityId sessionId s"

text \<open>The merchant logout request, the replies of Redis during it, and the claims of a verified token.\<close>

record logout_request =
  lq_accessToken :: "string option"
  lq_refreshToken :: "string option"
  lq_sessionId :: "string option"
  lq_entityId :: "string option"

record logout_env =
  le_replies :: "nat \<Rightarrow> reply"
  le_set :: reply
  le_get_ok :: bool
  le_del :: reply
  le_evict :: reply

record jwt_claims =
  jc_sub :: "string option"
  jc_role :: "string option"
  jc_sessionId :: "string option"

definition proven_session :: "(string \<Rightarrow> jwt_claims option) \<Rightarrow> string option \<Rightarrow> (ident \<times> ident) option" where
  "proven_session verify_jwt accessToken =
     (if \<not> present accessToken then None
      else case verify_jwt (the accessToken) of
        None \<Rightarrow> None
      | Some c \<Rightarrow>
        (case (jc_sub c, jc_sessionId c) of
           (Some e, Some sid) \<Rightarrow> if jc_role c = Some ''merchant'' then Some (e, sid) else None
         | _ \<Rightarrow> None))"

definition evict :: "reply \<Rightarrow> ident \<Rightarrow> sessions \<Rightarrow> sessions" where
  "evict r e s = (if applied r then s\<lparr>marks := DELX [auth_cache ''merchant'' e] (marks s)\<rparr> else s)"

definition logoutMerchant ::
  "(string \<Rightarrow> jwt_claims option) \<Rightarrow> (string \<Rightarrow> string) \<Rightarrow> time \<Rightarrow> logout_env \<Rightarrow> logout_request \<Rightarrow> sessions
     \<Rightarrow> revoke_outcome \<times> sessions" where
  "logoutMerchant verify_jwt hash now env q s =
     (case proven_session verify_jwt (lq_accessToken q) of
        Some (e, sid) \<Rightarrow>
          (case revokeMerchantSessionUnconditional now (le_replies env) (le_set env) e sid s of
             (outcome, s1) \<Rightarrow>
               (let s2 = log_auth e ''merchant'' ''AUTH_LOGOUT'' (evict (le_evict env) e s1)
                in (outcome,
                    if outcome = Pending then log_auth e ''merchant'' ''AUTH_LOGOUT_REVOKE_PENDING'' s2
                    else if outcome = Unavailable then log_auth e ''merchant'' ''AUTH_LOGOUT_REVOKE_UNAVAILABLE'' s2
                    else s2)))
      | None \<Rightarrow>
          if present (lq_refreshToken q) \<and> present (lq_sessionId q) \<and> present (lq_entityId q) then
            (let e = the (lq_entityId q)
             in case revokeMerchantSessionByPossession hash now (le_get_ok env) (le_del env) e (the (lq_sessionId q))
                       (the (lq_refreshToken q)) s of
                  (outcome, s1) \<Rightarrow>
                    if outcome = P_Confirmed
                    then (Confirmed, log_auth e ''merchant'' ''AUTH_LOGOUT'' (evict (le_evict env) e s1))
                    else (Unavailable, s1))
          else (Confirmed, s))"

section \<open>Password change and logout of the other devices\<close>

definition changePasswordMerchant ::
  "(string \<Rightarrow> string \<Rightarrow> bool) \<Rightarrow> (string \<Rightarrow> string) \<Rightarrow> time \<Rightarrow> ident \<Rightarrow> ident \<Rightarrow> string \<Rightarrow> string
     \<Rightarrow> (ident \<rightharpoonup> string option) \<Rightarrow> sessions \<Rightarrow> unit result \<times> (ident \<rightharpoonup> string option) \<times> sessions" where
  "changePasswordMerchant verify_pw hash_pw now adminId currentSessionId currentPassword newPassword admins s =
     (case admins adminId of
        Some (Some h) \<Rightarrow>
          if h = '''' then (throw INVALID_CREDENTIALS, admins, s)
          else if \<not> verify_pw currentPassword h then (throw (AUTH CURRENT_PASSWORD_INCORRECT), admins, s)
          else if \<not> validatePasswordPolicy newPassword then (throw (AUTH PASSWORD_POLICY_VIOLATION), admins, s)
          else if verify_pw newPassword h then (throw (AUTH NEW_PASSWORD_SAME_AS_CURRENT), admins, s)
          else (returns (), admins(adminId \<mapsto> Some (hash_pw newPassword)),
                log_auth adminId ''merchant'' ''PASSWORD_CHANGED''
                  (revokeAllUserSessionRecords now adminId ''merchant'' ''PASSWORD_CHANGED'' (Some currentSessionId)
                    (snd (revokeOtherSessionsForEntity now ''merchant'' adminId currentSessionId s))))
      | _ \<Rightarrow> (throw INVALID_CREDENTIALS, admins, s))"

definition logoutAllOtherMerchantSessions :: "time \<Rightarrow> ident \<Rightarrow> ident \<Rightarrow> sessions \<Rightarrow> nat \<times> sessions" where
  "logoutAllOtherMerchantSessions now adminId currentSessionId s =
     (case revokeOtherSessionsForEntity now ''merchant'' adminId currentSessionId s of
        (revokedCount, s1) \<Rightarrow>
          (revokedCount,
           log_auth adminId ''merchant'' ''AUTH_SESSIONS_REVOKED''
             (revokeAllUserSessionRecords now adminId ''merchant'' ''LOGOUT_ALL_OTHER_SESSIONS''
                (Some currentSessionId) s1)))"

section \<open>Lemmas\<close>

lemma frames [simp]:
  "tokens (log_auth e t x s) = tokens s" "marks (log_auth e t x s) = marks s"
  "tokens (touch_session now sid s) = tokens s" "marks (touch_session now sid s) = marks s"
  "tokens (revokeAllUserSessionRecords now e t x ex s) = tokens s"
  "tokens (revokeUserSessionRecord now sid x s) = tokens s" "marks (revokeUserSessionRecord now sid x s) = marks s"
  "marks (revokeRefreshToken role e sid s) = marks s" "tokens (evict r e s) = tokens s"
  "tokens (setActiveMobileSession now role e sid s) = tokens s" "tokens (writeUserSession now e t sid dt s) = tokens s"
  "marks (writeUserSession now e t sid dt s) = marks s"
  "marks (storeRefreshToken now role e sid h d ty n s) = marks s"
  by (simp_all add: log_auth_def touch_session_def revokeAllUserSessionRecords_def revokeUserSessionRecord_def
      revokeRefreshToken_def evict_def setActiveMobileSession_def writeUserSession_def storeRefreshToken_def)

lemma token_after_store [session_simps]:
  "GETX now (tokens (storeRefreshToken now role e sid h d ty n s)) k =
     (if k = refreshToken role e sid
      then Some (Json \<lparr>rb_tokenHash = Some h, rb_deviceId = d, rb_deviceType = ty, rb_deviceName = n, rb_createdAt = now\<rparr>)
      else GETX now (tokens s) k)"
  by (simp add: storeRefreshToken_def session_simps)

lemma token_after_revoke [session_simps]:
  "GETX now (tokens (revokeRefreshToken role e sid s)) k =
     (if k = refreshToken role e sid then None else GETX now (tokens s) k)"
  by (simp add: revokeRefreshToken_def session_simps)

lemma refresh_read_cong:
  "GETX now (tokens s) (refreshToken role (rq_entityId q) (rq_sessionId q)) =
   GETX now' (tokens s') (refreshToken role (rq_entityId q) (rq_sessionId q)) \<Longrightarrow>
     refresh_read hash now role q s = refresh_read hash now' role q s'"
  by (simp add: refresh_read_def)

lemma refresh_read_Some:
  "refresh_read hash now role q s = Inr (Some b) \<longleftrightarrow>
     GETX now (tokens s) (refreshToken role (rq_entityId q) (rq_sessionId q)) = Some (Json b) \<and>
     rb_tokenHash b = Some (hash (rq_refreshToken q))"
  by (auto simp: refresh_read_def validateRefreshToken_def split: option.splits stored.splits)

lemma refresh_rotate_ok:
  "isOk (fst (refresh_rotate_merchant hash now q b r s)) \<longleftrightarrow>
     fst (rotateMerchantRefreshTokenAtomic now (rq_entityId q) (rq_sessionId q) (hash (rq_refreshToken q))
             \<lparr>rb_tokenHash = Some (hash r), rb_deviceId = rb_deviceId b, rb_deviceType = rb_deviceType b,
              rb_deviceName = rb_deviceName b, rb_createdAt = now\<rparr> REFRESH_TOKEN_TTL_SECONDS s) = Rotated"
  by (simp add: refresh_rotate_merchant_def split: prod.splits rotate_result.splits)

lemma refresh_merchant_Inr:
  assumes "refreshMerchantToken hash now1 now2 d q r s = (Inr p, s')"
  obtains b s1 where "refresh_check_merchant hash now1 d q s = (Inr b, s)"
    and "rotateMerchantRefreshTokenAtomic now2 (rq_entityId q) (rq_sessionId q) (hash (rq_refreshToken q))
             \<lparr>rb_tokenHash = Some (hash r), rb_deviceId = rb_deviceId b, rb_deviceType = rb_deviceType b,
              rb_deviceName = rb_deviceName b, rb_createdAt = now2\<rparr> REFRESH_TOKEN_TTL_SECONDS s = (Rotated, s1)"
    and "s' = touch_session now2 (rq_sessionId q) s1"
proof -
  obtain b where c: "refresh_check_merchant hash now1 d q s = (Inr b, s)"
    and r: "refresh_rotate_merchant hash now2 q b r s = (Inr p, s')"
    using assms by (auto simp: refreshMerchantToken_def refresh_check_merchant_def Let_def
        split: sum.splits option.splits if_splits)
  show ?thesis using that[OF c] r by (auto simp: refresh_rotate_merchant_def split: rotate_result.splits prod.splits)
qed

section \<open>Samples\<close>

definition sample_device :: "string \<Rightarrow> device" where
  "sample_device i = \<lparr>dv_deviceId = i, dv_deviceType = ''ios'', dv_deviceName = None\<rparr>"

definition no_sessions :: sessions where
  "no_sessions = \<lparr>tokens = [], marks = [], userSessions = [], authLog = []\<rparr>"

definition sample_blob :: "string \<Rightarrow> refresh_blob" where
  "sample_blob h = \<lparr>rb_tokenHash = Some h, rb_deviceId = ''d'', rb_deviceType = ''web'', rb_deviceName = None, rb_createdAt = 0\<rparr>"

definition one_session :: "string \<Rightarrow> sessions" where
  "one_session role = no_sessions\<lparr>tokens := [(refreshToken role ''e'' ''s'', Json (sample_blob ''aa''), 1000)]\<rparr>"

definition sample_refresh :: "string \<Rightarrow> refresh_request" where
  "sample_refresh token = \<lparr>rq_refreshToken = token, rq_sessionId = ''s'', rq_entityId = ''e''\<rparr>"

section \<open>Properties\<close>

text \<open>C38: a merchant logout is final: once a logout with a signed token was confirmed, or left pending behind a
  tombstone, no refresh of that session ever succeeds again, whatever other logins, refreshes, logouts
  and revocations follow, also when the refresh had read its token before the logout.\<close>

theorem merchant_logout_is_final:
  assumes "logoutMerchant verify_jwt hash t0 env lq s = (out, s1)" "out \<noteq> Unavailable" "tokens_bounded t0 s"
    and "proven_session verify_jwt (lq_accessToken lq) = Some (rq_entityId q, rq_sessionId q)"
    and "sorted (t0 # map fst hist)" "\<forall>x \<in> set hist. fst x \<le> t" "t0 \<le> t"
    and "\<forall>x \<in> set hist. \<not> opens_key (refreshToken ''merchant'' (rq_entityId q) (rq_sessionId q)) (snd x)"
  shows "\<not> isOk (fst (refresh_rotate_merchant hash t q b r (run_ops hash hist s1))) \<and>
    \<not> isOk (fst (refreshMerchantToken hash t1 t d q r (run_ops hash hist s1)))"
proof -
  let ?e = "rq_entityId q" and ?sid = "rq_sessionId q"
  obtain s0 where r: "revokeMerchantSessionUnconditional t0 (le_replies env) (le_set env) ?e ?sid s = (out, s0)"
    and s1: "tokens s1 = tokens s0" "map_of (marks s1) (sessionRevoked ''merchant'' ?e ?sid) =
      map_of (marks s0) (sessionRevoked ''merchant'' ?e ?sid)"
    using assms(1) by (auto simp: logoutMerchant_def assms(4) Let_def evict_def session_simps split: prod.splits if_splits)
  have "sealed ?e ?sid t0 s0 \<and> tokens_bounded t0 s0" by (rule logout_seals[OF r assms(2,3)])
  then have "sealed ?e ?sid t0 s1 \<and> tokens_bounded t0 s1"
    unfolding sealed_def tokens_bounded_def using s1 by simp
  then have sl: "sealed ?e ?sid t (run_ops hash hist s1)"
    using sealed_run[of ?e ?sid t0 s1 hist t hash] assms(5-8) by simp
  have rot: "\<not> isOk (fst (refresh_rotate_merchant hash t q b r (run_ops hash hist s1)))" for b
    using sealed_not_rotated[OF sl] by (simp add: refresh_rotate_ok)
  moreover have "\<not> isOk (fst (refreshMerchantToken hash t1 t d q r (run_ops hash hist s1)))"
  proof
    assume "isOk (fst (refreshMerchantToken hash t1 t d q r (run_ops hash hist s1)))"
    then obtain p s' where "refreshMerchantToken hash t1 t d q r (run_ops hash hist s1) = (Inr p, s')"
      by (metis isOk_iff prod.collapse)
    then show False using sealed_not_rotated[OF sl] by (elim refresh_merchant_Inr) (metis fst_conv)
  qed
  ultimately show ?thesis by simp
qed

definition pending_env :: logout_env where
  "pending_env = \<lparr>le_replies = (\<lambda>n. Threw False), le_set = Replied, le_get_ok = True, le_del = Replied, le_evict = Replied\<rparr>"

definition signed_logout :: logout_request where
  "signed_logout = \<lparr>lq_accessToken = Some ''jwt'', lq_refreshToken = None, lq_sessionId = None, lq_entityId = None\<rparr>"

definition sample_jwt :: "string \<Rightarrow> jwt_claims option" where
  "sample_jwt tok = (if tok = ''jwt'' then Some \<lparr>jc_sub = Some ''e'', jc_role = Some ''merchant'', jc_sessionId = Some ''s''\<rparr>
     else None)"

theorem merchant_logout_is_final_witness:
  "fst (logoutMerchant sample_jwt id 5 pending_env signed_logout (one_session ''merchant'')) = Pending \<and>
   \<not> isOk (fst (refresh_rotate_merchant id 9 (sample_refresh ''aa'') (sample_blob ''aa'') ''bb''
     (snd (logoutMerchant sample_jwt id 5 pending_env signed_logout (one_session ''merchant'')))))"
proof -
  let ?l = "logoutMerchant sample_jwt id 5 pending_env signed_logout (one_session ''merchant'')"
  have o: "fst ?l = Pending"
    by (simp add: logoutMerchant_def proven_session_def sample_jwt_def signed_logout_def present_def pending_env_def
        revokeMerchantSessionUnconditional_def REVOKE_MAX_ATTEMPTS_def numeral_3_eq_3 Let_def)
  have b: "tokens_bounded 5 (one_session ''merchant'')"
    by (simp add: tokens_bounded_def one_session_def no_sessions_def REFRESH_TOKEN_TTL_SECONDS_def)
  have p: "proven_session sample_jwt (lq_accessToken signed_logout) =
      Some (rq_entityId (sample_refresh ''aa''), rq_sessionId (sample_refresh ''aa''))"
    by (simp add: proven_session_def sample_jwt_def signed_logout_def present_def sample_refresh_def)
  have l: "?l = (Pending, snd ?l)" using o by (metis prod.collapse)
  show ?thesis
    using merchant_logout_is_final[OF l _ b p, of "[]" 9] o by simp
qed



text \<open>A logout without proof is silent: when no signed token verifies and the presented refresh token does not
  match, nothing changes and the answer depends only on which fields the request carries, never on
  whether the session exists.\<close>

theorem unproven_logout_is_silent:
  assumes "proven_session verify_jwt (lq_accessToken lq) = None"
    and "\<forall>b. GETX now (tokens s) (refreshToken ''merchant'' (the (lq_entityId lq)) (the (lq_sessionId lq))) = Some (Json b) \<longrightarrow>
      \<not> hashes_match (hash (the (lq_refreshToken lq))) (case rb_tokenHash b of None \<Rightarrow> '''' | Some h \<Rightarrow> h)"
  shows "logoutMerchant verify_jwt hash now env lq s =
    (if present (lq_refreshToken lq) \<and> present (lq_sessionId lq) \<and> present (lq_entityId lq) then Unavailable
     else Confirmed, s)"
proof -
  have "fst (revokeMerchantSessionByPossession hash now ok r (the (lq_entityId lq)) (the (lq_sessionId lq))
        (the (lq_refreshToken lq)) s) \<noteq> P_Confirmed \<and>
      snd (revokeMerchantSessionByPossession hash now ok r (the (lq_entityId lq)) (the (lq_sessionId lq))
        (the (lq_refreshToken lq)) s) = s" for ok r
    using assms(2) by (auto simp: revokeMerchantSessionByPossession_def Let_def split: option.splits stored.splits)
  then show ?thesis by (auto simp: logoutMerchant_def assms(1) Let_def split: prod.splits) (metis fst_conv snd_conv)+
qed

theorem unproven_logout_is_silent_witness:
  "logoutMerchant sample_jwt id 5 pending_env
     \<lparr>lq_accessToken = None, lq_refreshToken = Some ''bb'', lq_sessionId = Some ''s'', lq_entityId = Some ''e''\<rparr>
     (one_session ''merchant'') = (Unavailable, one_session ''merchant'')"
proof -
  let ?q = "\<lparr>lq_accessToken = None, lq_refreshToken = Some ''bb'', lq_sessionId = Some ''s'', lq_entityId = Some ''e''\<rparr>"
  have p: "proven_session sample_jwt (lq_accessToken ?q) = None" by (simp add: proven_session_def present_def)
  have h: "\<not> hashes_match ''bb'' ''aa''" by code_simp
  show ?thesis
    by (subst unproven_logout_is_silent[OF p])
      (use h in \<open>auto simp: one_session_def no_sessions_def GETX_def sample_blob_def present_def\<close>)
qed

text \<open>A refresh by an account that is no longer active ends all its sessions: the holder of a still valid token
  gets a status error, and after it no session of that customer, on any device, can be refreshed.\<close>

theorem inactive_account_loses_all_sessions:
  assumes "refresh_read hash now ''customer'' q s = Inr (Some b)" "status_of (rq_entityId q) \<noteq> Some U_ACTIVE"
    and "refreshCustomerToken hash now True db_up status_of q r s = (res, s')"
  shows "res \<in> {throw (AUTH ACCOUNT_INACTIVE), throw (AUTH ACCOUNT_SUSPENDED), throw INVALID_CREDENTIALS} \<and>
    refresh_read hash now ''customer'' \<lparr>rq_refreshToken = tok, rq_sessionId = sid, rq_entityId = rq_entityId q\<rparr> s' = Inr None"
proof -
  have "s' = deny_status now True db_up ''customer'' (rq_entityId q) s"
    using assms by (simp add: refreshCustomerToken_def)
  moreover have "GETX now (tokens (deny_status now True db_up ''customer'' (rq_entityId q) s))
      (refreshToken ''customer'' (rq_entityId q) sid) = None" for sid
    using revokeAll_empties[of "''customer''" "rq_entityId q" "refreshToken ''customer'' (rq_entityId q) sid"]
    by (simp add: deny_status_def Let_def)
  ultimately have "refresh_read hash now ''customer'' \<lparr>rq_refreshToken = tok, rq_sessionId = sid, rq_entityId = rq_entityId q\<rparr> s'
      = Inr None"
    by (simp add: refresh_read_def)
  moreover have "res \<in> {throw (AUTH ACCOUNT_INACTIVE), throw (AUTH ACCOUNT_SUSPENDED), throw INVALID_CREDENTIALS}"
    using assms by (auto simp: refreshCustomerToken_def split: if_splits)
  ultimately show ?thesis by simp
qed

theorem inactive_account_loses_all_sessions_witness:
  "refresh_read id 1 ''customer'' (sample_refresh ''aa'')
     (snd (refreshCustomerToken id 1 True True [''e'' \<mapsto> U_SUSPENDED] (sample_refresh ''aa'') ''bb'' (one_session ''customer'')))
     = Inr None"
proof -
  let ?r = "refreshCustomerToken id 1 True True [''e'' \<mapsto> U_SUSPENDED] (sample_refresh ''aa'') ''bb'' (one_session ''customer'')"
  have "refresh_read id 1 ''customer'' (sample_refresh ''aa'') (one_session ''customer'') = Inr (Some (sample_blob ''aa''))"
    by (simp add: refresh_read_Some one_session_def no_sessions_def sample_refresh_def sample_blob_def GETX_def)
  then show ?thesis
    using inactive_account_loses_all_sessions[of id 1 "sample_refresh ''aa''" "one_session ''customer''" "sample_blob ''aa''"
        "[''e'' \<mapsto> U_SUSPENDED]" True "''bb''" "fst ?r" "snd ?r" "''aa''" "''s''"]
    by (simp add: sample_refresh_def)
qed

text \<open>A password change keeps the session that made it and no other: after it succeeds, every other session of
  the merchant admin is gone and the caller's own is unchanged, and the new password satisfies the policy.\<close>

theorem password_change_keeps_only_current:
  assumes "changePasswordMerchant verify_pw hash_pw now adminId current old new admins s = (Inr (), admins', s')"
  shows "validatePasswordPolicy new \<and> admins' adminId = Some (Some (hash_pw new)) \<and>
    GETX now (tokens s') (refreshToken ''merchant'' adminId sid) =
      (if sid = current then GETX now (tokens s) (refreshToken ''merchant'' adminId sid) else None)"
  using assms unfolding changePasswordMerchant_def
  by (auto simp: revokeOther_keeps split: option.splits if_splits)

theorem password_change_keeps_only_current_witness:
  "GETX 1 (tokens (snd (snd (changePasswordMerchant (\<lambda>p h. p = h) id 1 ''e'' ''t'' ''old'' ''Abcdef1!''
     [''e'' \<mapsto> Some ''old''] (one_session ''merchant''))))) (refreshToken ''merchant'' ''e'' ''s'') = None"
proof -
  let ?r = "changePasswordMerchant (\<lambda>p h. p = h) id 1 ''e'' ''t'' ''old'' ''Abcdef1!'' [''e'' \<mapsto> Some ''old'']
     (one_session ''merchant'')"
  have "validatePasswordPolicy ''Abcdef1!''" by code_simp
  then have "fst ?r = Inr ()" by (simp add: changePasswordMerchant_def)
  then have "?r = (Inr (), fst (snd ?r), snd (snd ?r))" by (metis prod.collapse)
  from password_change_keeps_only_current[OF this, of "''s''"] show ?thesis by simp
qed

text \<open>A second mobile login ends the first: while the mark of the previous mobile session is live, a new mobile
  login makes every refresh of the previous session answer \<open>SESSION_REPLACED\<close>, and so does every request with
  one of its access tokens.\<close>

theorem new_mobile_login_replaces_old:
  assumes "is_mobile (dv_deviceType dev)" "getActiveMobileSessionId now ''customer'' u s = Some prev" "prev \<noteq> ''''"
    and "sid \<noteq> prev" "sid \<noteq> ''''" "u \<noteq> ''''"
    and "List.find (\<lambda>r. us_sessionId r = prev \<and> us_entityId r = u \<and> us_entityType r = ''customer'') (userSessions s) = Some row"
    and "us_revokedAt row = None" "issueCustomerTokens hash now u dev sid raw s = (issued, s')"
  shows "fst (refreshCustomerToken hash now ru du st \<lparr>rq_refreshToken = tok, rq_sessionId = prev, rq_entityId = u\<rparr> r s')
      = throw (AUTH SESSION_REPLACED) \<and>
    authenticateCustomer now (Some \<lparr>cc_sub = Some u, cc_deviceType = Some ''ios'', cc_sessionId = Some prev\<rparr>) s'
      = throw (AUTH SESSION_REPLACED)"
proof -
  let ?s1 = "revokeUserSessionRecord now prev ''SUPERSEDED_BY_NEW_LOGIN'' (revokeRefreshToken ''customer'' u prev s)"
  let ?P = "\<lambda>r. us_sessionId r = prev \<and> us_entityId r = u \<and> us_entityType r = ''customer''"
  have sup: "supersede now ''customer'' u s = ?s1" using assms(2,3) by (simp add: supersede_def)
  have u: "userSessions s' = userSessions ?s1 @ [\<lparr>us_entityId = u, us_entityType = ''customer'', us_sessionId = sid,
      us_deviceType = dv_deviceType dev, us_lastActiveAt = now, us_revokedAt = None, us_revokedReason = None\<rparr>]"
    and t: "tokens s' = tokens (storeRefreshToken now ''customer'' u sid (hash raw) (dv_deviceId dev) (dv_deviceType dev)
        (dv_deviceName dev) ?s1)"
    and m: "getActiveMobileSessionId now ''customer'' u s' = Some sid"
    using assms(1,9) by (auto simp: issueCustomerTokens_def Let_def sup writeUserSession_def setActiveMobileSession_def
        storeRefreshToken_def getActiveMobileSessionId_def session_simps)
  define f where "f = (\<lambda>r. if us_sessionId r = prev \<and> us_revokedAt r = None
      then revoke_row now ''SUPERSEDED_BY_NEW_LOGIN'' r else r)"
  have us1: "userSessions ?s1 = map f (userSessions s)"
    by (simp add: revokeUserSessionRecord_def revokeRefreshToken_def f_def)
  have "List.find ?P (map f xs) = map_option f (List.find ?P xs)" for xs
    by (induction xs) (auto simp: f_def revoke_row_def)
  then have "List.find ?P (userSessions ?s1) = Some (f row)" using assms(7) us1 by simp
  then have "List.find ?P (userSessions s') = Some (f row)" by (simp add: u find_append)
  moreover have "us_revokedReason (f row) = Some ''SUPERSEDED_BY_NEW_LOGIN''"
    using find_Some_in[OF assms(7)] assms(8) by (simp add: f_def revoke_row_def)
  ultimately have sp: "superseded_by_login \<lparr>rq_refreshToken = tok, rq_sessionId = prev, rq_entityId = u\<rparr> s'"
    by (simp add: superseded_by_login_def)
  have "GETX now (tokens s') (refreshToken ''customer'' u prev) = None"
    using assms(4) by (auto simp: t session_simps)
  then have "fst (refreshCustomerToken hash now ru du st \<lparr>rq_refreshToken = tok, rq_sessionId = prev, rq_entityId = u\<rparr> r s')
      = throw (AUTH SESSION_REPLACED)"
    using sp by (simp add: refreshCustomerToken_def refresh_read_def)
  moreover have "authenticateCustomer now (Some \<lparr>cc_sub = Some u, cc_deviceType = Some ''ios'', cc_sessionId = Some prev\<rparr>) s'
      = throw (AUTH SESSION_REPLACED)"
    using m assms(3-6) by (simp add: authenticateCustomer_def present_def)
  ultimately show ?thesis by simp
qed

definition login_twice :: "time \<Rightarrow> sessions" where
  "login_twice t =
     snd (issueCustomerTokens id t ''u'' (sample_device ''d2'') ''s2'' ''bb''
       (snd (issueCustomerTokens id 0 ''u'' (sample_device ''d1'') ''s1'' ''aa'' no_sessions)))"

theorem new_mobile_login_replaces_old_witness:
  "authenticateCustomer 7 (Some \<lparr>cc_sub = Some ''u'', cc_deviceType = Some ''ios'', cc_sessionId = Some ''s1''\<rparr>) (login_twice 7)
     = throw (AUTH SESSION_REPLACED)"
proof -
  let ?s = "snd (issueCustomerTokens id 0 ''u'' (sample_device ''d1'') ''s1'' ''aa'' no_sessions)"
  have m: "getActiveMobileSessionId 7 ''customer'' ''u'' ?s = Some ''s1''" by code_simp
  have f: "List.find (\<lambda>r. us_sessionId r = ''s1'' \<and> us_entityId r = ''u'' \<and> us_entityType r = ''customer'') (userSessions ?s)
      = Some \<lparr>us_entityId = ''u'', us_entityType = ''customer'', us_sessionId = ''s1'', us_deviceType = ''ios'',
          us_lastActiveAt = 0, us_revokedAt = None, us_revokedReason = None\<rparr>" by code_simp
  have d: "is_mobile (dv_deviceType (sample_device ''d2''))" by (simp add: is_mobile_def sample_device_def)
  show ?thesis unfolding login_twice_def
    using new_mobile_login_replaces_old[where sid = "''s2''" and hash = id and raw = "''bb''",
      OF d m _ _ _ _ f _ prod.collapse[symmetric]] by simp
qed

text \<open>For customers a refresh can outlive the logout: a refresh that read its token before the logout and
  writes after it leaves a session whose new token is accepted, although the customer has logged out.\<close>

theorem customer_refresh_survives_logout:
  assumes "refresh_read hash t1 ''customer'' q s = Inr (Some b)" "st (rq_entityId q) = Some U_ACTIVE"
  shows "refresh_read hash t2 ''customer'' q (logoutCustomer t2 (rq_entityId q) (rq_sessionId q) s) = Inr None \<and>
    isOk (fst (refreshCustomerToken hash t3 ru du st (q\<lparr>rq_refreshToken := r\<rparr>) r'
      (refresh_write hash t3 ''customer'' q b r (logoutCustomer t2 (rq_entityId q) (rq_sessionId q) s))))"
proof
  show "refresh_read hash t2 ''customer'' q (logoutCustomer t2 (rq_entityId q) (rq_sessionId q) s) = Inr None"
    by (simp add: refresh_read_def logoutCustomer_def Let_def session_simps)
  have "refresh_read hash t3 ''customer'' (q\<lparr>rq_refreshToken := r\<rparr>)
      (refresh_write hash t3 ''customer'' q b r (logoutCustomer t2 (rq_entityId q) (rq_sessionId q) s)) =
    Inr (Some \<lparr>rb_tokenHash = Some (hash r), rb_deviceId = rb_deviceId b, rb_deviceType = rb_deviceType b,
               rb_deviceName = None, rb_createdAt = t3\<rparr>)"
    by (simp add: refresh_read_Some refresh_write_def session_simps)
  then show "isOk (fst (refreshCustomerToken hash t3 ru du st (q\<lparr>rq_refreshToken := r\<rparr>) r'
      (refresh_write hash t3 ''customer'' q b r (logoutCustomer t2 (rq_entityId q) (rq_sessionId q) s))))"
    using assms(2) by (simp add: refreshCustomerToken_def)
qed

theorem customer_refresh_survives_logout_witness:
  "isOk (fst (refreshCustomerToken id 3 True True [''e'' \<mapsto> U_ACTIVE] (sample_refresh ''bb'') ''cc''
     (refresh_write id 3 ''customer'' (sample_refresh ''aa'') (sample_blob ''aa'') ''bb''
       (logoutCustomer 2 ''e'' ''s'' (one_session ''customer'')))))"
proof -
  have "refresh_read id 1 ''customer'' (sample_refresh ''aa'') (one_session ''customer'') = Inr (Some (sample_blob ''aa''))"
    by (simp add: refresh_read_Some one_session_def no_sessions_def sample_refresh_def sample_blob_def GETX_def)
  from customer_refresh_survives_logout[OF this, of "[''e'' \<mapsto> U_ACTIVE]" 2 3 True True "''bb''" "''cc''"]
  show ?thesis by (simp add: sample_refresh_def)
qed

text \<open>Ninety days of use: the mark of the mobile session is written at login only, the refresh token is renewed at
  every refresh.\<close>

definition days :: "int \<Rightarrow> time" where
  "days n = n * 24 * 60 * 60 * 1000"

definition mobile_refresh :: "string \<Rightarrow> ident \<Rightarrow> refresh_request" where
  "mobile_refresh token sid = \<lparr>rq_refreshToken = token, rq_sessionId = sid, rq_entityId = ''u''\<rparr>"

definition refresh_at :: "time \<Rightarrow> string \<Rightarrow> ident \<Rightarrow> string \<Rightarrow> sessions \<Rightarrow> sessions" where
  "refresh_at t token sid new s =
     snd (refreshCustomerToken id t True True [''u'' \<mapsto> U_ACTIVE] (mobile_refresh token sid) new s)"

definition two_phones :: sessions where
  "two_phones =
     refresh_at (days 110) ''b1'' ''s2'' ''b2''
      (refresh_at (days 110) ''a2'' ''s1'' ''a3''
       (snd (issueCustomerTokens id (days 91) ''u'' (sample_device ''d2'') ''s2'' ''b1''
         (refresh_at (days 60) ''a1'' ''s1'' ''a2''
          (snd (issueCustomerTokens id 0 ''u'' (sample_device ''d1'') ''s1'' ''a1'' no_sessions))))))"

text \<open>One mobile device per account does not hold beyond ninety days: with a first phone that logs in on day 0 and
  refreshes on day 60, a second that logs in on day 91, and both refreshing on day 110, both phones can
  refresh and pass the request gate on day 185.\<close>

theorem two_phones_after_ninety_days:
  "isOk (fst (refreshCustomerToken id (days 185) True True [''u'' \<mapsto> U_ACTIVE] (mobile_refresh ''a3'' ''s1'') ''a4'' two_phones)) \<and>
   isOk (fst (refreshCustomerToken id (days 185) True True [''u'' \<mapsto> U_ACTIVE] (mobile_refresh ''b2'' ''s2'') ''b3'' two_phones)) \<and>
   authenticateCustomer (days 185) (Some \<lparr>cc_sub = Some ''u'', cc_deviceType = Some ''ios'', cc_sessionId = Some ''s1''\<rparr>) two_phones
     = Inr () \<and>
   authenticateCustomer (days 185) (Some \<lparr>cc_sub = Some ''u'', cc_deviceType = Some ''ios'', cc_sessionId = Some ''s2''\<rparr>) two_phones
     = Inr ()"
  by code_simp

end
