(* ===== verification/Hours.thy ===== *)
theory Hours
  imports London "HOL-Library.AList"
begin

text \<open>
  \<open>src/api/merchant/branch/openingHours.ts\<close> and \<open>src/api/shared/isOpenNow.ts\<close>: the validation of a branch's
  weekly opening hours and the open-now evaluator.

  A row's day is an integer. A JavaScript \<open>Map\<close> is an association list in insertion order, and
  \<open>AList.update\<close> is its \<open>set\<close>. The lemmas relate both functions to the set of minutes of the week that
  a row covers.
\<close>

section \<open>Rows\<close>

record hours_row =
  h_dayOfWeek :: int
  h_openTime :: "string option"
  h_closeTime :: "string option"
  h_isClosed :: bool

type_synonym interval = "int \<times> int"

definition MINUTES_PER_DAY :: int where "MINUTES_PER_DAY = 24 * 60"

definition toMinutes :: "string \<Rightarrow> int" where
  "toMinutes s = (if s = ''24:00'' then MINUTES_PER_DAY else hhmm_minutes s)"

definition overlaps :: "interval \<Rightarrow> interval \<Rightarrow> bool" where
  "overlaps a b \<longleftrightarrow> fst a < snd b \<and> fst b < snd a"

section \<open>Validation\<close>

record hours_scan =
  hs_closedDays :: "int list"
  hs_openWindowDays :: "int list"
  hs_sameDayWindows :: "(int \<times> interval list) list"
  hs_overnightSpills :: "(int \<times> int) list"

definition empty_scan :: hours_scan where
  "empty_scan = \<lparr>hs_closedDays = [], hs_openWindowDays = [], hs_sameDayWindows = [], hs_overnightSpills = []\<rparr>"

definition get_or :: "'v \<Rightarrow> ('k \<times> 'v) list \<Rightarrow> 'k \<Rightarrow> 'v" where
  "get_or d m k = (case map_of m k of None \<Rightarrow> d | Some v \<Rightarrow> v)"

definition set_add :: "'a \<Rightarrow> 'a list \<Rightarrow> 'a list" where
  "set_add x xs = (if x \<in> set xs then xs else xs @ [x])"

definition reject :: "hours_reason \<Rightarrow> 'a result" where
  "reject r = throw (OPENING_HOURS_INVALID r)"

text \<open>The format checks of one row.\<close>

definition check_row :: "hours_scan \<Rightarrow> hours_row \<Rightarrow> unit result" where
  "check_row hs row =
     (let d = h_dayOfWeek row in
      if d < 0 \<or> 6 < d then reject (DayOutOfRange d)
      else if h_isClosed row then
        (if h_openTime row \<noteq> None \<or> h_closeTime row \<noteq> None then reject (ClosedWithTimes d)
         else if d \<in> set (hs_closedDays hs) then reject (DuplicateClosed d)
         else returns ())
      else if h_openTime row = None \<or> h_closeTime row = None then reject (MissingTime d)
      else if \<not> TIME_REGEX (the (h_openTime row)) then reject (BadOpenTime d)
      else if the (h_closeTime row) \<noteq> ''24:00'' \<and> \<not> TIME_REGEX (the (h_closeTime row)) then reject (BadCloseTime d)
      else if h_openTime row = h_closeTime row then reject (ZeroLength d)
      else returns ())"

definition open_minutes :: "hours_row \<Rightarrow> int" where
  "open_minutes row = toMinutes (the (h_openTime row))"

definition close_minutes :: "hours_row \<Rightarrow> int" where
  "close_minutes row = toMinutes (the (h_closeTime row))"

definition record_row :: "hours_scan \<Rightarrow> hours_row \<Rightarrow> hours_scan" where
  "record_row hs row =
     (let d = h_dayOfWeek row in
      if h_isClosed row then hs\<lparr>hs_closedDays := hs_closedDays hs @ [d]\<rparr>
      else
        (let openMins = open_minutes row; closeMins = close_minutes row;
             sameDayEnd = (if openMins < closeMins then closeMins else MINUTES_PER_DAY);
             hs1 = hs\<lparr>hs_openWindowDays := set_add d (hs_openWindowDays hs),
                      hs_sameDayWindows := AList.update d (get_or [] (hs_sameDayWindows hs) d @ [(openMins, sameDayEnd)])
                        (hs_sameDayWindows hs)\<rparr>
         in if closeMins < openMins
            then hs1\<lparr>hs_overnightSpills := AList.update d
                   (case map_of (hs_overnightSpills hs) d of None \<Rightarrow> closeMins | Some prev \<Rightarrow> max prev closeMins)
                   (hs_overnightSpills hs)\<rparr>
            else hs1))"

fun scan_rows :: "hours_scan \<Rightarrow> hours_row list \<Rightarrow> hours_scan result" where
  "scan_rows hs [] = returns hs"
| "scan_rows hs (row # rows) =
     (case check_row hs row of Inl e \<Rightarrow> throw e | Inr _ \<Rightarrow> scan_rows (record_row hs row) rows)"

fun adjacent_overlap :: "interval list \<Rightarrow> bool" where
  "adjacent_overlap (a # b # rest) \<longleftrightarrow> overlaps a b \<or> adjacent_overlap (b # rest)"
| "adjacent_overlap _ \<longleftrightarrow> False"

definition first_error :: "('a \<Rightarrow> hours_reason option) \<Rightarrow> 'a list \<Rightarrow> unit result" where
  "first_error f xs = (case List.find (\<lambda>x. f x \<noteq> None) xs of None \<Rightarrow> returns () | Some x \<Rightarrow> reject (the (f x)))"

definition mixed_day :: "hours_scan \<Rightarrow> int \<Rightarrow> hours_reason option" where
  "mixed_day hs day = (if day \<in> set (hs_openWindowDays hs) then Some (ClosedAndOpen day) else None)"

definition crowded_day :: "int \<times> interval list \<Rightarrow> hours_reason option" where
  "crowded_day dw = (if adjacent_overlap (sort_key fst (snd dw)) then Some (OverlappingWindows (fst dw)) else None)"

definition spilt_day :: "hours_scan \<Rightarrow> int \<times> int \<Rightarrow> hours_reason option" where
  "spilt_day hs ds =
     (let nextDay = (fst ds + 1) mod 7
      in if list_ex (overlaps (0, snd ds)) (get_or [] (hs_sameDayWindows hs) nextDay)
         then Some (OverlapsSpill nextDay (fst ds)) else None)"

definition validateOpeningHours :: "hours_row list \<Rightarrow> unit result" where
  "validateOpeningHours hours =
     (case scan_rows empty_scan hours of
        Inl e \<Rightarrow> throw e
      | Inr hs \<Rightarrow>
        (case first_error (mixed_day hs) (hs_closedDays hs) of
           Inl e \<Rightarrow> throw e
         | Inr _ \<Rightarrow>
           (case first_error crowded_day (hs_sameDayWindows hs) of
              Inl e \<Rightarrow> throw e
            | Inr _ \<Rightarrow> first_error (spilt_day hs) (hs_overnightSpills hs))))"

section \<open>Open now\<close>

text \<open>\<open>hhmm.split(':').map(Number)\<close> on the first two parts. \<open>Number\<close> is modelled on decimal digits, with
  surrounding space, and the empty string; other numerals (signs, fractions, exponents, hexadecimal), which the
  validation never lets in, read as not a number.\<close>

definition js_number :: "string \<Rightarrow> int option" where
  "js_number s =
     (let t = js_trim s
      in if list_all is_digit t then Some (foldl (\<lambda>n c. n * 10 + digit_val c) 0 t) else None)"

fun split_colon :: "string \<Rightarrow> string list" where
  "split_colon [] = [[]]"
| "split_colon (c # s) =
     (if c = CHR '':'' then [] # split_colon s
      else (case split_colon s of [] \<Rightarrow> [[c]] | p # ps \<Rightarrow> (c # p) # ps))"

text \<open>\<open>None\<close> stands for null and for \<open>NaN\<close>, which no comparison accepts.\<close>

definition parse_minutes :: "string option \<Rightarrow> int option" where
  "parse_minutes hhmm =
     (case hhmm of
        None \<Rightarrow> None
      | Some s \<Rightarrow>
        if s = ''24:00'' then Some MINUTES_PER_DAY
        else (case split_colon s of
                h # m # _ \<Rightarrow>
                  (case (js_number h, js_number m) of (Some a, Some b) \<Rightarrow> Some (a * 60 + b) | _ \<Rightarrow> None)
              | _ \<Rightarrow> None))"

definition open_today :: "int \<Rightarrow> int \<Rightarrow> hours_row \<Rightarrow> bool" where
  "open_today todayDow nowMins h \<longleftrightarrow>
     h_dayOfWeek h = todayDow \<and> \<not> h_isClosed h \<and>
     (case (parse_minutes (h_openTime h), parse_minutes (h_closeTime h)) of
        (Some openMins, Some closeMins) \<Rightarrow>
          if openMins < closeMins then openMins \<le> nowMins \<and> nowMins < closeMins
          else if closeMins < openMins then openMins \<le> nowMins else False
      | _ \<Rightarrow> False)"

definition open_spill :: "int \<Rightarrow> int \<Rightarrow> hours_row \<Rightarrow> bool" where
  "open_spill yesterdayDow nowMins h \<longleftrightarrow>
     h_dayOfWeek h = yesterdayDow \<and> \<not> h_isClosed h \<and>
     (case (parse_minutes (h_openTime h), parse_minutes (h_closeTime h)) of
        (Some openMins, Some closeMins) \<Rightarrow> closeMins < openMins \<and> nowMins < closeMins
      | _ \<Rightarrow> False)"

definition isOpenNow :: "hours_row list \<Rightarrow> time \<Rightarrow> bool" where
  "isOpenNow hours now =
     (case getLondonClock now of
        (todayDow, nowMins) \<Rightarrow>
          list_ex (open_today todayDow nowMins) hours \<or>
          list_ex (open_spill ((todayDow + 6) mod 7) nowMins) hours)"

section \<open>The week\<close>

text \<open>Specification: the minutes of the week, \<open>0 \<le> w < 7 * 1440\<close>, that a row covers; a close before the open is
  on the next day, and the week wraps round.\<close>

definition week_length :: int where "week_length = 7 * 1440"

definition row_covers :: "hours_row \<Rightarrow> int \<Rightarrow> bool" where
  "row_covers r w \<longleftrightarrow> \<not> h_isClosed r \<and>
     (w - (h_dayOfWeek r * 1440 + open_minutes r)) mod week_length
       < (if open_minutes r < close_minutes r then close_minutes r - open_minutes r
          else close_minutes r + 1440 - open_minutes r)"

definition row_ok :: "hours_row \<Rightarrow> bool" where
  "row_ok r \<longleftrightarrow> 0 \<le> h_dayOfWeek r \<and> h_dayOfWeek r \<le> 6 \<and>
     (h_isClosed r \<or>
      (\<exists>a b. h_openTime r = Some a \<and> h_closeTime r = Some b \<and> TIME_REGEX a \<and> (b = ''24:00'' \<or> TIME_REGEX b) \<and> a \<noteq> b))"

section \<open>Lemmas on times\<close>

lemma digit_val_inj: "digit_val a = digit_val b \<Longrightarrow> a = b"
  by (simp add: digit_val_def)

lemma TIME_REGEX_cases:
  assumes "TIME_REGEX s"
  obtains h1 h2 m1 m2 where "s = [h1, h2, CHR '':'', m1, m2]" "is_digit h1" "is_digit h2" "is_digit m1" "is_digit m2"
    "digit_val m1 \<le> 5"
proof (cases s rule: TIME_REGEX.cases)
  case (1 h1 h2 c m1 m2)
  then have t: "h1 \<in> set ''01'' \<and> is_digit h2 \<or> h1 = CHR ''2'' \<and> h2 \<in> set ''0123''" "c = CHR '':''"
    "m1 \<in> set ''012345''" "is_digit m2" using assms by simp_all
  have "is_digit h1" "is_digit h2" using t(1) by (auto simp: is_digit_def)
  moreover have "is_digit m1" "digit_val m1 \<le> 5" using t(3) by (auto simp: is_digit_def digit_val_def)
  ultimately show ?thesis using that 1 t by simp
qed (use assms in simp_all)

text \<open>Positional notation is unique.\<close>

lemma split_base:
  fixes M :: int
  assumes "0 \<le> M" "M < n" "0 \<le> M'" "M' < n" "H * n + M = H' * n + M'"
  shows "H = H' \<and> M = M'"
proof -
  have "(H * n + M) div n = H" "(H' * n + M') div n = H'"
    using assms(1-4) by (simp_all add: div_pos_pos_trivial)
  then show ?thesis using assms(5) by simp
qed

lemma hhmm_inj:
  assumes "TIME_REGEX a" "TIME_REGEX b" "hhmm_minutes a = hhmm_minutes b"
  shows "a = b"
proof -
  obtain h1 h2 m1 m2 where a: "a = [h1, h2, CHR '':'', m1, m2]" "is_digit h1" "is_digit h2" "is_digit m1" "is_digit m2"
    "digit_val m1 \<le> 5" using TIME_REGEX_cases[OF assms(1)] by metis
  obtain k1 k2 n1 n2 where b: "b = [k1, k2, CHR '':'', n1, n2]" "is_digit k1" "is_digit k2" "is_digit n1" "is_digit n2"
    "digit_val n1 \<le> 5" using TIME_REGEX_cases[OF assms(2)] by metis
  note r = digit_val_range[OF a(2)] digit_val_range[OF a(3)] digit_val_range[OF a(4)] digit_val_range[OF a(5)]
    digit_val_range[OF b(2)] digit_val_range[OF b(3)] digit_val_range[OF b(4)] digit_val_range[OF b(5)]
  have e: "(digit_val h1 * 10 + digit_val h2) * 60 + (digit_val m1 * 10 + digit_val m2) =
      (digit_val k1 * 10 + digit_val k2) * 60 + (digit_val n1 * 10 + digit_val n2)"
    using assms(3) a(1) b(1) by simp
  have "digit_val h1 * 10 + digit_val h2 = digit_val k1 * 10 + digit_val k2 \<and>
      digit_val m1 * 10 + digit_val m2 = digit_val n1 * 10 + digit_val n2"
    by (rule split_base[OF _ _ _ _ e]) (use r a(6) b(6) in linarith)+
  then have e2: "digit_val h1 * 10 + digit_val h2 = digit_val k1 * 10 + digit_val k2"
      "digit_val m1 * 10 + digit_val m2 = digit_val n1 * 10 + digit_val n2" by simp_all
  have "digit_val h1 = digit_val k1 \<and> digit_val h2 = digit_val k2"
    by (rule split_base[OF _ _ _ _ e2(1)]) (use r in linarith)+
  moreover have "digit_val m1 = digit_val n1 \<and> digit_val m2 = digit_val n2"
    by (rule split_base[OF _ _ _ _ e2(2)]) (use r in linarith)+
  ultimately have "digit_val h1 = digit_val k1 \<and> digit_val h2 = digit_val k2 \<and> digit_val m1 = digit_val n1 \<and> digit_val m2 = digit_val n2"
    by simp
  then show ?thesis using digit_val_inj a(1) b(1) by simp
qed

lemma row_ok_minutes:
  assumes "row_ok r" "\<not> h_isClosed r"
  shows "0 \<le> open_minutes r \<and> open_minutes r < 1440 \<and> 0 \<le> close_minutes r \<and> close_minutes r \<le> 1440 \<and>
    open_minutes r \<noteq> close_minutes r"
proof -
  obtain a b where t: "h_openTime r = Some a" "h_closeTime r = Some b" "TIME_REGEX a" "b = ''24:00'' \<or> TIME_REGEX b" "a \<noteq> b"
    using assms by (auto simp: row_ok_def)
  have n: "\<not> TIME_REGEX ''24:00''" by (simp add: is_digit_def)
  then have a: "a \<noteq> ''24:00''" using t(3) by metis
  show ?thesis
    using t a n TIME_REGEX_minutes[of a] TIME_REGEX_minutes[of b] hhmm_inj[of a b]
    by (auto simp: open_minutes_def close_minutes_def toMinutes_def MINUTES_PER_DAY_def)
qed

definition same_day_end :: "hours_row \<Rightarrow> int" where
  "same_day_end r = (if open_minutes r < close_minutes r then close_minutes r else 1440)"

lemma days_apart:
  fixes D d :: int
  assumes "0 \<le> D" "D \<le> 6" "0 \<le> d" "d \<le> 6"
  shows "((d - D) mod 7 = 0 \<longleftrightarrow> D = d) \<and> ((d - D) mod 7 = 1 \<longleftrightarrow> (D + 1) mod 7 = d)"
proof -
  have "D \<in> {0, 1, 2, 3, 4, 5, 6}" "d \<in> {0, 1, 2, 3, 4, 5, 6}" using assms by auto
  then show ?thesis by auto
qed

lemma day_before:
  fixes D d :: int
  assumes "0 \<le> D" "D \<le> 6" "0 \<le> d" "d \<le> 6"
  shows "(D + 1) mod 7 = d \<longleftrightarrow> D = (d + 6) mod 7"
proof -
  have "(D + 1) mod 7 = (if D = 6 then 0 else D + 1)" using assms by simp
  moreover have "(d + 6) mod 7 = (if d = 0 then 6 else d - 1)"
  proof (cases "d = 0")
    case False
    have "(d + 6) mod 7 = (d - 1 + 7) mod 7" by (simp add: algebra_simps)
    also have "\<dots> = d - 1" using False assms by (subst mod_add_self2) simp
    finally show ?thesis using False by simp
  qed simp
  ultimately show ?thesis using assms by auto
qed

text \<open>The covered minutes of a row, by day.\<close>

lemma row_covers_iff:
  assumes "row_ok r" "0 \<le> d" "d \<le> 6" "0 \<le> m" "m < 1440"
  shows "row_covers r (d * 1440 + m) \<longleftrightarrow> \<not> h_isClosed r \<and>
    (h_dayOfWeek r = d \<and> open_minutes r \<le> m \<and> m < same_day_end r \<or>
     close_minutes r < open_minutes r \<and> (h_dayOfWeek r + 1) mod 7 = d \<and> m < close_minutes r)"
proof (cases "h_isClosed r")
  case False
  let ?o = "open_minutes r" and ?c = "close_minutes r" and ?D = "h_dayOfWeek r"
  have b: "0 \<le> ?o" "?o < 1440" "0 \<le> ?c" "?c \<le> 1440" "?o \<noteq> ?c" using row_ok_minutes[OF assms(1) False] by simp_all
  have D: "0 \<le> ?D" "?D \<le> 6" using assms(1) by (simp_all add: row_ok_def)
  define k where "k = (d - ?D) mod 7"
  have k: "0 \<le> k" "k < 7" by (simp_all add: k_def)
  have "d - ?D = 7 * ((d - ?D) div 7) + k" by (simp add: k_def)
  then have "d * 1440 + m - (?D * 1440 + ?o) = (1440 * k + (m - ?o)) + week_length * ((d - ?D) div 7)"
    unfolding week_length_def by linarith
  then have e: "(d * 1440 + m - (?D * 1440 + ?o)) mod week_length = (1440 * k + (m - ?o)) mod week_length"
    by (simp only: mod_mult_self2)
  have v: "(1440 * k + (m - ?o)) mod week_length =
      (if 0 \<le> 1440 * k + (m - ?o) then 1440 * k + (m - ?o) else 1440 * k + (m - ?o) + week_length)"
    (is "?x mod _ = _")
  proof (cases "0 \<le> ?x")
    case True
    then show ?thesis using k b assms(4,5) by (simp add: week_length_def)
  next
    case neg: False
    have "(?x + week_length) mod week_length = ?x + week_length"
      by (rule mod_pos_pos_trivial) (use k b assms(4,5) neg in \<open>simp_all add: week_length_def\<close>)
    then show ?thesis using neg by (simp add: week_length_def)
  qed
  have d0: "k = 0 \<longleftrightarrow> ?D = d" and d1: "k = 1 \<longleftrightarrow> (?D + 1) mod 7 = d"
    using days_apart[OF D assms(2,3)] by (simp_all add: k_def)
  consider "k = 0" | "k = 1" | "2 \<le> k" using k by linarith
  then show ?thesis
  proof cases
    case 1
    then have "?D = d" "(?D + 1) mod 7 \<noteq> d" using d0 d1 by simp_all
    then show ?thesis using False b assms(4,5) 1 unfolding row_covers_def trans[OF e v] same_day_end_def
      by (simp add: week_length_def)
  next
    case 2
    then have "?D \<noteq> d" "(?D + 1) mod 7 = d" using d0 d1 by simp_all
    then show ?thesis using False b assms(4,5) 2 unfolding row_covers_def trans[OF e v] same_day_end_def
      by (simp add: week_length_def)
  next
    case 3
    then have "?D \<noteq> d" "(?D + 1) mod 7 \<noteq> d" using d0 d1 by simp_all
    then show ?thesis using False b assms(4,5) 3 unfolding row_covers_def trans[OF e v] same_day_end_def
      by (simp add: week_length_def)
  qed
qed (simp add: row_covers_def)

section \<open>Open now: lemmas\<close>

lemma not_space_digit: "is_digit c \<Longrightarrow> \<not> is_space c"
  by (auto simp: is_digit_def is_space_def)

lemma not_colon_digit: "is_digit c \<Longrightarrow> c \<noteq> CHR '':''"
  by (auto simp: is_digit_def)

lemma js_trim_digits: "is_digit a \<Longrightarrow> is_digit b \<Longrightarrow> js_trim [a, b] = [a, b]"
  by (simp add: js_trim_def not_space_digit)

lemma split_colon_digits:
  "is_digit a \<Longrightarrow> is_digit b \<Longrightarrow> is_digit c \<Longrightarrow> is_digit d \<Longrightarrow> split_colon [a, b, CHR '':'', c, d] = [[a, b], [c, d]]"
  by (simp add: not_colon_digit)

lemma parse_minutes_HHMM:
  assumes "TIME_REGEX s"
  shows "parse_minutes (Some s) = Some (hhmm_minutes s)"
proof -
  obtain h1 h2 m1 m2 where s: "s = [h1, h2, CHR '':'', m1, m2]" "is_digit h1" "is_digit h2" "is_digit m1" "is_digit m2"
    using TIME_REGEX_cases[OF assms] by metis
  have "\<not> TIME_REGEX ''24:00''" by (simp add: is_digit_def)
  then have "s \<noteq> ''24:00''" using assms by metis
  then have p: "parse_minutes (Some s) = (case split_colon s of
      h # m # _ \<Rightarrow> (case (js_number h, js_number m) of (Some a, Some b) \<Rightarrow> Some (a * 60 + b) | _ \<Rightarrow> None) | _ \<Rightarrow> None)"
    by (simp add: parse_minutes_def)
  have "js_number [a, b] = Some (digit_val a * 10 + digit_val b)" if "is_digit a" "is_digit b" for a b
    using that by (simp add: js_number_def Let_def js_trim_digits)
  then show ?thesis using p[unfolded s(1) split_colon_digits[OF s(2-5)]] s by simp
qed

lemma parse_minutes_row:
  assumes "row_ok r" "\<not> h_isClosed r"
  shows "parse_minutes (h_openTime r) = Some (open_minutes r) \<and> parse_minutes (h_closeTime r) = Some (close_minutes r)"
proof -
  have n: "\<not> TIME_REGEX ''24:00''" by (simp add: is_digit_def)
  obtain a b where t: "h_openTime r = Some a" "h_closeTime r = Some b" "TIME_REGEX a" "b = ''24:00'' \<or> TIME_REGEX b"
    using assms by (auto simp: row_ok_def)
  have "a \<noteq> ''24:00''" using t(3) n by metis
  then have "parse_minutes (h_openTime r) = Some (open_minutes r)"
    using t by (simp add: parse_minutes_HHMM open_minutes_def toMinutes_def)
  moreover have "parse_minutes (h_closeTime r) = Some (close_minutes r)"
  proof (cases "b = ''24:00''")
    case True
    then show ?thesis using t by (simp add: parse_minutes_def close_minutes_def toMinutes_def)
  next
    case False
    then show ?thesis using t by (simp add: parse_minutes_HHMM close_minutes_def toMinutes_def)
  qed
  ultimately show ?thesis by simp
qed

lemma london_clock_range:
  assumes "getLondonClock now = (d, m)"
  shows "0 \<le> d \<and> d \<le> 6 \<and> 0 \<le> m \<and> m < 1440"
  using assms getLondonClock_eq[of now] london_dow_range[of now] london_minute_range[of now] by auto

section \<open>Validation: lemmas\<close>

lemma check_row_ok: "check_row hs r = Inr () \<Longrightarrow> row_ok r"
  by (auto simp: check_row_def reject_def row_ok_def Let_def split: if_splits)

lemma scan_rows_ok: "scan_rows hs rows = Inr hs' \<Longrightarrow> \<forall>r \<in> set rows. row_ok r"
  by (induction rows arbitrary: hs) (auto split: sum.splits dest: check_row_ok)

lemma get_or_update: "get_or d (AList.update k v m) j = (if j = k then v else get_or d m j)"
  by (simp add: get_or_def update_conv')

lemma record_row_windows:
  "get_or [] (hs_sameDayWindows (record_row hs r)) d = get_or [] (hs_sameDayWindows hs) d @
     (if \<not> h_isClosed r \<and> h_dayOfWeek r = d then [(open_minutes r, same_day_end r)] else [])"
  by (simp add: record_row_def Let_def get_or_update same_day_end_def MINUTES_PER_DAY_def)

lemma scan_rows_windows:
  "scan_rows hs rows = Inr hs' \<Longrightarrow> get_or [] (hs_sameDayWindows hs') d = get_or [] (hs_sameDayWindows hs) d @
     map (\<lambda>r. (open_minutes r, same_day_end r)) (filter (\<lambda>r. \<not> h_isClosed r \<and> h_dayOfWeek r = d) rows)"
  by (induction rows arbitrary: hs) (auto simp: record_row_windows split: sum.splits)

definition spill_at_least :: "hours_scan \<Rightarrow> int \<Rightarrow> int \<Rightarrow> bool" where
  "spill_at_least hs d c \<longleftrightarrow> (\<exists>c'. map_of (hs_overnightSpills hs) d = Some c' \<and> c \<le> c')"

lemma record_row_spills:
  "spill_at_least hs d c \<Longrightarrow> spill_at_least (record_row hs r) d c"
  "\<not> h_isClosed r \<Longrightarrow> close_minutes r < open_minutes r \<Longrightarrow>
     spill_at_least (record_row hs r) (h_dayOfWeek r) (close_minutes r)"
  by (auto simp: record_row_def Let_def spill_at_least_def update_conv' split: option.splits)

lemma scan_rows_spills:
  assumes "scan_rows hs rows = Inr hs'"
  shows "spill_at_least hs d c \<Longrightarrow> spill_at_least hs' d c"
    and "r \<in> set rows \<Longrightarrow> \<not> h_isClosed r \<Longrightarrow> close_minutes r < open_minutes r \<Longrightarrow>
      spill_at_least hs' (h_dayOfWeek r) (close_minutes r)"
proof -
  have "spill_at_least hs d c \<longrightarrow> spill_at_least hs' d c" for d c using assms
    by (induction rows arbitrary: hs) (auto intro: record_row_spills(1) split: sum.splits)
  then show "spill_at_least hs d c \<Longrightarrow> spill_at_least hs' d c" by simp
  show "r \<in> set rows \<Longrightarrow> \<not> h_isClosed r \<Longrightarrow> close_minutes r < open_minutes r \<Longrightarrow>
      spill_at_least hs' (h_dayOfWeek r) (close_minutes r)"
    using assms
  proof (induction rows arbitrary: hs)
    case (Cons x rows)
    have s: "scan_rows (record_row hs x) rows = Inr hs'" using Cons.prems(4) by (auto split: sum.splits)
    show ?case
    proof (cases "r = x")
      case True
      have "spill_at_least (record_row hs x) (h_dayOfWeek r) (close_minutes r)"
        using record_row_spills(2) Cons.prems(2,3) True by simp
      moreover have "spill_at_least h d c \<longrightarrow> spill_at_least hs' d c" if "scan_rows h rows = Inr hs'" for h d c using that
        by (induction rows arbitrary: h) (auto intro: record_row_spills(1) split: sum.splits)
      ultimately show ?thesis using s by blast
    next
      case False
      then show ?thesis using Cons.IH[OF _ Cons.prems(2,3) s] Cons.prems(1) by simp
    qed
  qed simp
qed

lemma first_error_ok: "first_error f xs = Inr () \<longleftrightarrow> (\<forall>x \<in> set xs. f x = None)"
proof (cases "List.find (\<lambda>x. f x \<noteq> None) xs")
  case None
  then show ?thesis using find_None_all[of "\<lambda>x. f x \<noteq> None" xs] by (simp add: first_error_def)
next
  case (Some x)
  then show ?thesis using find_Some_in[OF Some] by (auto simp: first_error_def reject_def)
qed

lemma validate_ok:
  "validateOpeningHours hours = Inr () \<longleftrightarrow> (\<exists>hs. scan_rows empty_scan hours = Inr hs \<and>
     (\<forall>d \<in> set (hs_closedDays hs). mixed_day hs d = None) \<and>
     (\<forall>dw \<in> set (hs_sameDayWindows hs). crowded_day dw = None) \<and>
     (\<forall>ds \<in> set (hs_overnightSpills hs). spilt_day hs ds = None))"
  by (auto simp: validateOpeningHours_def first_error_ok[symmetric] split: sum.splits)

text \<open>No two adjacent windows of a list sorted by start overlap: then no two at all.\<close>

lemma sorted_apart:
  assumes "sorted (map fst xs)" "\<not> adjacent_overlap xs" "\<forall>w \<in> set xs. fst w < snd w"
  shows "sorted_wrt (\<lambda>a b. snd a \<le> fst b) (xs :: interval list)"
  using assms
proof (induction xs rule: adjacent_overlap.induct)
  case (1 a b rest)
  then have IH: "sorted_wrt (\<lambda>a b. snd a \<le> fst b) (b # rest)" by simp
  have ab: "snd a \<le> fst b" using 1(2-4) by (auto simp: overlaps_def)
  have "fst b \<le> fst w" if "w \<in> set rest" for w using that 1(2) by auto
  then have "\<forall>w \<in> set (b # rest). snd a \<le> fst w" using ab order_trans by fastforce
  then show ?case using IH by simp
qed auto

definition contains_minute :: "int \<Rightarrow> interval \<Rightarrow> bool" where
  "contains_minute m w \<longleftrightarrow> fst w \<le> m \<and> m < snd w"

lemma apart_once:
  "sorted_wrt (\<lambda>a b. snd a \<le> fst b) ws \<Longrightarrow> length (filter (contains_minute m) ws) \<le> 1"
proof (induction ws)
  case (Cons a ws)
  show ?case
  proof (cases "contains_minute m a")
    case True
    then have "\<not> contains_minute m w" if "w \<in> set ws" for w using Cons.prems that by (auto simp: contains_minute_def)
    then have "filter (contains_minute m) ws = []" by (simp add: filter_empty_conv)
    then show ?thesis using True by simp
  next
    case False
    then show ?thesis using Cons by simp
  qed
qed simp

lemma uncrowded_once:
  assumes "crowded_day (d, ws) = None" "\<forall>w \<in> set ws. fst w < snd w"
  shows "length (filter (contains_minute m) ws) \<le> 1"
proof -
  have "sorted_wrt (\<lambda>a b. snd a \<le> fst b) (sort_key fst ws)"
    by (rule sorted_apart) (use assms in \<open>auto simp: crowded_day_def split: if_splits\<close>)
  then have "length (filter (contains_minute m) (sort_key fst ws)) \<le> 1" by (rule apart_once)
  then show ?thesis by (simp add: filter_sort)
qed

text \<open>In a validated week a minute of a day lies in at most one window that starts on that day.\<close>

lemma validated_day_once:
  assumes "validateOpeningHours hours = Inr ()"
  shows "length (filter (\<lambda>r. \<not> h_isClosed r \<and> h_dayOfWeek r = d \<and> open_minutes r \<le> m \<and> m < same_day_end r) hours) \<le> 1"
proof -
  let ?rows = "filter (\<lambda>r. \<not> h_isClosed r \<and> h_dayOfWeek r = d) hours"
  let ?ws = "map (\<lambda>r. (open_minutes r, same_day_end r)) ?rows"
  obtain hs where hs: "scan_rows empty_scan hours = Inr hs" "\<forall>dw \<in> set (hs_sameDayWindows hs). crowded_day dw = None"
    using assms by (auto simp: validate_ok)
  have g: "get_or [] (hs_sameDayWindows hs) d = ?ws"
    using scan_rows_windows[OF hs(1), of d] by (simp add: get_or_def empty_scan_def)
  have ne: "\<forall>w \<in> set ?ws. fst w < snd w"
    using scan_rows_ok[OF hs(1)] row_ok_minutes by (fastforce simp: same_day_end_def)
  have "length (filter (contains_minute m) ?ws) \<le> 1"
  proof (cases "map_of (hs_sameDayWindows hs) d")
    case None
    then show ?thesis using g by (simp add: get_or_def)
  next
    case (Some ws)
    then have "ws = ?ws" "(d, ws) \<in> set (hs_sameDayWindows hs)" using g map_of_SomeD[OF Some] by (simp_all add: get_or_def)
    then show ?thesis using uncrowded_once[of d ws m] hs(2) ne by auto
  qed
  then show ?thesis by (simp add: filter_map comp_def contains_minute_def conj_ac)
qed

lemma validated_spill_apart:
  assumes "validateOpeningHours hours = Inr ()" "r \<in> set hours" "\<not> h_isClosed r" "close_minutes r < open_minutes r"
    and "r' \<in> set hours" "\<not> h_isClosed r'" "h_dayOfWeek r' = (h_dayOfWeek r + 1) mod 7" "open_minutes r' \<le> m"
    and "m < same_day_end r'" "0 \<le> m"
  shows "close_minutes r \<le> m"
proof -
  obtain hs where hs: "scan_rows empty_scan hours = Inr hs" "\<forall>ds \<in> set (hs_overnightSpills hs). spilt_day hs ds = None"
    using assms(1) by (auto simp: validate_ok)
  obtain c where c: "map_of (hs_overnightSpills hs) (h_dayOfWeek r) = Some c" "close_minutes r \<le> c"
    using scan_rows_spills(2)[OF hs(1) assms(2-4)] by (auto simp: spill_at_least_def)
  have "(open_minutes r', same_day_end r') \<in> set (get_or [] (hs_sameDayWindows hs) ((h_dayOfWeek r + 1) mod 7))"
    using scan_rows_windows[OF hs(1), of "(h_dayOfWeek r + 1) mod 7"] assms(5-7) by force
  moreover have "spilt_day hs (h_dayOfWeek r, c) = None" using hs(2) map_of_SomeD[OF c(1)] by blast
  ultimately have "\<not> overlaps (0, c) (open_minutes r', same_day_end r')"
    by (auto simp: spilt_day_def Let_def list_ex_iff split: if_splits)
  then show ?thesis using c(2) assms(8-10) by (auto simp: overlaps_def)
qed

section \<open>Properties\<close>

definition week_minute :: "time \<Rightarrow> int" where
  "week_minute now = (case getLondonClock now of (d, m) \<Rightarrow> d * 1440 + m)"

definition late_bar :: "hours_row list" where
  "late_bar = [\<lparr>h_dayOfWeek = 5, h_openTime = Some ''18:00'', h_closeTime = Some ''02:00'', h_isClosed = False\<rparr>,
     \<lparr>h_dayOfWeek = 6, h_openTime = Some ''02:00'', h_closeTime = Some ''24:00'', h_isClosed = False\<rparr>,
     \<lparr>h_dayOfWeek = 0, h_openTime = None, h_closeTime = None, h_isClosed = True\<rparr>]"

text \<open>Accepted opening hours never overlap: whatever rows \<open>validateOpeningHours\<close> accepts, overnight windows
  and the Saturday-to-Sunday wrap included, each minute of the week lies in at most one of them.\<close>

theorem validated_week_once:
  assumes "validateOpeningHours hours = Inr ()" "0 \<le> w" "w < week_length"
  shows "length (filter (\<lambda>r. row_covers r w) hours) \<le> 1"
proof -
  define d m where "d = w div 1440" and "m = w mod 1440"
  have w: "w = d * 1440 + m" and b: "0 \<le> d" "d \<le> 6" "0 \<le> m" "m < 1440"
    using assms(2,3) by (auto simp: d_def m_def week_length_def)
  define A where "A = (\<lambda>r. \<not> h_isClosed r \<and> h_dayOfWeek r = d \<and> open_minutes r \<le> m \<and> m < same_day_end r)"
  define B where "B = (\<lambda>r. \<not> h_isClosed r \<and> close_minutes r < open_minutes r \<and> (h_dayOfWeek r + 1) mod 7 = d \<and>
      m < close_minutes r)"
  have ok: "\<forall>r \<in> set hours. row_ok r" using assms(1) scan_rows_ok by (auto simp: validate_ok)
  have f: "filter (\<lambda>r. row_covers r w) hours = filter (\<lambda>r. A r \<or> B r) hours"
    by (rule filter_cong) (use row_covers_iff[OF _ b] ok in \<open>auto simp: w A_def B_def\<close>)
  show ?thesis
  proof (cases "\<exists>r \<in> set hours. A r")
    case True
    then obtain r where r: "r \<in> set hours" "A r" by blast
    have "\<not> B r'" if "r' \<in> set hours" for r'
      using validated_spill_apart[OF assms(1) that _ _ r(1), of m] r(2) b(3) unfolding A_def B_def by auto
    then have "filter (\<lambda>r. A r \<or> B r) hours = filter A hours" by (intro filter_cong) auto
    then show ?thesis using validated_day_once[OF assms(1), of d m] by (simp add: f A_def)
  next
    case False
    define D where "D = (d + 6) mod 7"
    have day: "(x + 1) mod 7 = d \<Longrightarrow> 0 \<le> x \<Longrightarrow> x \<le> 6 \<Longrightarrow> x = D" for x using day_before b(1,2) unfolding D_def by simp
    have "B r \<Longrightarrow> \<not> h_isClosed r \<and> h_dayOfWeek r = D \<and> open_minutes r \<le> 1439 \<and> 1439 < same_day_end r"
      if "r \<in> set hours" for r
      using ok that day[of "h_dayOfWeek r"] row_ok_minutes[of r] by (auto simp: B_def row_ok_def same_day_end_def)
    then have "length (filter B hours) \<le> length (filter (\<lambda>r. \<not> h_isClosed r \<and> h_dayOfWeek r = D \<and>
        open_minutes r \<le> 1439 \<and> 1439 < same_day_end r) hours)"
      by (induction hours) auto
    moreover have "filter (\<lambda>r. A r \<or> B r) hours = filter B hours" using False by (intro filter_cong) auto
    ultimately show ?thesis using validated_day_once[OF assms(1), of D 1439] by (simp add: f)
  qed
qed

theorem validated_week_once_witness:
  "validateOpeningHours late_bar = Inr () \<and> length (filter (\<lambda>r. row_covers r (6 * 1440 + 60)) late_bar) \<le> 1"
proof -
  have v: "validateOpeningHours late_bar = Inr ()" by code_simp
  show ?thesis using validated_week_once[OF v, of "6 * 1440 + 60"] v by (simp add: week_length_def)
qed

text \<open>C40: the open flag is exact: on accepted opening hours \<open>isOpenNow\<close> answers true if and only if the current
  minute of the London week lies in one of the windows.\<close>

theorem isOpenNow_exact:
  assumes "validateOpeningHours hours = Inr ()"
  shows "isOpenNow hours now \<longleftrightarrow> (\<exists>r \<in> set hours. row_covers r (week_minute now))"
proof -
  obtain d m where c: "getLondonClock now = (d, m)" by fastforce
  then have b: "0 \<le> d" "d \<le> 6" "0 \<le> m" "m < 1440" using london_clock_range by simp_all
  have ok: "\<forall>r \<in> set hours. row_ok r" using assms scan_rows_ok by (auto simp: validate_ok)
  have "(x + 1) mod 7 = d \<longleftrightarrow> x = (d + 6) mod 7" if "0 \<le> x" "x \<le> 6" for x
    using that b(1,2) day_before by simp
  then have "open_today d m r \<or> open_spill ((d + 6) mod 7) m r \<longleftrightarrow> row_covers r (d * 1440 + m)" if r: "r \<in> set hours" for r
  proof (cases "h_isClosed r")
    case True
    then show ?thesis by (simp add: open_today_def open_spill_def row_covers_def)
  next
    case False
    have k: "row_ok r" "0 \<le> h_dayOfWeek r" "h_dayOfWeek r \<le> 6" using ok r by (auto simp: row_ok_def)
    have t: "open_today d m r \<longleftrightarrow> h_dayOfWeek r = d \<and> open_minutes r \<le> m \<and> m < same_day_end r"
      using parse_minutes_row[OF k(1) False] row_ok_minutes[OF k(1) False] False b(4)
      by (auto simp: open_today_def same_day_end_def)
    have "open_spill ((d + 6) mod 7) m r \<longleftrightarrow>
        close_minutes r < open_minutes r \<and> h_dayOfWeek r = (d + 6) mod 7 \<and> m < close_minutes r"
      using parse_minutes_row[OF k(1) False] False by (auto simp: open_spill_def)
    then show ?thesis using row_covers_iff[OF k(1) b] False t day_before[OF k(2,3) b(1,2)] by simp
  qed
  then show ?thesis by (auto simp: isOpenNow_def c week_minute_def list_ex_iff)
qed

theorem isOpenNow_exact_witness:
  "isOpenNow late_bar 0 \<longleftrightarrow> (\<exists>r \<in> set late_bar. row_covers r (week_minute 0))"
proof -
  have v: "validateOpeningHours late_bar = Inr ()" by code_simp
  show ?thesis by (rule isOpenNow_exact[OF v])
qed

end
