(* ===== verification/Maintenance.thy ===== *)
theory Maintenance
  imports Hours Store "HOL-Library.List_Lexorder" "HOL-Library.Char_ord"
begin

text \<open>
  The maintenance sweeps of \<open>src/api/queues\<close>: the bounded sweep and its row loop (\<open>maintenanceSweep.ts\<close>), the
  promotion of staged opening hours (\<open>processors/promotePendingHours.ts\<close>), the stale-claim alert
  (\<open>processors/claimStaleSweep.ts\<close>) and the database phase of the outbox (\<open>processors/outboxReconciler.ts\<close>).

  A transaction either commits or throws and leaves the state as it was. The rows of a table are a list; row
  order within a table carries no meaning. The clock readings, the stop predicate, the granted lock and the faults of a
  run are arguments. The conditional \<open>updateMany\<close> serialises concurrent transactions on the row, so a history
  of whole transactions, in any order, is what any interleaving amounts to.
\<close>

section \<open>The bounded sweep\<close>

record phase_b =
  pb_full :: bool
  pb_failedRows :: nat
  pb_startedRows :: nat

text \<open>\<open>bu_clock 0\<close> is the reading at the start, \<open>bu_clock (Suc i)\<close> the one before row \<open>i\<close>; \<open>bu_stopping i\<close> is
  what \<open>isStopping\<close> answers before row \<open>i\<close>.\<close>

record budget =
  bu_maxItems :: nat
  bu_budgetMs :: int
  bu_clock :: "nat \<Rightarrow> int"
  bu_stopping :: "nat \<Rightarrow> bool"

text \<open>A row answers whether it returned normally; its first argument is its position.\<close>

fun rows_loop ::
  "budget \<Rightarrow> (nat \<Rightarrow> 'a \<Rightarrow> 's \<Rightarrow> bool \<times> 's) \<Rightarrow> 'a list \<Rightarrow> nat \<Rightarrow> nat \<Rightarrow> 's \<Rightarrow> phase_b \<times> 's" where
  "rows_loop bu row [] started failedRows s =
     (\<lparr>pb_full = False, pb_failedRows = failedRows, pb_startedRows = started\<rparr>, s)"
| "rows_loop bu row (item # items) started failedRows s =
     (if bu_stopping bu started \<or> bu_maxItems bu \<le> started \<or> bu_budgetMs bu < bu_clock bu (Suc started) - bu_clock bu 0
      then (\<lparr>pb_full = True, pb_failedRows = failedRows, pb_startedRows = started\<rparr>, s)
      else case row started item s of
        (ok, s') \<Rightarrow> rows_loop bu row items (Suc started) (if ok then failedRows else Suc failedRows) s')"

definition runBudgetedRows ::
  "'a list \<Rightarrow> budget \<Rightarrow> (nat \<Rightarrow> 'a \<Rightarrow> 's \<Rightarrow> bool \<times> 's) \<Rightarrow> 's \<Rightarrow> phase_b \<times> 's" where
  "runBudgetedRows items bu row s = rows_loop bu row items 0 0 s"

record js_error =
  err_code :: "string option"
  err_metaCode :: "string option"
  err_message :: string

fun contains_text :: "string \<Rightarrow> string \<Rightarrow> bool" where
  "contains_text p [] \<longleftrightarrow> p = []"
| "contains_text p (c # s) \<longleftrightarrow> take (length p) (c # s) = p \<or> contains_text p s"

definition isTimeout :: "js_error \<Rightarrow> bool" where
  "isTimeout e \<longleftrightarrow> err_code e = Some ''P2028'' \<or> err_metaCode e = Some ''57014'' \<or>
     contains_text ''57014'' (err_message e) \<or> contains_text ''STATEMENT TIMEOUT'' (map js_upper (err_message e))"

datatype sweep_state = SUCCESS | LOCK_SKIPPED | TIMEOUT | FAILURE

record sweep_result =
  sr_state :: sweep_state
  sr_full :: bool
  sr_phaseB :: "phase_b option"

text \<open>\<open>tx_error\<close>: what the locked transaction throws, if it does; \<open>locked\<close>: whether the advisory lock was granted.
  \<open>side_effects\<close> is \<open>None\<close> where it throws.\<close>

definition runBoundedSweep ::
  "js_error option \<Rightarrow> bool \<Rightarrow> bool \<Rightarrow> ('s \<Rightarrow> bool \<times> 'side \<times> 's) \<Rightarrow> ('side \<Rightarrow> 's \<Rightarrow> phase_b option \<times> 's) \<Rightarrow> 's
     \<Rightarrow> sweep_result \<times> 's" where
  "runBoundedSweep tx_error locked stopping dbPhase side_effects s =
     (case tx_error of
        Some e \<Rightarrow> (\<lparr>sr_state = (if isTimeout e then TIMEOUT else FAILURE), sr_full = False, sr_phaseB = None\<rparr>, s)
      | None \<Rightarrow>
        if \<not> locked then (\<lparr>sr_state = LOCK_SKIPPED, sr_full = False, sr_phaseB = None\<rparr>, s)
        else (case dbPhase s of
          (full, side, s1) \<Rightarrow>
            if stopping then (\<lparr>sr_state = SUCCESS, sr_full = True, sr_phaseB = None\<rparr>, s1)
            else (case side_effects side s1 of
                (None, s2) \<Rightarrow> (\<lparr>sr_state = FAILURE, sr_full = False, sr_phaseB = None\<rparr>, s2)
              | (Some b, s2) \<Rightarrow>
                  if 0 < pb_failedRows b then (\<lparr>sr_state = FAILURE, sr_full = True, sr_phaseB = Some b\<rparr>, s2)
                  else (\<lparr>sr_state = SUCCESS, sr_full = (full \<or> pb_full b), sr_phaseB = Some b\<rparr>, s2))))"

section \<open>Staged opening hours\<close>

datatype pending_status = H_PENDING | H_PROMOTED | H_CANCELLED

record pending_hours =
  ph_id :: ident
  ph_branchId :: ident
  ph_proposedHours :: "hours_row list option"
  ph_effectiveAt :: time
  ph_status :: pending_status
  ph_promotedAt :: "time option"

record hours_db =
  pending :: "pending_hours list"
  live_hours :: "(ident \<times> hours_row) list"

definition find_pending :: "ident \<Rightarrow> hours_db \<Rightarrow> pending_hours option" where
  "find_pending i d = List.find (\<lambda>p. ph_id p = i) (pending d)"

definition is_due :: "time \<Rightarrow> pending_hours \<Rightarrow> bool" where
  "is_due now p \<longleftrightarrow> ph_status p = H_PENDING \<and> ph_effectiveAt p \<le> now"

definition claim_pending :: "time \<Rightarrow> ident \<Rightarrow> hours_db \<Rightarrow> nat \<times> hours_db" where
  "claim_pending now i d =
     (length (filter (\<lambda>p. ph_id p = i \<and> is_due now p) (pending d)),
      d\<lparr>pending := map (\<lambda>p. if ph_id p = i \<and> is_due now p then p\<lparr>ph_status := H_PROMOTED, ph_promotedAt := Some now\<rparr> else p)
                     (pending d)\<rparr>)"

definition replace_live :: "ident \<Rightarrow> hours_row list \<Rightarrow> hours_db \<Rightarrow> hours_db" where
  "replace_live branchId rows d =
     d\<lparr>live_hours := filter (\<lambda>(b, r). b \<noteq> branchId) (live_hours d) @ map (Pair branchId) rows\<rparr>"

definition promoteOnePendingHours :: "time \<Rightarrow> ident \<Rightarrow> bool \<Rightarrow> hours_db \<Rightarrow> bool result \<times> hours_db" where
  "promoteOnePendingHours now i throws d =
     (if throws then (throw (UNHANDLED RuntimeError), d)
      else case find_pending i d of
        None \<Rightarrow> (returns False, d)
      | Some p \<Rightarrow>
        if ph_status p \<noteq> H_PENDING then (returns False, d)
        else if now < ph_effectiveAt p then (returns False, d)
        else (case claim_pending now i d of
          (count, d1) \<Rightarrow>
            if count \<noteq> 1 then (returns False, d1)
            else (case find_pending i d1 of
              None \<Rightarrow> (returns False, d1)
            | Some claimed \<Rightarrow>
                (returns True,
                 replace_live (ph_branchId claimed)
                   (case ph_proposedHours claimed of None \<Rightarrow> [] | Some rows \<Rightarrow> rows) d1))))"

definition PROMOTE_PENDING_HOURS_BATCH :: nat where "PROMOTE_PENDING_HOURS_BATCH = 200"

definition pendingHoursDbPhase :: "time \<Rightarrow> hours_db \<Rightarrow> bool \<times> ident list \<times> hours_db" where
  "pendingHoursDbPhase dbNow d =
     (let due = take PROMOTE_PENDING_HOURS_BATCH (sort_key ph_effectiveAt (filter (is_due dbNow) (pending d)))
      in (PROMOTE_PENDING_HOURS_BATCH \<le> length due, map ph_id due, d))"

definition promote_row :: "time \<Rightarrow> (nat \<Rightarrow> bool) \<Rightarrow> nat \<Rightarrow> ident \<Rightarrow> hours_db \<Rightarrow> bool \<times> hours_db" where
  "promote_row dbNow throws n i d =
     (case promoteOnePendingHours dbNow i (throws n) d of (Inl e, d') \<Rightarrow> (False, d') | (Inr r, d') \<Rightarrow> (True, d'))"

definition makePendingHoursSideEffects ::
  "time \<Rightarrow> budget \<Rightarrow> (nat \<Rightarrow> bool) \<Rightarrow> ident list \<Rightarrow> hours_db \<Rightarrow> phase_b option \<times> hours_db" where
  "makePendingHoursSideEffects dbNow bu throws ids d =
     (case runBudgetedRows ids bu (promote_row dbNow throws) d of (b, d') \<Rightarrow> (Some b, d'))"

definition pending_hours_sweep ::
  "js_error option \<Rightarrow> bool \<Rightarrow> bool \<Rightarrow> time \<Rightarrow> budget \<Rightarrow> (nat \<Rightarrow> bool) \<Rightarrow> hours_db \<Rightarrow> sweep_result \<times> hours_db" where
  "pending_hours_sweep tx_error locked stopping dbNow bu throws d =
     runBoundedSweep tx_error locked stopping (pendingHoursDbPhase dbNow) (makePendingHoursSideEffects dbNow bu throws) d"

section \<open>Stale claims\<close>

record stale_claim =
  sc_id :: ident
  sc_claimedById :: ident
  sc_claimedAt :: time
  sc_lastStaleAlertAt :: "time option"
  sc_referenceId :: ident

record approvals_db =
  approvals :: "approval list"
  bells :: "(ident \<times> ident) list"   \<comment> \<open>recipient and reference of an \<open>ADMIN_CLAIM_STALE\<close> notification\<close>

definition CLAIM_STALE_AGE_MS :: int where "CLAIM_STALE_AGE_MS = 24 * 60 * 60 * 1000"
definition CLAIM_STALE_BATCH :: nat where "CLAIM_STALE_BATCH = 200"

definition stale_eligible :: "time \<Rightarrow> approval \<Rightarrow> bool" where
  "stale_eligible dbNow a \<longleftrightarrow> ap_status a = A_PENDING \<and> ap_claimedById a \<noteq> None \<and>
     (case ap_claimedAt a of
        None \<Rightarrow> False
      | Some c \<Rightarrow> c < dbNow - CLAIM_STALE_AGE_MS \<and> (case ap_lastStaleAlertAt a of None \<Rightarrow> True | Some l \<Rightarrow> l < c))"

definition snapshot :: "approval \<Rightarrow> stale_claim" where
  "snapshot a = \<lparr>sc_id = ap_id a, sc_claimedById = the (ap_claimedById a), sc_claimedAt = the (ap_claimedAt a),
     sc_lastStaleAlertAt = ap_lastStaleAlertAt a, sc_referenceId = ap_referenceId a\<rparr>"

definition claimStaleDbPhase :: "time \<Rightarrow> approvals_db \<Rightarrow> bool \<times> stale_claim list \<times> approvals_db" where
  "claimStaleDbPhase dbNow d =
     (let rows = take CLAIM_STALE_BATCH
            (sort_key (\<lambda>r. (sc_claimedAt r, sc_id r)) (map snapshot (filter (stale_eligible dbNow) (approvals d))))
      in (CLAIM_STALE_BATCH \<le> length rows, rows, d))"

text \<open>The compare-and-set of the stamp against the whole snapshot.\<close>

definition matches :: "stale_claim \<Rightarrow> approval \<Rightarrow> bool" where
  "matches row a \<longleftrightarrow> ap_id a = sc_id row \<and> ap_status a = A_PENDING \<and> ap_claimedById a = Some (sc_claimedById row) \<and>
     ap_claimedAt a = Some (sc_claimedAt row) \<and> ap_lastStaleAlertAt a = sc_lastStaleAlertAt row"

definition alertOneStaleClaim :: "stale_claim \<Rightarrow> time \<Rightarrow> bool \<Rightarrow> approvals_db \<Rightarrow> bool result \<times> approvals_db" where
  "alertOneStaleClaim row dbNow throws d =
     (if throws then (throw (UNHANDLED RuntimeError), d)
      else if length (filter (matches row) (approvals d)) = 0 then (returns False, d)
      else (returns True,
            d\<lparr>approvals := map (\<lambda>a. if matches row a then a\<lparr>ap_lastStaleAlertAt := Some dbNow\<rparr> else a) (approvals d),
              bells := bells d @ [(sc_claimedById row, sc_referenceId row)]\<rparr>))"

definition makeClaimStaleSideEffects ::
  "time \<Rightarrow> budget \<Rightarrow> (nat \<Rightarrow> bool) \<Rightarrow> stale_claim list \<Rightarrow> approvals_db \<Rightarrow> phase_b option \<times> approvals_db" where
  "makeClaimStaleSideEffects dbNow bu throws rows d =
     (case runBudgetedRows rows bu
             (\<lambda>n row d. case alertOneStaleClaim row dbNow (throws n) d of
                          (Inl e, d') \<Rightarrow> (False, d') | (Inr r, d') \<Rightarrow> (True, d')) d of
        (b, d') \<Rightarrow> (Some b, d'))"

section \<open>The outbox\<close>

datatype comm_status = QUEUED | SENT | COMM_FAILED

record comm_log =
  co_id :: ident
  co_type :: string
  co_status :: comm_status
  co_sentAt :: time
  co_payload :: "string option"

definition RECONCILE_GRACE_MS :: int where "RECONCILE_GRACE_MS = 120000"
definition RECONCILE_MAX_AGE_MS :: int where "RECONCILE_MAX_AGE_MS = 24 * 60 * 60 * 1000"
definition RECONCILE_BATCH :: nat where "RECONCILE_BATCH = 200"

definition too_old :: "time \<Rightarrow> comm_log \<Rightarrow> bool" where
  "too_old dbNow c \<longleftrightarrow> co_status c = QUEUED \<and> co_sentAt c < dbNow - RECONCILE_MAX_AGE_MS"

definition deliverable :: "time \<Rightarrow> comm_log \<Rightarrow> bool" where
  "deliverable dbNow c \<longleftrightarrow> co_status c = QUEUED \<and> dbNow - RECONCILE_MAX_AGE_MS \<le> co_sentAt c \<and>
     co_sentAt c < dbNow - RECONCILE_GRACE_MS"

text \<open>\<open>RETURNING "type"\<close> grouped: the types of the rows this statement changed, each with its count.\<close>

definition outboxDbPhase ::
  "time \<Rightarrow> comm_log list \<Rightarrow> bool \<times> (ident list \<times> (string \<times> nat) list) \<times> comm_log list" where
  "outboxDbPhase dbNow logs =
     (let types = map co_type (filter (too_old dbNow) logs);
          expired = map (\<lambda>t. (t, length (filter ((=) t) types))) (remdups types);
          logs1 = map (\<lambda>c. if too_old dbNow c then c\<lparr>co_status := COMM_FAILED, co_payload := None\<rparr> else c) logs;
          stale = take RECONCILE_BATCH (sort_key co_sentAt (filter (deliverable dbNow) logs1))
      in (RECONCILE_BATCH \<le> length stale, (map co_id stale, expired), logs1))"

section \<open>The row loop: lemmas\<close>

lemma rows_loop_bounds:
  assumes "rows_loop bu row xs started f s = (b, s')" "f \<le> started"
  shows "f \<le> pb_failedRows b \<and> started \<le> pb_startedRows b \<and> pb_failedRows b - f \<le> pb_startedRows b - started \<and>
    pb_startedRows b \<le> started + length xs \<and> (pb_full b \<or> pb_startedRows b = started + length xs) \<and>
    (pb_startedRows b = started \<or> pb_startedRows b \<le> bu_maxItems bu)"
  using assms
proof (induction xs arbitrary: started f s)
  case (Cons x xs)
  show ?case
  proof (cases "bu_stopping bu started \<or> bu_maxItems bu \<le> started \<or> bu_budgetMs bu < bu_clock bu (Suc started) - bu_clock bu 0")
    case True
    then show ?thesis using Cons.prems by auto
  next
    case False
    obtain ok s1 where r: "row started x s = (ok, s1)" by fastforce
    have "rows_loop bu row xs (Suc started) (if ok then f else Suc f) s1 = (b, s')" using Cons.prems(1) False r by simp
    moreover have "(if ok then f else Suc f) \<le> Suc started" using Cons.prems(2) by simp
    ultimately have ih: "(if ok then f else Suc f) \<le> pb_failedRows b \<and> Suc started \<le> pb_startedRows b \<and>
      pb_failedRows b - (if ok then f else Suc f) \<le> pb_startedRows b - Suc started \<and>
      pb_startedRows b \<le> Suc started + length xs \<and> (pb_full b \<or> pb_startedRows b = Suc started + length xs) \<and>
      (pb_startedRows b = Suc started \<or> pb_startedRows b \<le> bu_maxItems bu)"
      by (rule Cons.IH)
    have "Suc started \<le> bu_maxItems bu" using False by simp
    with ih show ?thesis by (cases ok) auto
  qed
qed auto

lemma rows_loop_keeps:
  assumes "rows_loop bu row xs started f s = (b, s')" "P s"
    and "\<And>i x s s' ok. row i x s = (ok, s') \<Longrightarrow> P s \<Longrightarrow> P s'"
  shows "P s'"
  using assms(1,2)
proof (induction xs arbitrary: started f s)
  case (Cons x xs)
  obtain ok s1 where r: "row started x s = (ok, s1)" by fastforce
  then show ?case using Cons.prems Cons.IH[of _ _ s1] assms(3)[OF r] by (auto split: if_splits)
qed auto

text \<open>A run that is neither cut short nor has a failed row has done every row.\<close>

lemma rows_loop_done:
  assumes "rows_loop bu row xs started f s = (b, s')" "\<not> pb_full b" "pb_failedRows b = f"
    and did: "\<And>i x s s'. row i x s = (True, s') \<Longrightarrow> Q x s'"
    and keeps: "\<And>i x y s ok s'. row i y s = (ok, s') \<Longrightarrow> Q x s \<Longrightarrow> Q x s'"
  shows "(\<forall>x \<in> set xs. Q x s') \<and> (\<forall>x. Q x s \<longrightarrow> Q x s')"
  using assms(1-3)
proof (induction xs arbitrary: started s)
  case (Cons x xs)
  obtain ok s1 where r: "row started x s = (ok, s1)" by fastforce
  have "pb_full b" if "bu_stopping bu started \<or> bu_maxItems bu \<le> started \<or> bu_budgetMs bu < bu_clock bu (Suc started) - bu_clock bu 0"
    using Cons.prems(1) that by auto
  then have go: "\<not> (bu_stopping bu started \<or> bu_maxItems bu \<le> started \<or> bu_budgetMs bu < bu_clock bu (Suc started) - bu_clock bu 0)"
    using Cons.prems(2) by blast
  then have n: "rows_loop bu row xs (Suc started) (if ok then f else Suc f) s1 = (b, s')" using Cons.prems(1) r by simp
  have ok
  proof (rule ccontr)
    assume "\<not> ok"
    then have "rows_loop bu row xs (Suc started) (Suc f) s1 = (b, s')" using n by simp
    then have "Suc f \<le> pb_failedRows b" 
    proof (induction xs arbitrary: s1 started f)
      case (Cons y ys)
      then show ?case by (fastforce split: if_splits prod.splits)
    qed auto
    then show False using Cons.prems(3) by simp
  qed
  then have "Q x s1" using did r by simp
  then show ?case using Cons.IH[OF _ Cons.prems(2,3)] n \<open>ok\<close> keeps[OF r] by auto
qed auto

section \<open>At most one winner\<close>

text \<open>Attempts of which one that succeeds uses up what all of them need.\<close>

locale once_only =
  fixes spent :: "'s \<Rightarrow> bool"
    and attempt :: "'op \<Rightarrow> 's \<Rightarrow> bool \<times> 's"
    and good :: "'s \<Rightarrow> bool"
    and fair :: "'op \<Rightarrow> bool"
  assumes win: "good s \<Longrightarrow> fair op \<Longrightarrow> attempt op s = (True, s') \<Longrightarrow> \<not> spent s \<and> spent s'"
    and stays: "good s \<Longrightarrow> fair op \<Longrightarrow> spent s \<Longrightarrow> spent (snd (attempt op s))"
    and good: "good s \<Longrightarrow> fair op \<Longrightarrow> good (snd (attempt op s))"
begin

primrec outcomes :: "'op list \<Rightarrow> 's \<Rightarrow> bool list" where
  "outcomes [] s = []"
| "outcomes (op # ops) s = fst (attempt op s) # outcomes ops (snd (attempt op s))"

lemma spent_none: "\<lbrakk>good s; spent s; list_all fair ops\<rbrakk> \<Longrightarrow> length (filter (\<lambda>x. x) (outcomes ops s)) = 0"
proof (induction ops arbitrary: s)
  case (Cons op ops)
  then have "\<not> fst (attempt op s)" using win[of s op "snd (attempt op s)"] by (auto simp: prod_eq_iff)
  then show ?case using Cons.IH[of "snd (attempt op s)"] Cons.prems stays good by simp
qed simp

lemma once: "\<lbrakk>good s; list_all fair ops\<rbrakk> \<Longrightarrow> length (filter (\<lambda>x. x) (outcomes ops s)) \<le> 1"
proof (induction ops arbitrary: s)
  case (Cons op ops)
  show ?case
  proof (cases "fst (attempt op s)")
    case True
    then have "spent (snd (attempt op s))" using win[of s op "snd (attempt op s)"] Cons.prems by (simp add: prod_eq_iff)
    then show ?thesis using spent_none[of "snd (attempt op s)" ops] good Cons.prems True by simp
  next
    case False
    then show ?thesis using Cons good by simp
  qed
qed simp

end

section \<open>Promotion: lemmas\<close>

definition promoted :: "pending_hours \<Rightarrow> time \<Rightarrow> pending_hours" where
  "promoted p now = p\<lparr>ph_status := H_PROMOTED, ph_promotedAt := Some now\<rparr>"

lemma find_pending_map:
  "(\<And>p. ph_id (f p) = ph_id p) \<Longrightarrow> List.find (\<lambda>p. ph_id p = i) (map f xs) = map_option f (List.find (\<lambda>p. ph_id p = i) xs)"
  by (induction xs) auto

text \<open>What a promotion does: nothing, or the claim with the replacement of the branch's live rows.\<close>

lemma find_distinct:
  "\<lbrakk>distinct (map ph_id xs); p \<in> set xs\<rbrakk> \<Longrightarrow> List.find (\<lambda>q. ph_id q = ph_id p) xs = Some p"
  by (induction xs) (auto simp: image_iff)

lemma claim_count:
  "distinct (map ph_id xs) \<Longrightarrow>
     length (filter (\<lambda>p. ph_id p = i \<and> is_due now p) xs) = (if \<exists>p \<in> set xs. ph_id p = i \<and> is_due now p then 1 else 0)"
  by (induction xs) (auto simp: filter_empty_conv image_iff)

lemma find_pending_in:
  "find_pending i d = Some p \<Longrightarrow> p \<in> set (pending d) \<and> ph_id p = i"
  by (auto simp: find_pending_def dest: find_Some_in)

lemma promote_due:
  assumes "find_pending i d = Some p" "is_due now p" "distinct (map ph_id (pending d))"
  shows "promoteOnePendingHours now i False d =
    (returns True, replace_live (ph_branchId p) (case ph_proposedHours p of None \<Rightarrow> [] | Some rows \<Rightarrow> rows)
       (snd (claim_pending now i d)))"
proof -
  have in_p: "p \<in> set (pending d)" "ph_id p = i" using find_pending_in[OF assms(1)] by simp_all
  have one: "fst (claim_pending now i d) = 1" using claim_count[OF assms(3)] in_p assms(2) by (auto simp: claim_pending_def)
  have again: "find_pending i (snd (claim_pending now i d)) = Some (promoted p now)"
    using assms(1,2) in_p by (simp add: claim_pending_def find_pending_def find_pending_map promoted_def)
  obtain n d1 where c: "claim_pending now i d = (n, d1)" by fastforce
  have st: "ph_status p = H_PENDING" "\<not> now < ph_effectiveAt p" using assms(2) by (simp_all add: is_due_def)
  show ?thesis using one again unfolding promoteOnePendingHours_def assms(1) c by (simp add: st promoted_def)
qed

lemma promote_idle:
  "(\<And>p. find_pending i d = Some p \<Longrightarrow> \<not> is_due now p) \<Longrightarrow> promoteOnePendingHours now i False d = (returns False, d)"
  by (cases "find_pending i d") (auto simp: promoteOnePendingHours_def is_due_def)

lemma promote_throws [simp]: "promoteOnePendingHours now i True d = (throw (UNHANDLED RuntimeError), d)"
  by (simp add: promoteOnePendingHours_def)

lemma promote_cases:
  assumes "promoteOnePendingHours now i throws d = (res, d')" "distinct (map ph_id (pending d))"
  shows "(res \<noteq> Inr True \<and> d' = d) \<or>
    (\<exists>p. res = Inr True \<and> find_pending i d = Some p \<and> is_due now p \<and>
      d' = replace_live (ph_branchId p) (case ph_proposedHours p of None \<Rightarrow> [] | Some rows \<Rightarrow> rows)
             (snd (claim_pending now i d)))"
proof (cases "throws \<or> (\<forall>p. find_pending i d = Some p \<longrightarrow> \<not> is_due now p)")
  case True
  then show ?thesis using assms(1) promote_idle[of i d now] by (cases throws) auto
next
  case False
  then show ?thesis using assms(1) promote_due[OF _ _ assms(2)] by auto
qed

lemma claim_pending_rows:
  "pending (snd (claim_pending now i d)) =
     map (\<lambda>p. if ph_id p = i \<and> is_due now p then promoted p now else p) (pending d)"
  by (simp add: claim_pending_def promoted_def)

lemma replace_live_pending [simp]: "pending (replace_live b rows d) = pending d"
  by (simp add: replace_live_def)

lemma promote_pending:
  "pending (snd (promoteOnePendingHours now i throws d)) = pending d \<or>
   pending (snd (promoteOnePendingHours now i throws d)) = pending (snd (claim_pending now i d))"
  by (auto simp: promoteOnePendingHours_def split: option.splits prod.splits)

lemma promote_ids [simp]: "map ph_id (pending (snd (promoteOnePendingHours now i throws d))) = map ph_id (pending d)"
proof -
  have "map ph_id (map (\<lambda>p. if ph_id p = i \<and> is_due now p then promoted p now else p) xs) = map ph_id xs" for xs
    by (simp add: promoted_def)
  then show ?thesis using promote_pending[of now i throws d] by (auto simp: claim_pending_rows)
qed

definition no_due :: "time \<Rightarrow> ident \<Rightarrow> hours_db \<Rightarrow> bool" where
  "no_due now i d \<longleftrightarrow> (\<forall>p \<in> set (pending d). ph_id p = i \<longrightarrow> \<not> is_due now p)"

definition no_pending :: "ident \<Rightarrow> hours_db \<Rightarrow> bool" where
  "no_pending i d \<longleftrightarrow> (\<forall>p \<in> set (pending d). ph_id p = i \<longrightarrow> ph_status p \<noteq> H_PENDING)"

lemma promoted_not_due [simp]: "\<not> is_due now (promoted p t)" "ph_status (promoted p t) = H_PROMOTED" "ph_id (promoted p t) = ph_id p"
  by (simp_all add: promoted_def is_due_def)

lemma claim_keeps: "no_due t i d \<Longrightarrow> no_due t i (snd (claim_pending now j d))"
  "no_pending i d \<Longrightarrow> no_pending i (snd (claim_pending now j d))"
  by (auto simp: no_due_def no_pending_def claim_pending_rows)

lemma promote_keeps:
  "no_due t i d \<Longrightarrow> no_due t i (snd (promoteOnePendingHours now j throws d))"
  "no_pending i d \<Longrightarrow> no_pending i (snd (promoteOnePendingHours now j throws d))"
  using promote_pending[of now j throws d] claim_keeps(1)[of t i d now j] claim_keeps(2)[of i d now j]
  by (auto simp: no_due_def no_pending_def)

lemma promote_uses_up:
  assumes "promoteOnePendingHours now i throws d = (Inr r, d')" "distinct (map ph_id (pending d))"
  shows "no_due now i d' \<and> (r \<longrightarrow> \<not> no_pending i d \<and> no_pending i d')"
proof (cases r)
  case True
  then obtain p where p: "find_pending i d = Some p" "is_due now p" "pending d' = pending (snd (claim_pending now i d))"
    using promote_cases[OF assms] by auto
  have in_p: "p \<in> set (pending d)" "ph_id p = i" using find_pending_in[OF p(1)] by simp_all
  have only: "q = p" if "q \<in> set (pending d)" "ph_id q = i" for q
    using that in_p assms(2) by (metis find_distinct option.inject)
  have "q = promoted p now" if "q \<in> set (pending d')" "ph_id q = i" for q
  proof -
    obtain q0 where q0: "q0 \<in> set (pending d)" "q = (if ph_id q0 = i \<and> is_due now q0 then promoted q0 now else q0)"
      using \<open>q \<in> set (pending d')\<close> unfolding p(3) claim_pending_rows by auto
    then have "ph_id q0 = i" using \<open>ph_id q = i\<close> by (simp split: if_splits)
    with only[OF q0(1)] show ?thesis using q0(2) p(2) by simp
  qed
  then have "no_due now i d'" "no_pending i d'" unfolding no_due_def no_pending_def by fastforce+
  moreover have "\<not> no_pending i d" using in_p p(2) by (auto simp: no_pending_def is_due_def)
  ultimately show ?thesis by simp
next
  case False
  then have d': "d' = d" using promote_cases[OF assms] by auto
  have "\<not> is_due now p" if "p \<in> set (pending d)" "ph_id p = i" for p
  proof
    assume "is_due now p"
    moreover have "find_pending i d = Some p" using find_distinct[OF assms(2) that(1)] that(2) by (simp add: find_pending_def)
    ultimately show False using assms False promote_due[of i d p now] by (cases throws) auto
  qed
  then show ?thesis using False d' by (simp add: no_due_def)
qed

section \<open>At most one promotion, at most one alert\<close>

type_synonym promotion = "time \<times> ident \<times> bool"

primrec run_promotions :: "promotion list \<Rightarrow> hours_db \<Rightarrow> (ident \<times> bool result) list" where
  "run_promotions [] d = []"
| "run_promotions (op # ops) d =
     (case op of (now, i, throws) \<Rightarrow>
        (i, fst (promoteOnePendingHours now i throws d)) # run_promotions ops (snd (promoteOnePendingHours now i throws d)))"

definition try_promote :: "ident \<Rightarrow> promotion \<Rightarrow> hours_db \<Rightarrow> bool \<times> hours_db" where
  "try_promote i op d =
     (case op of (now, j, throws) \<Rightarrow>
        (j = i \<and> fst (promoteOnePendingHours now j throws d) = Inr True, snd (promoteOnePendingHours now j throws d)))"

interpretation staged: once_only "no_pending i" "try_promote i" "\<lambda>d. distinct (map ph_id (pending d))" "\<lambda>_. True" for i
proof unfold_locales
  fix s s' :: hours_db and op :: promotion
  obtain now j throws where op: "op = (now, j, throws)" by (cases op)
  assume d: "distinct (map ph_id (pending s))"
  then show "distinct (map ph_id (pending (snd (try_promote i op s))))" by (simp add: try_promote_def op)
  show "no_pending i (snd (try_promote i op s))" if "no_pending i s"
    using promote_keeps(2)[OF that] by (simp add: try_promote_def op)
  show "\<not> no_pending i s \<and> no_pending i s'" if "try_promote i op s = (True, s')"
    using that promote_uses_up[OF _ d, of now i throws True] by (auto simp: try_promote_def op prod_eq_iff)
qed

lemma run_promotions_outcomes:
  "length (filter ((=) (i, Inr True)) (run_promotions ops d)) = length (filter (\<lambda>x. x) (staged.outcomes i ops d))"
  by (induction ops arbitrary: d) (auto simp: try_promote_def split: prod.splits)

type_synonym alert_attempt = "stale_claim \<times> time \<times> bool"

primrec run_alerts :: "alert_attempt list \<Rightarrow> approvals_db \<Rightarrow> (stale_claim \<times> bool result) list" where
  "run_alerts [] d = []"
| "run_alerts (op # ops) d =
     (case op of (row, now, throws) \<Rightarrow>
        (row, fst (alertOneStaleClaim row now throws d)) # run_alerts ops (snd (alertOneStaleClaim row now throws d)))"

definition same_claim :: "ident \<Rightarrow> time \<Rightarrow> stale_claim \<Rightarrow> bool" where
  "same_claim i c row \<longleftrightarrow> sc_id row = i \<and> sc_claimedAt row = c"

definition try_alert :: "ident \<times> time \<Rightarrow> alert_attempt \<Rightarrow> approvals_db \<Rightarrow> bool \<times> approvals_db" where
  "try_alert k op d =
     (case op of (row, now, throws) \<Rightarrow>
        (same_claim (fst k) (snd k) row \<and> fst (alertOneStaleClaim row now throws d) = Inr True,
         snd (alertOneStaleClaim row now throws d)))"

text \<open>The rows the database phase selects, at the time it selects them.\<close>

definition fair_alert :: "alert_attempt \<Rightarrow> bool" where
  "fair_alert op \<longleftrightarrow>
     (case op of (row, now, throws) \<Rightarrow> sc_claimedAt row < now - CLAIM_STALE_AGE_MS \<and>
        (case sc_lastStaleAlertAt row of None \<Rightarrow> True | Some l \<Rightarrow> l < sc_claimedAt row))"

lemma db_phase_fair:
  assumes "claimStaleDbPhase now d = (full, rows, d')" "row \<in> set rows"
  shows "fair_alert (row, now, throws)"
proof -
  have "row \<in> set (sort_key (\<lambda>r. (sc_claimedAt r, sc_id r)) (map snapshot (filter (stale_eligible now) (approvals d))))"
    using assms by (auto simp: claimStaleDbPhase_def Let_def dest: in_set_takeD)
  then obtain a where "stale_eligible now a" "row = snapshot a" by auto
  then show ?thesis by (auto simp: fair_alert_def snapshot_def stale_eligible_def split: option.splits)
qed

definition alerted :: "ident \<times> time \<Rightarrow> approvals_db \<Rightarrow> bool" where
  "alerted k d \<longleftrightarrow> (\<forall>a \<in> set (approvals d). ap_id a = fst k \<and> ap_claimedAt a = Some (snd k) \<longrightarrow>
     (case ap_lastStaleAlertAt a of None \<Rightarrow> False | Some l \<Rightarrow> snd k \<le> l))"

lemma alert_cases:
  "(fst (alertOneStaleClaim row now throws d) \<noteq> Inr True \<and> snd (alertOneStaleClaim row now throws d) = d) \<or>
   (fst (alertOneStaleClaim row now throws d) = Inr True \<and> \<not> throws \<and> (\<exists>a \<in> set (approvals d). matches row a) \<and>
    snd (alertOneStaleClaim row now throws d) =
      d\<lparr>approvals := map (\<lambda>a. if matches row a then a\<lparr>ap_lastStaleAlertAt := Some now\<rparr> else a) (approvals d),
        bells := bells d @ [(sc_claimedById row, sc_referenceId row)]\<rparr>)"
  by (auto simp: alertOneStaleClaim_def filter_empty_conv)

lemma alert_ids [simp]:
  "map ap_id (approvals (snd (alertOneStaleClaim row now throws d))) = map ap_id (approvals d)"
  using alert_cases[of row now throws d] by (auto intro: map_cong)

interpretation stale: once_only "alerted k" "try_alert k" "\<lambda>d. distinct (map ap_id (approvals d))" fair_alert for k
proof unfold_locales
  fix s s' :: approvals_db and op :: alert_attempt
  obtain row now throws where op: "op = (row, now, throws)" by (cases op)
  assume d: "distinct (map ap_id (approvals s))" and fair: "fair_alert op"
  have old: "sc_claimedAt row < now" using fair by (simp add: op fair_alert_def CLAIM_STALE_AGE_MS_def)
  show "distinct (map ap_id (approvals (snd (try_alert k op s))))" using d by (simp add: try_alert_def op)
  show "alerted k (snd (try_alert k op s))" if "alerted k s"
    using alert_cases[of row now throws s] that old
    by (auto simp: try_alert_def op alerted_def matches_def)
  show "\<not> alerted k s \<and> alerted k s'" if "try_alert k op s = (True, s')"
  proof -
    have k: "sc_id row = fst k" "sc_claimedAt row = snd k"
      and s': "s' = snd (alertOneStaleClaim row now throws s)" and win: "fst (alertOneStaleClaim row now throws s) = Inr True"
      using that by (auto simp: try_alert_def op same_claim_def)
    then obtain a where a: "a \<in> set (approvals s)" "matches row a" 
      and ap: "approvals s' = map (\<lambda>a. if matches row a then a\<lparr>ap_lastStaleAlertAt := Some now\<rparr> else a) (approvals s)"
      using alert_cases[of row now throws s] by auto
    have "\<not> alerted k s"
      using a fair k by (auto simp: alerted_def matches_def op fair_alert_def split: option.splits)
    moreover have "b = a" if "b \<in> set (approvals s)" "ap_id b = fst k" for b
      using that a d k by (simp add: matches_def distinct_map) (metis inj_onD)
    then have "alerted k s'" using a old k by (auto simp: alerted_def ap)
    ultimately show ?thesis by simp
  qed
qed

lemma run_alerts_outcomes:
  "length (filter (\<lambda>(row, r). same_claim i c row \<and> r = Inr True) (run_alerts ops d)) =
   length (filter (\<lambda>x. x) (stale.outcomes (i, c) ops d))"
  by (induction ops arbitrary: d) (auto simp: try_alert_def split: prod.splits)

section \<open>The promotion sweep\<close>

lemma promote_row_cases:
  "promote_row now throws n i d = (ok, d') \<Longrightarrow>
     d' = snd (promoteOnePendingHours now i (throws n) d) \<and>
     (ok \<longrightarrow> (\<exists>r. promoteOnePendingHours now i (throws n) d = (Inr r, d')))"
  by (auto simp: promote_row_def split: prod.splits sum.splits)

lemma promote_rows_done:
  assumes "rows_loop bu (promote_row now throws) ids started 0 d = (b, d')" "\<not> pb_full b" "pb_failedRows b = 0"
    and "distinct (map ph_id (pending d))"
  shows "(\<forall>i \<in> set ids. no_due now i d') \<and> (\<forall>i. no_due now i d \<longrightarrow> no_due now i d')"
proof -
  let ?Q = "\<lambda>i d'. map ph_id (pending d') = map ph_id (pending d) \<longrightarrow> no_due now i d'"
  have ids: "map ph_id (pending d2) = map ph_id (pending d1)" if "promote_row now throws n i d1 = (ok, d2)" for n i d1 ok d2
    using promote_row_cases[OF that] by simp
  have "(\<forall>i \<in> set ids. ?Q i d') \<and> (\<forall>i. ?Q i d \<longrightarrow> ?Q i d')"
  proof (rule rows_loop_done[OF assms(1-3)])
    fix n i d1 d2
    assume r: "promote_row now throws n i d1 = (True, d2)"
    show "?Q i d2"
      using promote_row_cases[OF r] promote_uses_up[of now i "throws n" d1 _ d2] ids[OF r] assms(4) by auto
  next
    fix n i j d1 ok d2
    assume r: "promote_row now throws n j d1 = (ok, d2)" and "?Q i d1"
    then show "?Q i d2" using promote_row_cases[OF r] promote_keeps(1)[of now i d1 now j "throws n"] ids[OF r] by auto
  qed
  moreover have "map ph_id (pending d') = map ph_id (pending d)"
    using rows_loop_keeps[OF assms(1), of "\<lambda>d'. map ph_id (pending d') = map ph_id (pending d)"] ids by auto
  ultimately show ?thesis by auto
qed

section \<open>Properties\<close>

text \<open>Promoting a staged change of opening hours either does nothing at all (it is not found, not pending, not
  yet effective, already claimed, or the transaction throws) or, for a pending change whose time has come, makes
  exactly the proposed rows the live rows of its branch, leaves every other branch's rows as they were, and marks
  that change alone as promoted.\<close>

theorem promotion_replaces_hours:
  assumes "promoteOnePendingHours now i throws d = (res, d')" "distinct (map ph_id (pending d))"
  shows "(res \<noteq> Inr True \<and> d' = d) \<or>
    (res = Inr True \<and> (\<exists>p \<in> set (pending d). ph_id p = i \<and> ph_status p = H_PENDING \<and> ph_effectiveAt p \<le> now \<and>
       filter (\<lambda>x. fst x = ph_branchId p) (live_hours d') =
         map (Pair (ph_branchId p)) (case ph_proposedHours p of None \<Rightarrow> [] | Some rows \<Rightarrow> rows) \<and>
       filter (\<lambda>x. fst x \<noteq> ph_branchId p) (live_hours d') = filter (\<lambda>x. fst x \<noteq> ph_branchId p) (live_hours d) \<and>
       pending d' = map (\<lambda>q. if q = p then q\<lparr>ph_status := H_PROMOTED, ph_promotedAt := Some now\<rparr> else q) (pending d)))"
proof -
  have "?thesis" if p: "find_pending i d = Some p" "is_due now p" and res: "res = Inr True" and
    d': "d' = replace_live (ph_branchId p) (case ph_proposedHours p of None \<Rightarrow> [] | Some rows \<Rightarrow> rows)
             (snd (claim_pending now i d))" for p
  proof -
    have in_p: "p \<in> set (pending d)" "ph_id p = i" using find_pending_in[OF p(1)] by simp_all
    have "q = p \<longleftrightarrow> ph_id q = i \<and> is_due now q" if "q \<in> set (pending d)" for q
      using that in_p p(2) assms(2) by (metis find_distinct option.inject)
    then have "pending d' = map (\<lambda>q. if q = p then q\<lparr>ph_status := H_PROMOTED, ph_promotedAt := Some now\<rparr> else q) (pending d)"
      by (simp add: d' claim_pending_def)
    moreover have "live_hours (snd (claim_pending now i d)) = live_hours d" by (simp add: claim_pending_def)
    then have "filter (\<lambda>x. fst x = ph_branchId p) (live_hours d') =
        map (Pair (ph_branchId p)) (case ph_proposedHours p of None \<Rightarrow> [] | Some rows \<Rightarrow> rows)"
      "filter (\<lambda>x. fst x \<noteq> ph_branchId p) (live_hours d') = filter (\<lambda>x. fst x \<noteq> ph_branchId p) (live_hours d)"
      by (simp_all add: d' replace_live_def case_prod_beta filter_empty_conv)
    ultimately show ?thesis using res in_p p(2) by (auto simp: is_due_def)
  qed
  then show ?thesis using promote_cases[OF assms] by blast
qed

definition sunday_row :: hours_row where
  "sunday_row = \<lparr>h_dayOfWeek = 0, h_openTime = Some ''10:00'', h_closeTime = Some ''16:00'', h_isClosed = False\<rparr>"

definition staged_db :: hours_db where
  "staged_db = \<lparr>pending =
     [\<lparr>ph_id = ''h1'', ph_branchId = ''b1'', ph_proposedHours = Some [sunday_row], ph_effectiveAt = 1000,
       ph_status = H_PENDING, ph_promotedAt = None\<rparr>],
     live_hours = [(''b1'', sunday_row\<lparr>h_openTime := Some ''09:00''\<rparr>), (''b2'', sunday_row)]\<rparr>"

theorem promotion_replaces_hours_witness:
  "(let (res, d') = promoteOnePendingHours 2000 ''h1'' False staged_db in
    res = Inr True \<and> live_hours d' = [(''b2'', sunday_row), (''b1'', sunday_row)]) \<and>
   (\<exists>d'. promoteOnePendingHours 2000 ''h1'' False staged_db = (Inr True, d') \<and>
      (\<exists>p \<in> set (pending staged_db). ph_id p = ''h1'' \<and>
         filter (\<lambda>x. fst x = ph_branchId p) (live_hours d') =
           map (Pair (ph_branchId p)) (case ph_proposedHours p of None \<Rightarrow> [] | Some rows \<Rightarrow> rows)))"
proof -
  have run: "promoteOnePendingHours 2000 ''h1'' False staged_db =
      (Inr True, \<lparr>pending = [\<lparr>ph_id = ''h1'', ph_branchId = ''b1'', ph_proposedHours = Some [sunday_row], ph_effectiveAt = 1000,
         ph_status = H_PROMOTED, ph_promotedAt = Some 2000\<rparr>], live_hours = [(''b2'', sunday_row), (''b1'', sunday_row)]\<rparr>)"
    by code_simp
  have "distinct (map ph_id (pending staged_db))" by code_simp
  from promotion_replaces_hours[OF run this] show ?thesis unfolding run by auto
qed

text \<open>However many workers try to promote the same staged change, at whatever times and in whatever order their
  transactions commit, at most one of them succeeds.\<close>

theorem promoted_at_most_once:
  assumes "distinct (map ph_id (pending d))"
  shows "length (filter ((=) (i, Inr True)) (run_promotions ops d)) \<le> 1"
  using staged.once[of d ops i] assms by (simp add: run_promotions_outcomes list_all_iff)

theorem promoted_at_most_once_witness:
  "run_promotions [(900, ''h1'', False), (1000, ''h1'', True), (1000, ''h1'', False), (1001, ''h1'', False)] staged_db =
     [(''h1'', Inr False), (''h1'', Inl (UNHANDLED RuntimeError)), (''h1'', Inr True), (''h1'', Inr False)] \<and>
   length (filter ((=) (''h1'', Inr True)) (run_promotions (replicate 9 (1000, ''h1'', False)) staged_db)) \<le> 1"
proof
  have "distinct (map ph_id (pending staged_db))" by code_simp
  then show "length (filter ((=) (''h1'', Inr True)) (run_promotions (replicate 9 (1000, ''h1'', False)) staged_db)) \<le> 1"
    by (rule promoted_at_most_once)
qed code_simp


definition steady :: budget where
  "steady = \<lparr>bu_maxItems = 50, bu_budgetMs = 10000, bu_clock = (\<lambda>i. int i * 10), bu_stopping = (\<lambda>_. False)\<rparr>"


text \<open>A claim on an approval raises at most one stale-claim alert: of all attempts, by any number of overlapping
  sweeps, to alert about the same approval claimed at the same time, at most one succeeds, whatever the interleaving.\<close>

theorem one_alert_per_claim:
  assumes "distinct (map ap_id (approvals d))" "list_all fair_alert ops"
  shows "length (filter (\<lambda>(row, r). same_claim i c row \<and> r = Inr True) (run_alerts ops d)) \<le> 1"
  using stale.once[of d ops "(i, c)"] assms by (simp add: run_alerts_outcomes)

definition stale_row :: stale_claim where
  "stale_row = \<lparr>sc_id = ''a1'', sc_claimedById = ''adm'', sc_claimedAt = 1000, sc_lastStaleAlertAt = None, sc_referenceId = ''v1''\<rparr>"

definition claimed_db :: approvals_db where
  "claimed_db = \<lparr>approvals = [\<lparr>ap_id = ''a1'', ap_type = VOUCHER, ap_status = A_PENDING, ap_referenceId = ''v1'', ap_comment = '''',
     ap_claimedById = Some ''adm'', ap_claimedAt = Some 1000, ap_adminUserId = None, ap_actionedAt = None,
     ap_lastStaleAlertAt = None\<rparr>], bells = []\<rparr>"

theorem one_alert_per_claim_witness:
  "claimStaleDbPhase 90000000 claimed_db = (False, [stale_row], claimed_db) \<and>
   map snd (run_alerts [(stale_row, 90000000, False), (stale_row, 90000000, False)] claimed_db) = [Inr True, Inr False] \<and>
   length (filter (\<lambda>(row, r). same_claim ''a1'' 1000 row \<and> r = Inr True)
     (run_alerts (replicate 5 (stale_row, 90000000, False)) claimed_db)) \<le> 1"
proof (intro conjI)
  have "distinct (map ap_id (approvals claimed_db))" "list_all fair_alert (replicate 5 (stale_row, 90000000, False))"
    by code_simp+
  then show "length (filter (\<lambda>(row, r). same_claim ''a1'' 1000 row \<and> r = Inr True)
     (run_alerts (replicate 5 (stale_row, 90000000, False)) claimed_db)) \<le> 1"
    by (rule one_alert_per_claim)
qed code_simp+

text \<open>The row loop of a sweep starts at most \<open>maxItems\<close> rows and never more than there are, counts at most the
  rows it started as failed, and reports itself as cut short whenever a row was left out.\<close>

theorem row_loop_within_budget:
  "case runBudgetedRows items bu row s of (b, s') \<Rightarrow>
     pb_startedRows b \<le> min (length items) (bu_maxItems bu) \<and> pb_failedRows b \<le> pb_startedRows b \<and>
     (pb_full b \<or> pb_startedRows b = length items)"
proof -
  obtain b s' where r: "rows_loop bu row items 0 0 s = (b, s')" by fastforce
  show ?thesis using rows_loop_bounds[OF r] by (auto simp: runBudgetedRows_def r)
qed

end
