(* ===== verification/Json.thy ===== *)
theory Json
  imports Prelude "HOL-Library.AList"
begin

text \<open>
  JSON values, as \<open>JSON.parse\<close> delivers them and as the \<open>Json\<close> columns hold them.

  An object is its members in insertion order; \<open>AList.update\<close> assigns a property (an existing one keeps its
  place) and \<open>AList.delete\<close> removes one. A number is a decimal \<open>m * 10 ^ -k\<close> or one that overflowed to infinity
  (\<open>1e999\<close>); doubles are taken to agree with the decimal they are written as.
\<close>

datatype json =
    JNull
  | JBool bool
  | JNum int nat       \<comment> \<open>mantissa and number of decimals\<close>
  | JInfinite bool     \<comment> \<open>whether positive\<close>
  | JStr string
  | JArr "json list"
  | JObj "(string \<times> json) list"

type_synonym bag = "(string \<times> json) list"

section \<open>Reading\<close>

fun members :: "json \<Rightarrow> bag option" where
  "members (JObj kvs) = Some kvs"
| "members _ = None"

text \<open>\<open>x ?? {}\<close> on a nullable object column.\<close>

definition as_bag :: "json \<Rightarrow> bag" where
  "as_bag j = (case members j of None \<Rightarrow> [] | Some kvs \<Rightarrow> kvs)"

fun is_string :: "json \<Rightarrow> bool" where
  "is_string (JStr s) = True"
| "is_string _ = False"

fun text_of :: "json \<Rightarrow> string" where
  "text_of (JStr s) = s"
| "text_of _ = ''''"

text \<open>A finite number strictly greater than zero.\<close>

fun positive_number :: "json \<Rightarrow> bool" where
  "positive_number (JNum m k) \<longleftrightarrow> 0 < m"
| "positive_number _ = False"

fun finite_number :: "json \<Rightarrow> (int \<times> nat) option" where
  "finite_number (JNum m k) = Some (m, k)"
| "finite_number _ = None"

text \<open>Comparison of decimals, on a common scale.\<close>

definition num_le :: "int \<times> nat \<Rightarrow> int \<times> nat \<Rightarrow> bool" where
  "num_le a b \<longleftrightarrow> fst a * 10 ^ snd b \<le> fst b * 10 ^ snd a"

text \<open>\<open>Math.round(v * 100)\<close>: halves go up. The value in pence, as \<open>Decimal(10,2)\<close> stores it.\<close>

definition to_pence :: "int \<times> nat \<Rightarrow> int" where
  "to_pence a = (200 * fst a + 10 ^ snd a) div (2 * 10 ^ snd a)"

definition of_pence :: "int \<Rightarrow> json" where
  "of_pence p = JNum p 2"

section \<open>Merging\<close>

text \<open>\<open>{ ...a, ...b }\<close>.\<close>

definition spread :: "bag \<Rightarrow> bag \<Rightarrow> bag" where
  "spread a b = fold (\<lambda>(k, v). AList.update k v) b a"

definition has_key :: "string \<Rightarrow> bag \<Rightarrow> bool" where
  "has_key k b \<longleftrightarrow> map_of b k \<noteq> None"

lemma map_of_spread: "map_of (spread a b) k = (case map_of (rev b) k of None \<Rightarrow> map_of a k | Some v \<Rightarrow> Some v)"
proof (induction b arbitrary: a)
  case (Cons x xs)
  then show ?case
    by (cases x) (auto simp: spread_def update_conv map_add_def split: option.splits)
qed (simp add: spread_def)

lemma map_of_spread_absent [simp]:
  assumes "\<not> has_key k b"
  shows "map_of (spread a b) k = map_of a k"
proof -
  have "map_of (rev b) k = None" using assms by (simp add: has_key_def map_of_eq_None_iff)
  then show ?thesis by (simp add: map_of_spread)
qed

lemma map_of_delete_other [simp]: "k \<noteq> k' \<Longrightarrow> map_of (AList.delete k b) k' = map_of b k'"
  by (simp add: delete_conv)

lemma map_of_delete_same [simp]: "map_of (AList.delete k b) k = None"
  by (simp add: delete_conv)

lemma map_of_update_json: "map_of (AList.update k v b) k' = (if k' = k then Some v else map_of b k')"
  by (simp add: update_conv)

lemma has_key_delete [simp]: "has_key k (AList.delete k' b) \<longleftrightarrow> k \<noteq> k' \<and> has_key k b"
  by (cases "k = k'") (auto simp: has_key_def)

section \<open>Serialised size\<close>

text \<open>\<open>JSON.stringify\<close>, for \<open>Buffer.byteLength\<close>. A string is its UTF-8 bytes. A decimal prints without trailing
  zeros; the exponent notation of very large and very small numbers is not produced.\<close>

fun digits :: "nat \<Rightarrow> string" where
  "digits n = (if n < 10 then [char_of (48 + n)] else digits (n div 10) @ [char_of (48 + n mod 10)])"

fun strip_zeros :: "int \<times> nat \<Rightarrow> int \<times> nat" where
  "strip_zeros (m, k) = (if 0 < k \<and> m mod 10 = 0 then strip_zeros (m div 10, k - 1) else (m, k))"

definition number_text :: "int \<times> nat \<Rightarrow> string" where
  "number_text a =
     (case strip_zeros a of (m, k) \<Rightarrow>
        let n = nat \<bar>m\<bar>; frac = digits (n mod 10 ^ k)
        in (if m < 0 then ''-'' else '''') @ digits (n div 10 ^ k) @
           (if k = 0 then '''' else ''.'' @ replicate (k - length frac) (CHR ''0'') @ frac))"

definition escape_char :: "char \<Rightarrow> string" where
  "escape_char c =
     (let n = of_char c :: nat in
      if c = CHR 0x22 \<or> c = CHR 0x5C then [CHR 0x5C, c]
      else if n = 8 then [CHR 0x5C, CHR ''b'']
      else if n = 9 then [CHR 0x5C, CHR ''t'']
      else if n = 10 then [CHR 0x5C, CHR ''n'']
      else if n = 12 then [CHR 0x5C, CHR ''f'']
      else if n = 13 then [CHR 0x5C, CHR ''r'']
      else if n < 32 then CHR 0x5C # ''u00'' @ [''0123456789abcdef'' ! (n div 16), ''0123456789abcdef'' ! (n mod 16)]
      else [c])"

definition quote_text :: "string \<Rightarrow> string" where
  "quote_text s = [CHR 0x22] @ concat (map escape_char s) @ [CHR 0x22]"

fun json_text :: "json \<Rightarrow> string"
  and items_text :: "json list \<Rightarrow> string"
  and members_text :: "(string \<times> json) list \<Rightarrow> string" where
  "json_text JNull = ''null''"
| "json_text (JBool b) = (if b then ''true'' else ''false'')"
| "json_text (JNum m k) = number_text (m, k)"
| "json_text (JInfinite p) = ''null''"
| "json_text (JStr s) = quote_text s"
| "json_text (JArr xs) = ''['' @ items_text xs @ '']''"
| "json_text (JObj kvs) = ''{'' @ members_text kvs @ ''}''"
| "items_text [] = ''''"
| "items_text [x] = json_text x"
| "items_text (x # y # xs) = json_text x @ '','' @ items_text (y # xs)"
| "members_text [] = ''''"
| "members_text [kv] = quote_text (fst kv) @ '':'' @ json_text (snd kv)"
| "members_text (kv # kv' # kvs) = quote_text (fst kv) @ '':'' @ json_text (snd kv) @ '','' @ members_text (kv' # kvs)"

end
