(* ===== verification/Submit.thy ===== *)
theory Submit
  imports Complex_Main Json Store
begin

text \<open>
  \<open>src/api/merchant/voucher/submitValidation.ts\<close>: which vouchers may be submitted for review. The message of a field
  error is left out; its field and code are kept.
\<close>

section \<open>Voucher types as the strings of the enum\<close>

fun type_name :: "voucher_type \<Rightarrow> string" where
  "type_name BOGO = ''BOGO''"
| "type_name SPEND_AND_SAVE = ''SPEND_AND_SAVE''"
| "type_name DISCOUNT_FIXED = ''DISCOUNT_FIXED''"
| "type_name DISCOUNT_PERCENT = ''DISCOUNT_PERCENT''"
| "type_name FREEBIE = ''FREEBIE''"
| "type_name PACKAGE_DEAL = ''PACKAGE_DEAL''"
| "type_name TIME_LIMITED = ''TIME_LIMITED''"
| "type_name REUSABLE = ''REUSABLE''"

definition MECHANIC_TYPES :: "voucher_type list" where
  "MECHANIC_TYPES = [BOGO, SPEND_AND_SAVE, DISCOUNT_FIXED, DISCOUNT_PERCENT, FREEBIE, PACKAGE_DEAL]"

definition WRAPPER_TYPES :: "voucher_type list" where
  "WRAPPER_TYPES = [TIME_LIMITED, REUSABLE]"

definition KNOWN_VOUCHER_TYPES :: "voucher_type list" where
  "KNOWN_VOUCHER_TYPES = MECHANIC_TYPES @ WRAPPER_TYPES"

definition known_type :: "string \<Rightarrow> voucher_type option" where
  "known_type s = List.find (\<lambda>t. type_name t = s) KNOWN_VOUCHER_TYPES"

definition REUSABLE_COOLDOWN_FLOOR_SECONDS :: int where "REUSABLE_COOLDOWN_FLOOR_SECONDS = 1800"

text \<open>\<open>SAVING_COLUMN_MAX = 100000000\<close>, in pence.\<close>

definition SAVING_COLUMN_MAX :: int where "SAVING_COLUMN_MAX = 100000000 * 100"

record effective_voucher =
  ev_type :: string
  ev_title :: json
  ev_estimatedSaving :: json
  ev_merchantFields :: json
  ev_windowCount :: nat
  ev_cooldownSeconds :: "int option"

section \<open>The bag\<close>

definition SUBMIT_CONTRACT_KEY :: string where "SUBMIT_CONTRACT_KEY = ''__submitContract''"
definition STRICT_SUBMIT_CONTRACT :: string where "STRICT_SUBMIT_CONTRACT = ''strict-v1''"

definition isStrictSubmitContract :: "json \<Rightarrow> bool" where
  "isStrictSubmitContract merchantFields \<longleftrightarrow>
     (case members merchantFields of
        None \<Rightarrow> False | Some kvs \<Rightarrow> map_of kvs SUBMIT_CONTRACT_KEY = Some (JStr STRICT_SUBMIT_CONTRACT))"

definition stampStrictSubmitContract :: "bag \<Rightarrow> bag" where
  "stampStrictSubmitContract b = AList.update SUBMIT_CONTRACT_KEY (JStr STRICT_SUBMIT_CONTRACT) b"

definition string_member :: "bag \<Rightarrow> string \<Rightarrow> string option" where
  "string_member b k = (case map_of b k of Some (JStr s) \<Rightarrow> Some s | _ \<Rightarrow> None)"

definition object_member :: "bag \<Rightarrow> string \<Rightarrow> bag option" where
  "object_member b k = (case map_of b k of Some (JObj kvs) \<Rightarrow> Some kvs | _ \<Rightarrow> None)"

definition custom_draft :: "bag \<Rightarrow> string \<Rightarrow> bag" where
  "custom_draft kvs builderType =
     (let draft = AList.update ''builderType'' (JStr builderType)
                    (case object_member kvs ''draftFields'' of None \<Rightarrow> [] | Some d \<Rightarrow> d)
      in case string_member kvs ''baseMechanic'' of
           None \<Rightarrow> draft | Some b \<Rightarrow> AList.update ''baseMechanic'' (JStr b) draft)"

definition resolveStructuredBag :: "json \<Rightarrow> bag option" where
  "resolveStructuredBag merchantFields =
     (case members merchantFields of
        None \<Rightarrow> None
      | Some kvs \<Rightarrow>
          (case object_member kvs ''merchantFields'' of
             Some nested \<Rightarrow>
               if string_member nested ''builderType'' \<noteq> None then Some nested
               else map_option (custom_draft kvs) (string_member kvs ''builderType'')
           | None \<Rightarrow> map_option (custom_draft kvs) (string_member kvs ''builderType'')))"

section \<open>The mechanic\<close>

definition from_discount_kind :: "bag option \<Rightarrow> voucher_type option" where
  "from_discount_kind draft =
     (case Option.bind draft (\<lambda>d. string_member d ''discountKind'') of
        None \<Rightarrow> None
      | Some k \<Rightarrow> if k = ''fixed'' then Some DISCOUNT_FIXED
                  else if k = ''percent'' then Some DISCOUNT_PERCENT else None)"

definition mechanicFromBuilderId :: "string option \<Rightarrow> voucher_type option \<Rightarrow> voucher_type option" where
  "mechanicFromBuilderId i fromDiscountKind =
     (if i = Some ''bogo'' then Some BOGO
      else if i = Some ''spend'' then Some SPEND_AND_SAVE
      else if i = Some ''freebie'' then Some FREEBIE
      else if i = Some ''package'' then Some PACKAGE_DEAL
      else if i = Some ''discount'' then Some (case fromDiscountKind of None \<Rightarrow> DISCOUNT_PERCENT | Some t \<Rightarrow> t)
      else None)"

definition resolveMechanicType :: "string \<Rightarrow> bag option \<Rightarrow> voucher_type option" where
  "resolveMechanicType topLevelType draft =
     (let member = (\<lambda>k. Option.bind draft (\<lambda>d. string_member d k)) in
      case known_type topLevelType of
        None \<Rightarrow> None
      | Some t \<Rightarrow>
          if t = DISCOUNT_FIXED \<or> t = DISCOUNT_PERCENT
          then Some (case from_discount_kind draft of None \<Rightarrow> t | Some t' \<Rightarrow> t')
          else if t \<in> set MECHANIC_TYPES then Some t
          else (case mechanicFromBuilderId (member ''baseMechanic'') (from_discount_kind draft) of
                  Some t' \<Rightarrow> Some t'
                | None \<Rightarrow> mechanicFromBuilderId (member ''builderType'') (from_discount_kind draft)))"

section \<open>Field validators\<close>

definition requireText :: "bag \<Rightarrow> string \<Rightarrow> field_error list" where
  "requireText draft field =
     (case string_member draft field of
        None \<Rightarrow> [(field, REQUIRED)]
      | Some s \<Rightarrow> if js_trim s = '''' then [(field, REQUIRED)] else [])"

definition requirePositiveNumber :: "bag \<Rightarrow> string \<Rightarrow> int option \<Rightarrow> field_error list" where
  "requirePositiveNumber draft field maxInclusive =
     (case map_of draft field of
        None \<Rightarrow> [(field, REQUIRED)]
      | Some v \<Rightarrow>
          if v = JNull then [(field, REQUIRED)]
          else (case finite_number v of
                  None \<Rightarrow> [(field, INVALID)]
                | Some a \<Rightarrow>
                    if fst a \<le> 0 then [(field, INVALID)]
                    else (case maxInclusive of
                            None \<Rightarrow> []
                          | Some m \<Rightarrow> if num_le a (m, 0) then [] else [(field, INVALID)])))"

definition numOrUndef :: "bag \<Rightarrow> string \<Rightarrow> (int \<times> nat) option" where
  "numOrUndef draft field = Option.bind (map_of draft field) finite_number"

definition have_positive :: "bag \<Rightarrow> string \<Rightarrow> bool" where
  "have_positive draft field = (case numOrUndef draft field of None \<Rightarrow> False | Some a \<Rightarrow> 0 < fst a)"

text \<open>\<open>low\<close> is at least \<open>high\<close>, both positive: a contradiction reported at \<open>field\<close>.\<close>

definition contradiction :: "bag \<Rightarrow> string \<Rightarrow> string \<Rightarrow> string \<Rightarrow> field_error list" where
  "contradiction draft field low high =
     (case (numOrUndef draft low, numOrUndef draft high) of
        (Some l, Some h) \<Rightarrow> if 0 < fst l \<and> 0 < fst h \<and> num_le h l then [(field, INCONSISTENT)] else []
      | _ \<Rightarrow> [])"

fun validateMechanic :: "voucher_type \<Rightarrow> bag \<Rightarrow> field_error list" where
  "validateMechanic BOGO draft =
     requireText draft ''bogoBuy'' @ requireText draft ''bogoFree'' @
     requirePositiveNumber draft ''bogoFreePrice'' None"
| "validateMechanic SPEND_AND_SAVE draft =
     requirePositiveNumber draft ''spendAmount'' None @ requirePositiveNumber draft ''spendSave'' None @
     contradiction draft ''spendSave'' ''spendSave'' ''spendAmount''"
| "validateMechanic DISCOUNT_FIXED draft = requirePositiveNumber draft ''discAmount'' None"
| "validateMechanic DISCOUNT_PERCENT draft =
     requirePositiveNumber draft ''discPercent'' (Some 100) @
     (if \<not> have_positive draft ''discMin'' \<and> \<not> have_positive draft ''discTypicalOrder''
      then [(''discTypicalOrder'', REQUIRED)] else [])"
| "validateMechanic FREEBIE draft =
     requireText draft ''freeItem'' @ requirePositiveNumber draft ''freeWorth'' None @
     (if map_of draft ''freeNeedsPurchase'' = Some (JBool True) then requireText draft ''freeQualify'' else [])"
| "validateMechanic PACKAGE_DEAL draft =
     requireText draft ''packageItems'' @ requirePositiveNumber draft ''packagePrice'' None @
     requirePositiveNumber draft ''packageNormal'' None @
     contradiction draft ''packagePrice'' ''packagePrice'' ''packageNormal''"
| "validateMechanic _ draft = []"

section \<open>The validator\<close>

definition title_errors :: "json \<Rightarrow> field_error list" where
  "title_errors v = (if \<not> is_string v \<or> js_trim (text_of v) = '''' then [(''title'', REQUIRED)] else [])"

definition saving_errors :: "json \<Rightarrow> field_error list" where
  "saving_errors v =
     (if v = JNull then [(''estimatedSaving'', REQUIRED)]
      else (case finite_number v of
              None \<Rightarrow> [(''estimatedSaving'', INVALID)]
            | Some a \<Rightarrow> if fst a \<le> 0 \<or> SAVING_COLUMN_MAX \<le> to_pence a then [(''estimatedSaving'', INVALID)] else []))"

definition cooldown_errors :: "string \<Rightarrow> int option \<Rightarrow> field_error list" where
  "cooldown_errors t cd =
     (if t = ''REUSABLE'' then
        (case cd of
           None \<Rightarrow> [(''cooldownSeconds'', REQUIRED)]
         | Some c \<Rightarrow> if c < REUSABLE_COOLDOWN_FLOOR_SECONDS then [(''cooldownSeconds'', INVALID)] else [])
      else [])"

definition mechanic_errors :: "string \<Rightarrow> json \<Rightarrow> field_error list" where
  "mechanic_errors t merchantFields =
     (let draft = resolveStructuredBag merchantFields; strict = isStrictSubmitContract merchantFields in
      if strict \<or> draft \<noteq> None then
        (case resolveMechanicType t draft of
           Some m \<Rightarrow> validateMechanic m (case draft of None \<Rightarrow> [] | Some d \<Rightarrow> d)
         | None \<Rightarrow> if t \<in> set (map type_name WRAPPER_TYPES) then [(''baseMechanic'', REQUIRED)] else [])
      else [])"

definition assertVoucherSubmittable :: "effective_voucher \<Rightarrow> unit result" where
  "assertVoucherSubmittable v =
     (let fields = title_errors (ev_title v) @
            (if known_type (ev_type v) = None then [(''type'', INVALID)] else []) @
            saving_errors (ev_estimatedSaving v) @ cooldown_errors (ev_type v) (ev_cooldownSeconds v) @
            mechanic_errors (ev_type v) (ev_merchantFields v)
      in if fields \<noteq> [] then throw (VOUCHER_INCOMPLETE fields) else returns ())"

section \<open>What a complete offer is\<close>

text \<open>The same requirements over the rational values of the numbers, stated without error lists.\<close>

definition num_value :: "int \<times> nat \<Rightarrow> rat" where
  "num_value a = of_int (fst a) / 10 ^ snd a"

definition value_of :: "bag \<Rightarrow> string \<Rightarrow> rat option" where
  "value_of draft field = map_option num_value (numOrUndef draft field)"

definition has_text :: "bag \<Rightarrow> string \<Rightarrow> bool" where
  "has_text draft field \<longleftrightarrow> (\<exists>s. string_member draft field = Some s \<and> js_trim s \<noteq> '''')"

definition has_positive :: "bag \<Rightarrow> string \<Rightarrow> bool" where
  "has_positive draft field \<longleftrightarrow> (\<exists>x. value_of draft field = Some x \<and> 0 < x)"

definition positive_below :: "bag \<Rightarrow> string \<Rightarrow> string \<Rightarrow> bool" where
  "positive_below draft low high \<longleftrightarrow>
     (\<exists>l h. value_of draft low = Some l \<and> value_of draft high = Some h \<and> 0 < l \<and> l < h)"

fun complete_offer :: "voucher_type \<Rightarrow> bag \<Rightarrow> bool" where
  "complete_offer BOGO d \<longleftrightarrow> has_text d ''bogoBuy'' \<and> has_text d ''bogoFree'' \<and> has_positive d ''bogoFreePrice''"
| "complete_offer SPEND_AND_SAVE d \<longleftrightarrow> positive_below d ''spendSave'' ''spendAmount''"
| "complete_offer DISCOUNT_FIXED d \<longleftrightarrow> has_positive d ''discAmount''"
| "complete_offer DISCOUNT_PERCENT d \<longleftrightarrow>
     (\<exists>x. value_of d ''discPercent'' = Some x \<and> 0 < x \<and> x \<le> 100) \<and>
     (has_positive d ''discMin'' \<or> has_positive d ''discTypicalOrder'')"
| "complete_offer FREEBIE d \<longleftrightarrow> has_text d ''freeItem'' \<and> has_positive d ''freeWorth'' \<and>
     (map_of d ''freeNeedsPurchase'' \<noteq> Some (JBool True) \<or> has_text d ''freeQualify'')"
| "complete_offer PACKAGE_DEAL d \<longleftrightarrow> has_text d ''packageItems'' \<and> positive_below d ''packagePrice'' ''packageNormal''"
| "complete_offer TIME_LIMITED d \<longleftrightarrow> False"
| "complete_offer REUSABLE d \<longleftrightarrow> False"

text \<open>A saving in pounds that the column holds once it is rounded to pence.\<close>

definition sane_saving :: "json \<Rightarrow> bool" where
  "sane_saving v \<longleftrightarrow>
     (\<exists>a. finite_number v = Some a \<and> 0 < num_value a \<and> num_value a < 100000000 - 1 / 200)"

definition complete_voucher :: "effective_voucher \<Rightarrow> bool" where
  "complete_voucher v \<longleftrightarrow>
     (\<exists>s. ev_title v = JStr s \<and> js_trim s \<noteq> '''') \<and>
     (\<exists>t. ev_type v = type_name t \<and> (t = REUSABLE \<longrightarrow> (\<exists>c \<ge> 1800. ev_cooldownSeconds v = Some c))) \<and>
     sane_saving (ev_estimatedSaving v) \<and>
     (let draft = resolveStructuredBag (ev_merchantFields v) in
      isStrictSubmitContract (ev_merchantFields v) \<or> draft \<noteq> None \<longrightarrow>
        (\<exists>m. resolveMechanicType (ev_type v) draft = Some m \<and> complete_offer m (case draft of None \<Rightarrow> [] | Some d \<Rightarrow> d)))"

section \<open>Lemmas\<close>

lemma num_value_pos [simp]: "0 < num_value a \<longleftrightarrow> 0 < fst a"
  by (simp add: num_value_def zero_less_divide_iff)

lemma num_value_nonpos [simp]: "num_value a \<le> 0 \<longleftrightarrow> fst a \<le> 0"
  by (simp add: not_less [symmetric])

lemma num_value_less_pos: "num_value a < num_value b \<Longrightarrow> 0 < fst a \<Longrightarrow> 0 < fst b"
  by (metis num_value_pos order.strict_trans)

lemma num_le_value: "num_le a b \<longleftrightarrow> num_value a \<le> num_value b"
proof -
  have "num_value a \<le> num_value b \<longleftrightarrow> (of_int (fst a * 10 ^ snd b) :: rat) \<le> of_int (fst b * 10 ^ snd a)"
    by (simp add: num_value_def divide_simps)
  then show ?thesis by (simp only: num_le_def of_int_le_iff)
qed

lemma div_less_mult: "0 < (y :: int) \<Longrightarrow> x div y < q \<longleftrightarrow> x < q * y"
proof
  assume y: "0 < y" and q: "x div y < q"
  then have "(x div y + 1) * y \<le> q * y" by (intro mult_right_mono) auto
  moreover have "(x div y + 1) * y = x div y * y + y" by (simp add: algebra_simps)
  moreover have "x = x div y * y + x mod y" by (rule div_mult_mod_eq [symmetric])
  moreover have "x mod y < y" using y by simp
  ultimately show "x < q * y" by linarith
next
  assume y: "0 < y" and x: "x < q * y"
  show "x div y < q"
  proof (rule ccontr)
    assume "\<not> x div y < q"
    then have "q * y \<le> x div y * y" using y by (intro mult_right_mono) auto
    also have "\<dots> \<le> x" using y by (simp add: minus_mod_eq_div_mult [symmetric])
    finally show False using x by simp
  qed
qed

lemma to_pence_small: "to_pence a < SAVING_COLUMN_MAX \<longleftrightarrow> num_value a < 100000000 - 1 / 200"
proof -
  define t :: int where "t = 10 ^ snd a"
  have t: "0 < t" by (simp add: t_def)
  have "to_pence a < SAVING_COLUMN_MAX \<longleftrightarrow> 200 * fst a + t < SAVING_COLUMN_MAX * (2 * t)"
    using t div_less_mult[of "2 * t" "200 * fst a + t" SAVING_COLUMN_MAX] by (simp add: to_pence_def t_def)
  also have "\<dots> \<longleftrightarrow> 200 * fst a < 19999999999 * t" by (simp add: SAVING_COLUMN_MAX_def)
  also have "\<dots> \<longleftrightarrow> (of_int (200 * fst a) :: rat) < of_int (19999999999 * t)" by (simp only: of_int_less_iff)
  also have "\<dots> \<longleftrightarrow> num_value a < 100000000 - 1 / 200" using t by (simp add: num_value_def t_def divide_simps mult.commute)
  finally show ?thesis .
qed

lemma known_type_name [simp]: "known_type (type_name t) = Some t"
  by (cases t) (simp_all add: known_type_def KNOWN_VOUCHER_TYPES_def MECHANIC_TYPES_def WRAPPER_TYPES_def)

lemma known_type_Some: "known_type s = Some t \<longleftrightarrow> s = type_name t"
  by (auto simp: known_type_def dest: find_Some_in) (simp flip: known_type_def)

lemma requireText_ok: "requireText d f = [] \<longleftrightarrow> has_text d f"
  by (auto simp: requireText_def has_text_def split: option.splits)

lemma requirePositive_ok:
  "requirePositiveNumber d f None = [] \<longleftrightarrow> has_positive d f"
  "requirePositiveNumber d f (Some m) = [] \<longleftrightarrow> (\<exists>x. value_of d f = Some x \<and> 0 < x \<and> x \<le> of_int m)"
proof -
  have "num_value (m, 0) = of_int m" by (simp add: num_value_def)
  then show "requirePositiveNumber d f None = [] \<longleftrightarrow> has_positive d f"
    "requirePositiveNumber d f (Some m) = [] \<longleftrightarrow> (\<exists>x. value_of d f = Some x \<and> 0 < x \<and> x \<le> of_int m)"
    by (auto simp: requirePositiveNumber_def has_positive_def value_of_def numOrUndef_def num_le_value not_le
        split: option.splits if_splits)
qed

lemma have_positive_iff: "have_positive d f \<longleftrightarrow> has_positive d f"
  by (auto simp: have_positive_def has_positive_def value_of_def split: option.splits)

lemma below_ok:
  "requirePositiveNumber d low None = [] \<and> requirePositiveNumber d high None = [] \<and> contradiction d f low high = []
     \<longleftrightarrow> positive_below d low high"
  by (auto simp: requirePositive_ok has_positive_def contradiction_def positive_below_def value_of_def num_le_value
      not_le dest: num_value_less_pos split: option.splits)

lemma validateMechanic_ok: "t \<in> set MECHANIC_TYPES \<Longrightarrow> validateMechanic t d = [] \<longleftrightarrow> complete_offer t d"
  using below_ok[of d "''spendSave''" "''spendAmount''" "''spendSave''"] below_ok[of d "''packagePrice''" "''packageNormal''" "''packagePrice''"]
  by (cases t) (auto simp: MECHANIC_TYPES_def requireText_ok requirePositive_ok have_positive_iff)

lemma title_ok: "title_errors v = [] \<longleftrightarrow> (\<exists>s. v = JStr s \<and> js_trim s \<noteq> '''')"
  by (cases v) (auto simp: title_errors_def)

lemma saving_ok: "saving_errors v = [] \<longleftrightarrow> sane_saving v"
  by (cases v) (auto simp: saving_errors_def sane_saving_def to_pence_small not_less [symmetric])

lemma cooldown_ok:
  "cooldown_errors (type_name t) cd = [] \<longleftrightarrow> (t = REUSABLE \<longrightarrow> (\<exists>c \<ge> 1800. cd = Some c))"
  by (cases t) (auto simp: cooldown_errors_def REUSABLE_COOLDOWN_FLOOR_SECONDS_def not_less split: option.splits)

lemma mechanic_from_builder: "mechanicFromBuilderId i (from_discount_kind d) = Some m \<Longrightarrow> m \<in> set MECHANIC_TYPES"
  by (auto simp: mechanicFromBuilderId_def from_discount_kind_def MECHANIC_TYPES_def
      split: if_splits option.splits)

lemma discount_mechanic: "from_discount_kind d = Some t \<Longrightarrow> t \<in> set MECHANIC_TYPES"
  by (auto simp: from_discount_kind_def MECHANIC_TYPES_def split: if_splits option.splits)

lemma discounts [simp]: "DISCOUNT_FIXED \<in> set MECHANIC_TYPES" "DISCOUNT_PERCENT \<in> set MECHANIC_TYPES"
  by (simp_all add: MECHANIC_TYPES_def)

lemma resolveMechanicType_mechanic: "resolveMechanicType t d = Some m \<Longrightarrow> m \<in> set MECHANIC_TYPES"
  by (auto simp: resolveMechanicType_def Let_def dest: mechanic_from_builder discount_mechanic
      split: if_splits option.splits)

lemma resolveMechanicType_None:
  assumes "resolveMechanicType (type_name t) d = None"
  shows "t \<in> set WRAPPER_TYPES"
proof -
  have "t \<notin> set MECHANIC_TYPES" using assms by (auto simp: resolveMechanicType_def Let_def split: if_splits)
  then show ?thesis by (cases t) (simp_all add: MECHANIC_TYPES_def WRAPPER_TYPES_def)
qed

lemma mechanic_ok:
  "mechanic_errors (type_name t) mf = [] \<longleftrightarrow>
     (let draft = resolveStructuredBag mf in
      isStrictSubmitContract mf \<or> draft \<noteq> None \<longrightarrow>
        (\<exists>m. resolveMechanicType (type_name t) draft = Some m \<and>
             complete_offer m (case draft of None \<Rightarrow> [] | Some d \<Rightarrow> d)))"
proof (cases "resolveMechanicType (type_name t) (resolveStructuredBag mf)")
  case None
  then have "t \<in> set WRAPPER_TYPES" by (rule resolveMechanicType_None)
  then show ?thesis using None by (simp add: mechanic_errors_def Let_def)
next
  case (Some m)
  then have "m \<in> set MECHANIC_TYPES" by (rule resolveMechanicType_mechanic)
  then show ?thesis using Some by (auto simp: mechanic_errors_def Let_def validateMechanic_ok)
qed

lemma submittable_iff: "assertVoucherSubmittable v = Inr () \<longleftrightarrow> complete_voucher v"
proof (cases "known_type (ev_type v)")
  case None
  then have "ev_type v \<noteq> type_name t" for t by (metis known_type_name option.distinct(1))
  then show ?thesis using None by (simp add: assertVoucherSubmittable_def complete_voucher_def Let_def)
next
  case (Some t)
  then have t: "ev_type v = type_name t" by (simp add: known_type_Some)
  have eq: "type_name t = type_name t' \<longleftrightarrow> t' = t" for t' by (metis known_type_name option.inject)
  show ?thesis
    by (auto simp: assertVoucherSubmittable_def complete_voucher_def Let_def t eq title_ok saving_ok cooldown_ok
        mechanic_ok)
qed

section \<open>Properties\<close>

text \<open>C17: The submission gate accepts exactly the complete vouchers: a title that is not blank, a known type, a positive
  saving that fits its column once rounded to pence, a cooldown of at least half an hour for a reusable voucher, and,
  when the voucher carries the server's contract marker or a structured draft, every field its mechanic needs with its
  numbers positive and consistent (the save below the spend, the package below the items, a percentage of at most 100).\<close>

theorem submittable_exact: "assertVoucherSubmittable v = Inr () \<longleftrightarrow> complete_voucher v"
  by (rule submittable_iff)

lemma complete_offer_empty: "\<not> complete_offer m []"
  by (cases m) (auto simp: has_text_def string_member_def has_positive_def positive_below_def value_of_def numOrUndef_def)

text \<open>A voucher born under the server's contract cannot be submitted with an opaque bag: whatever else the row
  holds, without a structured draft the gate refuses it and names at least one field.\<close>

theorem opaque_bag_fails_closed:
  assumes "isStrictSubmitContract (ev_merchantFields v)" "resolveStructuredBag (ev_merchantFields v) = None"
  shows "\<exists>fields. fields \<noteq> [] \<and> assertVoucherSubmittable v = Inl (VOUCHER_INCOMPLETE fields)"
proof -
  have "\<not> complete_voucher v" using assms by (auto simp: complete_voucher_def complete_offer_empty)
  then have "assertVoucherSubmittable v \<noteq> Inr ()" by (simp add: submittable_iff)
  then show ?thesis by (auto simp: assertVoucherSubmittable_def Let_def split: if_splits)
qed

definition bare_flagship :: effective_voucher where
  "bare_flagship = \<lparr>ev_type = ''BOGO'', ev_title = JStr ''Two for one'', ev_estimatedSaving = JNum 1250 2,
     ev_merchantFields = JObj (stampStrictSubmitContract []), ev_windowCount = 0, ev_cooldownSeconds = None\<rparr>"

theorem opaque_bag_fails_closed_witness:
  "assertVoucherSubmittable bare_flagship =
     Inl (VOUCHER_INCOMPLETE [(''bogoBuy'', REQUIRED), (''bogoFree'', REQUIRED), (''bogoFreePrice'', REQUIRED)]) \<and>
   (\<exists>fields. fields \<noteq> [] \<and> assertVoucherSubmittable bare_flagship = Inl (VOUCHER_INCOMPLETE fields))"
proof
  have "isStrictSubmitContract (ev_merchantFields bare_flagship)"
    "resolveStructuredBag (ev_merchantFields bare_flagship) = None"
    by code_simp+
  then show "\<exists>fields. fields \<noteq> [] \<and> assertVoucherSubmittable bare_flagship = Inl (VOUCHER_INCOMPLETE fields)"
    by (rule opaque_bag_fails_closed)
qed code_simp

end
