(* ===== verification/Catalogue.thy ===== *)
theory Catalogue
  imports Submit Membership
begin

text \<open>
  The custom-voucher half of \<open>src/api/merchant/voucher/service.ts\<close> and the request schema of
  \<open>src/api/merchant/voucher/routes.ts\<close>, over the rows of the voucher lifecycle.

  A handler either throws, and then nothing it did remains, or commits: it is a function to \<open>catalogue result\<close>. Where
  the source reads outside the transaction that writes, the handler is the composition of a \<open>_check\<close> on the
  state it reads and a \<open>_commit\<close> on the state it writes, so that the two can be separated. Identifiers, voucher codes and
  clock readings are arguments. The row a handler returns is the one it leaves in the state.
\<close>

section \<open>Rows\<close>

record life_voucher = voucher +
  lv_id :: ident
  lv_code :: string
  lv_isRmv :: bool
  lv_isMandatory :: bool
  lv_rmvTemplateId :: "ident option"
  lv_description :: "string option"
  lv_terms :: "string option"
  lv_imageUrl :: "string option"
  lv_publishedAt :: "time option"
  lv_merchantFields :: json
  lv_approvedBy :: "ident option"
  lv_approvedAt :: "time option"

text \<open>The columns of \<open>Merchant\<close> that only the review reads; the others are in \<open>merchants\<close> of the store.\<close>

record review_merchant =
  rm_onboardingStep :: string
  rm_verificationStatus :: string
  rm_contractStatus :: string
  rm_isTestData :: bool
  rm_primaryCategoryId :: "ident option"

record rmv_template =
  tp_id :: ident
  tp_categoryId :: ident
  tp_voucherType :: voucher_type
  tp_title :: string
  tp_description :: string
  tp_minimumSaving :: int
  tp_allowedFields :: json
  tp_isActive :: bool

datatype edit_kind = CHANGE | END

record voucher_edit =
  ve_id :: ident
  ve_voucherId :: ident
  ve_merchantId :: ident
  ve_kind :: edit_kind
  ve_proposedChanges :: bag
  ve_reason :: string
  ve_status :: approval_status
  ve_reviewedBy :: "ident option"

record review_branch =
  rb_merchantId :: ident
  rb_isMainBranch :: bool
  rb_isActive :: bool
  rb_isDeleted :: bool   \<comment> \<open>\<open>deletedAt\<close> is set\<close>
  rb_locationConfidence :: string

record catalogue =
  c_db :: db
  c_merchants :: "ident \<rightharpoonup> review_merchant"
  c_vouchers :: "life_voucher list"
  c_templates :: "rmv_template list"
  c_categories :: "ident \<rightharpoonup> ident option"
  c_approvals :: "approval list"
  c_edits :: "voucher_edit list"
  c_branches :: "review_branch list"
  c_editTargets :: "ident \<rightharpoonup> ident"   \<comment> \<open>the merchant or branch a staged identity edit is about\<close>
  c_audit :: "(ident \<times> string \<times> ident) list"   \<comment> \<open>entity, event, actor\<close>

section \<open>Errors in sequence\<close>

fun andThen :: "'a result \<Rightarrow> ('a \<Rightarrow> 'b result) \<Rightarrow> 'b result" where
  "andThen (Inl e) f = throw e"
| "andThen (Inr x) f = f x"

definition guard :: "bool \<Rightarrow> app_error \<Rightarrow> unit result" where
  "guard ok e = (if ok then returns () else throw e)"

definition found :: "app_error \<Rightarrow> 'a option \<Rightarrow> 'a result" where
  "found e x = (case x of None \<Rightarrow> throw e | Some y \<Rightarrow> returns y)"

lemma andThen_Inr [simp]: "andThen r f = Inr y \<longleftrightarrow> (\<exists>x. r = Inr x \<and> f x = Inr y)"
  by (cases r) auto

lemma guard_Inr [simp]: "guard ok e = Inr u \<longleftrightarrow> ok"
  by (simp add: guard_def)

lemma found_Inr [simp]: "found e x = Inr y \<longleftrightarrow> x = Some y"
  by (simp add: found_def split: option.splits)

section \<open>Access to the rows\<close>

definition voucher_by_id :: "catalogue \<Rightarrow> ident \<Rightarrow> life_voucher option" where
  "voucher_by_id s i = List.find (\<lambda>v. lv_id v = i) (c_vouchers s)"

text \<open>\<open>findFirst({ where: { id, merchantId, isRmv } })\<close>.\<close>

definition own_voucher :: "catalogue \<Rightarrow> ident \<Rightarrow> ident \<Rightarrow> bool \<Rightarrow> life_voucher option" where
  "own_voucher s i merchantId isRmv =
     List.find (\<lambda>v. lv_id v = i \<and> v_merchantId v = merchantId \<and> lv_isRmv v = isRmv) (c_vouchers s)"

text \<open>The \<open>CHECK\<close> constraints on \<open>cooldownSeconds\<close>; a write that violates one fails as a plain database error.\<close>

definition cooldown_check :: "life_voucher \<Rightarrow> bool" where
  "cooldown_check v \<longleftrightarrow>
     (case v_cooldownSeconds v of None \<Rightarrow> True | Some c \<Rightarrow> 1800 \<le> c \<and> v_type v = REUSABLE)"

definition insert_voucher :: "life_voucher \<Rightarrow> catalogue \<Rightarrow> catalogue result" where
  "insert_voucher row s =
     (if list_ex (\<lambda>v. lv_id v = lv_id row \<or> lv_code v = lv_code row) (c_vouchers s) then throw (UNHANDLED P2002)
      else if \<not> cooldown_check row then throw (UNHANDLED RuntimeError)
      else returns (s\<lparr>c_vouchers := c_vouchers s @ [row]\<rparr>))"

text \<open>\<open>update({ where: { id } })\<close>: an absent row fails.\<close>

definition update_voucher_row :: "ident \<Rightarrow> (life_voucher \<Rightarrow> life_voucher) \<Rightarrow> catalogue \<Rightarrow> catalogue result" where
  "update_voucher_row i f s =
     (case voucher_by_id s i of
        None \<Rightarrow> throw (UNHANDLED RuntimeError)
      | Some v \<Rightarrow>
          if \<not> cooldown_check (f v) then throw (UNHANDLED RuntimeError)
          else returns (s\<lparr>c_vouchers := map (\<lambda>v. if lv_id v = i then f v else v) (c_vouchers s)\<rparr>))"

definition update_vouchers :: "(life_voucher \<Rightarrow> bool) \<Rightarrow> (life_voucher \<Rightarrow> life_voucher) \<Rightarrow> catalogue \<Rightarrow> catalogue" where
  "update_vouchers P f s = s\<lparr>c_vouchers := map (\<lambda>v. if P v then f v else v) (c_vouchers s)\<rparr>"

definition approval_by_id :: "catalogue \<Rightarrow> ident \<Rightarrow> approval option" where
  "approval_by_id s i = List.find (\<lambda>a. ap_id a = i) (c_approvals s)"

definition update_approval :: "ident \<Rightarrow> (approval \<Rightarrow> approval) \<Rightarrow> catalogue \<Rightarrow> catalogue" where
  "update_approval i f s = s\<lparr>c_approvals := map (\<lambda>a. if ap_id a = i then f a else a) (c_approvals s)\<rparr>"

definition unclaim :: "approval \<Rightarrow> approval" where
  "unclaim a = a\<lparr>ap_claimedById := None, ap_claimedAt := None\<rparr>"

definition new_approval :: "ident \<Rightarrow> approval_type \<Rightarrow> ident \<Rightarrow> string \<Rightarrow> approval" where
  "new_approval aid ty ref comment =
     \<lparr>ap_id = aid, ap_type = ty, ap_status = A_PENDING, ap_referenceId = ref, ap_comment = comment,
      ap_claimedById = None, ap_claimedAt = None, ap_adminUserId = None, ap_actionedAt = None,
      ap_lastStaleAlertAt = None\<rparr>"

definition insert_approval :: "approval \<Rightarrow> catalogue \<Rightarrow> catalogue result" where
  "insert_approval row s =
     (if list_ex (\<lambda>a. ap_id a = ap_id row) (c_approvals s) then throw (UNHANDLED P2002)
      else returns (s\<lparr>c_approvals := c_approvals s @ [row]\<rparr>))"

definition audit_event :: "ident \<Rightarrow> string \<Rightarrow> ident \<Rightarrow> catalogue \<Rightarrow> catalogue" where
  "audit_event entityId event actorId s = s\<lparr>c_audit := c_audit s @ [(entityId, event, actorId)]\<rparr>"

text \<open>The capability every voucher write needs: \<open>resolveMerchantContext\<close>, then \<open>assertCanManageVouchers\<close>.\<close>

definition voucher_writer :: "catalogue \<Rightarrow> ident \<Rightarrow> ident result" where
  "voucher_writer s adminId =
     andThen (resolveMerchantContext (c_db s) adminId) (\<lambda>mctx.
     andThen (assertCanManageVouchers mctx) (\<lambda>_. returns (mc_merchantId mctx)))"

section \<open>The bag a caller may write\<close>

definition stripAdminOwnedKeys :: "bag \<Rightarrow> bag" where
  "stripAdminOwnedKeys b = AList.delete ''adminNote'' (AList.delete ''adminProposed'' b)"

definition stripCallerOwnedKeys :: "bag \<Rightarrow> bag" where
  "stripCallerOwnedKeys b = AList.delete SUBMIT_CONTRACT_KEY (stripAdminOwnedKeys b)"

definition stripSubmitContractKey :: "bag \<Rightarrow> bag" where
  "stripSubmitContractKey b = AList.delete SUBMIT_CONTRACT_KEY b"

definition MERCHANT_FIELDS_MAX_BYTES :: nat where "MERCHANT_FIELDS_MAX_BYTES = 16 * 1024"
definition MERCHANT_FIELDS_MAX_TOP_LEVEL_KEYS :: nat where "MERCHANT_FIELDS_MAX_TOP_LEVEL_KEYS = 50"

definition assertMerchantFieldsWithinLimit :: "bag \<Rightarrow> unit result" where
  "assertMerchantFieldsWithinLimit b =
     (if MERCHANT_FIELDS_MAX_TOP_LEVEL_KEYS < length b then throw (CATALOGUE MERCHANT_FIELDS_TOO_LARGE)
      else if MERCHANT_FIELDS_MAX_BYTES < length (json_text (JObj b)) then throw (CATALOGUE MERCHANT_FIELDS_TOO_LARGE)
      else returns ())"

section \<open>Savings\<close>

definition assertSavingSane :: "json \<Rightarrow> unit result" where
  "assertSavingSane v = guard (positive_number v) (CATALOGUE SAVING_INVALID)"

definition pence_of :: "json \<Rightarrow> int" where
  "pence_of v = (case finite_number v of None \<Rightarrow> 0 | Some a \<Rightarrow> to_pence a)"

definition assertSavingFitsColumn :: "json \<Rightarrow> unit result" where
  "assertSavingFitsColumn v = guard (pence_of v < SAVING_COLUMN_MAX) (CATALOGUE SAVING_INVALID)"

section \<open>Availability windows\<close>

definition parseTimeStringToMinutes :: "string \<Rightarrow> int" where
  "parseTimeStringToMinutes s = (if s = ''24:00'' then 1440 else hhmm_minutes s)"

definition invalid_windows :: "window_reason \<Rightarrow> 'a result" where
  "invalid_windows r = throw (INVALID_AVAILABILITY_WINDOWS r)"

fun check_windows :: "nat \<Rightarrow> availability_window list \<Rightarrow> unit result" where
  "check_windows i [] = returns ()"
| "check_windows i (w # ws) =
     (if \<not> TIME_REGEX (aw_openTime w) then invalid_windows (BadWindowOpen i)
      else if \<not> (TIME_REGEX (aw_closeTime w) \<or> aw_closeTime w = ''24:00'') then invalid_windows (BadWindowClose i)
      else if aw_openTime w = ''24:00'' then invalid_windows (OpensAtMidnight i)
      else if parseTimeStringToMinutes (aw_closeTime w) \<le> parseTimeStringToMinutes (aw_openTime w)
           then invalid_windows (ClosesBeforeOpening i)
      else check_windows (Suc i) ws)"

fun no_touching_overlap :: "(int \<times> int) list \<Rightarrow> bool" where
  "no_touching_overlap (a # b # rest) \<longleftrightarrow> \<not> fst b < snd a \<and> no_touching_overlap (b # rest)"
| "no_touching_overlap _ \<longleftrightarrow> True"

text \<open>The days in the order in which they first occur, as the \<open>Map\<close> keeps them.\<close>

definition days_of :: "availability_window list \<Rightarrow> int list" where
  "days_of ws = rev (remdups (rev (map aw_dayOfWeek ws)))"

definition day_rows :: "availability_window list \<Rightarrow> int \<Rightarrow> (int \<times> int) list" where
  "day_rows ws day =
     sort_key fst (map (\<lambda>w. (parseTimeStringToMinutes (aw_openTime w), parseTimeStringToMinutes (aw_closeTime w)))
       (filter (\<lambda>w. aw_dayOfWeek w = day) ws))"

definition validateAvailabilityWindows :: "voucher_type \<Rightarrow> availability_window list \<Rightarrow> unit result" where
  "validateAvailabilityWindows ty ws =
     (if ws = [] then returns ()
      else if ty \<noteq> TIME_LIMITED then invalid_windows NotTimeLimited
      else andThen (check_windows 0 ws) (\<lambda>_.
        case List.find (\<lambda>day. \<not> no_touching_overlap (day_rows ws day)) (days_of ws) of
          None \<Rightarrow> returns ()
        | Some day \<Rightarrow> invalid_windows (WindowsOverlap day)))"

section \<open>Creation\<close>

text \<open>A request body. \<open>None\<close> is an omitted field; \<open>Some None\<close> is an explicit null. On creation null and omission
  are the same.\<close>

record voucher_body =
  vb_type :: voucher_type
  vb_title :: string
  vb_estimatedSaving :: json
  vb_description :: "string option"
  vb_terms :: "string option"
  vb_imageUrl :: "string option"
  vb_expiryDate :: "time option"
  vb_availabilityWindows :: "availability_window list"
  vb_cooldownSeconds :: "int option"
  vb_merchantFields :: bag

definition new_custom :: "ident \<Rightarrow> ident \<Rightarrow> string \<Rightarrow> voucher_body \<Rightarrow> bag \<Rightarrow> life_voucher" where
  "new_custom merchantId vid code body stored =
     \<lparr>v_merchantId = merchantId, v_type = vb_type body, v_title = vb_title body,
      v_estimatedSaving = pence_of (vb_estimatedSaving body), v_expiryDate = vb_expiryDate body,
      v_cooldownSeconds = vb_cooldownSeconds body, v_status = V_DRAFT, v_approvalStatus = A_PENDING,
      v_availabilityWindows = vb_availabilityWindows body,
      lv_id = vid, lv_code = code, lv_isRmv = False, lv_isMandatory = False, lv_rmvTemplateId = None,
      lv_description = vb_description body, lv_terms = vb_terms body, lv_imageUrl = vb_imageUrl body,
      lv_publishedAt = None, lv_merchantFields = JObj stored, lv_approvedBy = None, lv_approvedAt = None\<rparr>"

definition createVoucher :: "ident \<Rightarrow> ident \<Rightarrow> string \<Rightarrow> voucher_body \<Rightarrow> catalogue \<Rightarrow> catalogue result" where
  "createVoucher adminId vid code body s =
     andThen (voucher_writer s adminId) (\<lambda>merchantId.
     andThen (assertSavingSane (vb_estimatedSaving body)) (\<lambda>_.
     andThen (assertSavingFitsColumn (vb_estimatedSaving body)) (\<lambda>_.
     andThen (validateAvailabilityWindows (vb_type body) (vb_availabilityWindows body)) (\<lambda>_.
     let stored = stampStrictSubmitContract (stripCallerOwnedKeys (vb_merchantFields body)) in
     andThen (assertMerchantFieldsWithinLimit stored) (\<lambda>_.
     andThen (insert_voucher (new_custom merchantId vid code body stored) s) (\<lambda>s1.
     returns (audit_event merchantId ''VOUCHER_CREATED'' adminId s1)))))))"

section \<open>Editing\<close>

record voucher_patch =
  pa_type :: "voucher_type option"
  pa_title :: "string option"
  pa_estimatedSaving :: "json option"
  pa_description :: "string option"
  pa_terms :: "string option"
  pa_imageUrl :: "string option option"
  pa_expiryDate :: "time option option"
  pa_availabilityWindows :: "availability_window list option"
  pa_cooldownSeconds :: "int option option"
  pa_merchantFields :: "bag option"

text \<open>What the row is overwritten with: the patch, with the merged bag in place of the caller's.\<close>

definition apply_patch :: "voucher_patch \<Rightarrow> life_voucher \<Rightarrow> life_voucher" where
  "apply_patch p v =
     v\<lparr>v_type := (case pa_type p of None \<Rightarrow> v_type v | Some t \<Rightarrow> t),
       v_title := (case pa_title p of None \<Rightarrow> v_title v | Some x \<Rightarrow> x),
       v_estimatedSaving := (case pa_estimatedSaving p of None \<Rightarrow> v_estimatedSaving v | Some x \<Rightarrow> pence_of x),
       v_expiryDate := (case pa_expiryDate p of None \<Rightarrow> v_expiryDate v | Some x \<Rightarrow> x),
       v_cooldownSeconds := (case pa_cooldownSeconds p of None \<Rightarrow> v_cooldownSeconds v | Some x \<Rightarrow> x),
       v_availabilityWindows := (case pa_availabilityWindows p of None \<Rightarrow> v_availabilityWindows v | Some ws \<Rightarrow> ws),
       lv_description := (case pa_description p of None \<Rightarrow> lv_description v | Some x \<Rightarrow> Some x),
       lv_terms := (case pa_terms p of None \<Rightarrow> lv_terms v | Some x \<Rightarrow> Some x),
       lv_imageUrl := (case pa_imageUrl p of None \<Rightarrow> lv_imageUrl v | Some x \<Rightarrow> x),
       lv_merchantFields := (case pa_merchantFields p of None \<Rightarrow> lv_merchantFields v | Some b \<Rightarrow> JObj b)\<rparr>"

definition effective_type :: "voucher_patch \<Rightarrow> life_voucher \<Rightarrow> voucher_type" where
  "effective_type p v = (case pa_type p of None \<Rightarrow> v_type v | Some t \<Rightarrow> t)"

definition merge_bag :: "voucher_patch \<Rightarrow> life_voucher \<Rightarrow> voucher_patch" where
  "merge_bag p v =
     p\<lparr>pa_merchantFields := map_option (\<lambda>b. spread (as_bag (lv_merchantFields v)) (stripCallerOwnedKeys b))
         (pa_merchantFields p)\<rparr>"

definition check_patch :: "voucher_patch \<Rightarrow> life_voucher \<Rightarrow> voucher_patch result" where
  "check_patch p v =
     (let merged = merge_bag p v in
      andThen (case pa_merchantFields merged of None \<Rightarrow> returns () | Some b \<Rightarrow> assertMerchantFieldsWithinLimit b) (\<lambda>_.
      andThen (case pa_estimatedSaving p of None \<Rightarrow> returns ()
               | Some x \<Rightarrow> andThen (assertSavingSane x) (\<lambda>_. assertSavingFitsColumn x)) (\<lambda>_.
      andThen (guard (case pa_cooldownSeconds p of Some (Some c) \<Rightarrow> effective_type p v = REUSABLE | _ \<Rightarrow> True)
                 (CATALOGUE COOLDOWN_REUSABLE_ONLY)) (\<lambda>_.
      andThen (case pa_availabilityWindows p of
                 Some ws \<Rightarrow> validateAvailabilityWindows (effective_type p v) ws
               | None \<Rightarrow> if effective_type p v \<noteq> TIME_LIMITED \<and> v_availabilityWindows v \<noteq> []
                        then invalid_windows WindowsStillAttached else returns ()) (\<lambda>_.
      returns merged)))))"

definition update_check :: "ident \<Rightarrow> ident \<Rightarrow> voucher_patch \<Rightarrow> catalogue \<Rightarrow> (ident \<times> voucher_patch) result" where
  "update_check adminId vid p s =
     andThen (voucher_writer s adminId) (\<lambda>merchantId.
     andThen (found VOUCHER_NOT_FOUND (own_voucher s vid merchantId False)) (\<lambda>v.
     andThen (guard (v_status v = V_DRAFT) (CATALOGUE VOUCHER_NOT_EDITABLE)) (\<lambda>_.
     andThen (check_patch p v) (\<lambda>merged. returns (merchantId, merged)))))"

definition update_commit :: "ident \<Rightarrow> ident \<Rightarrow> ident \<times> voucher_patch \<Rightarrow> catalogue \<Rightarrow> catalogue result" where
  "update_commit adminId vid c s =
     andThen (update_voucher_row vid (apply_patch (snd c)) s) (\<lambda>s1.
     returns (audit_event (fst c) ''VOUCHER_UPDATED'' adminId s1))"

definition updateVoucher :: "ident \<Rightarrow> ident \<Rightarrow> voucher_patch \<Rightarrow> catalogue \<Rightarrow> catalogue result" where
  "updateVoucher adminId vid p s = andThen (update_check adminId vid p s) (\<lambda>c. update_commit adminId vid c s)"

section \<open>Submission and deletion\<close>

definition effective_voucher_of :: "life_voucher \<Rightarrow> effective_voucher" where
  "effective_voucher_of v =
     \<lparr>ev_type = type_name (v_type v), ev_title = JStr (v_title v), ev_estimatedSaving = of_pence (v_estimatedSaving v),
      ev_merchantFields = lv_merchantFields v, ev_windowCount = length (v_availabilityWindows v),
      ev_cooldownSeconds = v_cooldownSeconds v\<rparr>"

definition submit_check :: "ident \<Rightarrow> ident \<Rightarrow> catalogue \<Rightarrow> (ident \<times> bag) result" where
  "submit_check adminId vid s =
     andThen (voucher_writer s adminId) (\<lambda>merchantId.
     andThen (found VOUCHER_NOT_FOUND (own_voucher s vid merchantId False)) (\<lambda>v.
     andThen (guard (v_status v = V_DRAFT) (CATALOGUE VOUCHER_NOT_SUBMITTABLE)) (\<lambda>_.
     andThen (guard (\<not> (v_type v = TIME_LIMITED \<and> v_availabilityWindows v = [])) (CATALOGUE TIME_LIMITED_REQUIRES_WINDOW)) (\<lambda>_.
     andThen (assertVoucherSubmittable (effective_voucher_of v)) (\<lambda>_.
     returns (merchantId, stripAdminOwnedKeys (as_bag (lv_merchantFields v))))))))"

definition submitted_row :: "time \<Rightarrow> bag \<Rightarrow> life_voucher \<Rightarrow> life_voucher" where
  "submitted_row now b v =
     v\<lparr>v_status := V_PENDING_APPROVAL, v_approvalStatus := A_PENDING, lv_publishedAt := Some now,
       lv_merchantFields := JObj b\<rparr>"

definition reopened :: "approval \<Rightarrow> approval" where
  "reopened a =
     (unclaim a)\<lparr>ap_status := A_PENDING, ap_actionedAt := None,
       ap_comment := ''Merchant resubmitted voucher for approval''\<rparr>"

definition submit_commit ::
  "time \<Rightarrow> ident \<Rightarrow> ident \<Rightarrow> ident \<Rightarrow> ident \<times> bag \<Rightarrow> catalogue \<Rightarrow> catalogue result" where
  "submit_commit now adminId vid aid c s =
     andThen (update_voucher_row vid (submitted_row now (snd c)) s) (\<lambda>s1.
     andThen (case List.find (\<lambda>a. ap_type a = VOUCHER \<and> ap_referenceId a = vid) (c_approvals s1) of
                Some a \<Rightarrow> returns (update_approval (ap_id a) reopened s1)
              | None \<Rightarrow> insert_approval (new_approval aid VOUCHER vid ''Merchant submitted voucher for approval'') s1) (\<lambda>s2.
     returns (audit_event (fst c) ''VOUCHER_SUBMITTED'' adminId s2)))"

definition submitVoucher :: "time \<Rightarrow> ident \<Rightarrow> ident \<Rightarrow> ident \<Rightarrow> catalogue \<Rightarrow> catalogue result" where
  "submitVoucher now adminId vid aid s =
     andThen (submit_check adminId vid s) (\<lambda>c. submit_commit now adminId vid aid c s)"

definition deleteVoucher :: "ident \<Rightarrow> ident \<Rightarrow> catalogue \<Rightarrow> catalogue result" where
  "deleteVoucher adminId vid s =
     andThen (voucher_writer s adminId) (\<lambda>merchantId.
     andThen (found VOUCHER_NOT_FOUND (own_voucher s vid merchantId False)) (\<lambda>v.
     andThen (guard (v_status v = V_DRAFT) (CATALOGUE VOUCHER_NOT_DELETABLE)) (\<lambda>_.
     returns (audit_event merchantId ''VOUCHER_DELETED'' adminId
       (s\<lparr>c_vouchers := filter (\<lambda>v. lv_id v \<noteq> vid) (c_vouchers s)\<rparr>)))))"

text \<open>Withdrawing a submission.\<close>

definition withdrawVoucherSubmission :: "time \<Rightarrow> ident \<Rightarrow> ident \<Rightarrow> catalogue \<Rightarrow> catalogue result" where
  "withdrawVoucherSubmission now adminId vid s =
     andThen (voucher_writer s adminId) (\<lambda>merchantId.
     andThen (found VOUCHER_NOT_FOUND
       (List.find (\<lambda>v. lv_id v = vid \<and> v_merchantId v = merchantId) (c_vouchers s))) (\<lambda>v.
     andThen (guard (\<not> lv_isRmv v) (CATALOGUE VOUCHER_EDIT_NOT_ALLOWED)) (\<lambda>_.
     andThen (guard (v_status v = V_PENDING_APPROVAL) (CATALOGUE VOUCHER_WITHDRAW_NOT_PENDING)) (\<lambda>_.
     andThen (guard (v_approvalStatus v \<noteq> A_APPROVED) (CATALOGUE VOUCHER_WITHDRAW_NOT_PENDING)) (\<lambda>_.
     andThen (found (CATALOGUE VOUCHER_WITHDRAW_NOT_PENDING)
       (List.find (\<lambda>a. ap_type a = VOUCHER \<and> ap_referenceId a = vid \<and>
          ap_status a \<in> {A_PENDING, A_CHANGES_REQUESTED}) (c_approvals s))) (\<lambda>a.
     andThen (update_voucher_row vid (\<lambda>v. v\<lparr>v_status := V_DRAFT\<rparr>) s) (\<lambda>s1.
     returns (audit_event merchantId ''VOUCHER_SUBMISSION_WITHDRAWN'' adminId
       (update_approval (ap_id a) (\<lambda>a. (unclaim a)\<lparr>ap_status := A_WITHDRAWN, ap_actionedAt := Some now,
          ap_comment := ''Merchant withdrew the submission''\<rparr>) s1)))))))))"

end
