(* ===== verification/Flagship.thy ===== *)
theory Flagship
  imports Catalogue
begin

text \<open>
  The flagship (RMV) half of \<open>src/api/merchant/voucher/service.ts\<close>, with \<open>voucher/shared.ts\<close> and the category
  dispatcher of \<open>src/api/merchant/profile/service.ts\<close>: creation from a template, the draft edit and the submission
  shared by the merchant and the admin routes, provisioning and the category change, and the governed requests
  against live vouchers.
\<close>

section \<open>Creation\<close>

definition ELIGIBLE_FLAGSHIP_TYPES :: "voucher_type list" where
  "ELIGIBLE_FLAGSHIP_TYPES = [BOGO, SPEND_AND_SAVE, DISCOUNT_FIXED, DISCOUNT_PERCENT, FREEBIE, PACKAGE_DEAL]"

definition isEligibleFlagshipType :: "voucher_type \<Rightarrow> bool" where
  "isEligibleFlagshipType t \<longleftrightarrow> t \<in> set ELIGIBLE_FLAGSHIP_TYPES"

definition FLAGSHIP_RMV_CAP :: nat where "FLAGSHIP_RMV_CAP = 2"

definition count_vouchers :: "catalogue \<Rightarrow> (life_voucher \<Rightarrow> bool) \<Rightarrow> nat" where
  "count_vouchers s P = length (filter P (c_vouchers s))"

text \<open>A draft with the template's defaults, born under the submission contract.\<close>

definition from_template :: "ident \<Rightarrow> ident \<Rightarrow> string \<Rightarrow> rmv_template \<Rightarrow> life_voucher" where
  "from_template merchantId vid code t =
     \<lparr>v_merchantId = merchantId, v_type = tp_voucherType t, v_title = tp_title t,
      v_estimatedSaving = tp_minimumSaving t, v_expiryDate = None, v_cooldownSeconds = None,
      v_status = V_DRAFT, v_approvalStatus = A_PENDING, v_availabilityWindows = [],
      lv_id = vid, lv_code = code, lv_isRmv = True, lv_isMandatory = True, lv_rmvTemplateId = Some (tp_id t),
      lv_description = Some (tp_description t), lv_terms = None, lv_imageUrl = None, lv_publishedAt = None,
      lv_merchantFields = JObj (stampStrictSubmitContract []), lv_approvedBy = None, lv_approvedAt = None\<rparr>"

definition createFlagshipRmvVoucher ::
  "ident \<Rightarrow> ident \<Rightarrow> string \<Rightarrow> voucher_type \<Rightarrow> catalogue \<Rightarrow> catalogue result" where
  "createFlagshipRmvVoucher adminId vid code ty s =
     andThen (voucher_writer s adminId) (\<lambda>merchantId.
     andThen (guard (isEligibleFlagshipType ty) (CATALOGUE VOUCHER_TYPE_NOT_ELIGIBLE)) (\<lambda>_.
     andThen (guard (count_vouchers s (\<lambda>v. v_merchantId v = merchantId \<and> lv_isRmv v \<and>
         v_status v \<in> {V_DRAFT, V_PENDING_APPROVAL, V_ACTIVE}) < FLAGSHIP_RMV_CAP) (CATALOGUE FLAGSHIP_RMV_LIMIT_REACHED)) (\<lambda>_.
     andThen (found (CATALOGUE NO_RMV_TEMPLATE) (Option.bind (c_merchants s merchantId) rm_primaryCategoryId)) (\<lambda>cat.
     andThen (found (CATALOGUE NO_RMV_TEMPLATE) (List.find (\<lambda>t. tp_categoryId t = resolveTopLevelCategoryId (c_categories s) cat \<and>
         tp_voucherType t = ty \<and> tp_isActive t) (c_templates s))) (\<lambda>t.
     andThen (insert_voucher (from_template merchantId vid code t) s) (\<lambda>s1.
     returns (audit_event merchantId ''RMV_CREATED'' adminId s1)))))))"

section \<open>The effective template\<close>

definition template_of :: "catalogue \<Rightarrow> life_voucher \<Rightarrow> rmv_template option" where
  "template_of s v = Option.bind (lv_rmvTemplateId v) (\<lambda>i. List.find (\<lambda>t. tp_id t = i) (c_templates s))"

definition readAllowedFields :: "rmv_template option \<Rightarrow> string list" where
  "readAllowedFields t =
     (case t of None \<Rightarrow> []
      | Some t' \<Rightarrow> (case tp_allowedFields t' of JArr xs \<Rightarrow> map text_of (filter is_string xs) | _ \<Rightarrow> []))"

record effective_template =
  et_relink :: "(voucher_type \<times> ident) option"
  et_allowedFields :: "string list"

definition implied_type :: "bag \<Rightarrow> voucher_type option" where
  "implied_type b =
     (case Option.bind (object_member b ''merchantFields'') (\<lambda>n. string_member n ''discountKind'') of
        None \<Rightarrow> None
      | Some k \<Rightarrow> if k = ''fixed'' then Some DISCOUNT_FIXED else if k = ''percent'' then Some DISCOUNT_PERCENT else None)"

definition resolveEffectiveTemplate :: "catalogue \<Rightarrow> life_voucher \<Rightarrow> bag \<Rightarrow> effective_template result" where
  "resolveEffectiveTemplate s v b =
     (let current = \<lparr>et_relink = None, et_allowedFields = readAllowedFields (template_of s v)\<rparr> in
      if v_type v \<noteq> DISCOUNT_PERCENT \<and> v_type v \<noteq> DISCOUNT_FIXED then returns current
      else (case implied_type b of
              None \<Rightarrow> returns current
            | Some implied \<Rightarrow>
                if implied = v_type v then returns current
                else andThen (found (CATALOGUE RMV_TEMPLATE_UNAVAILABLE) (template_of s v)) (\<lambda>t.
                     andThen (found (CATALOGUE RMV_TEMPLATE_UNAVAILABLE) (List.find (\<lambda>t'. tp_categoryId t' = tp_categoryId t \<and>
                       tp_voucherType t' = implied \<and> tp_isActive t') (c_templates s))) (\<lambda>sibling.
                     returns \<lparr>et_relink = Some (implied, tp_id sibling),
                       et_allowedFields = readAllowedFields (Some sibling)\<rparr>))))"

definition relinked :: "(voucher_type \<times> ident) option \<Rightarrow> life_voucher \<Rightarrow> life_voucher" where
  "relinked r v = (case r of None \<Rightarrow> v | Some (ty, tid) \<Rightarrow> v\<lparr>v_type := ty, lv_rmvTemplateId := Some tid\<rparr>)"

section \<open>The draft edit\<close>

definition updateRmvVoucherCore :: "ident \<Rightarrow> ident \<Rightarrow> ident \<Rightarrow> bag \<Rightarrow> catalogue \<Rightarrow> catalogue result" where
  "updateRmvVoucherCore merchantId actorId vid proposed s =
     andThen (found (CATALOGUE RMV_NOT_FOUND) (own_voucher s vid merchantId True)) (\<lambda>v.
     andThen (guard (v_status v = V_DRAFT) (CATALOGUE VOUCHER_NOT_EDITABLE)) (\<lambda>_.
     let clean = stripSubmitContractKey proposed;
         merged = spread (as_bag (lv_merchantFields v)) clean in
     andThen (resolveEffectiveTemplate s v merged) (\<lambda>et.
     andThen (guard (list_all (\<lambda>k. k \<in> set (et_allowedFields et)) (map fst clean)) (CATALOGUE RMV_FIELD_NOT_ALLOWED)) (\<lambda>_.
     andThen (update_voucher_row vid (\<lambda>v. relinked (et_relink et) (v\<lparr>lv_merchantFields := JObj merged\<rparr>)) s) (\<lambda>s1.
     returns (audit_event merchantId ''RMV_UPDATED'' actorId s1))))))"

definition updateRmvVoucher :: "ident \<Rightarrow> ident \<Rightarrow> bag \<Rightarrow> catalogue \<Rightarrow> catalogue result" where
  "updateRmvVoucher adminId vid proposed s =
     andThen (voucher_writer s adminId) (\<lambda>merchantId. updateRmvVoucherCore merchantId adminId vid proposed s)"

section \<open>The submission\<close>

text \<open>The columns promoted from the bag: the strings that are strings, the saving rounded to pence, each only if the
  effective template allows it (no template: everything).\<close>

record promoted_columns =
  pr_title :: "string option"
  pr_description :: "string option"
  pr_terms :: "string option"
  pr_imageUrl :: "string option"
  pr_estimatedSaving :: "int option"

definition allowed_field :: "string list \<Rightarrow> string \<Rightarrow> bool" where
  "allowed_field cols k \<longleftrightarrow> cols = [] \<or> k \<in> set cols"

definition saving_of_bag :: "bag \<Rightarrow> int option result" where
  "saving_of_bag b =
     (case map_of b ''estimatedSaving'' of
        None \<Rightarrow> returns None
      | Some x \<Rightarrow> if x = JNull then returns None
                 else andThen (assertSavingSane x) (\<lambda>_.
                      andThen (assertSavingFitsColumn x) (\<lambda>_. returns (Some (pence_of x)))))"

definition promote_fields :: "string list \<Rightarrow> bag \<Rightarrow> int option \<Rightarrow> promoted_columns" where
  "promote_fields cols b saving =
     (let pick = (\<lambda>k. if allowed_field cols k then string_member b k else None) in
      \<lparr>pr_title = pick ''title'', pr_description = pick ''description'', pr_terms = pick ''terms'',
       pr_imageUrl = pick ''imageUrl'',
       pr_estimatedSaving = (if allowed_field cols ''estimatedSaving'' then saving else None)\<rparr>)"

definition with_columns :: "promoted_columns \<Rightarrow> life_voucher \<Rightarrow> life_voucher" where
  "with_columns p v =
     v\<lparr>v_title := (case pr_title p of None \<Rightarrow> v_title v | Some x \<Rightarrow> x),
       lv_description := (case pr_description p of None \<Rightarrow> lv_description v | Some x \<Rightarrow> Some x),
       lv_terms := (case pr_terms p of None \<Rightarrow> lv_terms v | Some x \<Rightarrow> Some x),
       lv_imageUrl := (case pr_imageUrl p of None \<Rightarrow> lv_imageUrl v | Some x \<Rightarrow> Some x),
       v_estimatedSaving := (case pr_estimatedSaving p of None \<Rightarrow> v_estimatedSaving v | Some x \<Rightarrow> x)\<rparr>"

text \<open>The matrix is applied to the row as this submission is about to write it.\<close>

definition effective_flagship :: "promoted_columns \<Rightarrow> (voucher_type \<times> ident) option \<Rightarrow> life_voucher \<Rightarrow> effective_voucher" where
  "effective_flagship p r v =
     (effective_voucher_of (relinked r (with_columns p v)))\<lparr>ev_windowCount := 0, ev_cooldownSeconds := None\<rparr>"

definition submitRmvVoucherCore :: "time \<Rightarrow> ident \<Rightarrow> ident \<Rightarrow> ident \<Rightarrow> catalogue \<Rightarrow> catalogue result" where
  "submitRmvVoucherCore now merchantId actorId vid s =
     andThen (found (CATALOGUE RMV_NOT_FOUND) (own_voucher s vid merchantId True)) (\<lambda>v.
     andThen (guard (v_status v = V_DRAFT) (CATALOGUE VOUCHER_NOT_SUBMITTABLE)) (\<lambda>_.
     let b = as_bag (lv_merchantFields v) in
     andThen (saving_of_bag b) (\<lambda>saving.
     andThen (resolveEffectiveTemplate s v b) (\<lambda>et.
     let p = promote_fields (et_allowedFields et) b saving in
     andThen (assertVoucherSubmittable (effective_flagship p (et_relink et) v)) (\<lambda>_.
     andThen (update_voucher_row vid (\<lambda>v. (relinked (et_relink et) (with_columns p v))
         \<lparr>v_status := V_PENDING_APPROVAL, lv_publishedAt := Some now\<rparr>) s) (\<lambda>s1.
     returns (audit_event merchantId ''RMV_SUBMITTED'' actorId s1)))))))"

definition submitRmvVoucher :: "time \<Rightarrow> ident \<Rightarrow> ident \<Rightarrow> catalogue \<Rightarrow> catalogue result" where
  "submitRmvVoucher now adminId vid s =
     andThen (voucher_writer s adminId) (\<lambda>merchantId. submitRmvVoucherCore now merchantId adminId vid s)"

section \<open>Provisioning and the category change\<close>

definition set_category :: "ident \<Rightarrow> ident \<Rightarrow> catalogue \<Rightarrow> catalogue" where
  "set_category merchantId cat s =
     s\<lparr>c_merchants := (c_merchants s)(merchantId := map_option (\<lambda>m. m\<lparr>rm_primaryCategoryId := Some cat\<rparr>)
         (c_merchants s merchantId))\<rparr>"

text \<open>\<open>fresh\<close>: the identifier and code drawn for each of the two vouchers.\<close>

definition provision :: "ident \<Rightarrow> ident \<Rightarrow> (ident \<times> string) \<times> (ident \<times> string) \<Rightarrow> catalogue \<Rightarrow> catalogue result" where
  "provision merchantId categoryId fresh s =
     (case take 2 (filter (\<lambda>t. tp_categoryId t = categoryId \<and> tp_isActive t) (c_templates s)) of
        [t1, t2] \<Rightarrow>
          andThen (insert_voucher (from_template merchantId (fst (fst fresh)) (snd (fst fresh)) t1) s) (\<lambda>s1.
            insert_voucher (from_template merchantId (fst (snd fresh)) (snd (snd fresh)) t2) s1)
      | _ \<Rightarrow> throw (CATALOGUE NO_RMV_TEMPLATE))"

text \<open>Without \<open>confirm\<close> the change is only previewed.\<close>

definition handleCategoryChange ::
  "ident \<Rightarrow> ident \<Rightarrow> ident \<Rightarrow> bool \<Rightarrow> (ident \<times> string) \<times> (ident \<times> string) \<Rightarrow> catalogue \<Rightarrow> catalogue result" where
  "handleCategoryChange merchantId actorId newCategoryId confirm fresh s =
     andThen (guard (count_vouchers s (\<lambda>v. v_merchantId v = merchantId \<and> lv_isRmv v \<and>
         v_status v \<in> {V_PENDING_APPROVAL, V_ACTIVE}) = 0) (CATALOGUE CATEGORY_CHANGE_BLOCKED)) (\<lambda>_.
     if \<not> confirm then returns s
     else andThen (provision merchantId (resolveTopLevelCategoryId (c_categories s) newCategoryId) fresh
            (set_category merchantId newCategoryId
              (update_vouchers (\<lambda>v. v_merchantId v = merchantId \<and> lv_isRmv v \<and> v_status v = V_DRAFT)
                (\<lambda>v. v\<lparr>v_status := V_INACTIVE\<rparr>) s))) (\<lambda>s1.
          returns (audit_event merchantId ''CATEGORY_CHANGED'' actorId s1)))"

definition setMerchantCategoryCore ::
  "ident \<Rightarrow> ident \<Rightarrow> ident \<Rightarrow> bool \<Rightarrow> (ident \<times> string) \<times> (ident \<times> string) \<Rightarrow> catalogue \<Rightarrow> catalogue result" where
  "setMerchantCategoryCore merchantId actorId newCategoryId confirm fresh s =
     andThen (found MERCHANT_NOT_FOUND (c_merchants s merchantId)) (\<lambda>m.
     case rm_primaryCategoryId m of
       None \<Rightarrow>
         andThen (provision merchantId (resolveTopLevelCategoryId (c_categories s) newCategoryId) fresh
           (set_category merchantId newCategoryId s)) (\<lambda>s1.
         returns (audit_event merchantId ''MERCHANT_PROFILE_UPDATED'' actorId
           (audit_event merchantId ''RMV_PROVISIONED'' actorId s1)))
     | Some old \<Rightarrow>
         if old = newCategoryId then returns s
         else handleCategoryChange merchantId actorId newCategoryId confirm fresh s)"

section \<open>Governed requests\<close>

definition VOUCHER_PROMOTABLE_FIELDS :: "string list" where
  "VOUCHER_PROMOTABLE_FIELDS = [''title'', ''description'', ''estimatedSaving'', ''terms'', ''imageUrl'']"

definition assertGovernedReason :: "string \<Rightarrow> unit result" where
  "assertGovernedReason reason = guard (js_trim reason \<noteq> '''') (CATALOGUE VOUCHER_EDIT_INVALID_FIELD)"

definition assertNoPendingVoucherEdit :: "catalogue \<Rightarrow> ident \<Rightarrow> unit result" where
  "assertNoPendingVoucherEdit s vid =
     guard (\<not> list_ex (\<lambda>e. ve_voucherId e = vid \<and> ve_status e = A_PENDING) (c_edits s)) (REVIEW PENDING_EDIT_EXISTS)"

definition check_proposed :: "string \<times> json \<Rightarrow> (string \<times> json) result" where
  "check_proposed kv =
     (let k = fst kv; v = snd kv in
      if k = ''estimatedSaving'' then
        andThen (assertSavingSane v) (\<lambda>_. andThen (assertSavingFitsColumn v) (\<lambda>_. returns (k, of_pence (pence_of v))))
      else if k = ''title'' then
        andThen (guard (is_string v \<and> js_trim (text_of v) \<noteq> '''') (CATALOGUE VOUCHER_EDIT_INVALID_FIELD)) (\<lambda>_. returns (k, v))
      else andThen (guard (is_string v) (CATALOGUE VOUCHER_EDIT_INVALID_FIELD)) (\<lambda>_. returns (k, v)))"

fun check_all_proposed :: "bag \<Rightarrow> bag result" where
  "check_all_proposed [] = returns []"
| "check_all_proposed (kv # kvs) =
     andThen (check_proposed kv) (\<lambda>x. andThen (check_all_proposed kvs) (\<lambda>xs. returns (x # xs)))"

text \<open>The staging row, its approval and the audit entry.\<close>

definition stage_edit ::
  "ident \<Rightarrow> ident \<Rightarrow> ident \<Rightarrow> ident \<Rightarrow> ident \<Rightarrow> edit_kind \<Rightarrow> bag \<Rightarrow> string \<Rightarrow> string \<Rightarrow> catalogue \<Rightarrow> catalogue result" where
  "stage_edit merchantId adminId vid eid aid kind changes reason comment s =
     (if list_ex (\<lambda>e. ve_id e = eid) (c_edits s) then throw (UNHANDLED P2002)
      else andThen (insert_approval (new_approval aid VOUCHER_EDIT eid (comment @ reason))
             (s\<lparr>c_edits := c_edits s @ [\<lparr>ve_id = eid, ve_voucherId = vid, ve_merchantId = merchantId, ve_kind = kind,
                 ve_proposedChanges = changes, ve_reason = reason, ve_status = A_PENDING, ve_reviewedBy = None\<rparr>]\<rparr>)) (\<lambda>s1.
           returns (audit_event merchantId ''VOUCHER_EDIT_REQUEST_CREATED'' adminId s1)))"

definition requestFlagshipVoucherChange ::
  "ident \<Rightarrow> ident \<Rightarrow> ident \<Rightarrow> ident \<Rightarrow> bag \<Rightarrow> string \<Rightarrow> catalogue \<Rightarrow> catalogue result" where
  "requestFlagshipVoucherChange adminId vid eid aid proposed reason s =
     andThen (voucher_writer s adminId) (\<lambda>merchantId.
     andThen (assertGovernedReason reason) (\<lambda>_.
     andThen (found (CATALOGUE RMV_NOT_FOUND) (own_voucher s vid merchantId True)) (\<lambda>v.
     andThen (guard (v_status v = V_ACTIVE) (CATALOGUE VOUCHER_EDIT_NOT_ALLOWED)) (\<lambda>_.
     let allowed = filter (\<lambda>f. f \<in> set (readAllowedFields (template_of s v))) VOUCHER_PROMOTABLE_FIELDS in
     andThen (guard (list_all (\<lambda>k. k \<in> set allowed) (map fst proposed)) (CATALOGUE RMV_FIELD_NOT_ALLOWED)) (\<lambda>_.
     andThen (guard (proposed \<noteq> []) (CATALOGUE VOUCHER_EDIT_INVALID_FIELD)) (\<lambda>_.
     andThen (check_all_proposed proposed) (\<lambda>filtered.
     andThen (assertNoPendingVoucherEdit s vid) (\<lambda>_.
     stage_edit merchantId adminId vid eid aid CHANGE filtered reason
       ''Merchant requested changes to a live flagship voucher. Reason: '' s))))))))"

definition requestVoucherEnd :: "ident \<Rightarrow> ident \<Rightarrow> ident \<Rightarrow> ident \<Rightarrow> string \<Rightarrow> catalogue \<Rightarrow> catalogue result" where
  "requestVoucherEnd adminId vid eid aid reason s =
     andThen (voucher_writer s adminId) (\<lambda>merchantId.
     andThen (assertGovernedReason reason) (\<lambda>_.
     andThen (found VOUCHER_NOT_FOUND
       (List.find (\<lambda>v. lv_id v = vid \<and> v_merchantId v = merchantId) (c_vouchers s))) (\<lambda>v.
     andThen (guard (\<not> (lv_isRmv v \<or> lv_isMandatory v)) (CATALOGUE VOUCHER_EDIT_NOT_ALLOWED)) (\<lambda>_.
     andThen (guard (v_status v = V_ACTIVE) (CATALOGUE VOUCHER_EDIT_NOT_ALLOWED)) (\<lambda>_.
     andThen (assertNoPendingVoucherEdit s vid) (\<lambda>_.
     stage_edit merchantId adminId vid eid aid END [] reason
       ''Merchant requested to end a live custom voucher. Reason: '' s))))))"

definition update_edit :: "ident \<Rightarrow> (voucher_edit \<Rightarrow> voucher_edit) \<Rightarrow> catalogue \<Rightarrow> catalogue" where
  "update_edit i f s = s\<lparr>c_edits := map (\<lambda>e. if ve_id e = i then f e else e) (c_edits s)\<rparr>"

definition withdrawVoucherPendingEdit :: "time \<Rightarrow> ident \<Rightarrow> ident \<Rightarrow> catalogue \<Rightarrow> catalogue result" where
  "withdrawVoucherPendingEdit now adminId eid s =
     andThen (voucher_writer s adminId) (\<lambda>merchantId.
     andThen (found (REVIEW PENDING_EDIT_NOT_FOUND)
       (List.find (\<lambda>e. ve_id e = eid \<and> ve_merchantId e = merchantId) (c_edits s))) (\<lambda>e.
     andThen (guard (ve_status e = A_PENDING) (REVIEW PENDING_EDIT_NOT_FOUND)) (\<lambda>_.
     let s1 = update_edit eid (\<lambda>e. e\<lparr>ve_status := A_WITHDRAWN\<rparr>) s;
         s2 = (case List.find (\<lambda>a. ap_type a = VOUCHER_EDIT \<and> ap_referenceId a = eid \<and> ap_status a = A_PENDING)
                 (c_approvals s1) of
                 None \<Rightarrow> s1
               | Some a \<Rightarrow> update_approval (ap_id a) (\<lambda>a. (unclaim a)\<lparr>ap_status := A_WITHDRAWN,
                   ap_actionedAt := Some now, ap_comment := ''Merchant withdrew the request''\<rparr>) s1) in
     returns (audit_event merchantId ''VOUCHER_EDIT_REQUEST_WITHDRAWN'' adminId s2))))"

end
