(* ===== verification/Trust.thy ===== *)
theory Trust
  imports Json Complex_Main
begin

text \<open>
  Distances and the trust in a pin: \<open>src/api/shared/haversine.ts\<close>, \<open>src/api/shared/location.ts\<close> and
  \<open>src/api/merchant/branch/locationTrust.ts\<close>.

  \<open>haversineMetres\<close> is the formula over the reals, without the rounding of doubles. What compares distances takes the
  distance as its argument \<open>metres\<close>, so that it computes; the lemmas hold for every \<open>metres\<close>, and \<open>metres_of\<close> is
  the program's. A coordinate is a decimal, as the request or the gazetteer writes it.
\<close>

section \<open>Great-circle distance\<close>

definition EARTH_RADIUS_M :: real where "EARTH_RADIUS_M = 6371000"

definition toRad :: "real \<Rightarrow> real" where "toRad deg = deg * pi / 180"

text \<open>\<open>Math.atan2\<close> on non-negative arguments, which is where the code calls it.\<close>

definition atan2 :: "real \<Rightarrow> real \<Rightarrow> real" where
  "atan2 y x = (if 0 < x then arctan (y / x) else if 0 < y then pi / 2 else 0)"

definition haversine_a :: "real \<Rightarrow> real \<Rightarrow> real \<Rightarrow> real \<Rightarrow> real" where
  "haversine_a lat1 lng1 lat2 lng2 =
     (sin (toRad (lat2 - lat1) / 2))\<^sup>2 + cos (toRad lat1) * cos (toRad lat2) * (sin (toRad (lng2 - lng1) / 2))\<^sup>2"

definition haversineMetres :: "real \<Rightarrow> real \<Rightarrow> real \<Rightarrow> real \<Rightarrow> real" where
  "haversineMetres lat1 lng1 lat2 lng2 =
     (let a = haversine_a lat1 lng1 lat2 lng2 in EARTH_RADIUS_M * 2 * atan2 (sqrt a) (sqrt (1 - a)))"

text \<open>A decimal, and a pair of latitude and longitude.\<close>

type_synonym decimal = "int \<times> nat"
type_synonym point = "decimal \<times> decimal"

definition degrees :: "decimal \<Rightarrow> real" where
  "degrees x = real_of_int (fst x) / 10 ^ snd x"

definition metres_of :: "point \<Rightarrow> point \<Rightarrow> real" where
  "metres_of p q = haversineMetres (degrees (fst p)) (degrees (snd p)) (degrees (fst q)) (degrees (snd q))"

text \<open>Between real places the radicands are not negative, so no comparison of distances meets a \<open>NaN\<close>.\<close>

lemma sin_half_sq: "(sin (x / 2))\<^sup>2 = (1 - cos x) / (2 :: real)"
  using cos_double_sin[of "x / 2"] by simp

lemma cos_lat_nonneg: "\<bar>lat\<bar> \<le> 90 \<Longrightarrow> 0 \<le> cos (toRad lat)"
proof -
  assume "\<bar>lat\<bar> \<le> 90"
  then have "\<bar>toRad lat\<bar> \<le> pi / 2"
    using pi_gt_zero by (simp add: toRad_def abs_mult field_simps)
  then show ?thesis by (auto intro: cos_ge_zero)
qed

lemma haversine_a_range:
  assumes "\<bar>lat1\<bar> \<le> 90" "\<bar>lat2\<bar> \<le> 90"
  shows "0 \<le> haversine_a lat1 lng1 lat2 lng2" "haversine_a lat1 lng1 lat2 lng2 \<le> 1"
proof -
  let ?c1 = "cos (toRad lat1)" and ?c2 = "cos (toRad lat2)"
  let ?s1 = "sin (toRad lat1)" and ?s2 = "sin (toRad lat2)" and ?d = "cos (toRad (lng2 - lng1))"
  have cc: "0 \<le> ?c1 * ?c2" using assms by (simp add: cos_lat_nonneg)
  then show "0 \<le> haversine_a lat1 lng1 lat2 lng2"
    by (simp add: haversine_a_def)
  have "toRad (lat2 - lat1) = toRad lat2 - toRad lat1"
    by (simp add: toRad_def field_simps)
  then have "cos (toRad (lat2 - lat1)) = ?c1 * ?c2 + ?s1 * ?s2"
    by (simp add: cos_diff mult.commute)
  then have a: "haversine_a lat1 lng1 lat2 lng2 = (1 - (?s1 * ?s2 + ?c1 * ?c2 * ?d)) / 2"
    by (simp add: haversine_a_def sin_half_sq field_simps)
  have "cos (toRad lat1 + toRad lat2) \<le> 1" by simp
  then have "?c1 * ?c2 - ?s1 * ?s2 \<le> 1" by (simp add: cos_add)
  moreover have "?c1 * ?c2 * (- 1) \<le> ?c1 * ?c2 * ?d"
    using cc by (intro mult_left_mono) auto
  ultimately have "- 1 \<le> ?s1 * ?s2 + ?c1 * ?c2 * ?d" by simp
  then show "haversine_a lat1 lng1 lat2 lng2 \<le> 1" by (simp add: a)
qed

lemma atan2_range: "0 \<le> y \<Longrightarrow> 0 \<le> x \<Longrightarrow> 0 \<le> atan2 y x \<and> atan2 y x \<le> pi / 2"
  using arctan_ubound[of "y / x"] by (auto simp: atan2_def zero_le_arctan_iff less_imp_le)

lemma haversine_same [simp]: "haversineMetres lat lng lat lng = 0"
  by (simp add: haversineMetres_def haversine_a_def atan2_def toRad_def)

lemma haversine_sym: "haversineMetres lat1 lng1 lat2 lng2 = haversineMetres lat2 lng2 lat1 lng1"
proof -
  have "(sin (toRad (x - y) / 2))\<^sup>2 = (sin (toRad (y - x) / 2))\<^sup>2" for x y
  proof -
    have "toRad (x - y) / 2 = - (toRad (y - x) / 2)" by (simp add: toRad_def field_simps)
    then show ?thesis by simp
  qed
  then have "haversine_a lat1 lng1 lat2 lng2 = haversine_a lat2 lng2 lat1 lng1"
    by (simp add: haversine_a_def mult.commute)
  then show ?thesis by (simp add: haversineMetres_def)
qed

lemma haversine_range:
  assumes "\<bar>lat1\<bar> \<le> 90" "\<bar>lat2\<bar> \<le> 90"
  shows "0 \<le> haversineMetres lat1 lng1 lat2 lng2" "haversineMetres lat1 lng1 lat2 lng2 \<le> pi * EARTH_RADIUS_M"
  using atan2_range[of "sqrt (haversine_a lat1 lng1 lat2 lng2)" "sqrt (1 - haversine_a lat1 lng1 lat2 lng2)"]
    haversine_a_range[OF assms]
  by (auto simp: haversineMetres_def EARTH_RADIUS_M_def Let_def)

section \<open>Trust\<close>

definition LOCATION_TRUST_RADIUS_METRES :: real where "LOCATION_TRUST_RADIUS_METRES = 1000"

datatype distrust = MissingPostcode | PostcodeMismatch | MissingCentroid | RadiusExceeded

text \<open>\<open>None\<close> is trusted; \<open>Some\<close> carries the reason why not.\<close>

type_synonym verdict = "distrust option"

definition normalisePostcode :: "string \<Rightarrow> string" where
  "normalisePostcode pc = filter (\<lambda>c. \<not> is_space c) (map js_upper pc)"

definition crossCheckGoogleLocation ::
  "(point \<Rightarrow> point \<Rightarrow> real) \<Rightarrow> point \<Rightarrow> string option \<Rightarrow> string \<Rightarrow> point option \<Rightarrow> verdict" where
  "crossCheckGoogleLocation metres google googlePostcode enteredPostcode centroid =
     (case googlePostcode of
        None \<Rightarrow> Some MissingPostcode
      | Some pc \<Rightarrow>
          if normalisePostcode pc \<noteq> normalisePostcode enteredPostcode then Some PostcodeMismatch
          else (case centroid of
                  None \<Rightarrow> Some MissingCentroid
                | Some c \<Rightarrow> if LOCATION_TRUST_RADIUS_METRES < metres google c then Some RadiusExceeded else None))"

definition pinWithinPostcodeArea :: "(point \<Rightarrow> point \<Rightarrow> real) \<Rightarrow> point \<Rightarrow> point option \<Rightarrow> verdict" where
  "pinWithinPostcodeArea metres pin centroid =
     (case centroid of
        None \<Rightarrow> Some MissingCentroid
      | Some c \<Rightarrow> if LOCATION_TRUST_RADIUS_METRES < metres pin c then Some RadiusExceeded else None)"

lemma crossCheck_trusted:
  "crossCheckGoogleLocation metres google googlePostcode entered centroid = None \<longleftrightarrow>
     (\<exists>pc c. googlePostcode = Some pc \<and> normalisePostcode pc = normalisePostcode entered \<and> centroid = Some c \<and>
        metres google c \<le> 1000)"
  by (auto simp: crossCheckGoogleLocation_def LOCATION_TRUST_RADIUS_METRES_def split: option.splits)

lemma pinWithin_trusted:
  "pinWithinPostcodeArea metres pin centroid = None \<longleftrightarrow> (\<exists>c. centroid = Some c \<and> metres pin c \<le> 1000)"
  by (auto simp: pinWithinPostcodeArea_def LOCATION_TRUST_RADIUS_METRES_def split: option.splits)

section \<open>Confirmed locations\<close>

definition CONFIRMED_LOCATION_SET :: "string list" where
  "CONFIRMED_LOCATION_SET = [''MANUALLY_CONFIRMED'', ''ADDRESS_GEOCODED'', ''MERCHANT_CONFIRMED'']"

definition location_confirmed :: "string \<Rightarrow> bool" where
  "location_confirmed c \<longleftrightarrow> c \<in> set CONFIRMED_LOCATION_SET"

end
