(* ===== verification/Review.thy ===== *)
theory Review
  imports Flagship Trust
begin

text \<open>
  The admin side of the lifecycle: the review queue's actioner (\<open>src/api/admin/approvals/service.ts\<close>), the voucher
  lane (\<open>voucherApprover.ts\<close>), the voucher arms of the edit applier (\<open>editApplier.ts\<close>), the onboarding submission
  (\<open>merchant/onboarding/service.ts\<close>, \<open>shared/location.ts\<close>) and the suspension of a merchant
  (\<open>admin/merchants/service.ts\<close>).

  The notifications that follow a commit are best effort and are left out, as is the revocation of sessions on suspension.
\<close>

section \<open>Merchants and the queue\<close>

definition merchant_of :: "catalogue \<Rightarrow> ident \<Rightarrow> (merchant \<times> review_merchant) option" where
  "merchant_of s i =
     (case (merchants (c_db s) i, c_merchants s i) of (Some m, Some r) \<Rightarrow> Some (m, r) | _ \<Rightarrow> None)"

definition put_merchant :: "ident \<Rightarrow> merchant \<Rightarrow> review_merchant \<Rightarrow> catalogue \<Rightarrow> catalogue" where
  "put_merchant i m r s =
     s\<lparr>c_db := (c_db s)\<lparr>merchants := (merchants (c_db s))(i \<mapsto> m)\<rparr>, c_merchants := (c_merchants s)(i \<mapsto> r)\<rparr>"

text \<open>\<open>merchant.update({ where: { id } })\<close>: an absent row fails.\<close>

definition update_merchant ::
  "ident \<Rightarrow> (merchant \<Rightarrow> merchant) \<Rightarrow> (review_merchant \<Rightarrow> review_merchant) \<Rightarrow> catalogue \<Rightarrow> catalogue result" where
  "update_merchant i f g s =
     andThen (found (UNHANDLED RuntimeError) (merchant_of s i)) (\<lambda>(m, r). returns (put_merchant i (f m) (g r) s))"

definition set_step :: "string \<Rightarrow> review_merchant \<Rightarrow> review_merchant" where
  "set_step x r = r\<lparr>rm_onboardingStep := x\<rparr>"

definition actionable :: "approval \<Rightarrow> bool" where
  "actionable a \<longleftrightarrow> ap_status a \<in> {A_PENDING, A_CHANGES_REQUESTED}"

text \<open>A decision: the status, who and when, and the claim cleared.\<close>

definition decided :: "time \<Rightarrow> ident \<Rightarrow> approval_status \<Rightarrow> string option \<Rightarrow> approval \<Rightarrow> approval" where
  "decided now adminId st comment a =
     (unclaim a)\<lparr>ap_status := st, ap_comment := (case comment of None \<Rightarrow> ap_comment a | Some c \<Rightarrow> c),
       ap_adminUserId := Some adminId, ap_actionedAt := Some now\<rparr>"

section \<open>Claiming\<close>

definition voucher_merchant :: "catalogue \<Rightarrow> ident \<Rightarrow> ident \<Rightarrow> ident" where
  "voucher_merchant s vid d = (case voucher_by_id s vid of None \<Rightarrow> d | Some v \<Rightarrow> v_merchantId v)"

definition edit_voucher :: "catalogue \<Rightarrow> ident \<Rightarrow> ident" where
  "edit_voucher s eid =
     (case List.find (\<lambda>e. ve_id e = eid) (c_edits s) of None \<Rightarrow> eid | Some e \<Rightarrow> ve_voucherId e)"

text \<open>Whom the audit entry of a claim and of a release is about.\<close>

definition claim_entity :: "catalogue \<Rightarrow> approval \<Rightarrow> ident" where
  "claim_entity s a =
     (case ap_type a of
        MERCHANT_IDENTITY_EDIT \<Rightarrow> (case c_editTargets s (ap_referenceId a) of None \<Rightarrow> ap_referenceId a | Some i \<Rightarrow> i)
      | BRANCH_IDENTITY_EDIT \<Rightarrow> (case c_editTargets s (ap_referenceId a) of None \<Rightarrow> ap_referenceId a | Some i \<Rightarrow> i)
      | VOUCHER_EDIT \<Rightarrow> edit_voucher s (ap_referenceId a)
      | VOUCHER \<Rightarrow> voucher_merchant s (ap_referenceId a) (ap_referenceId a)
      | _ \<Rightarrow> ap_referenceId a)"

definition release_entity :: "catalogue \<Rightarrow> approval \<Rightarrow> ident" where
  "release_entity s a =
     (case ap_type a of
        VOUCHER_EDIT \<Rightarrow> edit_voucher s (ap_referenceId a)
      | VOUCHER \<Rightarrow> voucher_merchant s (ap_referenceId a) (ap_referenceId a)
      | _ \<Rightarrow> ap_referenceId a)"

definition claimApproval :: "time \<Rightarrow> ident \<Rightarrow> ident \<Rightarrow> catalogue \<Rightarrow> catalogue result" where
  "claimApproval now i adminId s =
     andThen (found (REVIEW APPROVAL_NOT_FOUND) (approval_by_id s i)) (\<lambda>a.
     andThen (guard (ap_claimedById a = None \<and> ap_status a = A_PENDING) (REVIEW APPROVAL_ALREADY_CLAIMED)) (\<lambda>_.
     let s1 = update_approval i (\<lambda>a. a\<lparr>ap_claimedById := Some adminId, ap_claimedAt := Some now\<rparr>) s in
     andThen (if ap_type a = MERCHANT_ONBOARDING
              then update_merchant (ap_referenceId a) id (set_step ''UNDER_REVIEW'') s1 else returns s1) (\<lambda>s2.
     returns (audit_event (claim_entity s a) ''MERCHANT_APPROVAL_CLAIMED'' adminId s2))))"

definition releaseApproval :: "ident \<Rightarrow> ident \<Rightarrow> bool \<Rightarrow> catalogue \<Rightarrow> catalogue result" where
  "releaseApproval i adminId superAdmin s =
     andThen (found (REVIEW APPROVAL_NOT_FOUND) (approval_by_id s i)) (\<lambda>a.
     andThen (guard (ap_claimedById a \<noteq> None) (REVIEW APPROVAL_NOT_ACTIONABLE)) (\<lambda>_.
     andThen (guard (ap_claimedById a = Some adminId \<or> superAdmin) (REVIEW APPROVAL_NOT_CLAIMER)) (\<lambda>_.
     let s1 = update_approval i unclaim s in
     andThen (if ap_type a = MERCHANT_ONBOARDING
              then update_merchant (ap_referenceId a) id (set_step ''SUBMITTED'') s1 else returns s1) (\<lambda>s2.
     returns (audit_event (release_entity s a) ''MERCHANT_APPROVAL_RELEASED'' adminId s2)))))"

section \<open>Onboarding\<close>

definition submitted_flagships :: "catalogue \<Rightarrow> ident \<Rightarrow> nat" where
  "submitted_flagships s merchantId =
     count_vouchers s (\<lambda>v. v_merchantId v = merchantId \<and> lv_isRmv v \<and> v_status v \<in> {V_PENDING_APPROVAL, V_ACTIVE})"

definition computeOnboardingChecklist :: "catalogue \<Rightarrow> ident \<Rightarrow> (bool \<times> bool \<times> bool) result" where
  "computeOnboardingChecklist s merchantId =
     andThen (found MERCHANT_NOT_FOUND (c_merchants s merchantId)) (\<lambda>r.
     returns (1 \<le> length (filter (\<lambda>b. rb_merchantId b = merchantId \<and> \<not> rb_isDeleted b) (c_branches s)),
       rm_contractStatus r = ''SIGNED'', 2 \<le> submitted_flagships s merchantId))"

definition submitForApprovalCore :: "ident \<Rightarrow> ident \<Rightarrow> ident \<Rightarrow> catalogue \<Rightarrow> catalogue result" where
  "submitForApprovalCore merchantId actorId aid s =
     andThen (found MERCHANT_NOT_FOUND (merchant_of s merchantId)) (\<lambda>(m, r).
     let isResubmit = m_status m = M_PENDING_APPROVAL \<and> rm_onboardingStep r = ''NEEDS_CHANGES'' in
     andThen (guard (m_status m = M_REGISTERED \<or> isResubmit) (REVIEW ALREADY_SUBMITTED)) (\<lambda>_.
     andThen (computeOnboardingChecklist s merchantId) (\<lambda>(b, c, f).
     andThen (guard (b \<and> c \<and> f) (ONBOARDING_GATES_INCOMPLETE None)) (\<lambda>_.
     andThen (update_merchant merchantId (\<lambda>m. m\<lparr>m_status := M_PENDING_APPROVAL\<rparr>)
       (\<lambda>r. r\<lparr>rm_onboardingStep := ''SUBMITTED'', rm_verificationStatus := ''PENDING''\<rparr>) s) (\<lambda>s1.
     andThen (case List.find (\<lambda>a. ap_type a = MERCHANT_ONBOARDING \<and> ap_referenceId a = merchantId) (c_approvals s1) of
                Some a \<Rightarrow> returns (update_approval (ap_id a) (\<lambda>a. (unclaim a)\<lparr>ap_status := A_PENDING, ap_actionedAt := None,
                            ap_comment := ''Merchant resubmitted for onboarding approval''\<rparr>) s1)
              | None \<Rightarrow> insert_approval (new_approval aid MERCHANT_ONBOARDING merchantId
                          ''Merchant submitted for onboarding approval'') s1) (\<lambda>s2.
     returns (audit_event merchantId
       (if isResubmit then ''MERCHANT_RESUBMITTED'' else ''MERCHANT_SUBMITTED_FOR_APPROVAL'') actorId s2)))))))"

text \<open>Request changes and reject: what they read, then what they write.\<close>

definition onboarding_check :: "ident \<Rightarrow> catalogue \<Rightarrow> ident result" where
  "onboarding_check i s =
     andThen (found (REVIEW APPROVAL_NOT_FOUND) (approval_by_id s i)) (\<lambda>a.
     andThen (guard (ap_type a = MERCHANT_ONBOARDING \<and> actionable a) (REVIEW APPROVAL_NOT_ACTIONABLE)) (\<lambda>_.
     andThen (guard (case merchants (c_db s) (ap_referenceId a) of None \<Rightarrow> False | Some m \<Rightarrow> m_status m \<noteq> M_ACTIVE)
       (REVIEW APPROVAL_NOT_ACTIONABLE)) (\<lambda>_. returns (ap_referenceId a))))"

definition requestChanges :: "time \<Rightarrow> ident \<Rightarrow> ident \<Rightarrow> string \<Rightarrow> catalogue \<Rightarrow> catalogue result" where
  "requestChanges now i adminId reason s =
     andThen (onboarding_check i s) (\<lambda>merchantId.
     andThen (update_merchant merchantId id (set_step ''NEEDS_CHANGES'')
       (update_approval i (decided now adminId A_CHANGES_REQUESTED (Some reason)) s)) (\<lambda>s1.
     returns (audit_event merchantId ''MERCHANT_CHANGES_REQUESTED'' adminId s1)))"

definition reject_commit :: "time \<Rightarrow> ident \<Rightarrow> ident \<Rightarrow> string \<Rightarrow> ident \<Rightarrow> catalogue \<Rightarrow> catalogue result" where
  "reject_commit now i adminId reason merchantId s =
     andThen (update_merchant merchantId (\<lambda>m. m\<lparr>m_status := M_INACTIVE\<rparr>)
       (\<lambda>r. r\<lparr>rm_onboardingStep := ''REJECTED'', rm_verificationStatus := ''REJECTED''\<rparr>)
       (update_approval i (decided now adminId A_REJECTED (Some reason)) s)) (\<lambda>s1.
     returns (audit_event merchantId ''MERCHANT_APPROVAL_REJECTED'' adminId s1))"

definition rejectApproval :: "time \<Rightarrow> ident \<Rightarrow> ident \<Rightarrow> string \<Rightarrow> catalogue \<Rightarrow> catalogue result" where
  "rejectApproval now i adminId reason s =
     andThen (onboarding_check i s) (\<lambda>merchantId. reject_commit now i adminId reason merchantId s)"

definition isBranchLocationConfirmed :: "review_branch \<Rightarrow> bool" where
  "isBranchLocationConfirmed b \<longleftrightarrow> location_confirmed (rb_locationConfidence b)"

definition go_live_check :: "ident \<Rightarrow> review_merchant \<Rightarrow> catalogue \<Rightarrow> unit result" where
  "go_live_check merchantId r s =
     (let branch_created = 1 \<le> length (filter (\<lambda>b. rb_merchantId b = merchantId) (c_branches s));
          contract_signed = rm_contractStatus r = ''SIGNED'';
          rmv_configured = 2 \<le> submitted_flagships s merchantId in
      andThen (guard (branch_created \<and> contract_signed \<and> rmv_configured)
        (ONBOARDING_GATES_INCOMPLETE (Some (branch_created, contract_signed, rmv_configured)))) (\<lambda>_.
      andThen (found (ONBOARDING_GATES_INCOMPLETE (Some (False, contract_signed, rmv_configured)))
        (List.find (\<lambda>b. rb_merchantId b = merchantId \<and> rb_isMainBranch b \<and> rb_isActive b) (c_branches s))) (\<lambda>main.
      guard (isBranchLocationConfirmed main) (REVIEW MAIN_BRANCH_LOCATION_UNCONFIRMED))))"

definition approved_row :: "time \<Rightarrow> ident \<Rightarrow> life_voucher \<Rightarrow> life_voucher" where
  "approved_row now adminId v = v\<lparr>v_approvalStatus := A_APPROVED, lv_approvedBy := Some adminId, lv_approvedAt := Some now\<rparr>"

text \<open>The vouchers of a merchant that goes live: the submitted flagships are approved and activated, the approved custom
  vouchers that were waiting are activated.\<close>

definition activate_vouchers :: "time \<Rightarrow> ident \<Rightarrow> ident \<Rightarrow> catalogue \<Rightarrow> catalogue" where
  "activate_vouchers now adminId merchantId s =
     update_vouchers (\<lambda>v. v_merchantId v = merchantId \<and> \<not> lv_isRmv v \<and> v_approvalStatus v = A_APPROVED \<and>
         v_status v = V_PENDING_APPROVAL) (\<lambda>v. v\<lparr>v_status := V_ACTIVE\<rparr>)
       (update_vouchers (\<lambda>v. v_merchantId v = merchantId \<and> lv_isRmv v \<and> v_status v \<in> {V_PENDING_APPROVAL, V_ACTIVE})
         (\<lambda>v. (approved_row now adminId v)\<lparr>v_status := V_ACTIVE\<rparr>) s)"

definition go_live :: "time \<Rightarrow> ident \<Rightarrow> ident \<Rightarrow> ident \<Rightarrow> catalogue \<Rightarrow> catalogue result" where
  "go_live now i adminId merchantId s =
     andThen (update_merchant merchantId (\<lambda>m. m\<lparr>m_status := M_ACTIVE\<rparr>)
       (\<lambda>r. r\<lparr>rm_onboardingStep := ''LIVE'', rm_verificationStatus := ''VERIFIED''\<rparr>) s) (\<lambda>s1.
     returns (audit_event merchantId ''MERCHANT_GO_LIVE'' adminId
       (audit_event merchantId ''MERCHANT_APPROVAL_APPROVED'' adminId
         (update_approval i (decided now adminId A_APPROVED None) (activate_vouchers now adminId merchantId s1)))))"

definition approveApproval :: "time \<Rightarrow> ident \<Rightarrow> ident \<Rightarrow> catalogue \<Rightarrow> catalogue result" where
  "approveApproval now i adminId s =
     andThen (found (REVIEW APPROVAL_NOT_FOUND) (approval_by_id s i)) (\<lambda>a.
     andThen (guard (ap_type a = MERCHANT_ONBOARDING) (REVIEW APPROVAL_NOT_ACTIONABLE)) (\<lambda>_.
     andThen (found (REVIEW APPROVAL_NOT_ACTIONABLE) (merchant_of s (ap_referenceId a))) (\<lambda>(m, r).
     if m_status m = M_ACTIVE then returns s
     else andThen (guard (\<not> rm_isTestData r) (REVIEW APPROVAL_NOT_ACTIONABLE)) (\<lambda>_.
          andThen (guard (actionable a) (REVIEW APPROVAL_NOT_ACTIONABLE)) (\<lambda>_.
          andThen (go_live_check (ap_referenceId a) r s) (\<lambda>_.
          go_live now i adminId (ap_referenceId a) s))))))"

section \<open>The voucher lane\<close>

definition isFlagshipLive :: "catalogue \<Rightarrow> ident \<Rightarrow> bool" where
  "isFlagshipLive s merchantId \<longleftrightarrow>
     count_vouchers s (\<lambda>v. v_merchantId v = merchantId \<and> lv_isRmv v \<and> v_status v \<noteq> V_ACTIVE) = 0"

definition merchant_live :: "catalogue \<Rightarrow> ident \<Rightarrow> bool" where
  "merchant_live s merchantId \<longleftrightarrow> map_option m_status (merchants (c_db s) merchantId) = Some M_ACTIVE"

text \<open>What the three decisions check: the approval, the voucher and that the voucher is genuinely submitted.\<close>

definition voucher_review :: "ident \<Rightarrow> catalogue \<Rightarrow> life_voucher result" where
  "voucher_review i s =
     andThen (found (REVIEW APPROVAL_NOT_FOUND) (approval_by_id s i)) (\<lambda>a.
     andThen (guard (ap_type a = VOUCHER) (REVIEW APPROVAL_NOT_ACTIONABLE)) (\<lambda>_.
     andThen (guard (actionable a) (REVIEW APPROVAL_NOT_ACTIONABLE)) (\<lambda>_.
     andThen (found VOUCHER_NOT_FOUND
       (List.find (\<lambda>v. lv_id v = ap_referenceId a \<and> \<not> lv_isRmv v) (c_vouchers s))) (\<lambda>v.
     andThen (guard (v_status v = V_PENDING_APPROVAL) (REVIEW VOUCHER_NOT_ACTIONABLE)) (\<lambda>_. returns v)))))"

definition approveVoucher :: "time \<Rightarrow> ident \<Rightarrow> ident \<Rightarrow> catalogue \<Rightarrow> catalogue result" where
  "approveVoucher now i adminId s =
     andThen (voucher_review i s) (\<lambda>v.
     let goLive = merchant_live s (v_merchantId v) \<and> isFlagshipLive s (v_merchantId v) in
     andThen (update_voucher_row (lv_id v)
       (\<lambda>v. if goLive then (approved_row now adminId v)\<lparr>v_status := V_ACTIVE\<rparr> else approved_row now adminId v) s) (\<lambda>s1.
     returns (audit_event (v_merchantId v) ''VOUCHER_APPROVED'' adminId
       (update_approval i (decided now adminId A_APPROVED None) s1))))"

definition rejectVoucher :: "time \<Rightarrow> ident \<Rightarrow> ident \<Rightarrow> string \<Rightarrow> catalogue \<Rightarrow> catalogue result" where
  "rejectVoucher now i adminId reason s =
     andThen (voucher_review i s) (\<lambda>v.
     andThen (update_voucher_row (lv_id v) (\<lambda>v. v\<lparr>v_status := V_INACTIVE, v_approvalStatus := A_REJECTED\<rparr>) s) (\<lambda>s1.
     returns (audit_event (v_merchantId v) ''VOUCHER_REJECTED'' adminId
       (update_approval i (decided now adminId A_REJECTED (Some reason)) s1))))"

definition string_fields :: "bag \<Rightarrow> string list \<Rightarrow> bag" where
  "string_fields b ks = concat (map (\<lambda>k. case string_member b k of None \<Rightarrow> [] | Some x \<Rightarrow> [(k, JStr x)]) ks)"

definition buildAdminProposed :: "bag \<Rightarrow> bag" where
  "buildAdminProposed proposed =
     string_fields proposed [''title'', ''description'', ''terms'', ''imageUrl''] @
     (case map_of proposed ''estimatedSaving'' of
        None \<Rightarrow> []
      | Some x \<Rightarrow> if positive_number x \<and> pence_of x < SAVING_COLUMN_MAX
                 then [(''estimatedSaving'', of_pence (pence_of x))] else [])"

definition concierge_bag :: "bag option \<Rightarrow> string \<Rightarrow> bag \<Rightarrow> bag" where
  "concierge_bag proposed note current =
     (let adminProposed = (case proposed of None \<Rightarrow> [] | Some p \<Rightarrow> buildAdminProposed p);
          kept = AList.delete ''adminProposed'' current in
      AList.update ''adminNote'' (JStr note)
        (if adminProposed = [] then kept else AList.update ''adminProposed'' (JObj adminProposed) kept))"

definition requestVoucherChanges ::
  "time \<Rightarrow> ident \<Rightarrow> ident \<Rightarrow> bag option \<Rightarrow> string \<Rightarrow> catalogue \<Rightarrow> catalogue result" where
  "requestVoucherChanges now i adminId proposed note s =
     andThen (voucher_review i s) (\<lambda>v.
     let merged = concierge_bag proposed note (as_bag (lv_merchantFields v)) in
     andThen (update_voucher_row (lv_id v) (\<lambda>v. v\<lparr>v_status := V_DRAFT, v_approvalStatus := A_CHANGES_REQUESTED,
       lv_merchantFields := JObj merged\<rparr>) s) (\<lambda>s1.
     returns (audit_event (v_merchantId v) ''VOUCHER_CHANGES_REQUESTED'' adminId
       (update_approval i (decided now adminId A_CHANGES_REQUESTED (Some note)) s1))))"

section \<open>Staged voucher edits\<close>

definition edit_review :: "ident \<Rightarrow> catalogue \<Rightarrow> voucher_edit result" where
  "edit_review i s =
     andThen (found (REVIEW APPROVAL_NOT_FOUND) (approval_by_id s i)) (\<lambda>a.
     andThen (guard (ap_type a = VOUCHER_EDIT) (REVIEW APPROVAL_NOT_ACTIONABLE)) (\<lambda>_.
     andThen (guard (ap_status a = A_PENDING) (REVIEW APPROVAL_NOT_ACTIONABLE)) (\<lambda>_.
     andThen (found (REVIEW PENDING_EDIT_NOT_FOUND) (List.find (\<lambda>e. ve_id e = ap_referenceId a) (c_edits s))) (\<lambda>e.
     andThen (guard (ve_status e = A_PENDING) (REVIEW PENDING_EDIT_NOT_ACTIONABLE)) (\<lambda>_. returns e)))))"

definition buildVoucherApplied :: "bag \<Rightarrow> promoted_columns result" where
  "buildVoucherApplied proposed =
     (let title = string_member proposed ''title'' in
      andThen (case map_of proposed ''estimatedSaving'' of
                 None \<Rightarrow> returns None
               | Some x \<Rightarrow> andThen (assertSavingSane x) (\<lambda>_. andThen (assertSavingFitsColumn x) (\<lambda>_.
                            returns (Some (pence_of x))))) (\<lambda>saving.
      returns \<lparr>pr_title = (case title of None \<Rightarrow> None | Some t \<Rightarrow> if js_trim t = '''' then None else Some t),
        pr_description = string_member proposed ''description'', pr_terms = string_member proposed ''terms'',
        pr_imageUrl = string_member proposed ''imageUrl'', pr_estimatedSaving = saving\<rparr>))"

definition apply_edit :: "voucher_edit \<Rightarrow> catalogue \<Rightarrow> catalogue result" where
  "apply_edit e s =
     andThen (found VOUCHER_NOT_FOUND (voucher_by_id s (ve_voucherId e))) (\<lambda>v.
     if ve_kind e = END then
       andThen (guard (\<not> (lv_isRmv v \<or> lv_isMandatory v)) (CATALOGUE VOUCHER_EDIT_NOT_ALLOWED)) (\<lambda>_.
       andThen (guard (v_status v = V_ACTIVE) (CATALOGUE VOUCHER_EDIT_NOT_ALLOWED)) (\<lambda>_.
       update_voucher_row (lv_id v) (\<lambda>v. v\<lparr>v_status := V_INACTIVE\<rparr>) s))
     else
       andThen (guard (lv_isRmv v) (CATALOGUE VOUCHER_EDIT_NOT_ALLOWED)) (\<lambda>_.
       andThen (guard (v_status v = V_ACTIVE) (CATALOGUE VOUCHER_EDIT_NOT_ALLOWED)) (\<lambda>_.
       andThen (buildVoucherApplied (ve_proposedChanges e)) (\<lambda>p.
       update_voucher_row (lv_id v) (with_columns p) s))))"

definition approveEdit :: "time \<Rightarrow> ident \<Rightarrow> ident \<Rightarrow> catalogue \<Rightarrow> catalogue result" where
  "approveEdit now i adminId s =
     andThen (edit_review i s) (\<lambda>e.
     andThen (apply_edit e s) (\<lambda>s1.
     returns (audit_event (ve_merchantId e) ''VOUCHER_EDIT_APPROVED'' adminId
       (update_approval i (decided now adminId A_APPROVED None)
         (update_edit (ve_id e) (\<lambda>e. e\<lparr>ve_status := A_APPROVED, ve_reviewedBy := Some adminId\<rparr>) s1)))))"

definition rejectEdit :: "time \<Rightarrow> ident \<Rightarrow> ident \<Rightarrow> string \<Rightarrow> catalogue \<Rightarrow> catalogue result" where
  "rejectEdit now i adminId reason s =
     andThen (edit_review i s) (\<lambda>e.
     returns (audit_event (ve_merchantId e) ''VOUCHER_EDIT_REJECTED'' adminId
       (update_approval i (decided now adminId A_REJECTED (Some reason))
         (update_edit (ve_id e) (\<lambda>e. e\<lparr>ve_status := A_REJECTED, ve_reviewedBy := Some adminId\<rparr>) s))))"

section \<open>Suspension\<close>

definition inflight :: "ident \<Rightarrow> catalogue \<Rightarrow> redemption \<Rightarrow> bool" where
  "inflight merchantId s r \<longleftrightarrow> \<not> r_isValidated r \<and>
     (case voucher_by_id s (r_voucherId r) of
        None \<Rightarrow> False | Some v \<Rightarrow> v_merchantId v = merchantId \<and> v_type v \<notin> {TIME_LIMITED, REUSABLE})"

definition refund_one :: "redemption \<Rightarrow> db \<Rightarrow> db" where
  "refund_one r d =
     (if list_ex (\<lambda>r'. r_userId r' = r_userId r \<and> r_voucherId r' = r_voucherId r \<and> r_redeemedAt r < r_redeemedAt r')
           (redemptions d) then d
      else d\<lparr>cycleStates := (cycleStates d)((r_userId r, r_voucherId r) :=
             map_option (\<lambda>c. c\<lparr>isRedeemedInCurrentCycle := False\<rparr>) (cycleStates d (r_userId r, r_voucherId r)))\<rparr>)"

definition refundInflightCycles :: "ident \<Rightarrow> catalogue \<Rightarrow> catalogue" where
  "refundInflightCycles merchantId s =
     s\<lparr>c_db := fold refund_one (filter (inflight merchantId s) (redemptions (c_db s))) (c_db s)\<rparr>"

definition suspendMerchant :: "ident \<Rightarrow> ident \<Rightarrow> catalogue \<Rightarrow> catalogue result" where
  "suspendMerchant adminId merchantId s =
     andThen (found MERCHANT_NOT_FOUND (merchant_of s merchantId)) (\<lambda>(m, r).
     if m_status m = M_SUSPENDED then returns s
     else andThen (update_merchant merchantId (\<lambda>m. m\<lparr>m_status := M_SUSPENDED\<rparr>) (set_step ''SUSPENDED'') s) (\<lambda>s1.
          returns (refundInflightCycles merchantId (audit_event merchantId ''MERCHANT_SUSPENDED'' adminId s1))))"

definition reactivateMerchant :: "ident \<Rightarrow> ident \<Rightarrow> catalogue \<Rightarrow> catalogue result" where
  "reactivateMerchant adminId merchantId s =
     andThen (found MERCHANT_NOT_FOUND (merchant_of s merchantId)) (\<lambda>(m, r).
     if m_status m = M_ACTIVE then returns s
     else andThen (guard (m_status m = M_SUSPENDED) (REVIEW MERCHANT_NOT_SUSPENDED)) (\<lambda>_.
          andThen (update_merchant merchantId (\<lambda>m. m\<lparr>m_status := M_ACTIVE\<rparr>) (set_step ''LIVE'') s) (\<lambda>s1.
          returns (audit_event merchantId ''MERCHANT_REACTIVATED'' adminId s1))))"

end
