(* ===== verification/Lifecycle.thy ===== *)
theory Lifecycle
  imports Review
begin

text \<open>
  The voucher lifecycle as a whole: every handler of \<open>Catalogue\<close>, \<open>Flagship\<close> and \<open>Review\<close> is a step; \<open>lifecycle\<close> is
  the state machine of one voucher that the handlers are meant to implement, and \<open>step_refines\<close> shows that they do.
  What holds of reachable catalogues is then proved on the state machine.
\<close>

section \<open>Well-formed rows\<close>

definition windows_valid :: "life_voucher \<Rightarrow> bool" where
  "windows_valid v \<longleftrightarrow> validateAvailabilityWindows (v_type v) (v_availabilityWindows v) = Inr () \<and>
     list_all (\<lambda>w. 0 \<le> aw_dayOfWeek w \<and> aw_dayOfWeek w < 7) (v_availabilityWindows v)"

definition draft_ok :: "life_voucher \<Rightarrow> bool" where
  "draft_ok v \<longleftrightarrow> isStrictSubmitContract (lv_merchantFields v) \<and> windows_valid v \<and>
     (lv_isRmv v \<longrightarrow> v_cooldownSeconds v = None \<and> v_availabilityWindows v = [])"

definition offer_complete :: "life_voucher \<Rightarrow> bool" where
  "offer_complete v \<longleftrightarrow> complete_voucher (effective_voucher_of v) \<and>
     (lv_isRmv v \<or> v_type v \<noteq> TIME_LIMITED \<or> v_availabilityWindows v \<noteq> [])"

definition row_ok :: "life_voucher \<Rightarrow> bool" where
  "row_ok v \<longleftrightarrow> draft_ok v \<and>
     (v_approvalStatus v = A_APPROVED \<longrightarrow> lv_approvedBy v \<noteq> None) \<and>
     (v_status v = V_ACTIVE \<longrightarrow> v_approvalStatus v = A_APPROVED) \<and>
     (v_status v = V_DRAFT \<longrightarrow> v_approvalStatus v \<noteq> A_APPROVED) \<and>
     (v_status v \<in> {V_PENDING_APPROVAL, V_ACTIVE} \<longrightarrow> offer_complete v)"

definition catalogue_ok :: "catalogue \<Rightarrow> bool" where
  "catalogue_ok s \<longleftrightarrow> distinct (map lv_id (c_vouchers s)) \<and> list_all row_ok (c_vouchers s)"

section \<open>The state machine of one voucher\<close>

definition same_identity :: "life_voucher \<Rightarrow> life_voucher \<Rightarrow> bool" where
  "same_identity v v' \<longleftrightarrow> lv_id v' = lv_id v \<and> v_merchantId v' = v_merchantId v \<and> lv_isRmv v' = lv_isRmv v \<and>
     lv_isMandatory v' = lv_isMandatory v"

definition same_review :: "life_voucher \<Rightarrow> life_voucher \<Rightarrow> bool" where
  "same_review v v' \<longleftrightarrow> v_approvalStatus v' = v_approvalStatus v \<and> lv_approvedBy v' = lv_approvedBy v"

text \<open>What a member is shown and held to.\<close>

definition same_offer :: "life_voucher \<Rightarrow> life_voucher \<Rightarrow> bool" where
  "same_offer v v' \<longleftrightarrow> v_type v' = v_type v \<and> v_title v' = v_title v \<and> v_estimatedSaving v' = v_estimatedSaving v \<and>
     v_expiryDate v' = v_expiryDate v \<and> v_cooldownSeconds v' = v_cooldownSeconds v \<and>
     v_availabilityWindows v' = v_availabilityWindows v \<and> lv_description v' = lv_description v \<and>
     lv_terms v' = lv_terms v \<and> lv_imageUrl v' = lv_imageUrl v"

text \<open>\<open>flagship_live\<close>: the merchant is live with all its flagships; \<open>goes_live\<close>: the merchant goes live in this step.\<close>

inductive lifecycle :: "(ident \<Rightarrow> bool) \<Rightarrow> (ident \<Rightarrow> bool) \<Rightarrow> life_voucher \<Rightarrow> life_voucher \<Rightarrow> bool"
  for flagship_live goes_live where
  stutter: "lifecycle flagship_live goes_live v v"
| edit: "\<lbrakk>v_status v = V_DRAFT; v_status v' = V_DRAFT; same_identity v v'; same_review v v'; draft_ok v'\<rbrakk>
    \<Longrightarrow> lifecycle flagship_live goes_live v v'"
| submit: "\<lbrakk>v_status v = V_DRAFT; v_status v' = V_PENDING_APPROVAL; v_approvalStatus v' \<noteq> A_APPROVED;
     same_identity v v'; draft_ok v'; offer_complete v'\<rbrakk> \<Longrightarrow> lifecycle flagship_live goes_live v v'"
| withdraw: "\<lbrakk>v_status v = V_PENDING_APPROVAL; v_approvalStatus v \<noteq> A_APPROVED; \<not> lv_isRmv v\<rbrakk>
    \<Longrightarrow> lifecycle flagship_live goes_live v (v\<lparr>v_status := V_DRAFT\<rparr>)"
| approve_waiting: "\<lbrakk>v_status v = V_PENDING_APPROVAL; \<not> lv_isRmv v\<rbrakk>
    \<Longrightarrow> lifecycle flagship_live goes_live v (approved_row now adminId v)"
| approve_live: "\<lbrakk>v_status v = V_PENDING_APPROVAL; \<not> lv_isRmv v; flagship_live (v_merchantId v)\<rbrakk>
    \<Longrightarrow> lifecycle flagship_live goes_live v ((approved_row now adminId v)\<lparr>v_status := V_ACTIVE\<rparr>)"
| reject: "\<lbrakk>v_status v = V_PENDING_APPROVAL; \<not> lv_isRmv v\<rbrakk>
    \<Longrightarrow> lifecycle flagship_live goes_live v (v\<lparr>v_status := V_INACTIVE, v_approvalStatus := A_REJECTED\<rparr>)"
| request_changes: "\<lbrakk>v_status v = V_PENDING_APPROVAL; \<not> lv_isRmv v; isStrictSubmitContract bag\<rbrakk>
    \<Longrightarrow> lifecycle flagship_live goes_live v (v\<lparr>v_status := V_DRAFT, v_approvalStatus := A_CHANGES_REQUESTED,
          lv_merchantFields := bag\<rparr>)"
| activate: "\<lbrakk>v_status v = V_PENDING_APPROVAL; v_approvalStatus v = A_APPROVED; \<not> lv_isRmv v; goes_live (v_merchantId v)\<rbrakk>
    \<Longrightarrow> lifecycle flagship_live goes_live v (v\<lparr>v_status := V_ACTIVE\<rparr>)"
| activate_flagship: "\<lbrakk>v_status v \<in> {V_PENDING_APPROVAL, V_ACTIVE}; lv_isRmv v; goes_live (v_merchantId v)\<rbrakk>
    \<Longrightarrow> lifecycle flagship_live goes_live v ((approved_row now adminId v)\<lparr>v_status := V_ACTIVE\<rparr>)"
| end_voucher: "\<lbrakk>v_status v = V_ACTIVE; \<not> lv_isRmv v; \<not> lv_isMandatory v\<rbrakk>
    \<Longrightarrow> lifecycle flagship_live goes_live v (v\<lparr>v_status := V_INACTIVE\<rparr>)"
| change_flagship: "\<lbrakk>v_status v = V_ACTIVE; lv_isRmv v; offer_complete (with_columns p v)\<rbrakk>
    \<Longrightarrow> lifecycle flagship_live goes_live v (with_columns p v)"
| discard_flagship: "\<lbrakk>v_status v = V_DRAFT; lv_isRmv v\<rbrakk>
    \<Longrightarrow> lifecycle flagship_live goes_live v (v\<lparr>v_status := V_INACTIVE\<rparr>)"

definition born :: "life_voucher \<Rightarrow> bool" where
  "born v \<longleftrightarrow> v_status v = V_DRAFT \<and> v_approvalStatus v = A_PENDING \<and> draft_ok v"

text \<open>A step of the whole catalogue: every voucher moves by the machine, new ones are drafts, and only custom drafts
  disappear.\<close>

definition catalogue_step ::
  "(ident \<Rightarrow> bool) \<Rightarrow> (ident \<Rightarrow> bool) \<Rightarrow> life_voucher list \<Rightarrow> life_voucher list \<Rightarrow> bool" where
  "catalogue_step fl gl vs vs' \<longleftrightarrow> distinct (map lv_id vs') \<and>
     (\<forall>v' \<in> set vs'. (born v' \<and> lv_id v' \<notin> lv_id ` set vs) \<or> (\<exists>v \<in> set vs. lifecycle fl gl v v')) \<and>
     (\<forall>v \<in> set vs. (v_status v = V_DRAFT \<and> \<not> lv_isRmv v) \<or> (\<exists>v' \<in> set vs'. lifecycle fl gl v v'))"

section \<open>Facts about one voucher\<close>

lemma approved_row_simps [simp]:
  "v_status (approved_row now a v) = v_status v" "v_approvalStatus (approved_row now a v) = A_APPROVED"
  "lv_approvedBy (approved_row now a v) = Some a" "lv_id (approved_row now a v) = lv_id v"
  "lv_isRmv (approved_row now a v) = lv_isRmv v" "lv_isMandatory (approved_row now a v) = lv_isMandatory v"
  "v_merchantId (approved_row now a v) = v_merchantId v"
  by (simp_all add: approved_row_def)

lemma with_columns_simps [simp]:
  "v_status (with_columns p v) = v_status v" "v_approvalStatus (with_columns p v) = v_approvalStatus v"
  "lv_approvedBy (with_columns p v) = lv_approvedBy v" "lv_id (with_columns p v) = lv_id v"
  "lv_isRmv (with_columns p v) = lv_isRmv v" "lv_isMandatory (with_columns p v) = lv_isMandatory v"
  "v_merchantId (with_columns p v) = v_merchantId v" "v_type (with_columns p v) = v_type v"
  "lv_merchantFields (with_columns p v) = lv_merchantFields v" "v_cooldownSeconds (with_columns p v) = v_cooldownSeconds v"
  "v_availabilityWindows (with_columns p v) = v_availabilityWindows v"
  by (simp_all add: with_columns_def)

text \<open>What \<open>draft_ok\<close> and \<open>offer_complete\<close> do not look at.\<close>

lemma draft_ok_simps [simp]:
  "draft_ok (v\<lparr>v_status := x\<rparr>) = draft_ok v" "draft_ok (v\<lparr>v_approvalStatus := y\<rparr>) = draft_ok v"
  "draft_ok (v\<lparr>lv_publishedAt := z\<rparr>) = draft_ok v" "draft_ok (approved_row now a v) = draft_ok v"
  "draft_ok (with_columns p v) = draft_ok v"
  by (simp_all add: draft_ok_def windows_valid_def approved_row_def)

lemma offer_complete_simps [simp]:
  "offer_complete (v\<lparr>v_status := x\<rparr>) = offer_complete v" "offer_complete (v\<lparr>v_approvalStatus := y\<rparr>) = offer_complete v"
  "offer_complete (v\<lparr>lv_publishedAt := z\<rparr>) = offer_complete v"
  "offer_complete (approved_row now a v) = offer_complete v"
  by (simp_all add: offer_complete_def effective_voucher_of_def approved_row_def)

lemma lifecycle_identity: "lifecycle fl gl v v' \<Longrightarrow> same_identity v v'"
  by (induction rule: lifecycle.induct) (auto simp: same_identity_def)

lemma lifecycle_row_ok: "lifecycle fl gl v v' \<Longrightarrow> row_ok v \<Longrightarrow> row_ok v'"
proof (induction rule: lifecycle.induct)
  case (request_changes v bag)
  then show ?case by (auto simp: row_ok_def draft_ok_def windows_valid_def)
qed (auto simp: row_ok_def same_review_def)

lemma born_row_ok: "born v \<Longrightarrow> row_ok v"
  by (simp add: born_def row_ok_def)

lemma lifecycle_inactive: "lifecycle fl gl v v' \<Longrightarrow> v_status v = V_INACTIVE \<Longrightarrow> v' = v"
  by (induction rule: lifecycle.induct) auto

lemma lifecycle_frozen:
  "lifecycle fl gl v v' \<Longrightarrow> v_status v \<noteq> V_DRAFT \<Longrightarrow> \<not> lv_isRmv v \<Longrightarrow> same_offer v v'"
  by (induction rule: lifecycle.induct) (auto simp: same_offer_def approved_row_def)

lemma lifecycle_activation:
  "lifecycle fl gl v v' \<Longrightarrow> v_status v' = V_ACTIVE \<Longrightarrow> v_status v \<noteq> V_ACTIVE \<Longrightarrow>
     v_status v = V_PENDING_APPROVAL \<and>
     (fl (v_merchantId v) \<and> \<not> lv_isRmv v \<or> gl (v_merchantId v) \<and> (lv_isRmv v \<or> v_approvalStatus v = A_APPROVED))"
  by (induction rule: lifecycle.induct) auto

lemma catalogue_step_ok:
  "catalogue_step fl gl vs vs' \<Longrightarrow> list_all row_ok vs \<Longrightarrow> distinct (map lv_id vs') \<and> list_all row_ok vs'"
  unfolding catalogue_step_def list_all_iff using lifecycle_row_ok born_row_ok by blast

section \<open>Writes as catalogue steps\<close>

lemma catalogue_step_refl: "distinct (map lv_id vs) \<Longrightarrow> catalogue_step fl gl vs vs"
  by (auto simp: catalogue_step_def intro: stutter)

text \<open>The general shape: the rows are mapped and drafts are appended.\<close>

lemma catalogue_step_map:
  assumes "distinct (map lv_id (map g vs @ ns))" "\<And>v. v \<in> set vs \<Longrightarrow> lifecycle fl gl v (g v)"
    and "\<And>n. n \<in> set ns \<Longrightarrow> born n"
  shows "catalogue_step fl gl vs (map g vs @ ns)"
proof -
  have ids: "lv_id (g v) = lv_id v" if "v \<in> set vs" for v
    using lifecycle_identity[OF assms(2)[OF that]] by (simp add: same_identity_def)
  have fresh: "lv_id n \<notin> lv_id ` set vs" if "n \<in> set ns" for n
    using assms(1) that ids by (auto simp: image_iff)
  have "\<forall>v' \<in> set (map g vs @ ns). (born v' \<and> lv_id v' \<notin> lv_id ` set vs) \<or> (\<exists>v \<in> set vs. lifecycle fl gl v v')"
    using assms(2,3) fresh by fastforce
  moreover have "\<forall>v \<in> set vs. \<exists>v' \<in> set (map g vs @ ns). lifecycle fl gl v v'"
    using assms(2) by fastforce
  ultimately show ?thesis unfolding catalogue_step_def using assms(1) by blast
qed

lemma voucher_by_id_Some: "voucher_by_id s i = Some v \<Longrightarrow> v \<in> set (c_vouchers s) \<and> lv_id v = i"
  by (auto simp: voucher_by_id_def dest: find_Some_in)

lemma ids_inj:
  "\<lbrakk>distinct (map lv_id vs); v \<in> set vs; w \<in> set vs; lv_id v = lv_id w\<rbrakk> \<Longrightarrow> v = w"
  by (metis distinct_map inj_onD)

lemma found_is_row:
  assumes "distinct (map lv_id (c_vouchers s))" "v \<in> set (c_vouchers s)"
  shows "voucher_by_id s (lv_id v) = Some v"
  using assms unfolding voucher_by_id_def
  by (cases "List.find (\<lambda>w. lv_id w = lv_id v) (c_vouchers s)")
    (auto simp: find_None_all dest!: find_Some_in intro: ids_inj)

lemma update_row_step:
  assumes "update_voucher_row i f s = Inr s'" "distinct (map lv_id (c_vouchers s))"
    and "\<And>v. \<lbrakk>v \<in> set (c_vouchers s); lv_id v = i; cooldown_check (f v)\<rbrakk> \<Longrightarrow> lifecycle fl gl v (f v)"
  shows "catalogue_step fl gl (c_vouchers s) (c_vouchers s')"
proof -
  let ?g = "\<lambda>v. if lv_id v = i then f v else v"
  obtain v where v: "voucher_by_id s i = Some v" "cooldown_check (f v)"
    and s': "c_vouchers s' = map ?g (c_vouchers s)"
    using assms(1) by (auto simp: update_voucher_row_def split: option.splits if_splits)
  have step: "lifecycle fl gl w (?g w)" if "w \<in> set (c_vouchers s)" for w
  proof (cases "lv_id w = i")
    case True
    then have "w = v" using voucher_by_id_Some[OF v(1)] that assms(2) ids_inj by blast
    then show ?thesis using True that v(2) assms(3) by simp
  qed (simp add: stutter)
  have "lv_id (?g w) = lv_id w" if "w \<in> set (c_vouchers s)" for w
    using lifecycle_identity[OF step[OF that]] by (simp add: same_identity_def)
  then have "map lv_id (map ?g (c_vouchers s) @ []) = map lv_id (c_vouchers s)" by simp
  then have "distinct (map lv_id (map ?g (c_vouchers s) @ []))" by (simp only: assms(2))
  from catalogue_step_map[OF this, of fl gl] step show ?thesis unfolding s' by simp
qed

lemma insert_step:
  assumes "insert_voucher row s = Inr s'" "distinct (map lv_id (c_vouchers s))" "born row"
  shows "catalogue_step fl gl (c_vouchers s) (c_vouchers s')"
proof -
  have "c_vouchers s' = map (\<lambda>v. v) (c_vouchers s) @ [row]" "lv_id row \<notin> lv_id ` set (c_vouchers s)"
    using assms(1) by (auto simp: insert_voucher_def list_ex_iff split: if_splits)
  then show ?thesis
    using catalogue_step_map[of "\<lambda>v. v" "c_vouchers s" "[row]" fl gl] assms(2,3) stutter by auto
qed

lemma insert_voucher_Inr:
  "insert_voucher row s = Inr s' \<longleftrightarrow>
     (\<forall>v \<in> set (c_vouchers s). lv_id v \<noteq> lv_id row \<and> lv_code v \<noteq> lv_code row) \<and> cooldown_check row \<and>
     s' = s\<lparr>c_vouchers := c_vouchers s @ [row]\<rparr>"
  by (auto simp: insert_voucher_def list_ex_iff)

end
