(* ===== verification/Handlers.thy ===== *)
theory Handlers
  imports Lifecycle
begin

text \<open>
  Every request that can touch a voucher, a merchant's review or the review queue, and the theorem that each of them
  moves every voucher by the state machine of \<open>Lifecycle\<close>.

  \<open>handle\<close> is the router: one constructor per route that reaches the catalogue (merchant portal and admin panel), with
  the arguments the route passes on; the identifiers, codes and clock readings a handler draws are arguments too.
  \<open>schema_ok\<close> is what the request schema adds to the types.
\<close>

section \<open>The routes\<close>

datatype request =
    CreateVoucher ident ident string voucher_body
  | UpdateVoucher ident ident voucher_patch
  | SubmitVoucher time ident ident ident
  | DeleteVoucher ident ident
  | WithdrawSubmission time ident ident
  | CreateFlagship ident ident string voucher_type
  | UpdateFlagship ident ident bag
  | SubmitFlagship time ident ident
  | AdminUpdateFlagship ident ident ident bag
  | AdminSubmitFlagship time ident ident ident
  | SetCategory ident ident ident bool "(ident \<times> string) \<times> (ident \<times> string)"
  | RequestChange ident ident ident ident bag string
  | RequestEnd ident ident ident ident string
  | WithdrawEdit time ident ident
  | Claim time ident ident
  | Release ident ident bool
  | SubmitOnboarding ident ident ident
  | RequestChanges time ident ident string
  | RejectMerchant time ident ident string
  | ApproveMerchant time ident ident
  | ApproveVoucher time ident ident
  | RejectVoucher time ident ident string
  | RequestVoucherChanges time ident ident "bag option" string
  | ApproveEdit time ident ident
  | RejectEdit time ident ident string
  | Suspend ident ident
  | Reactivate ident ident

fun handle :: "request \<Rightarrow> catalogue \<Rightarrow> catalogue result" where
  "handle (CreateVoucher a vid code body) s = createVoucher a vid code body s"
| "handle (UpdateVoucher a vid p) s = updateVoucher a vid p s"
| "handle (SubmitVoucher now a vid aid) s = submitVoucher now a vid aid s"
| "handle (DeleteVoucher a vid) s = deleteVoucher a vid s"
| "handle (WithdrawSubmission now a vid) s = withdrawVoucherSubmission now a vid s"
| "handle (CreateFlagship a vid code ty) s = createFlagshipRmvVoucher a vid code ty s"
| "handle (UpdateFlagship a vid b) s = updateRmvVoucher a vid b s"
| "handle (SubmitFlagship now a vid) s = submitRmvVoucher now a vid s"
| "handle (AdminUpdateFlagship m a vid b) s = updateRmvVoucherCore m a vid b s"
| "handle (AdminSubmitFlagship now m a vid) s = submitRmvVoucherCore now m a vid s"
| "handle (SetCategory m a cat confirm fresh) s = setMerchantCategoryCore m a cat confirm fresh s"
| "handle (RequestChange a vid eid aid p reason) s = requestFlagshipVoucherChange a vid eid aid p reason s"
| "handle (RequestEnd a vid eid aid reason) s = requestVoucherEnd a vid eid aid reason s"
| "handle (WithdrawEdit now a eid) s = withdrawVoucherPendingEdit now a eid s"
| "handle (Claim now i a) s = claimApproval now i a s"
| "handle (Release i a super) s = releaseApproval i a super s"
| "handle (SubmitOnboarding m a aid) s = submitForApprovalCore m a aid s"
| "handle (RequestChanges now i a reason) s = requestChanges now i a reason s"
| "handle (RejectMerchant now i a reason) s = rejectApproval now i a reason s"
| "handle (ApproveMerchant now i a) s = approveApproval now i a s"
| "handle (ApproveVoucher now i a) s = approveVoucher now i a s"
| "handle (RejectVoucher now i a reason) s = rejectVoucher now i a reason s"
| "handle (RequestVoucherChanges now i a p note) s = requestVoucherChanges now i a p note s"
| "handle (ApproveEdit now i a) s = approveEdit now i a s"
| "handle (RejectEdit now i a reason) s = rejectEdit now i a reason s"
| "handle (Suspend a m) s = suspendMerchant a m s"
| "handle (Reactivate a m) s = reactivateMerchant a m s"

definition days_in_range :: "availability_window list \<Rightarrow> bool" where
  "days_in_range ws \<longleftrightarrow> list_all (\<lambda>w. 0 \<le> aw_dayOfWeek w \<and> aw_dayOfWeek w < 7) ws"

fun schema_ok :: "request \<Rightarrow> bool" where
  "schema_ok (CreateVoucher a vid code body) \<longleftrightarrow> days_in_range (vb_availabilityWindows body)"
| "schema_ok (UpdateVoucher a vid p) \<longleftrightarrow>
     (case pa_availabilityWindows p of None \<Rightarrow> True | Some ws \<Rightarrow> days_in_range ws)"
| "schema_ok _ \<longleftrightarrow> True"

text \<open>A request either commits or leaves the catalogue as it was.\<close>

definition serve :: "request \<Rightarrow> catalogue \<Rightarrow> catalogue" where
  "serve r s = (if schema_ok r then case handle r s of Inl e \<Rightarrow> s | Inr s' \<Rightarrow> s' else s)"

definition serve_all :: "request list \<Rightarrow> catalogue \<Rightarrow> catalogue" where
  "serve_all rs s = fold serve rs s"

section \<open>Frames\<close>

lemma audit_event_frame [simp]:
  "c_vouchers (audit_event e ev a s) = c_vouchers s" "c_edits (audit_event e ev a s) = c_edits s"
  "c_db (audit_event e ev a s) = c_db s" "c_merchants (audit_event e ev a s) = c_merchants s"
  "c_approvals (audit_event e ev a s) = c_approvals s"
  by (simp_all add: audit_event_def)

lemma update_approval_frame [simp]:
  "c_vouchers (update_approval i f s) = c_vouchers s" "c_edits (update_approval i f s) = c_edits s"
  "c_db (update_approval i f s) = c_db s" "c_merchants (update_approval i f s) = c_merchants s"
  by (simp_all add: update_approval_def)

lemma update_edit_frame [simp]:
  "c_vouchers (update_edit i f s) = c_vouchers s" "c_db (update_edit i f s) = c_db s"
  "c_merchants (update_edit i f s) = c_merchants s" "c_approvals (update_edit i f s) = c_approvals s"
  by (simp_all add: update_edit_def)

lemma insert_approval_frame:
  "insert_approval a s = Inr s' \<Longrightarrow> c_vouchers s' = c_vouchers s \<and> c_edits s' = c_edits s \<and> c_db s' = c_db s \<and>
     c_merchants s' = c_merchants s"
  by (auto simp: insert_approval_def split: if_splits)

lemma update_merchant_frame:
  "update_merchant i f g s = Inr s' \<Longrightarrow> c_vouchers s' = c_vouchers s \<and> c_edits s' = c_edits s \<and>
     c_approvals s' = c_approvals s"
  by (auto simp: update_merchant_def put_merchant_def)

lemma update_voucher_row_frame:
  "update_voucher_row i f s = Inr s' \<Longrightarrow> c_edits s' = c_edits s \<and> c_db s' = c_db s \<and> c_merchants s' = c_merchants s \<and>
     c_approvals s' = c_approvals s"
  by (auto simp: update_voucher_row_def split: option.splits if_splits)

lemma insert_voucher_frame:
  "insert_voucher row s = Inr s' \<Longrightarrow> c_edits s' = c_edits s \<and> c_db s' = c_db s \<and> c_merchants s' = c_merchants s \<and>
     c_approvals s' = c_approvals s"
  by (auto simp: insert_voucher_def split: if_splits)

lemma refundInflight_frame [simp]:
  "c_vouchers (refundInflightCycles m s) = c_vouchers s" "c_edits (refundInflightCycles m s) = c_edits s"
  "c_merchants (refundInflightCycles m s) = c_merchants s" "c_approvals (refundInflightCycles m s) = c_approvals s"
  by (simp_all add: refundInflightCycles_def)

lemmas frames = insert_approval_frame update_merchant_frame update_voucher_row_frame insert_voucher_frame

section \<open>The submission contract survives\<close>

lemma strict_as_bag:
  "isStrictSubmitContract j \<longleftrightarrow> (\<exists>b. j = JObj b \<and> map_of b SUBMIT_CONTRACT_KEY = Some (JStr STRICT_SUBMIT_CONTRACT))"
  by (cases j) (auto simp: isStrictSubmitContract_def)

lemma strict_stamped [simp]: "isStrictSubmitContract (JObj (stampStrictSubmitContract b))"
  by (simp add: strict_as_bag stampStrictSubmitContract_def update_conv)

lemma contract_key_apart [simp]:
  "SUBMIT_CONTRACT_KEY \<noteq> ''adminNote''" "SUBMIT_CONTRACT_KEY \<noteq> ''adminProposed''"
  "''adminNote'' \<noteq> SUBMIT_CONTRACT_KEY" "''adminProposed'' \<noteq> SUBMIT_CONTRACT_KEY"
  by (simp_all add: SUBMIT_CONTRACT_KEY_def)

lemma strict_spread:
  "isStrictSubmitContract j \<Longrightarrow> \<not> has_key SUBMIT_CONTRACT_KEY b \<Longrightarrow> isStrictSubmitContract (JObj (spread (as_bag j) b))"
  by (auto simp: strict_as_bag as_bag_def)

lemma strict_stripAdmin:
  "isStrictSubmitContract j \<Longrightarrow> isStrictSubmitContract (JObj (stripAdminOwnedKeys (as_bag j)))"
  by (auto simp: strict_as_bag as_bag_def stripAdminOwnedKeys_def)

lemma strict_concierge:
  "isStrictSubmitContract j \<Longrightarrow> isStrictSubmitContract (JObj (concierge_bag p note (as_bag j)))"
  by (auto simp: strict_as_bag as_bag_def concierge_bag_def Let_def update_conv delete_conv)

lemma stripped_keys [simp]:
  "\<not> has_key SUBMIT_CONTRACT_KEY (stripCallerOwnedKeys b)" "\<not> has_key SUBMIT_CONTRACT_KEY (stripSubmitContractKey b)"
  by (simp_all add: stripCallerOwnedKeys_def stripSubmitContractKey_def)

lemma structured_stripAdmin: "resolveStructuredBag (JObj (stripAdminOwnedKeys b)) = resolveStructuredBag (JObj b)"
proof -
  have k: "map_of (stripAdminOwnedKeys b) k = map_of b k" if "k \<noteq> ''adminNote''" "k \<noteq> ''adminProposed''" for k
    using that by (simp add: stripAdminOwnedKeys_def)
  have o: "object_member (stripAdminOwnedKeys b) k = object_member b k"
    and t: "string_member (stripAdminOwnedKeys b) k = string_member b k"
    if "k \<noteq> ''adminNote''" "k \<noteq> ''adminProposed''" for k
    using k[OF that] by (simp_all add: object_member_def string_member_def)
  have d: "custom_draft (stripAdminOwnedKeys b) = custom_draft b"
    by (simp add: fun_eq_iff custom_draft_def o t)
  show ?thesis by (simp add: resolveStructuredBag_def d o t split: option.split)
qed

section \<open>The merchant's own steps\<close>

lemma own_voucher_Some:
  "own_voucher s i m r = Some v \<Longrightarrow> v \<in> set (c_vouchers s) \<and> lv_id v = i \<and> v_merchantId v = m \<and> lv_isRmv v = r"
  by (auto simp: own_voucher_def dest!: find_Some_in)

lemma catalogue_ok_row: "catalogue_ok s \<Longrightarrow> v \<in> set (c_vouchers s) \<Longrightarrow> row_ok v"
  by (simp add: catalogue_ok_def list_all_iff)

lemma row_unique:
  "\<lbrakk>catalogue_ok s; v \<in> set (c_vouchers s); w \<in> set (c_vouchers s); lv_id w = lv_id v\<rbrakk> \<Longrightarrow> w = v"
  using ids_inj by (auto simp: catalogue_ok_def)

lemma windows_of_row: "row_ok v \<Longrightarrow> v_availabilityWindows v \<noteq> [] \<Longrightarrow> v_type v = TIME_LIMITED"
  by (auto simp: row_ok_def draft_ok_def windows_valid_def validateAvailabilityWindows_def invalid_windows_def
      split: if_splits)

lemma no_windows_valid [simp]: "validateAvailabilityWindows t [] = Inr ()"
  by (simp add: validateAvailabilityWindows_def)

text \<open>\<open>row_change\<close> lifts what holds of the one row a handler writes.\<close>

lemma row_change:
  assumes "update_voucher_row i f s = Inr s'" "catalogue_ok s" "v \<in> set (c_vouchers s)" "lv_id v = i"
    and "lifecycle fl gl v (f v)"
  shows "catalogue_step fl gl (c_vouchers s) (c_vouchers s') \<and> c_edits s' = c_edits s"
proof
  show "catalogue_step fl gl (c_vouchers s) (c_vouchers s')"
  proof (rule update_row_step[OF assms(1)])
    show "distinct (map lv_id (c_vouchers s))" using assms(2) by (simp add: catalogue_ok_def)
    fix w assume w: "w \<in> set (c_vouchers s)" "lv_id w = i"
    then have "w = v" using row_unique[OF assms(2,3)] assms(4) by simp
    then show "lifecycle fl gl w (f w)" using assms(5) by simp
  qed
qed (use update_voucher_row_frame[OF assms(1)] in simp)

lemma unchanged_step: "catalogue_ok s \<Longrightarrow> c_vouchers s' = c_vouchers s \<Longrightarrow> catalogue_step fl gl (c_vouchers s) (c_vouchers s')"
  by (simp add: catalogue_ok_def catalogue_step_refl)

lemma createVoucher_step:
  assumes "createVoucher a vid code body s = Inr s'" "catalogue_ok s" "days_in_range (vb_availabilityWindows body)"
  shows "catalogue_step fl gl (c_vouchers s) (c_vouchers s') \<and> c_edits s' = c_edits s"
proof -
  obtain m stored s1 where valid: "validateAvailabilityWindows (vb_type body) (vb_availabilityWindows body) = Inr ()"
    and stored: "stored = stampStrictSubmitContract (stripCallerOwnedKeys (vb_merchantFields body))"
    and ins: "insert_voucher (new_custom m vid code body stored) s = Inr s1"
    and s': "c_vouchers s' = c_vouchers s1" "c_edits s' = c_edits s1"
    using assms(1) by (auto simp: createVoucher_def Let_def)
  have "born (new_custom m vid code body stored)"
    using valid assms(3) by (simp add: born_def draft_ok_def windows_valid_def new_custom_def stored days_in_range_def)
  then show ?thesis
    using insert_step[OF ins] insert_voucher_frame[OF ins] assms(2) s' by (simp add: catalogue_ok_def)
qed

lemma check_patch_Inr:
  "check_patch p v = Inr merged \<Longrightarrow> merged = merge_bag p v \<and>
     (case pa_availabilityWindows p of
        Some ws \<Rightarrow> validateAvailabilityWindows (effective_type p v) ws = Inr ()
      | None \<Rightarrow> effective_type p v = TIME_LIMITED \<or> v_availabilityWindows v = [])"
  by (auto simp: check_patch_def Let_def invalid_windows_def split: option.splits if_splits)

lemma patched_draft_ok:
  assumes "check_patch p v = Inr merged" "row_ok v" "\<not> lv_isRmv v"
    and "case pa_availabilityWindows p of None \<Rightarrow> True | Some ws \<Rightarrow> days_in_range ws"
  shows "draft_ok (apply_patch merged v)"
proof -
  note m = check_patch_Inr[OF assms(1)]
  have v: "isStrictSubmitContract (lv_merchantFields v)" "windows_valid v" using assms(2) by (simp_all add: row_ok_def draft_ok_def)
  have "isStrictSubmitContract (lv_merchantFields (apply_patch merged v))"
    using m v(1) strict_spread by (auto simp: apply_patch_def merge_bag_def split: option.splits)
  moreover have "windows_valid (apply_patch merged v)"
  proof (cases "pa_availabilityWindows p")
    case None
    then have "effective_type p v = TIME_LIMITED \<or> v_availabilityWindows v = []" using m by simp
    then have "v_availabilityWindows v = [] \<or> effective_type p v = v_type v" using windows_of_row[OF assms(2)] by metis
    then show ?thesis using None m v(2) by (auto simp: windows_valid_def apply_patch_def merge_bag_def effective_type_def)
  next
    case (Some ws)
    then show ?thesis using m assms(4)
      by (simp add: windows_valid_def apply_patch_def merge_bag_def effective_type_def days_in_range_def)
  qed
  ultimately show ?thesis using assms(3) by (simp add: draft_ok_def apply_patch_def)
qed

lemma updateVoucher_step:
  assumes "updateVoucher a vid p s = Inr s'" "catalogue_ok s"
    and "case pa_availabilityWindows p of None \<Rightarrow> True | Some ws \<Rightarrow> days_in_range ws"
  shows "catalogue_step fl gl (c_vouchers s) (c_vouchers s') \<and> c_edits s' = c_edits s"
proof -
  obtain m v merged s1 where v: "own_voucher s vid m False = Some v" "v_status v = V_DRAFT"
    and merged: "check_patch p v = Inr merged"
    and upd: "update_voucher_row vid (apply_patch merged) s = Inr s1"
    and s': "c_vouchers s' = c_vouchers s1" "c_edits s' = c_edits s1"
    using assms(1) by (auto simp: updateVoucher_def update_check_def update_commit_def)
  note own = own_voucher_Some[OF v(1)]
  have "draft_ok (apply_patch merged v)"
    using patched_draft_ok[OF merged _ _ assms(3)] own catalogue_ok_row[OF assms(2)] by blast
  then have "lifecycle fl gl v (apply_patch merged v)"
    using v(2) by (intro edit) (simp_all add: apply_patch_def same_identity_def same_review_def)
  from row_change[OF upd assms(2) _ _ this] own s' show ?thesis by simp
qed

lemma submitted_complete:
  assumes "assertVoucherSubmittable (effective_voucher_of v) = Inr ()" "isStrictSubmitContract (lv_merchantFields v)"
  shows "complete_voucher (effective_voucher_of (submitted_row now (stripAdminOwnedKeys (as_bag (lv_merchantFields v))) v))"
proof -
  obtain b where b: "lv_merchantFields v = JObj b" using assms(2) by (auto simp: strict_as_bag)
  have s: "isStrictSubmitContract (JObj (stripAdminOwnedKeys b))" using strict_stripAdmin[OF assms(2)] b by (simp add: as_bag_def)
  show ?thesis
    using assms(1) s unfolding submittable_iff
    by (auto simp: complete_voucher_def effective_voucher_of_def submitted_row_def b as_bag_def structured_stripAdmin
      assms(2)[unfolded b] Let_def)
qed

lemma submitVoucher_step:
  assumes "submitVoucher now a vid aid s = Inr s'" "catalogue_ok s"
  shows "catalogue_step fl gl (c_vouchers s) (c_vouchers s') \<and> c_edits s' = c_edits s"
proof -
  obtain m v s1 and s2 :: catalogue where v: "own_voucher s vid m False = Some v" "v_status v = V_DRAFT"
    and win: "\<not> (v_type v = TIME_LIMITED \<and> v_availabilityWindows v = [])"
    and ok: "assertVoucherSubmittable (effective_voucher_of v) = Inr ()"
    and upd: "update_voucher_row vid (submitted_row now (stripAdminOwnedKeys (as_bag (lv_merchantFields v)))) s = Inr s1"
    and s2: "c_vouchers s2 = c_vouchers s1" "c_edits s2 = c_edits s1"
    and s': "c_vouchers s' = c_vouchers s2" "c_edits s' = c_edits s2"
    using assms(1)
    by (auto simp: submitVoucher_def submit_check_def submit_commit_def dest!: insert_approval_frame split: option.splits)
  let ?v = "submitted_row now (stripAdminOwnedKeys (as_bag (lv_merchantFields v))) v"
  note own = own_voucher_Some[OF v(1)]
  have draft: "draft_ok v" using own catalogue_ok_row[OF assms(2)] by (auto simp: row_ok_def)
  have "draft_ok ?v"
    using draft strict_stripAdmin by (simp add: draft_ok_def windows_valid_def submitted_row_def)
  moreover have "offer_complete ?v"
    using submitted_complete[OF ok] draft win by (auto simp: offer_complete_def draft_ok_def submitted_row_def)
  ultimately have "lifecycle fl gl v ?v"
    using v(2) by (intro submit) (simp_all add: submitted_row_def same_identity_def)
  from row_change[OF upd assms(2) _ _ this] own s' s2 show ?thesis by simp
qed

lemma filter_step:
  assumes "catalogue_ok s" "v \<in> set (c_vouchers s)" "v_status v = V_DRAFT" "\<not> lv_isRmv v"
  shows "catalogue_step fl gl (c_vouchers s) (filter (\<lambda>w. lv_id w \<noteq> lv_id v) (c_vouchers s))"
proof -
  have "w = v" if "w \<in> set (c_vouchers s)" "lv_id w = lv_id v" for w using row_unique[OF assms(1,2) that] .
  then show ?thesis
    unfolding catalogue_step_def using assms by (auto simp: catalogue_ok_def distinct_map inj_on_def intro: stutter)
qed

lemma deleteVoucher_step:
  assumes "deleteVoucher a vid s = Inr s'" "catalogue_ok s"
  shows "catalogue_step fl gl (c_vouchers s) (c_vouchers s') \<and> c_edits s' = c_edits s"
proof -
  obtain m v where "own_voucher s vid m False = Some v" "v_status v = V_DRAFT"
    and "c_vouchers s' = filter (\<lambda>w. lv_id w \<noteq> vid) (c_vouchers s)" "c_edits s' = c_edits s"
    using assms(1) by (auto simp: deleteVoucher_def)
  then show ?thesis using filter_step[OF assms(2), of v fl gl] own_voucher_Some by fastforce
qed

lemma withdraw_step:
  assumes "withdrawVoucherSubmission now a vid s = Inr s'" "catalogue_ok s"
  shows "catalogue_step fl gl (c_vouchers s) (c_vouchers s') \<and> c_edits s' = c_edits s"
proof -
  obtain v s1 where v: "v \<in> set (c_vouchers s)" "lv_id v = vid" "\<not> lv_isRmv v" "v_status v = V_PENDING_APPROVAL"
      "v_approvalStatus v \<noteq> A_APPROVED"
    and upd: "update_voucher_row vid (\<lambda>v. v\<lparr>v_status := V_DRAFT\<rparr>) s = Inr s1"
    and s': "c_vouchers s' = c_vouchers s1" "c_edits s' = c_edits s1"
    using assms(1) by (auto simp: withdrawVoucherSubmission_def dest!: find_Some_in)
  from row_change[OF upd assms(2) v(1,2) withdraw] v s' show ?thesis by simp
qed

section \<open>Flagships\<close>

lemma from_template_born [simp]: "born (from_template m vid code t)"
  by (simp add: born_def draft_ok_def windows_valid_def from_template_def)

lemma createFlagship_step:
  assumes "createFlagshipRmvVoucher a vid code ty s = Inr s'" "catalogue_ok s"
  shows "catalogue_step fl gl (c_vouchers s) (c_vouchers s') \<and> c_edits s' = c_edits s"
proof -
  obtain m t s1 where ins: "insert_voucher (from_template m vid code t) s = Inr s1"
    and s': "c_vouchers s' = c_vouchers s1" "c_edits s' = c_edits s1"
    using assms(1) by (auto simp: createFlagshipRmvVoucher_def)
  then show ?thesis
    using insert_step[OF ins] insert_voucher_frame[OF ins] assms(2) by (simp add: catalogue_ok_def)
qed

lemma relinked_simps [simp]:
  "v_status (relinked r v) = v_status v" "v_approvalStatus (relinked r v) = v_approvalStatus v"
  "lv_approvedBy (relinked r v) = lv_approvedBy v" "lv_id (relinked r v) = lv_id v"
  "lv_isRmv (relinked r v) = lv_isRmv v" "lv_isMandatory (relinked r v) = lv_isMandatory v"
  "v_merchantId (relinked r v) = v_merchantId v" "lv_merchantFields (relinked r v) = lv_merchantFields v"
  "v_cooldownSeconds (relinked r v) = v_cooldownSeconds v"
  "v_availabilityWindows (relinked r v) = v_availabilityWindows v"
  by (simp_all add: relinked_def split: option.splits prod.splits)

text \<open>A flagship has no windows and no cooldown, so its draft is fine whatever its type.\<close>

lemma flagship_draft:
  "\<lbrakk>row_ok v; lv_isRmv v; isStrictSubmitContract (lv_merchantFields v'); v_availabilityWindows v' = v_availabilityWindows v;
     v_cooldownSeconds v' = v_cooldownSeconds v; lv_isRmv v' = lv_isRmv v\<rbrakk> \<Longrightarrow> draft_ok v'"
  by (simp add: row_ok_def draft_ok_def windows_valid_def)

lemma row_strict: "row_ok v \<Longrightarrow> isStrictSubmitContract (lv_merchantFields v)"
  by (simp add: row_ok_def draft_ok_def)

lemma updateFlagship_step:
  assumes "updateRmvVoucherCore m a vid b s = Inr s'" "catalogue_ok s"
  shows "catalogue_step fl gl (c_vouchers s) (c_vouchers s') \<and> c_edits s' = c_edits s"
proof -
  obtain v where v: "own_voucher s vid m True = Some v" "v_status v = V_DRAFT"
    using assms(1) by (auto simp: updateRmvVoucherCore_def)
  obtain et where et: "resolveEffectiveTemplate s v (spread (as_bag (lv_merchantFields v)) (stripSubmitContractKey b)) = Inr et"
    using assms(1) v by (auto simp: updateRmvVoucherCore_def Let_def)
  obtain s1 where upd: "update_voucher_row vid (\<lambda>w. relinked (et_relink et) (w\<lparr>lv_merchantFields :=
        JObj (spread (as_bag (lv_merchantFields v)) (stripSubmitContractKey b))\<rparr>)) s = Inr s1"
    and s': "c_vouchers s' = c_vouchers s1" "c_edits s' = c_edits s1"
    using assms(1) v et by (auto simp: updateRmvVoucherCore_def Let_def)
  note own = own_voucher_Some[OF v(1)]
  then have row: "row_ok v" using catalogue_ok_row[OF assms(2)] by simp
  let ?v = "relinked (et_relink et) (v\<lparr>lv_merchantFields :=
      JObj (spread (as_bag (lv_merchantFields v)) (stripSubmitContractKey b))\<rparr>)"
  have "draft_ok ?v" using flagship_draft[OF row, of ?v] own strict_spread[OF row_strict[OF row]] by simp
  then have "lifecycle fl gl v ?v" using v(2) by (intro edit) (simp_all add: same_identity_def same_review_def)
  from row_change[OF upd assms(2) _ _ this] own s' show ?thesis by simp
qed

lemma effective_flagship_row:
  assumes "row_ok v" "lv_isRmv v"
  shows "effective_flagship p r v = effective_voucher_of ((relinked r (with_columns p v))\<lparr>v_status := st, lv_publishedAt := pub\<rparr>)"
proof -
  have "v_cooldownSeconds v = None" "v_availabilityWindows v = []" using assms by (simp_all add: row_ok_def draft_ok_def)
  then show ?thesis by (simp add: effective_flagship_def effective_voucher_of_def)
qed

lemma submitFlagship_step:
  assumes "submitRmvVoucherCore now m a vid s = Inr s'" "catalogue_ok s"
  shows "catalogue_step fl gl (c_vouchers s) (c_vouchers s') \<and> c_edits s' = c_edits s"
proof -
  obtain v where v: "own_voucher s vid m True = Some v" "v_status v = V_DRAFT"
    using assms(1) by (auto simp: submitRmvVoucherCore_def)
  obtain saving et where se: "saving_of_bag (as_bag (lv_merchantFields v)) = Inr saving"
      "resolveEffectiveTemplate s v (as_bag (lv_merchantFields v)) = Inr et"
    using assms(1) v by (auto simp: submitRmvVoucherCore_def Let_def)
  define p where "p = promote_fields (et_allowedFields et) (as_bag (lv_merchantFields v)) saving"
  obtain s1 where ok: "assertVoucherSubmittable (effective_flagship p (et_relink et) v) = Inr ()"
    and upd: "update_voucher_row vid (\<lambda>w. (relinked (et_relink et) (with_columns p w))
        \<lparr>v_status := V_PENDING_APPROVAL, lv_publishedAt := Some now\<rparr>) s = Inr s1"
    and s': "c_vouchers s' = c_vouchers s1" "c_edits s' = c_edits s1"
    using assms(1) v se by (auto simp: submitRmvVoucherCore_def Let_def p_def)
  let ?v = "(relinked (et_relink et) (with_columns p v))\<lparr>v_status := V_PENDING_APPROVAL, lv_publishedAt := Some now\<rparr>"
  note own = own_voucher_Some[OF v(1)]
  then have row: "row_ok v" "lv_isRmv v" using catalogue_ok_row[OF assms(2)] by simp_all
  have "draft_ok ?v" using flagship_draft[OF row, of ?v] row_strict[OF row(1)] row(2) by simp
  moreover have "offer_complete ?v"
    using ok row(2) unfolding submittable_iff effective_flagship_row[OF row, where st = V_PENDING_APPROVAL and pub = "Some now"]
    by (simp add: offer_complete_def)
  ultimately have "lifecycle fl gl v ?v"
    using v(2) row(1) by (intro submit) (simp_all add: same_identity_def row_ok_def)
  from row_change[OF upd assms(2) _ _ this] own s' show ?thesis by simp
qed

lemma insert_two:
  assumes "insert_voucher r1 s = Inr s1" "insert_voucher r2 s1 = Inr s2"
  shows "c_vouchers s2 = c_vouchers s @ [r1, r2] \<and> (distinct (map lv_id (c_vouchers s)) \<longrightarrow> distinct (map lv_id (c_vouchers s2))) \<and>
    c_edits s2 = c_edits s"
  using assms by (auto simp: insert_voucher_Inr)

lemma provision_Inr:
  assumes "provision m cat fresh s = Inr s'"
  shows "\<exists>t1 t2. c_vouchers s' = c_vouchers s @ [from_template m (fst (fst fresh)) (snd (fst fresh)) t1,
      from_template m (fst (snd fresh)) (snd (snd fresh)) t2] \<and>
    (distinct (map lv_id (c_vouchers s)) \<longrightarrow> distinct (map lv_id (c_vouchers s'))) \<and> c_edits s' = c_edits s"
  using assms insert_two by (fastforce simp: provision_def split: list.splits)

lemma discarded_step:
  assumes "catalogue_ok s" "provision m cat fresh (set_category m c (update_vouchers
      (\<lambda>v. v_merchantId v = m \<and> lv_isRmv v \<and> v_status v = V_DRAFT) (\<lambda>v. v\<lparr>v_status := V_INACTIVE\<rparr>) s)) = Inr s'"
  shows "catalogue_step fl gl (c_vouchers s) (c_vouchers s') \<and> c_edits s' = c_edits s"
proof -
  let ?g = "\<lambda>v. if v_merchantId v = m \<and> lv_isRmv v \<and> v_status v = V_DRAFT then v\<lparr>v_status := V_INACTIVE\<rparr> else v"
  obtain t1 t2 where vs: "c_vouchers s' = map ?g (c_vouchers s) @ [from_template m (fst (fst fresh)) (snd (fst fresh)) t1,
      from_template m (fst (snd fresh)) (snd (snd fresh)) t2]"
    and d: "distinct (map lv_id (map ?g (c_vouchers s))) \<longrightarrow> distinct (map lv_id (c_vouchers s'))" and e: "c_edits s' = c_edits s"
    using provision_Inr[OF assms(2)] by (auto simp: set_category_def update_vouchers_def)
  have "map lv_id (map ?g (c_vouchers s)) = map lv_id (c_vouchers s)" by simp
  then have "distinct (map lv_id (c_vouchers s'))" using d assms(1) by (simp only: catalogue_ok_def)
  then show ?thesis
    unfolding vs using e by (intro conjI catalogue_step_map) (auto intro: lifecycle.intros)
qed

lemma setCategory_step:
  assumes "setMerchantCategoryCore m a cat confirm fresh s = Inr s'" "catalogue_ok s"
  shows "catalogue_step fl gl (c_vouchers s) (c_vouchers s') \<and> c_edits s' = c_edits s"
proof -
  obtain r where r: "c_merchants s m = Some r" using assms(1) by (auto simp: setMerchantCategoryCore_def)
  consider "s' = s"
    | s1 where "rm_primaryCategoryId r = None" "provision m (resolveTopLevelCategoryId (c_categories s) cat) fresh
        (set_category m cat s) = Inr s1" "c_vouchers s' = c_vouchers s1" "c_edits s' = c_edits s1"
    | s1 where "provision m (resolveTopLevelCategoryId (c_categories s) cat) fresh
            (set_category m cat
              (update_vouchers (\<lambda>v. v_merchantId v = m \<and> lv_isRmv v \<and> v_status v = V_DRAFT)
                (\<lambda>v. v\<lparr>v_status := V_INACTIVE\<rparr>) s)) = Inr s1" "c_vouchers s' = c_vouchers s1" "c_edits s' = c_edits s1"
    using assms(1) r
    by (auto simp: setMerchantCategoryCore_def handleCategoryChange_def split: option.splits if_splits)
  then show ?thesis
  proof cases
    case 1
    then show ?thesis using unchanged_step[OF assms(2), of s'] by simp
  next
    case 2
    obtain t1 t2 where vs: "c_vouchers s' = map (\<lambda>v. v) (c_vouchers s) @ [from_template m (fst (fst fresh)) (snd (fst fresh)) t1,
        from_template m (fst (snd fresh)) (snd (snd fresh)) t2]"
      and d: "distinct (map lv_id (c_vouchers s'))" and e: "c_edits s' = c_edits s"
      using provision_Inr[OF 2(2)] assms(2) 2(3,4) by (auto simp: set_category_def catalogue_ok_def)
    show ?thesis using d e unfolding vs by (intro conjI catalogue_step_map) (auto intro: stutter)
  next
    case 3
    then show ?thesis using discarded_step[OF assms(2) 3(1)] by simp
  qed
qed

end
