(* ===== verification/Publishing.thy ===== *)
theory Publishing
  imports Handlers
begin

text \<open>
  The admin's steps, the refinement theorem over every route, and what follows for every catalogue that the routes
  can reach.
\<close>

section \<open>Staged edits are well formed\<close>

definition edit_ok :: "voucher_edit \<Rightarrow> bool" where
  "edit_ok e \<longleftrightarrow> list_all (\<lambda>kv. fst kv = ''estimatedSaving'' \<longrightarrow> snd kv = of_pence (pence_of (snd kv))) (ve_proposedChanges e)"

definition catalogue_inv :: "catalogue \<Rightarrow> bool" where
  "catalogue_inv s \<longleftrightarrow> catalogue_ok s \<and> list_all edit_ok (c_edits s)"

lemma pence_of_pence [simp]: "pence_of (of_pence p) = p"
  by (simp add: pence_of_def of_pence_def to_pence_def)

lemma check_all_proposed_normal:
  "check_all_proposed kvs = Inr xs \<Longrightarrow> list_all (\<lambda>kv. fst kv = ''estimatedSaving'' \<longrightarrow> snd kv = of_pence (pence_of (snd kv))) xs"
  by (induction kvs arbitrary: xs) (auto simp: check_proposed_def Let_def split: if_splits)

lemma edit_saving_normal:
  "edit_ok e \<Longrightarrow> map_of (ve_proposedChanges e) ''estimatedSaving'' = Some x \<Longrightarrow> x = of_pence (pence_of x)"
  by (auto simp: edit_ok_def list_all_iff dest!: map_of_SomeD)

lemma sane_of_pence: "sane_saving (of_pence p) \<longleftrightarrow> 0 < p \<and> p < SAVING_COLUMN_MAX"
proof -
  have "saving_errors (of_pence p) = [] \<longleftrightarrow> 0 < p \<and> p < SAVING_COLUMN_MAX"
    unfolding saving_errors_def of_pence_def to_pence_def by simp
  then show ?thesis using saving_ok[of "of_pence p"] by blast
qed

lemma sane_pence_iff:
  "assertSavingSane (of_pence p) = Inr () \<and> assertSavingFitsColumn (of_pence p) = Inr () \<longleftrightarrow> sane_saving (of_pence p)"
proof -
  have "positive_number (of_pence p) \<longleftrightarrow> 0 < p" by (simp add: of_pence_def)
  then show ?thesis by (simp add: assertSavingSane_def assertSavingFitsColumn_def sane_of_pence)
qed

lemma applied_columns:
  assumes "buildVoucherApplied (ve_proposedChanges e) = Inr p" "edit_ok e"
  shows "(\<forall>t. pr_title p = Some t \<longrightarrow> js_trim t \<noteq> '''') \<and> (\<forall>x. pr_estimatedSaving p = Some x \<longrightarrow> sane_saving (of_pence x))"
proof (cases "map_of (ve_proposedChanges e) ''estimatedSaving''")
  case None
  then show ?thesis using assms(1) by (auto simp: buildVoucherApplied_def Let_def split: option.splits if_splits)
next
  case (Some x)
  obtain y where y: "x = of_pence y" using edit_saving_normal[OF assms(2) Some] by metis
  show ?thesis
    using assms(1) Some sane_pence_iff[of y]
    by (auto simp: buildVoucherApplied_def Let_def y split: option.splits if_splits)
qed

lemma offer_with_columns:
  assumes "offer_complete v" "lv_isRmv v" "\<forall>t. pr_title p = Some t \<longrightarrow> js_trim t \<noteq> ''''"
    and "\<forall>x. pr_estimatedSaving p = Some x \<longrightarrow> sane_saving (of_pence x)"
  shows "offer_complete (with_columns p v)"
  using assms
  by (auto simp: offer_complete_def complete_voucher_def effective_voucher_of_def with_columns_def split: option.splits)

section \<open>What a step may rely on\<close>

definition flagship_live :: "catalogue \<Rightarrow> ident \<Rightarrow> bool" where
  "flagship_live s m \<longleftrightarrow> merchant_live s m \<and> isFlagshipLive s m"

definition going_live :: "catalogue \<Rightarrow> ident \<Rightarrow> bool" where
  "going_live s m \<longleftrightarrow> \<not> merchant_live s m \<and>
     list_ex (\<lambda>a. ap_type a = MERCHANT_ONBOARDING \<and> ap_referenceId a = m \<and> actionable a) (c_approvals s) \<and>
     (case c_merchants s m of None \<Rightarrow> False | Some r \<Rightarrow> \<not> rm_isTestData r \<and> go_live_check m r s = Inr ())"

abbreviation refines :: "catalogue \<Rightarrow> catalogue \<Rightarrow> bool" where
  "refines s s' \<equiv> catalogue_step (flagship_live s) (going_live s) (c_vouchers s) (c_vouchers s') \<and> list_all edit_ok (c_edits s')"

lemma refines_framed:
  "catalogue_inv s \<Longrightarrow> c_vouchers s' = c_vouchers s \<Longrightarrow> c_edits s' = c_edits s \<Longrightarrow> refines s s'"
  by (simp add: catalogue_inv_def unchanged_step)

lemma refines_merchant:
  "catalogue_inv s \<Longrightarrow> catalogue_step (flagship_live s) (going_live s) (c_vouchers s) (c_vouchers s') \<and> c_edits s' = c_edits s
     \<Longrightarrow> refines s s'"
  by (simp add: catalogue_inv_def)

lemma update_edit_ok:
  "list_all edit_ok (c_edits s) \<Longrightarrow> (\<And>e. ve_proposedChanges (f e) = ve_proposedChanges e) \<Longrightarrow>
     list_all edit_ok (c_edits (update_edit i f s))"
  by (fastforce simp: update_edit_def list_all_iff edit_ok_def)

section \<open>Governed requests\<close>

lemma stage_edit_frame:
  "stage_edit m a vid eid aid k changes reason comment s = Inr s' \<Longrightarrow>
     c_vouchers s' = c_vouchers s \<and> (\<exists>e. c_edits s' = c_edits s @ [e] \<and> ve_proposedChanges e = changes)"
  by (auto simp: stage_edit_def dest!: insert_approval_frame split: if_splits)

lemma requestChange_step:
  assumes "requestFlagshipVoucherChange a vid eid aid p reason s = Inr s'" "catalogue_inv s"
  shows "refines s s'"
proof -
  obtain m filtered where "check_all_proposed p = Inr filtered"
    and st: "stage_edit m a vid eid aid CHANGE filtered reason
       ''Merchant requested changes to a live flagship voucher. Reason: '' s = Inr s'"
    using assms(1) by (auto simp: requestFlagshipVoucherChange_def Let_def)
  then show ?thesis
    using assms(2) stage_edit_frame[OF st] check_all_proposed_normal
    by (auto simp: catalogue_inv_def edit_ok_def intro: unchanged_step)
qed

lemma requestEnd_step:
  assumes "requestVoucherEnd a vid eid aid reason s = Inr s'" "catalogue_inv s"
  shows "refines s s'"
proof -
  obtain m where st: "stage_edit m a vid eid aid END [] reason
       ''Merchant requested to end a live custom voucher. Reason: '' s = Inr s'"
    using assms(1) by (auto simp: requestVoucherEnd_def)
  then show ?thesis
    using assms(2) stage_edit_frame[OF st] by (auto simp: catalogue_inv_def edit_ok_def intro: unchanged_step)
qed

lemma withdrawEdit_step:
  assumes "withdrawVoucherPendingEdit now a eid s = Inr s'" "catalogue_inv s"
  shows "refines s s'"
proof -
  have "c_vouchers s' = c_vouchers s" "c_edits s' = c_edits (update_edit eid (\<lambda>e. e\<lparr>ve_status := A_WITHDRAWN\<rparr>) s)"
    using assms(1) by (auto simp: withdrawVoucherPendingEdit_def Let_def split: option.splits)
  then show ?thesis using assms(2) update_edit_ok[of s] by (simp add: catalogue_inv_def unchanged_step)
qed

section \<open>The onboarding review\<close>

lemma claim_step: "claimApproval now i a s = Inr s' \<Longrightarrow> catalogue_inv s \<Longrightarrow> refines s s'"
  by (rule refines_framed) (auto simp: claimApproval_def Let_def dest!: update_merchant_frame split: if_splits)

lemma release_step: "releaseApproval i a super s = Inr s' \<Longrightarrow> catalogue_inv s \<Longrightarrow> refines s s'"
  by (rule refines_framed) (auto simp: releaseApproval_def Let_def dest!: update_merchant_frame split: if_splits)

lemma submitOnboarding_step: "submitForApprovalCore m a aid s = Inr s' \<Longrightarrow> catalogue_inv s \<Longrightarrow> refines s s'"
  by (rule refines_framed)
    (auto simp: submitForApprovalCore_def Let_def dest!: update_merchant_frame insert_approval_frame split: option.splits)

lemma requestChanges_step: "requestChanges now i a reason s = Inr s' \<Longrightarrow> catalogue_inv s \<Longrightarrow> refines s s'"
  by (rule refines_framed) (auto simp: requestChanges_def dest!: update_merchant_frame)

lemma rejectMerchant_step: "rejectApproval now i a reason s = Inr s' \<Longrightarrow> catalogue_inv s \<Longrightarrow> refines s s'"
  by (rule refines_framed) (auto simp: rejectApproval_def reject_commit_def dest!: update_merchant_frame)

definition activated :: "time \<Rightarrow> ident \<Rightarrow> ident \<Rightarrow> life_voucher \<Rightarrow> life_voucher" where
  "activated now a m v =
     (if v_merchantId v \<noteq> m then v
      else if lv_isRmv v then
        (if v_status v \<in> {V_PENDING_APPROVAL, V_ACTIVE} then (approved_row now a v)\<lparr>v_status := V_ACTIVE\<rparr> else v)
      else if v_approvalStatus v = A_APPROVED \<and> v_status v = V_PENDING_APPROVAL then v\<lparr>v_status := V_ACTIVE\<rparr> else v)"

lemma activate_vouchers_map: "c_vouchers (activate_vouchers now a m s) = map (activated now a m) (c_vouchers s)"
  by (auto simp: activate_vouchers_def update_vouchers_def activated_def)

lemma activated_id [simp]: "lv_id (activated now a m v) = lv_id v"
  by (simp add: activated_def)

lemma activated_lifecycle: "gl m \<Longrightarrow> lifecycle fl gl v (activated now a m v)"
  by (auto simp: activated_def intro: stutter activate activate_flagship)

lemma approval_by_id_Some: "approval_by_id s i = Some a \<Longrightarrow> a \<in> set (c_approvals s) \<and> ap_id a = i"
  by (auto simp: approval_by_id_def dest!: find_Some_in)

lemma approveApproval_Inr:
  assumes "approveApproval now i adm s = Inr s'"
  shows "s' = s \<or> (\<exists>m. going_live s m \<and> c_vouchers s' = map (activated now adm m) (c_vouchers s) \<and> c_edits s' = c_edits s)"
proof -
  obtain a mm r where a: "approval_by_id s i = Some a" "ap_type a = MERCHANT_ONBOARDING"
    and mr: "merchant_of s (ap_referenceId a) = Some (mm, r)"
    using assms by (auto simp: approveApproval_def)
  have in_s: "merchants (c_db s) (ap_referenceId a) = Some mm" "c_merchants s (ap_referenceId a) = Some r"
    using mr by (auto simp: merchant_of_def split: option.splits)
  show ?thesis
  proof (cases "m_status mm = M_ACTIVE")
    case True
    then show ?thesis using assms a mr by (simp add: approveApproval_def)
  next
    case False
    then have ok: "\<not> rm_isTestData r" "actionable a" "go_live_check (ap_referenceId a) r s = Inr ()"
      and gl: "go_live now i adm (ap_referenceId a) s = Inr s'"
      using assms a mr by (simp_all add: approveApproval_def)
    have "going_live s (ap_referenceId a)"
      using False in_s ok a approval_by_id_Some[OF a(1)]
      by (auto simp: going_live_def merchant_live_def list_ex_iff)
    moreover obtain s1 where s1: "c_vouchers s1 = c_vouchers s" "c_edits s1 = c_edits s"
        "s' = audit_event (ap_referenceId a) ''MERCHANT_GO_LIVE'' adm (audit_event (ap_referenceId a) ''MERCHANT_APPROVAL_APPROVED'' adm
          (update_approval i (decided now adm A_APPROVED None) (activate_vouchers now adm (ap_referenceId a) s1)))"
      using gl by (auto simp: go_live_def dest!: update_merchant_frame)
    moreover have "c_edits (activate_vouchers now adm m s1) = c_edits s1" for m
      by (simp add: activate_vouchers_def update_vouchers_def)
    ultimately show ?thesis by (auto simp: activate_vouchers_map)
  qed
qed

lemma approveMerchant_step:
  assumes "approveApproval now i adm s = Inr s'" "catalogue_inv s"
  shows "refines s s'"
proof (cases "s' = s")
  case True
  then show ?thesis using refines_framed[OF assms(2)] by simp
next
  case False
  then obtain m where gl: "going_live s m" and vs: "c_vouchers s' = map (activated now adm m) (c_vouchers s)"
    and e: "c_edits s' = c_edits s"
    using approveApproval_Inr[OF assms(1)] by auto
  have "map lv_id (map (activated now adm m) (c_vouchers s) @ []) = map lv_id (c_vouchers s)" by simp
  then have "distinct (map lv_id (map (activated now adm m) (c_vouchers s) @ []))"
    using assms(2) by (simp only: catalogue_inv_def catalogue_ok_def)
  then have "catalogue_step (flagship_live s) (going_live s) (c_vouchers s) (map (activated now adm m) (c_vouchers s) @ [])"
    by (rule catalogue_step_map) (simp_all add: activated_lifecycle gl)
  then show ?thesis using assms(2) e by (simp add: vs catalogue_inv_def)
qed

section \<open>The voucher lane\<close>

lemma voucher_review_Inr:
  "voucher_review i s = Inr v \<Longrightarrow> v \<in> set (c_vouchers s) \<and> \<not> lv_isRmv v \<and> v_status v = V_PENDING_APPROVAL"
  by (auto simp: voucher_review_def dest!: find_Some_in)

lemma reviewed_row:
  assumes "update_voucher_row (lv_id v) f s = Inr s1" "catalogue_inv s" "v \<in> set (c_vouchers s)"
    and "lifecycle (flagship_live s) (going_live s) v (f v)" "c_vouchers s' = c_vouchers s1" "c_edits s' = c_edits s1"
  shows "refines s s'"
  using row_change[OF assms(1) _ assms(3) refl assms(4)] assms(2,5,6) by (simp add: catalogue_inv_def)

lemma approveVoucher_step:
  assumes "approveVoucher now i a s = Inr s'" "catalogue_inv s"
  shows "refines s s'"
proof -
  obtain v where v: "voucher_review i s = Inr v" using assms(1) by (auto simp: approveVoucher_def)
  define f where "f = (\<lambda>w. if merchant_live s (v_merchantId v) \<and> isFlagshipLive s (v_merchantId v)
    then (approved_row now a w)\<lparr>v_status := V_ACTIVE\<rparr> else approved_row now a w)"
  obtain s1 where upd: "update_voucher_row (lv_id v) f s = Inr s1" and s': "c_vouchers s' = c_vouchers s1" "c_edits s' = c_edits s1"
    using assms(1) v by (auto simp: approveVoucher_def Let_def f_def)
  note r = voucher_review_Inr[OF v]
  have "lifecycle (flagship_live s) (going_live s) v (f v)"
    using r by (auto simp: f_def flagship_live_def intro: approve_waiting approve_live)
  then show ?thesis using reviewed_row[OF upd assms(2) _ _ s'] r by simp
qed

lemma rejectVoucher_step:
  assumes "rejectVoucher now i a reason s = Inr s'" "catalogue_inv s"
  shows "refines s s'"
proof -
  obtain v s1 where v: "voucher_review i s = Inr v"
    and upd: "update_voucher_row (lv_id v) (\<lambda>v. v\<lparr>v_status := V_INACTIVE, v_approvalStatus := A_REJECTED\<rparr>) s = Inr s1"
    and s': "c_vouchers s' = c_vouchers s1" "c_edits s' = c_edits s1"
    using assms(1) by (auto simp: rejectVoucher_def)
  then show ?thesis
    using reviewed_row[OF upd assms(2) _ _ s'] voucher_review_Inr[OF v] by (simp add: lifecycle.reject)
qed

lemma requestVoucherChanges_step:
  assumes "requestVoucherChanges now i a p note s = Inr s'" "catalogue_inv s"
  shows "refines s s'"
proof -
  obtain v where v: "voucher_review i s = Inr v" using assms(1) by (auto simp: requestVoucherChanges_def)
  define bag where "bag = JObj (concierge_bag p note (as_bag (lv_merchantFields v)))"
  obtain s1 where upd: "update_voucher_row (lv_id v) (\<lambda>v. v\<lparr>v_status := V_DRAFT, v_approvalStatus := A_CHANGES_REQUESTED,
        lv_merchantFields := bag\<rparr>) s = Inr s1"
    and s': "c_vouchers s' = c_vouchers s1" "c_edits s' = c_edits s1"
    using assms(1) v by (auto simp: requestVoucherChanges_def Let_def bag_def)
  note r = voucher_review_Inr[OF v]
  then have "row_ok v" using assms(2) catalogue_ok_row by (auto simp: catalogue_inv_def)
  then have "isStrictSubmitContract bag" unfolding bag_def by (intro strict_concierge row_strict)
  then show ?thesis using reviewed_row[OF upd assms(2) _ _ s'] r by (simp add: request_changes)
qed

section \<open>Staged edits\<close>

lemma edit_review_Inr: "edit_review i s = Inr e \<Longrightarrow> e \<in> set (c_edits s)"
  by (auto simp: edit_review_def dest!: find_Some_in)

lemma end_step:
  assumes "apply_edit e s = Inr s1" "catalogue_inv s" "ve_kind e = END"
  shows "refines s s1"
proof -
  obtain v where v: "voucher_by_id s (ve_voucherId e) = Some v" "\<not> lv_isRmv v" "\<not> lv_isMandatory v" "v_status v = V_ACTIVE"
    and upd: "update_voucher_row (lv_id v) (\<lambda>v. v\<lparr>v_status := V_INACTIVE\<rparr>) s = Inr s1"
    using assms(1,3) by (auto simp: apply_edit_def)
  then show ?thesis
    using reviewed_row[OF upd assms(2) _ _ refl refl] voucher_by_id_Some[OF v(1)] by (simp add: end_voucher)
qed

lemma change_step:
  assumes "apply_edit e s = Inr s1" "catalogue_inv s" "ve_kind e \<noteq> END" "e \<in> set (c_edits s)"
  shows "refines s s1"
proof -
  obtain v p where v: "voucher_by_id s (ve_voucherId e) = Some v" "lv_isRmv v" "v_status v = V_ACTIVE"
    and p: "buildVoucherApplied (ve_proposedChanges e) = Inr p"
    and upd: "update_voucher_row (lv_id v) (with_columns p) s = Inr s1"
    using assms(1,3) by (auto simp: apply_edit_def)
  have "edit_ok e" using assms(2,4) by (simp add: catalogue_inv_def list_all_iff)
  note cols = applied_columns[OF p this]
  have "row_ok v" using voucher_by_id_Some[OF v(1)] assms(2) catalogue_ok_row by (auto simp: catalogue_inv_def)
  then have "offer_complete v" using v(3) by (simp add: row_ok_def)
  then have "offer_complete (with_columns p v)" using offer_with_columns v(2) cols by simp
  then show ?thesis
    using reviewed_row[OF upd assms(2) _ _ refl refl] voucher_by_id_Some[OF v(1)] v by (simp add: change_flagship)
qed

lemma approveEdit_step:
  assumes "approveEdit now i a s = Inr s'" "catalogue_inv s"
  shows "refines s s'"
proof -
  obtain e s1 where e: "edit_review i s = Inr e" and ap: "apply_edit e s = Inr s1"
    and s': "c_vouchers s' = c_vouchers s1"
      "c_edits s' = c_edits (update_edit (ve_id e) (\<lambda>e. e\<lparr>ve_status := A_APPROVED, ve_reviewedBy := Some a\<rparr>) s1)"
    using assms(1) by (auto simp: approveEdit_def)
  have "refines s s1" using end_step[OF ap assms(2)] change_step[OF ap assms(2)] edit_review_Inr[OF e] by blast
  then show ?thesis using update_edit_ok[of s1] s' by simp
qed

lemma rejectEdit_step:
  assumes "rejectEdit now i a reason s = Inr s'" "catalogue_inv s"
  shows "refines s s'"
proof -
  obtain e :: voucher_edit where "c_vouchers s' = c_vouchers s"
      "c_edits s' = c_edits (update_edit (ve_id e) (\<lambda>e. e\<lparr>ve_status := A_REJECTED, ve_reviewedBy := Some a\<rparr>) s)"
    using assms(1) by (auto simp: rejectEdit_def)
  then show ?thesis using assms(2) update_edit_ok[of s] by (simp add: catalogue_inv_def unchanged_step)
qed

section \<open>Suspension\<close>

lemma suspend_step: "suspendMerchant a m s = Inr s' \<Longrightarrow> catalogue_inv s \<Longrightarrow> refines s s'"
  by (rule refines_framed) (auto simp: suspendMerchant_def dest!: update_merchant_frame split: if_splits)

lemma reactivate_step: "reactivateMerchant a m s = Inr s' \<Longrightarrow> catalogue_inv s \<Longrightarrow> refines s s'"
  by (rule refines_framed) (auto simp: reactivateMerchant_def dest!: update_merchant_frame split: if_splits)

section \<open>The refinement\<close>

lemmas route_steps =
  requestChange_step requestEnd_step withdrawEdit_step claim_step release_step submitOnboarding_step requestChanges_step
  rejectMerchant_step approveMerchant_step approveVoucher_step rejectVoucher_step requestVoucherChanges_step
  approveEdit_step rejectEdit_step suspend_step reactivate_step

lemma inv_ok: "catalogue_inv s \<Longrightarrow> catalogue_ok s"
  by (simp add: catalogue_inv_def)

lemmas merchant_steps =
  refines_merchant[OF _ submitVoucher_step[OF _ inv_ok]]
  refines_merchant[OF _ deleteVoucher_step[OF _ inv_ok]]
  refines_merchant[OF _ withdraw_step[OF _ inv_ok]]
  refines_merchant[OF _ createFlagship_step[OF _ inv_ok]]
  refines_merchant[OF _ updateFlagship_step[OF _ inv_ok]]
  refines_merchant[OF _ submitFlagship_step[OF _ inv_ok]]
  refines_merchant[OF _ setCategory_step[OF _ inv_ok]]

lemma handle_refines:
  assumes "handle r s = Inr s'" "catalogue_inv s" "schema_ok r"
  shows "catalogue_step (flagship_live s) (going_live s) (c_vouchers s) (c_vouchers s') \<and> catalogue_inv s'"
proof -
  have "refines s s'"
  proof (cases r)
    case (CreateVoucher a vid code body)
    show ?thesis
      by (rule refines_merchant[OF assms(2) createVoucher_step[OF _ inv_ok[OF assms(2)]]]) (use assms(1,3) CreateVoucher in simp_all)
  next
    case (UpdateVoucher a vid p)
    show ?thesis
      by (rule refines_merchant[OF assms(2) updateVoucher_step[OF _ inv_ok[OF assms(2)]]]) (use assms(1,3) UpdateVoucher in simp_all)
  next
    case (UpdateFlagship a vid b)
    then obtain m where "updateRmvVoucherCore m a vid b s = Inr s'" using assms(1) by (auto simp: updateRmvVoucher_def)
    then show ?thesis by (rule merchant_steps[OF assms(2) _ assms(2)])
  next
    case (SubmitFlagship now a vid)
    then obtain m where "submitRmvVoucherCore now m a vid s = Inr s'" using assms(1) by (auto simp: submitRmvVoucher_def)
    then show ?thesis by (rule merchant_steps[OF assms(2) _ assms(2)])
  qed (insert assms(1), simp_all only: handle.simps,
      (rule route_steps[OF _ assms(2)]
        merchant_steps[OF assms(2) _ assms(2)], assumption)+)
  moreover from this have "distinct (map lv_id (c_vouchers s')) \<and> list_all row_ok (c_vouchers s')"
    using catalogue_step_ok assms(2) by (auto simp: catalogue_inv_def catalogue_ok_def)
  ultimately show ?thesis by (simp add: catalogue_inv_def catalogue_ok_def)
qed

end
