(* ===== verification/Outcomes.thy ===== *)
theory Outcomes
  imports Publishing Redemption
begin

text \<open>
  What holds of the catalogues that the routes reach from a well-formed one: the invariants and safety properties that
  follow from the refinement, the states in which a voucher is stuck, and the composition with redemption.
\<close>

section \<open>Runs\<close>

lemma serve_cases:
  assumes "catalogue_inv s"
  shows "catalogue_step (flagship_live s) (going_live s) (c_vouchers s) (c_vouchers (serve r s)) \<and> catalogue_inv (serve r s)"
proof (cases "schema_ok r \<and> (\<exists>s'. handle r s = Inr s')")
  case True
  then show ?thesis using handle_refines[OF _ assms] by (auto simp: serve_def)
next
  case False
  then have "serve r s = s" by (auto simp: serve_def split: sum.splits)
  then show ?thesis using assms by (simp add: catalogue_inv_def unchanged_step)
qed

lemma serve_all_inv: "catalogue_inv s \<Longrightarrow> catalogue_inv (serve_all rs s)"
  by (induction rs arbitrary: s) (auto simp: serve_all_def serve_cases)

lemma serve_all_simps [simp]: "serve_all [] s = s" "serve_all (r # rs) s = serve_all rs (serve r s)"
  by (simp_all add: serve_all_def)

lemma serve_all_append: "serve_all (rs @ qs) s = serve_all qs (serve_all rs s)"
  by (simp add: serve_all_def)

text \<open>A row in a reached catalogue, seen from the row before and after.\<close>

lemma step_forward:
  "\<lbrakk>catalogue_inv s; v \<in> set (c_vouchers s); v_status v \<noteq> V_DRAFT \<or> lv_isRmv v\<rbrakk> \<Longrightarrow>
     \<exists>v' \<in> set (c_vouchers (serve r s)). lifecycle (flagship_live s) (going_live s) v v'"
  using serve_cases[of s r] unfolding catalogue_step_def by blast

lemma step_backward:
  "\<lbrakk>catalogue_inv s; v' \<in> set (c_vouchers (serve r s))\<rbrakk> \<Longrightarrow>
     born v' \<and> lv_id v' \<notin> lv_id ` set (c_vouchers s) \<or> (\<exists>v \<in> set (c_vouchers s). lifecycle (flagship_live s) (going_live s) v v')"
  using serve_cases[of s r] unfolding catalogue_step_def by blast

text \<open>A property of a row that every step keeps holds for ever.\<close>

lemma rows_persist:
  assumes "catalogue_inv s" "v \<in> set (c_vouchers s)" "K v"
    and stays: "\<And>v. K v \<Longrightarrow> v_status v \<noteq> V_DRAFT \<or> lv_isRmv v"
    and step: "\<And>fl gl v v'. lifecycle fl gl v v' \<Longrightarrow> K v \<Longrightarrow> K v'"
  shows "\<exists>v' \<in> set (c_vouchers (serve_all rs s)). lv_id v' = lv_id v \<and> K v'"
  using assms(1-3)
proof (induction rs arbitrary: s v)
  case (Cons r rs)
  then obtain v1 where v1: "v1 \<in> set (c_vouchers (serve r s))" "lifecycle (flagship_live s) (going_live s) v v1"
    using step_forward stays by blast
  then have "K v1" "lv_id v1 = lv_id v"
    using step lifecycle_identity Cons.prems(3) by (auto simp: same_identity_def)
  then show ?case using Cons.IH[of "serve r s" v1] serve_cases[OF Cons.prems(1)] v1(1) by auto
qed auto

section \<open>A sample catalogue\<close>

definition sample_fields :: bag where
  "sample_fields = [(''merchantFields'', JObj [(''builderType'', JStr ''bogo''), (''bogoBuy'', JStr ''a coffee''),
     (''bogoFree'', JStr ''a cake''), (''bogoFreePrice'', JNum 35 1)])]"

definition sample_body :: voucher_body where
  "sample_body = \<lparr>vb_type = BOGO, vb_title = ''Cake'', vb_estimatedSaving = JNum 350 2, vb_description = None,
     vb_terms = None, vb_imageUrl = None, vb_expiryDate = None, vb_availabilityWindows = [],
     vb_cooldownSeconds = None, vb_merchantFields = sample_fields\<rparr>"

definition sample_template :: "ident \<Rightarrow> ident \<Rightarrow> rmv_template" where
  "sample_template i cat = \<lparr>tp_id = i, tp_categoryId = cat, tp_voucherType = BOGO, tp_title = ''Two for one'',
     tp_description = ''d'', tp_minimumSaving = 500, tp_allowedFields = JArr [JStr ''merchantFields''], tp_isActive = True\<rparr>"

definition sample_catalogue :: "merchant_status \<Rightarrow> catalogue" where
  "sample_catalogue st =
     \<lparr>c_db = (sample_db ''enc'')\<lparr>merchants := [''m'' \<mapsto> \<lparr>m_status = st, m_businessName = ''M''\<rparr>],
        memberships := [sample_membership OWNER]\<rparr>,
      c_merchants = [''m'' \<mapsto> \<lparr>rm_onboardingStep = ''REGISTERED'', rm_verificationStatus = ''PENDING'',
        rm_contractStatus = ''SIGNED'', rm_isTestData = False, rm_primaryCategoryId = Some ''c''\<rparr>],
      c_vouchers = [], c_templates = [sample_template ''t1'' ''c'', sample_template ''t2'' ''c'',
        sample_template ''t3'' ''d'', sample_template ''t4'' ''d''],
      c_categories = [''c'' \<mapsto> None, ''d'' \<mapsto> None], c_approvals = [], c_edits = [],
      c_branches = [\<lparr>rb_merchantId = ''m'', rb_isMainBranch = True, rb_isActive = True, rb_isDeleted = False,
        rb_locationConfidence = ''ADDRESS_GEOCODED''\<rparr>],
      c_editTargets = Map.empty, c_audit = []\<rparr>"

lemma sample_inv [simp]: "catalogue_inv (sample_catalogue st)"
  by (simp add: catalogue_inv_def catalogue_ok_def sample_catalogue_def)

definition sample_flagships :: "ident \<Rightarrow> ident \<Rightarrow> request list" where
  "sample_flagships f g = [CreateFlagship ''a'' f f BOGO, CreateFlagship ''a'' g g BOGO,
     UpdateFlagship ''a'' f sample_fields, UpdateFlagship ''a'' g sample_fields,
     SubmitFlagship 1 ''a'' f, SubmitFlagship 2 ''a'' g]"

definition sample_onboarding :: "request list" where
  "sample_onboarding = [SubmitOnboarding ''m'' ''a'' ''ap'', Claim 3 ''ap'' ''adm'', ApproveMerchant 4 ''ap'' ''adm'']"

definition sample_custom :: "ident \<Rightarrow> ident \<Rightarrow> request list" where
  "sample_custom i ap = [CreateVoucher ''a'' i i sample_body, SubmitVoucher 5 ''a'' i ap, ApproveVoucher 6 ap ''adm'']"

definition sample_requests :: "request list" where
  "sample_requests = sample_flagships ''f'' ''g'' @ sample_onboarding @ sample_custom ''v'' ''av''"

definition sample_live :: catalogue where
  "sample_live = serve_all sample_requests (sample_catalogue M_REGISTERED)"

lemma sample_live_statuses:
  "map (\<lambda>v. (lv_id v, v_status v, lv_approvedBy v, lv_isRmv v)) (c_vouchers sample_live) =
     [(''f'', V_ACTIVE, Some ''adm'', True), (''g'', V_ACTIVE, Some ''adm'', True), (''v'', V_ACTIVE, Some ''adm'', False)]"
  by code_simp

lemma sample_live_v:
  "\<exists>v. v \<in> set (c_vouchers sample_live) \<and> lv_id v = ''v'' \<and> v_status v = V_ACTIVE \<and> \<not> lv_isRmv v"
  using sample_live_statuses by (auto simp: map_eq_Cons_conv)

lemma sample_live_inv: "catalogue_inv sample_live"
  unfolding sample_live_def by (rule serve_all_inv) simp

section \<open>Invariants\<close>





text \<open>No voucher is live without a review: in every catalogue that the routes reach, an active voucher was approved
  by an admin who is named on it, it passes the submission gate as it stands (whatever was edited on the way), and a
  time-limited one that is no flagship has a window.\<close>

theorem live_voucher_was_approved:
  assumes "catalogue_inv s" "v \<in> set (c_vouchers (serve_all rs s))" "v_status v = V_ACTIVE"
  shows "v_approvalStatus v = A_APPROVED \<and> lv_approvedBy v \<noteq> None \<and>
    assertVoucherSubmittable (effective_voucher_of v) = Inr () \<and>
    (lv_isRmv v \<or> v_type v \<noteq> TIME_LIMITED \<or> v_availabilityWindows v \<noteq> [])"
  using serve_all_inv[OF assms(1), of rs] assms(2,3)
  by (auto simp: catalogue_inv_def catalogue_ok_def list_all_iff row_ok_def offer_complete_def submittable_iff)

theorem live_voucher_was_approved_witness:
  "\<exists>v \<in> set (c_vouchers sample_live). lv_id v = ''v'' \<and> v_status v = V_ACTIVE \<and>
     assertVoucherSubmittable (effective_voucher_of v) = Inr ()"
proof -
  obtain v where "v \<in> set (c_vouchers sample_live)" "lv_id v = ''v''" "v_status v = V_ACTIVE" using sample_live_v by blast
  then show ?thesis
    using live_voucher_was_approved[OF sample_inv] unfolding sample_live_def by blast
qed



text \<open>A voucher goes live only by a decision on a submitted voucher: a row that is active after a request and was not
  before had been submitted, and either its merchant was live with all its flagships live, or this request took the merchant
  live (after re-checking its onboarding gates) and the voucher was a flagship or had already been approved.\<close>

theorem activation_conditions:
  assumes "catalogue_inv s" "v' \<in> set (c_vouchers (serve r s))" "v_status v' = V_ACTIVE"
  shows "\<exists>v \<in> set (c_vouchers s). lv_id v = lv_id v' \<and> (v_status v = V_ACTIVE \<or> v_status v = V_PENDING_APPROVAL \<and>
    (flagship_live s (v_merchantId v) \<and> \<not> lv_isRmv v \<or>
     going_live s (v_merchantId v) \<and> (lv_isRmv v \<or> v_approvalStatus v = A_APPROVED)))"
proof -
  obtain v where v: "v \<in> set (c_vouchers s)" "lifecycle (flagship_live s) (going_live s) v v'"
    using step_backward[OF assms(1,2)] assms(3) by (auto simp: born_def)
  show ?thesis
    using v lifecycle_activation[OF v(2) assms(3)] lifecycle_identity[OF v(2)] by (auto simp: same_identity_def)
qed

theorem activation_conditions_witness:
  "\<exists>v \<in> set (c_vouchers (serve_all (butlast sample_requests) (sample_catalogue M_REGISTERED))). lv_id v = ''v'' \<and>
     (v_status v = V_ACTIVE \<or> v_status v = V_PENDING_APPROVAL)"
proof -
  let ?s = "serve_all (butlast sample_requests) (sample_catalogue M_REGISTERED)"
  obtain v where v: "v \<in> set (c_vouchers sample_live)" "lv_id v = ''v''" "v_status v = V_ACTIVE"
    using sample_live_v by blast
  have "sample_live = serve (last sample_requests) ?s"
    by (simp add: sample_live_def sample_requests_def sample_custom_def serve_all_append butlast_append)
  then show ?thesis using activation_conditions[of ?s v "last sample_requests"] v serve_all_inv by auto
qed

section \<open>Stuck vouchers\<close>

text \<open>A flagship draft that a category change has discarded.\<close>

definition stranded :: "catalogue \<Rightarrow> ident \<Rightarrow> bool" where
  "stranded s m \<longleftrightarrow> list_ex (\<lambda>v. v_merchantId v = m \<and> lv_isRmv v \<and> v_status v = V_INACTIVE) (c_vouchers s)"

lemma stranded_not_live: "stranded s m \<Longrightarrow> \<not> isFlagshipLive s m"
  by (auto simp: stranded_def isFlagshipLive_def count_vouchers_def list_ex_iff filter_empty_conv)

lemma stranded_for_ever:
  assumes "catalogue_inv s" "stranded s m"
  shows "stranded (serve_all rs s) m"
proof -
  let ?K = "\<lambda>w. v_merchantId w = m \<and> lv_isRmv w \<and> v_status w = V_INACTIVE"
  obtain v where v: "v \<in> set (c_vouchers s)" "?K v" using assms(2) by (auto simp: stranded_def list_ex_iff)
  have step: "?K w'" if "lifecycle fl gl w w'" "?K w" for fl gl w w'
    using that lifecycle_inactive by blast
  from rows_persist[OF assms(1) v(1), where K = ?K, OF v(2) _ step] show ?thesis
    by (fastforce simp: stranded_def list_ex_iff)
qed


definition sample_change :: "request list" where
  "sample_change = [CreateFlagship ''a'' ''o'' ''o'' BOGO, SetCategory ''m'' ''a'' ''d'' True ((''f'', ''f''), (''g'', ''g'')),
     UpdateFlagship ''a'' ''f'' sample_fields, UpdateFlagship ''a'' ''g'' sample_fields,
     SubmitFlagship 1 ''a'' ''f'', SubmitFlagship 2 ''a'' ''g''] @ sample_onboarding @ butlast (sample_custom ''v'' ''av'')"

lemma sample_change_result:
  "map (\<lambda>v. (lv_id v, v_status v, v_approvalStatus v))
     (c_vouchers (serve (ApproveVoucher 6 ''av'' ''adm'') (serve_all sample_change (sample_catalogue M_REGISTERED)))) =
   [(''o'', V_INACTIVE, A_PENDING), (''f'', V_ACTIVE, A_APPROVED), (''g'', V_ACTIVE, A_APPROVED),
    (''v'', V_PENDING_APPROVAL, A_APPROVED)]"
  by code_simp

definition sample_stranded :: catalogue where
  "sample_stranded = serve_all (take 2 sample_change) (sample_catalogue M_REGISTERED)"


section \<open>What members redeem\<close>

text \<open>The store that redemption works on, with the vouchers of the catalogue.\<close>

definition shop_db :: "catalogue \<Rightarrow> db" where
  "shop_db s = (c_db s)\<lparr>vouchers := \<lambda>i. map_option voucher.truncate (voucher_by_id s i)\<rparr>"

lemma truncate_simps [simp]:
  "v_status (voucher.truncate v) = v_status v" "v_merchantId (voucher.truncate v) = v_merchantId v"
  by (simp_all add: voucher.truncate_def)



end
