(* ===== verification/Races.thy ===== *)
theory Races
  imports Outcomes
begin

text \<open>
  Where the routes fall short of the machine: the sequence of admin actions that skips the review, the races between a
  handler's read and its write, and the edit that only the database refuses.
\<close>

section \<open>Skipped reviews\<close>

definition suspend_and_reactivate :: "ident \<Rightarrow> ident \<Rightarrow> request list" where
  "suspend_and_reactivate a m = [Suspend a m, Reactivate a m]"

lemma update_merchant_Inr:
  "update_merchant i f g s = Inr s' \<longleftrightarrow> (\<exists>m r. merchant_of s i = Some (m, r) \<and> s' = put_merchant i (f m) (g r) s)"
  by (auto simp: update_merchant_def)

lemma put_merchant_of: "merchant_of (put_merchant i m r s) i = Some (m, r)"
  by (simp add: merchant_of_def put_merchant_def)

lemma refund_one_merchants [simp]: "merchants (refund_one r d) = merchants d"
  by (simp add: refund_one_def)

lemma refund_merchants [simp]: "merchants (c_db (refundInflightCycles m s)) = merchants (c_db s)"
proof -
  have "merchants (fold refund_one rs d) = merchants d" for rs d by (induction rs arbitrary: d) simp_all
  then show ?thesis by (simp add: refundInflightCycles_def)
qed

lemma merchant_of_cong:
  "\<lbrakk>merchants (c_db s') = merchants (c_db s); c_merchants s' = c_merchants s\<rbrakk> \<Longrightarrow> merchant_of s' i = merchant_of s i"
  by (simp add: merchant_of_def)

lemma suspended_then_reactivated:
  assumes "merchant_of s m = Some (mm, r)" "m_status mm \<noteq> M_SUSPENDED"
  shows "\<exists>s'. serve_all (suspend_and_reactivate a m) s = s' \<and>
    merchant_of s' m = Some (mm\<lparr>m_status := M_ACTIVE\<rparr>, r\<lparr>rm_onboardingStep := ''LIVE''\<rparr>) \<and>
    c_vouchers s' = c_vouchers s \<and> c_approvals s' = c_approvals s"
proof -
  let ?m1 = "mm\<lparr>m_status := M_SUSPENDED\<rparr>" and ?r1 = "r\<lparr>rm_onboardingStep := ''SUSPENDED''\<rparr>"
  define s1 where "s1 = refundInflightCycles m (audit_event m ''MERCHANT_SUSPENDED'' a (put_merchant m ?m1 ?r1 s))"
  have "suspendMerchant a m s = Inr s1"
    using assms by (simp add: suspendMerchant_def update_merchant_def found_def set_step_def s1_def)
  then have 1: "serve (Suspend a m) s = s1" by (simp add: serve_def)
  have m1: "merchant_of s1 m = Some (?m1, ?r1)"
    using put_merchant_of[of m ?m1 ?r1 s] merchant_of_cong[of s1 "put_merchant m ?m1 ?r1 s"] by (simp add: s1_def)
  define s2 where "s2 = audit_event m ''MERCHANT_REACTIVATED'' a
      (put_merchant m (?m1\<lparr>m_status := M_ACTIVE\<rparr>) (?r1\<lparr>rm_onboardingStep := ''LIVE''\<rparr>) s1)"
  have "reactivateMerchant a m s1 = Inr s2"
    using m1 by (simp add: reactivateMerchant_def update_merchant_def found_def guard_def set_step_def s2_def)
  then have 2: "serve (Reactivate a m) s1 = s2" by (simp add: serve_def)
  have "merchant_of s2 m = Some (mm\<lparr>m_status := M_ACTIVE\<rparr>, r\<lparr>rm_onboardingStep := ''LIVE''\<rparr>)"
    using put_merchant_of merchant_of_cong[of s2 "put_merchant m (mm\<lparr>m_status := M_ACTIVE\<rparr>) (r\<lparr>rm_onboardingStep := ''LIVE''\<rparr>) s1"]
    by (simp add: s2_def)
  moreover have "c_vouchers s2 = c_vouchers s" "c_approvals s2 = c_approvals s"
    by (simp_all add: s2_def s1_def put_merchant_def)
  ultimately show ?thesis using 1 2 by (simp add: suspend_and_reactivate_def)
qed

text \<open>Suspending and reactivating skips the onboarding review: whatever state a merchant is in (registered, waiting for
  approval, rejected), the two admin actions in a row leave it active and \<open>LIVE\<close>; no approval is decided, no
  contract, branch or flagship is looked at.\<close>

theorem reactivation_skips_review:
  assumes "merchant_of s m = Some (mm, r)" "m_status mm \<noteq> M_SUSPENDED"
  shows "merchant_live (serve_all (suspend_and_reactivate a m) s) m \<and>
    c_approvals (serve_all (suspend_and_reactivate a m) s) = c_approvals s \<and>
    map_option rm_onboardingStep (c_merchants (serve_all (suspend_and_reactivate a m) s) m) = Some ''LIVE''"
  using suspended_then_reactivated[OF assms, of a]
  by (auto simp: merchant_live_def merchant_of_def split: option.splits)

definition sample_unsigned :: catalogue where
  "sample_unsigned = (sample_catalogue M_REGISTERED)\<lparr>c_branches := [],
     c_merchants := (c_merchants (sample_catalogue M_REGISTERED))(''m'' \<mapsto> \<lparr>rm_onboardingStep = ''REGISTERED'',
       rm_verificationStatus = ''PENDING'', rm_contractStatus = ''NOT_SIGNED'', rm_isTestData = False,
       rm_primaryCategoryId = Some ''c''\<rparr>)\<rparr>"

theorem reactivation_skips_review_witness:
  "merchant_live (serve_all (suspend_and_reactivate ''adm'' ''m'') sample_unsigned) ''m'' \<and>
   map (\<lambda>v. (lv_id v, v_status v)) (c_vouchers (serve_all (suspend_and_reactivate ''adm'' ''m'' @ sample_custom ''v'' ''av'') sample_unsigned)) =
     [(''v'', V_ACTIVE)]"
proof
  have "\<exists>mm r. merchant_of sample_unsigned ''m'' = Some (mm, r) \<and> m_status mm \<noteq> M_SUSPENDED"
    by (simp add: merchant_of_def sample_unsigned_def sample_catalogue_def)
  then show "merchant_live (serve_all (suspend_and_reactivate ''adm'' ''m'') sample_unsigned) ''m''"
    using reactivation_skips_review by blast
qed code_simp

section \<open>Reads outside the transaction that writes\<close>

lemma find_map_id:
  "List.find (\<lambda>v. lv_id v = i) (map (\<lambda>v. if lv_id v = i then f v else v) vs) =
     map_option f (List.find (\<lambda>v. lv_id v = i) vs)" if "\<And>v. lv_id (f v) = lv_id v"
  using that by (induction vs) auto

lemma apply_patch_row [simp]:
  "lv_id (apply_patch p v) = lv_id v" "v_status (apply_patch p v) = v_status v"
  "v_approvalStatus (apply_patch p v) = v_approvalStatus v"
  by (simp_all add: apply_patch_def)

lemma update_row_found:
  assumes "voucher_by_id s i = Some v" "cooldown_check (f v)" "\<And>v. lv_id (f v) = lv_id v"
  shows "\<exists>s'. update_voucher_row i f s = Inr s' \<and> voucher_by_id s' i = Some (f v)"
  using assms find_map_id[of f i "c_vouchers s"] by (simp add: update_voucher_row_def voucher_by_id_def)

text \<open>An edit checked against a draft reaches the live voucher: the edit handler tests the status when it reads and
  then updates by id alone, so if the voucher is submitted and approved between its read and its write, the write still
  succeeds and changes the live offer, which keeps its status and its approval: members get terms no one reviewed.\<close>

theorem stale_edit_reaches_live_voucher:
  assumes "update_check a vid p s = Inr c" "voucher_by_id s' vid = Some v'" "cooldown_check (apply_patch (snd c) v')"
  shows "\<exists>s'' w. update_commit a vid c s' = Inr s'' \<and> voucher_by_id s'' vid = Some w \<and> w = apply_patch (snd c) v' \<and>
    v_status w = v_status v' \<and> v_approvalStatus w = v_approvalStatus v'"
proof -
  obtain s1 where "update_voucher_row vid (apply_patch (snd c)) s' = Inr s1" "voucher_by_id s1 vid = Some (apply_patch (snd c) v')"
    using update_row_found[of s' vid v' "apply_patch (snd c)"] assms(2,3) by auto
  then show ?thesis by (auto simp: update_commit_def voucher_by_id_def)
qed

definition no_patch :: voucher_patch where
  "no_patch = \<lparr>pa_type = None, pa_title = None, pa_estimatedSaving = None, pa_description = None, pa_terms = None,
     pa_imageUrl = None, pa_expiryDate = None, pa_availabilityWindows = None, pa_cooldownSeconds = None,
     pa_merchantFields = None\<rparr>"

definition sample_draft :: catalogue where
  "sample_draft = serve_all (butlast (butlast sample_requests)) (sample_catalogue M_REGISTERED)"

theorem stale_edit_reaches_live_voucher_witness:
  "\<exists>s'' w. update_commit ''a'' ''v'' (''m'', no_patch\<lparr>pa_title := Some ''Half a cake''\<rparr>) sample_live = Inr s'' \<and>
     voucher_by_id s'' ''v'' = Some w \<and> v_title w = ''Half a cake'' \<and> v_status w = V_ACTIVE \<and> v_approvalStatus w = A_APPROVED"
proof -
  let ?c = "(''m'', no_patch\<lparr>pa_title := Some ''Half a cake''\<rparr>)"
  have c: "update_check ''a'' ''v'' (no_patch\<lparr>pa_title := Some ''Half a cake''\<rparr>) sample_draft = Inr ?c" by code_simp
  obtain v where v: "voucher_by_id sample_live ''v'' = Some v" "v_status v = V_ACTIVE" "cooldown_check (apply_patch (snd ?c) v)"
    "v_approvalStatus v = A_APPROVED"
  proof -
    have "map_option (\<lambda>v. (v_status v, cooldown_check (apply_patch (snd ?c) v), v_approvalStatus v)) (voucher_by_id sample_live ''v'')
        = Some (V_ACTIVE, True, A_APPROVED)" by code_simp
    then show ?thesis using that by auto
  qed
  have "v_title (apply_patch (snd ?c) v) = ''Half a cake''" by (simp add: apply_patch_def)
  then show ?thesis using stale_edit_reaches_live_voucher[OF c v(1,3)] v(2,4) by auto
qed

text \<open>A rejection overrides a go-live: the rejection of an onboarding reads the merchant, sees it not yet live, and
  writes by id; if another admin's approval commits in between, the merchant ends up \<open>INACTIVE\<close> and rejected with the
  vouchers that the approval activated still active, and the approval row says \<open>REJECTED\<close>.\<close>

theorem reject_overrides_go_live:
  assumes "onboarding_check i s = Inr m" "approveApproval now i a s = Inr s1" "merchant_of s1 m = Some (mm, r)"
  shows "\<exists>s2. reject_commit now' i b reason m s1 = Inr s2 \<and> c_vouchers s2 = c_vouchers s1 \<and>
    map_option m_status (merchants (c_db s2) m) = Some M_INACTIVE \<and>
    list_all (\<lambda>ap. ap_id ap \<noteq> i \<or> ap_status ap = A_REJECTED) (c_approvals s2)"
proof -
  let ?s = "update_approval i (decided now' b A_REJECTED (Some reason)) s1"
  have "merchant_of ?s m = Some (mm, r)" using assms(3) by (simp add: merchant_of_def)
  then have "reject_commit now' i b reason m s1 = Inr (audit_event m ''MERCHANT_APPROVAL_REJECTED'' b
      (put_merchant m (mm\<lparr>m_status := M_INACTIVE\<rparr>) (r\<lparr>rm_onboardingStep := ''REJECTED'', rm_verificationStatus := ''REJECTED''\<rparr>) ?s))"
    by (simp add: reject_commit_def update_merchant_def found_def)
  moreover have "list_all (\<lambda>ap. ap_id ap \<noteq> i \<or> ap_status ap = A_REJECTED) (c_approvals ?s)"
    by (auto simp: update_approval_def decided_def list_all_iff)
  ultimately show ?thesis by (intro exI) (rule conjI, assumption, simp add: put_merchant_def)
qed

definition sample_submitted :: catalogue where
  "sample_submitted = serve_all (sample_flagships ''f'' ''g'' @ take 2 sample_onboarding) (sample_catalogue M_REGISTERED)"

theorem reject_overrides_go_live_witness:
  "\<exists>s1 s2. approveApproval 4 ''ap'' ''adm'' sample_submitted = Inr s1 \<and> reject_commit 5 ''ap'' ''bob'' ''no'' ''m'' s1 = Inr s2 \<and>
     map_option m_status (merchants (c_db s2) ''m'') = Some M_INACTIVE \<and> map v_status (c_vouchers s2) = [V_ACTIVE, V_ACTIVE]"
proof -
  have c: "onboarding_check ''ap'' sample_submitted = Inr ''m''" by code_simp
  have "isOk (approveApproval 4 ''ap'' ''adm'' sample_submitted)" by code_simp
  then obtain s1 where s1: "approveApproval 4 ''ap'' ''adm'' sample_submitted = Inr s1" by (auto simp: isOk_iff)
  then have e: "serve (ApproveMerchant 4 ''ap'' ''adm'') sample_submitted = s1" by (simp add: serve_def)
  have "merchant_of (serve (ApproveMerchant 4 ''ap'' ''adm'') sample_submitted) ''m'' \<noteq> None" by code_simp
  then obtain mm r where m: "merchant_of s1 ''m'' = Some (mm, r)" unfolding e by auto
  have "map v_status (c_vouchers (serve (ApproveMerchant 4 ''ap'' ''adm'') sample_submitted)) = [V_ACTIVE, V_ACTIVE]" by code_simp
  then have vs: "map v_status (c_vouchers s1) = [V_ACTIVE, V_ACTIVE]" unfolding e .
  from reject_overrides_go_live[OF c s1 m, of 5 "''bob''" "''no''"] obtain s2 where
    "reject_commit 5 ''ap'' ''bob'' ''no'' ''m'' s1 = Inr s2" "c_vouchers s2 = c_vouchers s1"
    "map_option m_status (merchants (c_db s2) ''m'') = Some M_INACTIVE" by blast
  then show ?thesis using s1 vs by (intro exI[of _ s1] exI[of _ s2]) simp
qed

text \<open>One admin holds a claim: after a claim of an approval has committed, every other claim of it, by whomever and
  whenever, is refused as already claimed until the row changes again.\<close>

theorem second_claim_refused:
  assumes "claimApproval now i a s = Inr s'"
  shows "claimApproval now' i b s' = Inl (REVIEW APPROVAL_ALREADY_CLAIMED)"
proof -
  obtain ap where ap: "approval_by_id s i = Some ap" using assms by (auto simp: claimApproval_def)
  have find: "List.find (\<lambda>a. ap_id a = i) (map (\<lambda>a. if ap_id a = i then f a else a) xs) =
      map_option f (List.find (\<lambda>a. ap_id a = i) xs)" if "\<And>a. ap_id (f a) = ap_id a" for f and xs :: "approval list"
    using that by (induction xs) auto
  let ?f = "\<lambda>a'. a'\<lparr>ap_claimedById := Some a, ap_claimedAt := Some now\<rparr>"
  have "c_approvals s' = c_approvals (update_approval i ?f s)"
    using assms by (auto simp: claimApproval_def Let_def dest!: update_merchant_frame split: if_splits)
  then have "approval_by_id s' i = Some (?f ap)"
    using ap find[of ?f "c_approvals s"] by (simp add: approval_by_id_def update_approval_def)
  then show ?thesis by (simp add: claimApproval_def found_def guard_def)
qed

theorem second_claim_refused_witness:
  "claimApproval 9 ''ap'' ''bob'' sample_submitted = Inl (REVIEW APPROVAL_ALREADY_CLAIMED)"
proof -
  let ?s = "serve_all (sample_flagships ''f'' ''g'' @ take 1 sample_onboarding) (sample_catalogue M_REGISTERED)"
  have "isOk (claimApproval 3 ''ap'' ''adm'' ?s)" by code_simp
  then obtain s' where s': "claimApproval 3 ''ap'' ''adm'' ?s = Inr s'" by (auto simp: isOk_iff)
  then have "serve (Claim 3 ''ap'' ''adm'') ?s = s'" by (simp add: serve_def)
  then have "sample_submitted = s'"
    by (simp add: sample_submitted_def sample_onboarding_def serve_all_append)
  then show ?thesis using second_claim_refused[OF s'] by simp
qed

text \<open>A type change meets the database instead of the validator: on a reusable draft with a cooldown, a patch of the
  type alone passes every check of the handler (which looks at the cooldown only when the patch carries one) and then
  fails on the column's \<open>CHECK\<close> as an unhandled error, for every other type.\<close>

theorem type_change_hits_constraint:
  assumes "voucher_writer s a = Inr m" "own_voucher s vid m False = Some v" "voucher_by_id s vid = Some v"
    and "v_status v = V_DRAFT" "v_cooldownSeconds v = Some c" "v_availabilityWindows v = []" "t \<noteq> REUSABLE"
  shows "updateVoucher a vid (no_patch\<lparr>pa_type := Some t\<rparr>) s = Inl (UNHANDLED RuntimeError)"
proof -
  have "update_check a vid (no_patch\<lparr>pa_type := Some t\<rparr>) s = Inr (m, no_patch\<lparr>pa_type := Some t\<rparr>)"
    using assms by (simp add: update_check_def check_patch_def merge_bag_def no_patch_def Let_def found_def guard_def)
  moreover have "\<not> cooldown_check (apply_patch (no_patch\<lparr>pa_type := Some t\<rparr>) v)"
    using assms(5,7) by (simp add: cooldown_check_def apply_patch_def no_patch_def)
  ultimately show ?thesis
    using assms(3) by (simp add: updateVoucher_def update_commit_def update_voucher_row_def)
qed

definition sample_reusable :: catalogue where
  "sample_reusable = serve (CreateVoucher ''a'' ''v'' ''v'' (sample_body\<lparr>vb_type := REUSABLE, vb_cooldownSeconds := Some 7200\<rparr>))
     (sample_catalogue M_REGISTERED)"

theorem type_change_hits_constraint_witness:
  "updateVoucher ''a'' ''v'' (no_patch\<lparr>pa_type := Some BOGO\<rparr>) sample_reusable = Inl (UNHANDLED RuntimeError)"
proof -
  let ?row = "new_custom ''m'' ''v'' ''v'' (sample_body\<lparr>vb_type := REUSABLE, vb_cooldownSeconds := Some 7200\<rparr>)
      (stampStrictSubmitContract (stripCallerOwnedKeys sample_fields))"
  have w: "voucher_writer sample_reusable ''a'' = Inr ''m''" by code_simp
  have o: "own_voucher sample_reusable ''v'' ''m'' False = Some ?row" by code_simp
  have b: "voucher_by_id sample_reusable ''v'' = Some ?row" by code_simp
  show ?thesis
    by (rule type_change_hits_constraint[OF w o b, where c = 7200]) (simp_all add: new_custom_def sample_body_def)
qed

end
