(* ===== verification/Estate.thy ===== *)
theory Estate
  imports Review Redemption
begin

text \<open>
  The merchant side of \<open>src/api/merchant/branch/service.ts\<close>: the rows of a merchant's branches, and the handlers that
  create, edit, pin, close and delete them.

  A handler is a function to \<open>estate result\<close> as in \<open>Catalogue\<close>; what a caller sends is a \<open>bag\<close> of JSON members, as
  in the source. The columns the code never looks at stay JSON values in \<open>br_columns\<close>; writing one of the wrong type is
  Prisma's validation error. A coordinate column is \<open>Decimal\<close> with eight decimals: an integer of \<open>10 ^ -8\<close> degrees.
  A date is its \<open>getTime()\<close> number.

  What the code asks of the outside is the record \<open>outside\<close>: the distance, the reply of postcodes.io, the locality for
  a snapshot (\<open>findOrCreateLocality\<close>, a database of its own), Prisma's reading of a decimal string, the cipher and the
  address of the public bucket. Hours are in \<open>Hours\<close> and \<open>Maintenance\<close>; \<open>sendBranchPin\<close>'s text message is \<open>Sms\<close>.
  Metadata of audit rows is left out.
\<close>

section \<open>Rows\<close>

record branch_row = branch +
  br_id :: ident
  br_isMainBranch :: bool
  br_deletedAt :: "time option"
  br_closeReason :: "string option"
  br_postcode :: string
  br_latitude :: "int option"
  br_longitude :: "int option"
  br_locationConfidence :: string
  br_googlePlaceId :: "string option"
  br_columns :: "string \<rightharpoonup> json"

record branch_photo =
  bp_id :: ident
  bp_branchId :: ident
  bp_url :: string
  bp_approved :: bool   \<comment> \<open>\<open>moderationStatus = 'APPROVED'\<close>\<close>
  bp_sortOrder :: int

record branch_edit =
  be_id :: ident
  be_branchId :: ident
  be_merchantId :: ident
  be_proposedChanges :: bag
  be_includesPhotos :: bool
  be_status :: approval_status
  be_reviewedBy :: "ident option"

record branch_user =
  bu_id :: ident
  bu_branchId :: ident
  bu_active :: bool

record estate =
  e_db :: db
  e_steps :: "ident \<rightharpoonup> string"   \<comment> \<open>the merchants' \<open>onboardingStep\<close>\<close>
  e_rows :: "branch_row list"
  e_approvals :: "approval list"
  e_edits :: "branch_edit list"
  e_photos :: "branch_photo list"
  e_users :: "branch_user list"
  e_amenities :: "(ident \<times> ident) list"
  e_audit :: "(ident \<times> string \<times> ident) list"   \<comment> \<open>entity, event, actor\<close>

text \<open>The \<open>Branch\<close> table as the redemption reads it, and as the review of a merchant does.\<close>

definition row_by_id :: "estate \<Rightarrow> ident \<Rightarrow> branch_row option" where
  "row_by_id s i = List.find (\<lambda>r. br_id r = i) (e_rows s)"

definition store_view :: "estate \<Rightarrow> db" where
  "store_view s = (e_db s)\<lparr>branches := (\<lambda>i. map_option branch.truncate (row_by_id s i))\<rparr>"

definition review_view :: "branch_row \<Rightarrow> review_branch" where
  "review_view r = \<lparr>rb_merchantId = b_merchantId r, rb_isMainBranch = br_isMainBranch r, rb_isActive = b_isActive r,
     rb_isDeleted = (br_deletedAt r \<noteq> None), rb_locationConfidence = br_locationConfidence r\<rparr>"

section \<open>Outside\<close>

record postcode_snapshot =
  sn_postcode :: string
  sn_point :: point
  sn_country :: string
  sn_region :: "string option"
  sn_ladDistrict :: string
  sn_adminCounty :: "string option"
  sn_parish :: "string option"
  sn_adminWard :: "string option"
  sn_constituency :: "string option"
  sn_postTown :: "string option"

record locality =
  lo_id :: ident
  lo_name :: string
  lo_postTown :: "string option"

text \<open>The reply of postcodes.io: none in time, or an HTTP status with the body's own status and result.\<close>

datatype postcode_reply = Unreachable | Reply nat nat "postcode_snapshot option"

record outside =
  o_metres :: "point \<Rightarrow> point \<Rightarrow> real"
  o_fetch :: "string \<Rightarrow> postcode_reply"
  o_locality :: "postcode_snapshot \<Rightarrow> locality"
  o_decimal :: "string \<Rightarrow> decimal option"
  o_encrypt :: "string \<Rightarrow> string"
  o_decrypt :: "string \<Rightarrow> decrypt_fault + string"
  o_bucket :: string

definition resolvePostcode :: "outside \<Rightarrow> string \<Rightarrow> postcode_snapshot result" where
  "resolvePostcode x rawPostcode =
     (let cleaned = normalisePostcode rawPostcode in
      if length cleaned < 5 then throw (BRANCH POSTCODE_NOT_FOUND)
      else case o_fetch x cleaned of
        Unreachable \<Rightarrow> throw (BRANCH GAZETTEER_UNAVAILABLE)
      | Reply http status r \<Rightarrow>
          if http = 404 then throw (BRANCH POSTCODE_NOT_FOUND)
          else if \<not> (200 \<le> http \<and> http < 300) then throw (BRANCH GAZETTEER_UNAVAILABLE)
          else case r of
            None \<Rightarrow> throw (BRANCH POSTCODE_NOT_FOUND)
          | Some sn \<Rightarrow> if status \<noteq> 200 then throw (BRANCH POSTCODE_NOT_FOUND) else returns sn)"

definition jnum :: "decimal \<Rightarrow> json" where "jnum x = JNum (fst x) (snd x)"

definition jopt :: "string option \<Rightarrow> json" where
  "jopt x = (case x of None \<Rightarrow> JNull | Some s \<Rightarrow> JStr s)"

definition location_fields :: "time \<Rightarrow> postcode_snapshot \<Rightarrow> locality \<Rightarrow> bag" where
  "location_fields now sn lo =
     [(''latitude'', jnum (fst (sn_point sn))), (''longitude'', jnum (snd (sn_point sn))),
      (''localityId'', JStr (lo_id lo)), (''localityName'', JStr (lo_name lo)),
      (''postTown'', jopt (case sn_postTown sn of None \<Rightarrow> lo_postTown lo | Some t \<Rightarrow> Some t)),
      (''ladDistrict'', JStr (sn_ladDistrict sn)), (''adminCounty'', jopt (sn_adminCounty sn)),
      (''region'', jopt (sn_region sn)), (''locationCountry'', JStr (sn_country sn)),
      (''locationResolvedAt'', JNum now 0), (''locationConfidence'', JStr ''POSTCODE_CENTROID'')]"

definition resolveBranchLocationFields :: "outside \<Rightarrow> time \<Rightarrow> string \<Rightarrow> bag result" where
  "resolveBranchLocationFields x now postcode =
     andThen (resolvePostcode x postcode) (\<lambda>sn. returns (location_fields now sn (o_locality x sn)))"

section \<open>Writing columns\<close>

definition SENSITIVE_FIELDS :: "string list" where
  "SENSITIVE_FIELDS = [''name'', ''about'', ''addressLine1'', ''addressLine2'', ''city'', ''postcode'',
     ''latitude'', ''longitude'', ''logoUrl'', ''bannerUrl'']"

definition DIRECT_FIELDS :: "string list" where
  "DIRECT_FIELDS = [''phone'', ''email'', ''websiteUrl'', ''isActive'']"

text \<open>The members of a bag under given keys, in the order of the keys.\<close>

definition pick :: "string list \<Rightarrow> bag \<Rightarrow> bag" where
  "pick ks b = concat (map (\<lambda>k. case map_of b k of None \<Rightarrow> [] | Some v \<Rightarrow> [(k, v)]) ks)"

text \<open>\<open>Decimal(10,8)\<close> and \<open>Decimal(11,8)\<close>: eight decimals, halves away from zero.\<close>

definition to_e8 :: "decimal \<Rightarrow> int" where
  "to_e8 a = sgn (fst a) * ((2 * \<bar>fst a\<bar> * 10 ^ 8 + 10 ^ snd a) div (2 * 10 ^ snd a))"

definition coordinate :: "outside \<Rightarrow> int \<Rightarrow> json \<Rightarrow> int option result" where
  "coordinate x limit j =
     (let fits = (\<lambda>a. if \<bar>to_e8 a\<bar> < limit * 10 ^ 8 then returns (Some (to_e8 a)) else throw (UNHANDLED RuntimeError)) in
      case j of
        JNull \<Rightarrow> returns None
      | JNum m k \<Rightarrow> fits (m, k)
      | JStr t \<Rightarrow> (case o_decimal x t of None \<Rightarrow> throw (UNHANDLED RuntimeError) | Some a \<Rightarrow> fits a)
      | _ \<Rightarrow> throw (UNHANDLED RuntimeError))"

definition text_member :: "json \<Rightarrow> string result" where
  "text_member j = (case j of JStr t \<Rightarrow> returns t | _ \<Rightarrow> throw (UNHANDLED RuntimeError))"

definition REQUIRED_TEXT :: "string list" where "REQUIRED_TEXT = [''addressLine1'', ''city'', ''country'']"

definition NULLABLE_TEXT :: "string list" where
  "NULLABLE_TEXT = [''addressLine2'', ''phone'', ''email'', ''websiteUrl'', ''logoUrl'', ''bannerUrl'', ''about'',
     ''localityId'', ''localityName'', ''postTown'', ''ladDistrict'', ''adminCounty'', ''region'', ''locationCountry'']"

definition LOCATION_CONFIDENCE :: "string list" where
  "LOCATION_CONFIDENCE = [''POSTCODE_CENTROID'', ''ADDRESS_GEOCODED'', ''MERCHANT_CONFIRMED'', ''MANUALLY_CONFIRMED'',
     ''NEEDS_REVIEW'']"

definition put_column :: "string \<Rightarrow> json \<Rightarrow> branch_row \<Rightarrow> branch_row" where
  "put_column k v r = r\<lparr>br_columns := (br_columns r)(k \<mapsto> v)\<rparr>"

definition write_column :: "outside \<Rightarrow> string \<times> json \<Rightarrow> branch_row \<Rightarrow> branch_row result" where
  "write_column x kv r =
     (case kv of (k, v) \<Rightarrow>
        if k = ''name'' then andThen (text_member v) (\<lambda>t. returns (r\<lparr>b_name := t\<rparr>))
        else if k = ''postcode'' then andThen (text_member v) (\<lambda>t. returns (r\<lparr>br_postcode := t\<rparr>))
        else if k = ''isActive'' then
          (case v of JBool b \<Rightarrow> returns (r\<lparr>b_isActive := b\<rparr>) | _ \<Rightarrow> throw (UNHANDLED RuntimeError))
        else if k = ''latitude'' then andThen (coordinate x 100 v) (\<lambda>c. returns (r\<lparr>br_latitude := c\<rparr>))
        else if k = ''longitude'' then andThen (coordinate x 1000 v) (\<lambda>c. returns (r\<lparr>br_longitude := c\<rparr>))
        else if k = ''locationConfidence'' then
          andThen (text_member v) (\<lambda>t. andThen (guard (t \<in> set LOCATION_CONFIDENCE) (UNHANDLED RuntimeError)) (\<lambda>_.
            returns (r\<lparr>br_locationConfidence := t\<rparr>)))
        else if k = ''googlePlaceId'' then
          (case v of JNull \<Rightarrow> returns (r\<lparr>br_googlePlaceId := None\<rparr>)
           | _ \<Rightarrow> andThen (text_member v) (\<lambda>t. returns (r\<lparr>br_googlePlaceId := Some t\<rparr>)))
        else if k \<in> set REQUIRED_TEXT then andThen (text_member v) (\<lambda>_. returns (put_column k v r))
        else if k \<in> set NULLABLE_TEXT then
          (case v of JNull \<Rightarrow> returns (put_column k v r) | _ \<Rightarrow> andThen (text_member v) (\<lambda>_. returns (put_column k v r)))
        else if k = ''locationResolvedAt'' then returns (put_column k v r)
        else throw (UNHANDLED RuntimeError))"

fun write_columns :: "outside \<Rightarrow> bag \<Rightarrow> branch_row \<Rightarrow> branch_row result" where
  "write_columns x [] r = returns r"
| "write_columns x (kv # kvs) r = andThen (write_column x kv r) (write_columns x kvs)"

section \<open>Access to the rows\<close>

text \<open>\<open>findFirst({ where: { id, merchantId, deletedAt: null } })\<close>.\<close>

definition own_branch :: "estate \<Rightarrow> ident \<Rightarrow> ident \<Rightarrow> branch_row option" where
  "own_branch s bid mid =
     List.find (\<lambda>r. br_id r = bid \<and> b_merchantId r = mid \<and> br_deletedAt r = None) (e_rows s)"

definition count_rows :: "estate \<Rightarrow> (branch_row \<Rightarrow> bool) \<Rightarrow> nat" where
  "count_rows s P = length (filter P (e_rows s))"

definition map_row :: "ident \<Rightarrow> (branch_row \<Rightarrow> branch_row) \<Rightarrow> estate \<Rightarrow> estate" where
  "map_row bid f s = s\<lparr>e_rows := map (\<lambda>r. if br_id r = bid then f r else r) (e_rows s)\<rparr>"

text \<open>\<open>update({ where: { id }, data })\<close> with a bag of columns; an absent row fails.\<close>

definition update_columns :: "outside \<Rightarrow> ident \<Rightarrow> bag \<Rightarrow> estate \<Rightarrow> estate result" where
  "update_columns x bid b s =
     andThen (found (UNHANDLED RuntimeError) (row_by_id s bid)) (\<lambda>r.
     andThen (write_columns x b r) (\<lambda>r'. returns (map_row bid (\<lambda>_. r') s)))"

definition log_event :: "ident \<Rightarrow> string \<Rightarrow> ident \<Rightarrow> estate \<Rightarrow> estate" where
  "log_event entityId event actorId s = s\<lparr>e_audit := e_audit s @ [(entityId, event, actorId)]\<rparr>"

definition queue_approval :: "ident \<Rightarrow> approval_type \<Rightarrow> ident \<Rightarrow> string \<Rightarrow> estate \<Rightarrow> estate result" where
  "queue_approval aid ty ref comment s =
     (if list_ex (\<lambda>a. ap_id a = aid) (e_approvals s) then throw (UNHANDLED P2002)
      else returns (s\<lparr>e_approvals := e_approvals s @ [new_approval aid ty ref comment]\<rparr>))"

text \<open>\<open>deleteMany({ where: { type, referenceId, status: 'PENDING' } })\<close>.\<close>

definition drop_approvals :: "approval_type \<Rightarrow> ident \<Rightarrow> estate \<Rightarrow> estate" where
  "drop_approvals ty ref s =
     s\<lparr>e_approvals := filter (\<lambda>a. \<not> (ap_type a = ty \<and> ap_referenceId a = ref \<and> ap_status a = A_PENDING)) (e_approvals s)\<rparr>"

definition change_approval :: "ident \<Rightarrow> (approval \<Rightarrow> approval) \<Rightarrow> estate \<Rightarrow> estate" where
  "change_approval i f s = s\<lparr>e_approvals := map (\<lambda>a. if ap_id a = i then f a else a) (e_approvals s)\<rparr>"

definition change_edit :: "ident \<Rightarrow> (branch_edit \<Rightarrow> branch_edit) \<Rightarrow> estate \<Rightarrow> estate" where
  "change_edit i f s = s\<lparr>e_edits := map (\<lambda>e. if be_id e = i then f e else e) (e_edits s)\<rparr>"

definition merchant_active :: "estate \<Rightarrow> ident \<Rightarrow> bool" where
  "merchant_active s mid \<longleftrightarrow> map_option m_status (merchants (e_db s) mid) = Some M_ACTIVE"

section \<open>Picked places\<close>

text \<open>A place the merchant picked in the search: held by the server, never sent by the client.\<close>

record suggestion =
  su_placeId :: string
  su_point :: point
  su_postcode :: "string option"

definition locationSuggestionMetadata :: "suggestion \<Rightarrow> json" where
  "locationSuggestionMetadata g =
     JObj [(''placeId'', JStr (su_placeId g)), (''latitude'', jnum (fst (su_point g))),
       (''longitude'', jnum (snd (su_point g))), (''postcode'', jopt (su_postcode g)),
       (''source'', JStr ''merchant_portal_google'')]"

definition LOCATION_SUGGESTION_KEY :: string where "LOCATION_SUGGESTION_KEY = ''__locationSuggestion''"

text \<open>The two coordinates of a bag, when both are finite numbers.\<close>

definition point_of :: "bag \<Rightarrow> point option" where
  "point_of b =
     (case (map_of b ''latitude'', map_of b ''longitude'') of
        (Some (JNum m k), Some (JNum m' k')) \<Rightarrow> Some ((m, k), (m', k')) | _ \<Rightarrow> None)"

text \<open>What a verdict writes over the snapshot of the postcode.\<close>

definition trusted_fields :: "outside \<Rightarrow> suggestion \<Rightarrow> string \<Rightarrow> point \<Rightarrow> bag" where
  "trusted_fields x g entered centroid =
     (case crossCheckGoogleLocation (o_metres x) (su_point g) (su_postcode g) entered (Some centroid) of
        None \<Rightarrow> [(''latitude'', jnum (fst (su_point g))), (''longitude'', jnum (snd (su_point g))),
                 (''googlePlaceId'', JStr (su_placeId g)), (''locationConfidence'', JStr ''ADDRESS_GEOCODED'')]
      | Some _ \<Rightarrow> [(''locationConfidence'', JStr ''NEEDS_REVIEW'')])"

text \<open>The edit lanes: only a fresh snapshot of a postcode is checked.\<close>

definition checked_fields :: "outside \<Rightarrow> suggestion option \<Rightarrow> bag \<Rightarrow> bag" where
  "checked_fields x suggestion b =
     (case (suggestion, map_of b ''locationConfidence'', map_of b ''postcode'', point_of b) of
        (Some g, Some (JStr c), Some (JStr pc), Some centroid) \<Rightarrow>
          if c = ''POSTCODE_CENTROID'' then spread b (trusted_fields x g pc centroid) else b
      | _ \<Rightarrow> b)"

section \<open>Creating\<close>

definition CREATE_FIELDS :: "string list" where
  "CREATE_FIELDS = [''name'', ''addressLine1'', ''addressLine2'', ''city'', ''postcode'', ''country'', ''phone'', ''email'',
     ''websiteUrl'', ''logoUrl'', ''bannerUrl'', ''about'']"

definition blank_row :: "ident \<Rightarrow> ident \<Rightarrow> bool \<Rightarrow> bool \<Rightarrow> branch_row" where
  "blank_row bid merchantId isMain staged =
     \<lparr>b_merchantId = merchantId, b_name = '''', b_redemptionPin = None, b_isActive = \<not> staged,
      b_redemptionAlertsEnabled = False, b_lifecycleStatus = (if staged then PENDING_CREATE else LIVE),
      br_id = bid, br_isMainBranch = isMain, br_deletedAt = None, br_closeReason = None, br_postcode = '''',
      br_latitude = None, br_longitude = None, br_locationConfidence = ''POSTCODE_CENTROID'', br_googlePlaceId = None,
      br_columns = [''country'' \<mapsto> JStr ''GB'']\<rparr>"

definition insert_branch :: "branch_row \<Rightarrow> estate \<Rightarrow> estate result" where
  "insert_branch r s =
     (if list_ex (\<lambda>r'. br_id r' = br_id r) (e_rows s) then throw (UNHANDLED P2002)
      else returns (s\<lparr>e_rows := e_rows s @ [r]\<rparr>))"

text \<open>The branches that count as a merchant's: not deleted, not awaiting approval.\<close>

definition established :: "estate \<Rightarrow> ident \<Rightarrow> nat" where
  "established s merchantId =
     count_rows s (\<lambda>r. b_merchantId r = merchantId \<and> br_deletedAt r = None \<and> b_lifecycleStatus r \<noteq> PENDING_CREATE)"

definition create_columns :: "outside \<Rightarrow> suggestion option \<Rightarrow> string \<Rightarrow> bag \<Rightarrow> bag \<Rightarrow> bag" where
  "create_columns x suggestion postcode data loc =
     (let fields = spread (pick CREATE_FIELDS data) loc in
      case (suggestion, point_of loc) of
        (Some g, Some centroid) \<Rightarrow> spread fields (trusted_fields x g postcode centroid) | _ \<Rightarrow> fields)"

definition createBranchCore ::
  "outside \<Rightarrow> time \<Rightarrow> ident \<Rightarrow> ident \<Rightarrow> ident \<Rightarrow> ident \<Rightarrow> bool \<Rightarrow> suggestion option \<Rightarrow> bag \<Rightarrow> estate \<Rightarrow> estate result" where
  "createBranchCore x now merchantId actorId bid aid staged suggestion data s =
     (let isMain = (\<not> staged \<and> established s merchantId = 0) in
      andThen (found (BRANCH POSTCODE_REQUIRED)
        (case map_of data ''postcode'' of Some (JStr pc) \<Rightarrow> if pc = '''' then None else Some pc | _ \<Rightarrow> None)) (\<lambda>postcode.
      andThen (resolveBranchLocationFields x now postcode) (\<lambda>loc.
      andThen (guard (list_all (\<lambda>k. has_key k data) [''name'', ''addressLine1'', ''city'']) (UNHANDLED RuntimeError)) (\<lambda>_.
      andThen (write_columns x (create_columns x suggestion postcode data loc) (blank_row bid merchantId isMain staged)) (\<lambda>r.
      andThen (insert_branch r s) (\<lambda>s1.
      let s2 = log_event bid ''BRANCH_CREATED'' actorId s1 in
      if staged then queue_approval aid BRANCH_CREATE bid ''created and awaiting approval'' s2 else returns s2))))))"

definition createBranch ::
  "outside \<Rightarrow> time \<Rightarrow> ident \<Rightarrow> ident \<Rightarrow> ident \<Rightarrow> suggestion option \<Rightarrow> bag \<Rightarrow> estate \<Rightarrow> estate result" where
  "createBranch x now adminId bid aid suggestion data s =
     andThen (resolveAdminMerchant (e_db s) adminId) (\<lambda>(_, merchantId).
     createBranchCore x now merchantId adminId bid aid (1 \<le> established s merchantId) suggestion data s)"

text \<open>The row goes for good, and with it its photos and amenities; a staged edit or a branch login of the branch
  refers to it and makes the database refuse.\<close>

definition delete_branch :: "ident \<Rightarrow> estate \<Rightarrow> estate result" where
  "delete_branch bid s =
     (if list_ex (\<lambda>e. be_branchId e = bid) (e_edits s) \<or> list_ex (\<lambda>u. bu_branchId u = bid) (e_users s)
      then throw (UNHANDLED RuntimeError)
      else returns (s\<lparr>e_rows := filter (\<lambda>r. br_id r \<noteq> bid) (e_rows s),
             e_photos := filter (\<lambda>p. bp_branchId p \<noteq> bid) (e_photos s),
             e_amenities := filter (\<lambda>a. fst a \<noteq> bid) (e_amenities s)\<rparr>))"

definition cancelPendingCreate :: "ident \<Rightarrow> ident \<Rightarrow> estate \<Rightarrow> estate result" where
  "cancelPendingCreate adminId bid s =
     andThen (resolveAdminMerchant (e_db s) adminId) (\<lambda>(_, merchantId).
     andThen (found (BRANCH BRANCH_NOT_FOUND) (own_branch s bid merchantId)) (\<lambda>r.
     andThen (guard (b_lifecycleStatus r = PENDING_CREATE) (BRANCH BRANCH_NOT_PENDING_CREATE)) (\<lambda>_.
     delete_branch bid (log_event bid ''BRANCH_CREATE_CANCELLED'' adminId (drop_approvals BRANCH_CREATE bid s)))))"

section \<open>The merchant's own pin\<close>

definition dropBranchPin :: "outside \<Rightarrow> ident \<Rightarrow> ident \<Rightarrow> point \<Rightarrow> estate \<Rightarrow> estate result" where
  "dropBranchPin x adminId bid pin s =
     andThen (resolveAdminMerchant (e_db s) adminId) (\<lambda>(_, merchantId).
     andThen (found (BRANCH BRANCH_NOT_FOUND) (own_branch s bid merchantId)) (\<lambda>r.
     andThen (guard (br_locationConfidence r = ''POSTCODE_CENTROID'' \<or> br_locationConfidence r = ''NEEDS_REVIEW'')
       (BRANCH BRANCH_LOCATION_ALREADY_CONFIRMED)) (\<lambda>_.
     andThen (resolvePostcode x (br_postcode r)) (\<lambda>sn.
     let after = (case pinWithinPostcodeArea (o_metres x) pin (Some (sn_point sn)) of
           None \<Rightarrow> [(''latitude'', jnum (fst pin)), (''longitude'', jnum (snd pin)),
                    (''locationConfidence'', JStr ''MERCHANT_CONFIRMED''), (''googlePlaceId'', JNull)]
         | Some _ \<Rightarrow> [(''locationConfidence'', JStr ''NEEDS_REVIEW'')]) in
     andThen (update_columns x bid after s) (\<lambda>s1. returns (log_event bid ''BRANCH_UPDATED'' adminId s1))))))"

section \<open>Editing\<close>

definition updateBranchDirectCore ::
  "outside \<Rightarrow> ident \<Rightarrow> ident \<Rightarrow> ident \<Rightarrow> bag \<Rightarrow> estate \<Rightarrow> estate result" where
  "updateBranchDirectCore x merchantId actorId bid data s =
     (let safe = pick DIRECT_FIELDS data in
      andThen (found (BRANCH BRANCH_NOT_FOUND) (own_branch s bid merchantId)) (\<lambda>_.
      if safe = [] then returns s
      else andThen (update_columns x bid safe s) (\<lambda>s1. returns (log_event bid ''BRANCH_UPDATED'' actorId s1))))"

text \<open>A changed postcode brings its snapshot, which overwrites coordinates in the payload.\<close>

definition re_anchored :: "outside \<Rightarrow> time \<Rightarrow> bag \<Rightarrow> bag result" where
  "re_anchored x now b =
     (case map_of b ''postcode'' of
        Some (JStr pc) \<Rightarrow>
          if js_trim pc = '''' then returns b
          else andThen (resolveBranchLocationFields x now pc) (\<lambda>loc. returns (spread b loc))
      | _ \<Rightarrow> returns b)"

definition updateBranchSensitiveDirectCore ::
  "outside \<Rightarrow> time \<Rightarrow> ident \<Rightarrow> ident \<Rightarrow> ident \<Rightarrow> suggestion option \<Rightarrow> bag \<Rightarrow> estate \<Rightarrow> estate result" where
  "updateBranchSensitiveDirectCore x now merchantId actorId bid suggestion data s =
     andThen (found (BRANCH BRANCH_NOT_FOUND) (own_branch s bid merchantId)) (\<lambda>_.
     let safe = pick (SENSITIVE_FIELDS @ DIRECT_FIELDS) data in
     if safe = [] then returns s
     else andThen (re_anchored x now safe) (\<lambda>fields.
          andThen (update_columns x bid (checked_fields x suggestion fields) s) (\<lambda>s1.
          returns (log_event bid ''BRANCH_UPDATED'' actorId s1))))"

definition stage_branch_edit :: "ident \<Rightarrow> ident \<Rightarrow> ident \<Rightarrow> ident \<Rightarrow> bag \<Rightarrow> bool \<Rightarrow> string \<Rightarrow> estate \<Rightarrow> estate result" where
  "stage_branch_edit eid aid merchantId bid proposed includesPhotos comment s =
     andThen (guard (\<not> list_ex (\<lambda>e. be_branchId e = bid \<and> be_status e = A_PENDING) (e_edits s))
       (REVIEW PENDING_EDIT_EXISTS)) (\<lambda>_.
     andThen (guard (\<not> list_ex (\<lambda>e. be_id e = eid) (e_edits s)) (UNHANDLED P2002)) (\<lambda>_.
     andThen (queue_approval aid BRANCH_IDENTITY_EDIT eid comment
       (s\<lparr>e_edits := e_edits s @ [\<lparr>be_id = eid, be_branchId = bid, be_merchantId = merchantId,
            be_proposedChanges = proposed, be_includesPhotos = includesPhotos, be_status = A_PENDING,
            be_reviewedBy = None\<rparr>]\<rparr>)) (\<lambda>s1.
     returns (log_event merchantId ''BRANCH_EDIT_REQUEST_CREATED'' '''' s1))))"

definition createBranchEditRequest ::
  "outside \<Rightarrow> time \<Rightarrow> ident \<Rightarrow> ident \<Rightarrow> ident \<Rightarrow> ident \<Rightarrow> bool \<Rightarrow> suggestion option \<Rightarrow> bag \<Rightarrow> estate \<Rightarrow> estate result" where
  "createBranchEditRequest x now adminId bid eid aid includesPhotos suggestion proposed s =
     andThen (resolveMerchantContext (e_db s) adminId) (\<lambda>mctx.
     andThen (assertCanManageBranch mctx bid) (\<lambda>_.
     andThen (found (BRANCH BRANCH_NOT_FOUND) (own_branch s bid (mc_merchantId mctx))) (\<lambda>_.
     let filtered = pick SENSITIVE_FIELDS proposed in
     andThen (guard (filtered \<noteq> [] \<or> includesPhotos) (BRANCH NO_SENSITIVE_FIELDS)) (\<lambda>_.
     andThen (re_anchored x now filtered) (\<lambda>fields.
     let staged = (case suggestion of None \<Rightarrow> fields
           | Some g \<Rightarrow> AList.update LOCATION_SUGGESTION_KEY (locationSuggestionMetadata g) fields) in
     stage_branch_edit eid aid (mc_merchantId mctx) bid staged includesPhotos ''requested identity field changes'' s)))))"

definition set_main :: "outside \<Rightarrow> ident \<Rightarrow> ident \<Rightarrow> bag \<Rightarrow> estate \<Rightarrow> estate result" where
  "set_main x merchantId bid safe s =
     (let cleared = s\<lparr>e_rows := map (\<lambda>r. if b_merchantId r = merchantId \<and> br_isMainBranch r
            then r\<lparr>br_isMainBranch := False\<rparr> else r) (e_rows s)\<rparr> in
      andThen (update_columns x bid safe cleared) (\<lambda>s1.
      returns (log_event merchantId ''BRANCH_UPDATED'' '''' (log_event merchantId ''BRANCH_MAIN_CHANGED'' ''''
        (map_row bid (\<lambda>r. r\<lparr>br_isMainBranch := True\<rparr>) s1)))))"

definition updateBranch ::
  "outside \<Rightarrow> time \<Rightarrow> ident \<Rightarrow> ident \<Rightarrow> ident \<Rightarrow> ident \<Rightarrow> suggestion option \<Rightarrow> bag \<Rightarrow> estate \<Rightarrow> estate result" where
  "updateBranch x now adminId bid eid aid suggestion data s =
     andThen (resolveMerchantContext (e_db s) adminId) (\<lambda>mctx.
     andThen (assertCanManageBranch mctx bid) (\<lambda>_.
     let merchantId = mc_merchantId mctx in
     andThen (if has_key ''isActive'' data then assertOwner mctx else returns ()) (\<lambda>_.
     andThen (found (BRANCH BRANCH_NOT_FOUND) (own_branch s bid merchantId)) (\<lambda>_.
     if map_of data ''isMainBranch'' = Some (JBool True) then
       andThen (assertOwner mctx) (\<lambda>_. set_main x merchantId bid (pick DIRECT_FIELDS data) s)
     else if pick SENSITIVE_FIELDS data \<noteq> [] then
       andThen (found MERCHANT_NOT_FOUND (merchants (e_db s) merchantId)) (\<lambda>m.
       if isDraftWindow (Some (m_status m)) (e_steps s merchantId) then
         andThen (assertOwner mctx) (\<lambda>_. updateBranchSensitiveDirectCore x now merchantId adminId bid suggestion data s)
       else createBranchEditRequest x now adminId bid eid aid False suggestion data s)
     else updateBranchDirectCore x merchantId adminId bid data s))))"

definition withdrawBranchEditRequest :: "time \<Rightarrow> ident \<Rightarrow> ident \<Rightarrow> ident \<Rightarrow> estate \<Rightarrow> estate result" where
  "withdrawBranchEditRequest now adminId bid eid s =
     andThen (resolveMerchantContext (e_db s) adminId) (\<lambda>mctx.
     andThen (assertCanManageBranch mctx bid) (\<lambda>_.
     let merchantId = mc_merchantId mctx in
     andThen (found (BRANCH BRANCH_NOT_FOUND) (own_branch s bid merchantId)) (\<lambda>_.
     andThen (found (REVIEW PENDING_EDIT_NOT_FOUND)
       (List.find (\<lambda>e. be_id e = eid \<and> be_branchId e = bid \<and> be_merchantId e = merchantId) (e_edits s))) (\<lambda>e.
     andThen (guard (be_status e = A_PENDING) (REVIEW PENDING_EDIT_NOT_FOUND)) (\<lambda>_.
     let s1 = change_edit eid (\<lambda>e. e\<lparr>be_status := A_WITHDRAWN\<rparr>) s;
         s2 = (case List.find (\<lambda>a. ap_type a = BRANCH_IDENTITY_EDIT \<and> ap_referenceId a = eid \<and> ap_status a = A_PENDING)
                      (e_approvals s1) of
                 None \<Rightarrow> s1
               | Some a \<Rightarrow> change_approval (ap_id a) (\<lambda>a. (unclaim a)\<lparr>ap_status := A_WITHDRAWN, ap_actionedAt := Some now,
                             ap_comment := ''Merchant withdrew the request''\<rparr>) s1) in
     returns (log_event merchantId ''BRANCH_EDIT_REQUEST_WITHDRAWN'' adminId s2))))))"

section \<open>Photos\<close>

fun split_on :: "char \<Rightarrow> string \<Rightarrow> string list" where
  "split_on sep [] = [[]]"
| "split_on sep (c # cs) =
     (if c = sep then [] # split_on sep cs else (c # hd (split_on sep cs)) # tl (split_on sep cs))"

definition is_alnum :: "char \<Rightarrow> bool" where
  "is_alnum c \<longleftrightarrow> (let n = of_char c :: nat in (48 \<le> n \<and> n \<le> 57) \<or> (65 \<le> n \<and> n \<le> 90) \<or> (97 \<le> n \<and> n \<le> 122))"

definition is_key_char :: "char \<Rightarrow> bool" where
  "is_key_char c \<longleftrightarrow> is_alnum c \<or> c = CHR ''_'' \<or> c = CHR ''-''"

text \<open>\<open>/^(logo|banner|photo)\/([A-Za-z0-9_-]+)\/([A-Za-z0-9_-]+\.[A-Za-z0-9]+)$/\<close>.\<close>

definition public_key :: "string \<Rightarrow> (string \<times> string) option" where
  "public_key key =
     (case split_on (CHR ''/'') key of
        [kind, owner, file] \<Rightarrow>
          (case split_on (CHR ''.'') file of
             [name, ext] \<Rightarrow>
               if kind \<in> {''logo'', ''banner'', ''photo''} \<and> owner \<noteq> [] \<and> list_all is_key_char owner \<and>
                 name \<noteq> [] \<and> list_all is_key_char name \<and> ext \<noteq> [] \<and> list_all is_alnum ext
               then Some (kind, owner) else None
           | _ \<Rightarrow> None)
      | _ \<Rightarrow> None)"

definition parsePublicUrl :: "string \<Rightarrow> string \<Rightarrow> (string \<times> string) option" where
  "parsePublicUrl configured url =
     (let base = rev (dropWhile (\<lambda>c. c = CHR ''/'') (rev configured)) in
      if url = '''' \<or> base = '''' \<or> take (length base + 1) url \<noteq> base @ ''/'' then None
      else public_key (drop (length base + 1) url))"

text \<open>Photos appended after the greatest \<open>sortOrder\<close>; \<open>pid\<close> names the drawn identifiers.\<close>

definition next_sort :: "estate \<Rightarrow> ident \<Rightarrow> int" where
  "next_sort s bid = fold max (map bp_sortOrder (filter (\<lambda>p. bp_branchId p = bid) (e_photos s))) (-1) + 1"

definition add_photos :: "(nat \<Rightarrow> ident) \<Rightarrow> ident \<Rightarrow> string list \<Rightarrow> estate \<Rightarrow> estate" where
  "add_photos pid bid urls s =
     s\<lparr>e_photos := e_photos s @ map (\<lambda>i. \<lparr>bp_id = pid i, bp_branchId = bid, bp_url = urls ! i, bp_approved = True,
          bp_sortOrder = next_sort s bid + int i\<rparr>) [0..<length urls]\<rparr>"

definition remove_photos :: "ident \<Rightarrow> ident list \<Rightarrow> estate \<Rightarrow> estate" where
  "remove_photos bid ids s =
     s\<lparr>e_photos := filter (\<lambda>p. \<not> (bp_id p \<in> set ids \<and> bp_branchId p = bid)) (e_photos s)\<rparr>"

definition createBranchPhotoEditRequest ::
  "outside \<Rightarrow> (nat \<Rightarrow> ident) \<Rightarrow> ident \<Rightarrow> ident \<Rightarrow> ident \<Rightarrow> ident \<Rightarrow> string list \<Rightarrow> ident list \<Rightarrow> estate \<Rightarrow> estate result" where
  "createBranchPhotoEditRequest x pid adminId bid eid aid toAdd toRemove s =
     andThen (resolveMerchantContext (e_db s) adminId) (\<lambda>mctx.
     andThen (assertCanManageBranch mctx bid) (\<lambda>_.
     let merchantId = mc_merchantId mctx in
     andThen (found (BRANCH BRANCH_NOT_FOUND) (own_branch s bid merchantId)) (\<lambda>_.
     let removeIds = filter (\<lambda>i. i \<noteq> '''') toRemove; addUrls = filter (\<lambda>u. u \<noteq> '''') toAdd in
     andThen (guard (list_all (\<lambda>i. list_ex (\<lambda>p. bp_id p = i \<and> bp_branchId p = bid) (e_photos s)) removeIds)
       (BRANCH BRANCH_PHOTO_NOT_FOUND)) (\<lambda>_.
     andThen (guard (list_all (\<lambda>u. parsePublicUrl (o_bucket x) u = Some (''photo'', merchantId)) addUrls)
       (BRANCH INVALID_PHOTO_URL)) (\<lambda>_.
     andThen (found MERCHANT_NOT_FOUND (merchants (e_db s) merchantId)) (\<lambda>m.
     if isDraftWindow (Some (m_status m)) (e_steps s merchantId) then
       returns (log_event merchantId ''BRANCH_PHOTOS_DRAFT_APPLIED'' adminId
         (remove_photos bid removeIds (add_photos pid bid addUrls s)))
     else stage_branch_edit eid aid merchantId bid
            [(''add'', JArr (map JStr toAdd)), (''remove'', JArr (map JStr toRemove))] True
            ''requested photo changes'' s))))))"

definition removeBranchPhoto :: "ident \<Rightarrow> ident \<Rightarrow> ident \<Rightarrow> estate \<Rightarrow> estate result" where
  "removeBranchPhoto adminId bid photoId s =
     andThen (resolveAdminMerchant (e_db s) adminId) (\<lambda>(_, merchantId).
     andThen (found (BRANCH BRANCH_NOT_FOUND) (own_branch s bid merchantId)) (\<lambda>_.
     andThen (found (BRANCH BRANCH_PHOTO_NOT_FOUND)
       (List.find (\<lambda>p. bp_id p = photoId \<and> bp_branchId p = bid) (e_photos s))) (\<lambda>p.
     andThen (guard (bp_approved p) (BRANCH PHOTO_NOT_REMOVABLE)) (\<lambda>_.
     returns (log_event bid ''BRANCH_PHOTO_REMOVED'' adminId
       (s\<lparr>e_photos := filter (\<lambda>q. bp_id q \<noteq> photoId) (e_photos s)\<rparr>))))))"

section \<open>Operational settings\<close>

text \<open>Not a transaction: the old rows are gone before the new ones are refused. A refusal is a repeated amenity (the
  unique constraint) or an unknown one (the foreign key), which \<open>amenity_exists\<close> decides.\<close>

definition setAmenities ::
  "(ident \<Rightarrow> bool) \<Rightarrow> ident \<Rightarrow> ident \<Rightarrow> ident list \<Rightarrow> estate \<Rightarrow> unit result \<times> estate" where
  "setAmenities amenity_exists adminId bid amenityIds s =
     (case andThen (resolveMerchantContext (e_db s) adminId) (\<lambda>mctx.
           andThen (assertCanManageBranch mctx bid) (\<lambda>_.
           found (BRANCH BRANCH_NOT_FOUND) (own_branch s bid (mc_merchantId mctx)))) of
        Inl e \<Rightarrow> (throw e, s)
      | Inr _ \<Rightarrow>
          let s1 = s\<lparr>e_amenities := filter (\<lambda>a. fst a \<noteq> bid) (e_amenities s)\<rparr> in
          if \<not> distinct amenityIds then (throw (UNHANDLED P2002), s1)
          else if \<not> list_all amenity_exists amenityIds then (throw (UNHANDLED RuntimeError), s1)
          else (returns (), s1\<lparr>e_amenities := e_amenities s1 @ map (Pair bid) amenityIds\<rparr>))"

definition setRedemptionAlerts :: "ident \<Rightarrow> ident \<Rightarrow> bool \<Rightarrow> estate \<Rightarrow> estate result" where
  "setRedemptionAlerts adminId bid enabled s =
     andThen (resolveMerchantContext (e_db s) adminId) (\<lambda>mctx.
     andThen (assertCanManageBranch mctx bid) (\<lambda>_.
     andThen (found (BRANCH BRANCH_NOT_FOUND) (own_branch s bid (mc_merchantId mctx))) (\<lambda>_.
     returns (map_row bid (\<lambda>r. r\<lparr>b_redemptionAlertsEnabled := enabled\<rparr>) s))))"

section \<open>Closing and deleting\<close>

definition last_active_guard :: "estate \<Rightarrow> ident \<Rightarrow> unit result" where
  "last_active_guard s merchantId =
     guard (merchant_active s merchantId \<longrightarrow>
        1 < count_rows s (\<lambda>r. b_merchantId r = merchantId \<and> b_isActive r \<and> br_deletedAt r = None))
       (BRANCH BRANCH_LAST_ACTIVE)"

definition deactivate_users :: "ident \<Rightarrow> estate \<Rightarrow> estate" where
  "deactivate_users bid s =
     s\<lparr>e_users := map (\<lambda>u. if bu_branchId u = bid then u\<lparr>bu_active := False\<rparr> else u) (e_users s)\<rparr>"

definition softDeleteBranchCore :: "time \<Rightarrow> ident \<Rightarrow> ident \<Rightarrow> ident \<Rightarrow> estate \<Rightarrow> estate result" where
  "softDeleteBranchCore now merchantId actorId bid s =
     andThen (found (BRANCH BRANCH_NOT_FOUND) (own_branch s bid merchantId)) (\<lambda>r.
     andThen (guard (\<not> br_isMainBranch r) (BRANCH BRANCH_IS_MAIN)) (\<lambda>_.
     andThen (last_active_guard s merchantId) (\<lambda>_.
     returns (log_event bid ''BRANCH_DELETED'' actorId
       (map_row bid (\<lambda>r. r\<lparr>br_deletedAt := Some now, b_isActive := False\<rparr>) (deactivate_users bid s))))))"

definition softDeleteBranch :: "time \<Rightarrow> ident \<Rightarrow> ident \<Rightarrow> estate \<Rightarrow> estate result" where
  "softDeleteBranch now adminId bid s =
     andThen (resolveAdminMerchant (e_db s) adminId) (\<lambda>(_, merchantId).
     softDeleteBranchCore now merchantId adminId bid s)"

definition requestBranchClose :: "ident \<Rightarrow> ident \<Rightarrow> ident \<Rightarrow> string \<Rightarrow> estate \<Rightarrow> estate result" where
  "requestBranchClose adminId bid aid reason s =
     andThen (resolveAdminMerchant (e_db s) adminId) (\<lambda>(_, merchantId).
     andThen (found (BRANCH BRANCH_NOT_FOUND) (own_branch s bid merchantId)) (\<lambda>r.
     andThen (guard (b_lifecycleStatus r \<noteq> PENDING_CREATE) (BRANCH BRANCH_NOT_FOUND)) (\<lambda>_.
     andThen (guard (b_lifecycleStatus r \<noteq> PENDING_CLOSE) (BRANCH BRANCH_CLOSE_REQUEST_EXISTS)) (\<lambda>_.
     andThen (guard (\<not> br_isMainBranch r) (BRANCH BRANCH_IS_MAIN)) (\<lambda>_.
     andThen (last_active_guard s merchantId) (\<lambda>_.
     andThen (queue_approval aid BRANCH_CLOSE bid reason
       (map_row bid (\<lambda>r. r\<lparr>b_lifecycleStatus := PENDING_CLOSE, br_closeReason := Some reason\<rparr>) s)) (\<lambda>s1.
     returns (log_event bid ''BRANCH_CLOSE_REQUESTED'' adminId s1))))))))"

definition reopen_row :: "branch_row \<Rightarrow> branch_row" where
  "reopen_row r = r\<lparr>b_lifecycleStatus := LIVE, br_closeReason := None\<rparr>"

definition withdrawBranchClose :: "ident \<Rightarrow> ident \<Rightarrow> estate \<Rightarrow> estate result" where
  "withdrawBranchClose adminId bid s =
     andThen (resolveAdminMerchant (e_db s) adminId) (\<lambda>(_, merchantId).
     andThen (found (BRANCH BRANCH_NOT_FOUND) (own_branch s bid merchantId)) (\<lambda>r.
     andThen (guard (b_lifecycleStatus r = PENDING_CLOSE) (BRANCH BRANCH_CLOSE_REQUEST_NOT_FOUND)) (\<lambda>_.
     returns (log_event bid ''BRANCH_CLOSE_WITHDRAWN'' adminId
       (drop_approvals BRANCH_CLOSE bid (map_row bid reopen_row s))))))"

section \<open>The PIN\<close>

definition getBranchPin :: "outside \<Rightarrow> ident \<Rightarrow> ident \<Rightarrow> estate \<Rightarrow> string option result" where
  "getBranchPin x adminId bid s =
     andThen (resolveMerchantContext (e_db s) adminId) (\<lambda>mctx.
     andThen (assertCanManageBranch mctx bid) (\<lambda>_.
     andThen (found (BRANCH BRANCH_NOT_FOUND) (own_branch s bid (mc_merchantId mctx))) (\<lambda>r.
     case b_redemptionPin r of
       None \<Rightarrow> returns None
     | Some stored \<Rightarrow>
         if stored = '''' then returns None
         else (case o_decrypt x stored of Inl err \<Rightarrow> throw (classifyPinDecryptError err) | Inr pin \<Rightarrow> returns (Some pin)))))"

definition setBranchPin :: "outside \<Rightarrow> ident \<Rightarrow> ident \<Rightarrow> string \<Rightarrow> estate \<Rightarrow> estate result" where
  "setBranchPin x adminId bid pin s =
     andThen (guard (pin_format pin) (BRANCH INVALID_PIN_FORMAT)) (\<lambda>_.
     andThen (resolveMerchantContext (e_db s) adminId) (\<lambda>mctx.
     andThen (assertCanManageBranch mctx bid) (\<lambda>_.
     andThen (found (BRANCH BRANCH_NOT_FOUND) (own_branch s bid (mc_merchantId mctx))) (\<lambda>_.
     returns (log_event (mc_merchantId mctx) ''BRANCH_PIN_CHANGED'' ''''
       (map_row bid (\<lambda>r. r\<lparr>b_redemptionPin := Some (o_encrypt x pin)\<rparr>) s))))))"

section \<open>Reading\<close>

text \<open>\<open>toMerchantBranch\<close>: the row without the ciphertext, and whether there is one. The order is not kept.\<close>

definition toMerchantBranch :: "branch_row \<Rightarrow> branch_row \<times> bool" where
  "toMerchantBranch r = (r\<lparr>b_redemptionPin := None\<rparr>, b_redemptionPin r \<noteq> None)"

definition listBranches :: "ident \<Rightarrow> estate \<Rightarrow> (branch_row \<times> bool) list result" where
  "listBranches adminId s =
     andThen (resolveMerchantContext (e_db s) adminId) (\<lambda>mctx.
     returns (map toMerchantBranch (filter (\<lambda>r. b_merchantId r = mc_merchantId mctx \<and> br_deletedAt r = None \<and>
       (mc_allBranches mctx \<or> br_id r \<in> set (mc_allowedBranchIds mctx))) (e_rows s))))"

definition getBranch :: "ident \<Rightarrow> ident \<Rightarrow> estate \<Rightarrow> ((branch_row \<times> bool) \<times> bool) result" where
  "getBranch adminId bid s =
     andThen (resolveMerchantContext (e_db s) adminId) (\<lambda>mctx.
     andThen (assertBranchAllowed mctx bid) (\<lambda>_.
     andThen (found (BRANCH BRANCH_NOT_FOUND) (own_branch s bid (mc_merchantId mctx))) (\<lambda>r.
     returns (toMerchantBranch r, canManageBranchPredicate mctx bid))))"

section \<open>What a write leaves\<close>

text \<open>Columns that no bag of columns names.\<close>

definition same_standing :: "branch_row \<Rightarrow> branch_row \<Rightarrow> bool" where
  "same_standing r r' \<longleftrightarrow> br_id r' = br_id r \<and> b_merchantId r' = b_merchantId r \<and>
     b_lifecycleStatus r' = b_lifecycleStatus r \<and> br_isMainBranch r' = br_isMainBranch r \<and>
     br_deletedAt r' = br_deletedAt r"

lemma same_standing_refl [simp]: "same_standing r r"
  by (simp add: same_standing_def)

lemma same_standing_trans: "same_standing r r' \<Longrightarrow> same_standing r' r'' \<Longrightarrow> same_standing r r''"
  by (simp add: same_standing_def)

lemma text_member_Inr [simp]: "text_member v = Inr t \<longleftrightarrow> v = JStr t"
  by (cases v) (auto simp: text_member_def)

lemma text_put: "andThen (text_member v) (\<lambda>_. returns y) = Inr r' \<Longrightarrow> r' = y"
  by simp

lemma write_column_cases:
  assumes "write_column x (k, v) r = Inr r'"
  obtains (name) t where "k = ''name''" "r' = r\<lparr>b_name := t\<rparr>"
    | (postcode) "k = ''postcode''" "r' = r\<lparr>br_postcode := text_of v\<rparr>"
    | (active) b where "k = ''isActive''" "r' = r\<lparr>b_isActive := b\<rparr>"
    | (latitude) c where "k = ''latitude''" "coordinate x 100 v = Inr c" "r' = r\<lparr>br_latitude := c\<rparr>"
    | (longitude) c where "k = ''longitude''" "coordinate x 1000 v = Inr c" "r' = r\<lparr>br_longitude := c\<rparr>"
    | (confidence) "k = ''locationConfidence''" "r' = r\<lparr>br_locationConfidence := text_of v\<rparr>"
    | (place) i where "k = ''googlePlaceId''" "r' = r\<lparr>br_googlePlaceId := i\<rparr>"
    | (other) "k \<notin> {''postcode'', ''isActive'', ''latitude'', ''longitude'', ''locationConfidence''}" "r' = put_column k v r"
proof (cases "k \<in> {''name'', ''postcode'', ''isActive'', ''latitude'', ''longitude'', ''locationConfidence'', ''googlePlaceId''}")
  case True
  then consider "k = ''name''" | "k = ''postcode''" | "k = ''isActive''" | "k = ''latitude''" | "k = ''longitude''"
    | "k = ''locationConfidence''" | "k = ''googlePlaceId''"
    unfolding insert_iff empty_iff by (elim disjE FalseE)
  then show ?thesis
  proof cases
    case 1 then show ?thesis using assms name by (auto simp: write_column_def)
  next
    case 2 then show ?thesis using assms postcode by (auto simp: write_column_def)
  next
    case 3 then show ?thesis using assms active by (auto simp: write_column_def split: json.splits)
  next
    case 4 then show ?thesis using assms latitude by (auto simp: write_column_def)
  next
    case 5 then show ?thesis using assms longitude by (auto simp: write_column_def)
  next
    case 6 then show ?thesis using assms confidence by (auto simp: write_column_def)
  next
    case 7 then show ?thesis using assms place by (cases v) (auto simp: write_column_def)
  qed
next
  case False
  then have eq: "write_column x (k, v) r =
     (if k \<in> set REQUIRED_TEXT then andThen (text_member v) (\<lambda>_. returns (put_column k v r))
      else if k \<in> set NULLABLE_TEXT then
        (case v of JNull \<Rightarrow> returns (put_column k v r) | _ \<Rightarrow> andThen (text_member v) (\<lambda>_. returns (put_column k v r)))
      else if k = ''locationResolvedAt'' then returns (put_column k v r)
      else throw (UNHANDLED RuntimeError))"
    by (simp add: write_column_def del: list.inject)
  have put: "r' = put_column k v r"
  proof (cases "k \<in> set REQUIRED_TEXT")
    case True
    with assms eq show ?thesis by (auto dest: text_put text_put[OF sym])
  next
    case no: False
    show ?thesis
    proof (cases "k \<in> set NULLABLE_TEXT")
      case True
      with assms eq no show ?thesis by (cases v) (auto dest: text_put text_put[OF sym])
    next
      case False
      with assms eq no show ?thesis by (cases "k = ''locationResolvedAt''") auto
    qed
  qed
  show ?thesis by (rule other[OF _ put]) (use False in simp)
qed

lemma write_column_effect:
  assumes "write_column x (k, v) r = Inr r'"
  shows "same_standing r r'" "b_redemptionPin r' = b_redemptionPin r"
    "k \<noteq> ''isActive'' \<Longrightarrow> b_isActive r' = b_isActive r"
    "br_locationConfidence r' = (if k = ''locationConfidence'' then text_of v else br_locationConfidence r)"
    "br_postcode r' = (if k = ''postcode'' then text_of v else br_postcode r)"
    "if k = ''latitude'' then coordinate x 100 v = Inr (br_latitude r') else br_latitude r' = br_latitude r"
    "if k = ''longitude'' then coordinate x 1000 v = Inr (br_longitude r') else br_longitude r' = br_longitude r"
  using assms
  by (cases rule: write_column_cases; simp add: put_column_def same_standing_def)+

lemma write_columns_standing:
  "write_columns x b r = Inr r' \<Longrightarrow> same_standing r r' \<and> b_redemptionPin r' = b_redemptionPin r"
proof (induction b arbitrary: r)
  case (Cons kv b)
  then show ?case
    by (cases kv) (auto dest: write_column_effect(1,2) intro: same_standing_trans)
qed auto

lemma write_columns_active:
  "write_columns x b r = Inr r' \<Longrightarrow> \<not> has_key ''isActive'' b \<Longrightarrow> b_isActive r' = b_isActive r"
proof (induction b arbitrary: r)
  case (Cons kv b)
  obtain k v where kv: "kv = (k, v)" by (cases kv)
  then have "k \<noteq> ''isActive''" "\<not> has_key ''isActive'' b"
    using Cons.prems(2) by (auto simp: has_key_def split: if_splits)
  with Cons kv show ?case by (auto dest!: write_column_effect(3))
qed auto

text \<open>A column takes the value the bag has for it, and keeps its own otherwise.\<close>

lemma written_text:
  assumes "\<And>k v r r'. write_column x (k, v) r = Inr r' \<Longrightarrow> f r' = (if k = key then text_of v else f r)"
    and "write_columns x b r = Inr r'" "distinct (map fst b)"
  shows "f r' = (case map_of b key of None \<Rightarrow> f r | Some v \<Rightarrow> text_of v)"
  using assms(2,3)
proof (induction b arbitrary: r)
  case (Cons kv b)
  obtain k v where kv: "kv = (k, v)" by (cases kv)
  from Cons.prems kv obtain r1 where r1: "write_column x (k, v) r = Inr r1" "write_columns x b r1 = Inr r'" by auto
  have "f r' = (case map_of b key of None \<Rightarrow> f r1 | Some v \<Rightarrow> text_of v)"
    using Cons.IH[OF r1(2)] Cons.prems(2) by simp
  moreover have "k = key \<Longrightarrow> map_of b key = None"
    using Cons.prems(2) kv by (auto simp: map_of_eq_None_iff)
  ultimately show ?case using assms(1)[OF r1(1)] kv by (cases "k = key") (auto split: option.splits)
qed auto

lemma written_confidence:
  assumes "write_columns x b r = Inr r'" "distinct (map fst b)"
  shows "br_locationConfidence r' =
    (case map_of b ''locationConfidence'' of None \<Rightarrow> br_locationConfidence r | Some v \<Rightarrow> text_of v)"
  by (rule written_text[OF _ assms]) (rule write_column_effect(4))

lemma written_postcode:
  assumes "write_columns x b r = Inr r'" "distinct (map fst b)"
  shows "br_postcode r' = (case map_of b ''postcode'' of None \<Rightarrow> br_postcode r | Some v \<Rightarrow> text_of v)"
  by (rule written_text[OF _ assms]) (rule write_column_effect(5))

lemma written_coordinate:
  assumes "\<And>k v r r'. write_column x (k, v) r = Inr r' \<Longrightarrow>
      if k = key then coordinate x limit v = Inr (f r') else f r' = f r"
    and "write_columns x b r = Inr r'" "distinct (map fst b)"
  shows "case map_of b key of None \<Rightarrow> f r' = f r | Some v \<Rightarrow> coordinate x limit v = Inr (f r')"
  using assms(2,3)
proof (induction b arbitrary: r)
  case (Cons kv b)
  obtain k v where kv: "kv = (k, v)" by (cases kv)
  from Cons.prems kv obtain r1 where r1: "write_column x (k, v) r = Inr r1" "write_columns x b r1 = Inr r'" by auto
  have "case map_of b key of None \<Rightarrow> f r' = f r1 | Some v \<Rightarrow> coordinate x limit v = Inr (f r')"
    using Cons.IH[OF r1(2)] Cons.prems(2) by simp
  moreover have "k = key \<Longrightarrow> map_of b key = None"
    using Cons.prems(2) kv by (auto simp: map_of_eq_None_iff)
  ultimately show ?case using assms(1)[OF r1(1)] kv by (cases "k = key") (auto split: option.splits)
qed auto

lemma written_latitude:
  assumes "write_columns x b r = Inr r'" "distinct (map fst b)"
  shows "case map_of b ''latitude'' of None \<Rightarrow> br_latitude r' = br_latitude r
    | Some v \<Rightarrow> coordinate x 100 v = Inr (br_latitude r')"
  by (rule written_coordinate[OF _ assms]) (rule write_column_effect(6))

lemma written_longitude:
  assumes "write_columns x b r = Inr r'" "distinct (map fst b)"
  shows "case map_of b ''longitude'' of None \<Rightarrow> br_longitude r' = br_longitude r
    | Some v \<Rightarrow> coordinate x 1000 v = Inr (br_longitude r')"
  by (rule written_coordinate[OF _ assms]) (rule write_column_effect(7))

lemma coordinate_jnum [simp]: "coordinate x limit (jnum a) = Inr c \<Longrightarrow> c = Some (to_e8 a)"
  by (auto simp: coordinate_def jnum_def split: if_splits)

text \<open>The row stands at a point.\<close>

definition at_point :: "branch_row \<Rightarrow> point \<Rightarrow> bool" where
  "at_point r p \<longleftrightarrow> br_latitude r = Some (to_e8 (fst p)) \<and> br_longitude r = Some (to_e8 (snd p))"

lemma written_point:
  assumes "write_columns x b r = Inr r'" "distinct (map fst b)"
    and "map_of b ''latitude'' = Some (jnum (fst p))" "map_of b ''longitude'' = Some (jnum (snd p))"
  shows "at_point r' p"
  using written_latitude[OF assms(1,2)] written_longitude[OF assms(1,2)] assms(3,4)
  by (auto simp: at_point_def dest: coordinate_jnum)

section \<open>Keys of bags\<close>

lemma keys_pick: "map fst (pick ks b) = filter (\<lambda>k. has_key k b) ks"
  by (induction ks) (auto simp: pick_def has_key_def split: option.splits)

lemma distinct_pick [simp]: "distinct ks \<Longrightarrow> distinct (map fst (pick ks b))"
  by (simp add: keys_pick)

lemma distinct_spread [simp]: "distinct (map fst a) \<Longrightarrow> distinct (map fst (spread a b))"
proof (induction b arbitrary: a)
  case (Cons kv b)
  then show ?case
    by (cases kv) (simp add: spread_def distinct_update)
qed (simp add: spread_def)

lemma map_of_pick: "map_of (pick ks b) k = (if k \<in> set ks then map_of b k else None)"
proof (induction ks)
  case (Cons a ks)
  have step: "pick (a # ks) b = (case map_of b a of None \<Rightarrow> [] | Some v \<Rightarrow> [(a, v)]) @ pick ks b"
    by (simp add: pick_def)
  show ?case
    unfolding step using Cons by (auto simp: map_add_def split: option.splits)
qed (simp add: pick_def)

lemma distinct_fields [simp]:
  "distinct SENSITIVE_FIELDS" "distinct DIRECT_FIELDS" "distinct (SENSITIVE_FIELDS @ DIRECT_FIELDS)" "distinct CREATE_FIELDS"
  by (code_simp+)

end
