(* ===== verification/Premises.thy ===== *)
theory Premises
  imports Estate
begin

text \<open>
  The admin side of branches: the branch lifecycle approvals (\<open>admin/approvals/branchLifecycleApplier.ts\<close>), the branch
  arm of the edit applier (\<open>admin/approvals/editApplier.ts\<close>), the location pin (\<open>admin/branches/service.ts\<close>) and the
  admin routes over the shared cores (\<open>admin/branches/routes.ts\<close>, \<open>admin/merchants/routes.ts\<close>); then every branch
  request as one step. The scope check of field representatives belongs to the routes and is left out.
\<close>

section \<open>Lifecycle approvals\<close>

datatype lifecycle_kind = Create | Close

definition branchLifecycleKindOf :: "approval_type \<Rightarrow> lifecycle_kind option" where
  "branchLifecycleKindOf ty =
     (if ty = BRANCH_CREATE then Some Create else if ty = BRANCH_CLOSE then Some Close else None)"

definition queued :: "estate \<Rightarrow> ident \<Rightarrow> approval option" where
  "queued s i = List.find (\<lambda>a. ap_id a = i) (e_approvals s)"

definition lifecycle_approval :: "estate \<Rightarrow> ident \<Rightarrow> (approval \<times> lifecycle_kind) result" where
  "lifecycle_approval s i =
     andThen (found (REVIEW APPROVAL_NOT_FOUND) (queued s i)) (\<lambda>a.
     andThen (found (REVIEW APPROVAL_NOT_ACTIONABLE) (branchLifecycleKindOf (ap_type a))) (\<lambda>k. returns (a, k)))"

definition open_row :: "branch_row \<Rightarrow> branch_row" where
  "open_row r = r\<lparr>b_lifecycleStatus := LIVE, b_isActive := True\<rparr>"

definition close_row :: "time \<Rightarrow> branch_row \<Rightarrow> branch_row" where
  "close_row now r = r\<lparr>b_lifecycleStatus := CLOSED, br_deletedAt := Some now, b_isActive := False\<rparr>"

text \<open>The answer is \<open>alreadyDone\<close> and the state.\<close>

definition approve_create :: "time \<Rightarrow> ident \<Rightarrow> ident \<Rightarrow> ident \<Rightarrow> estate \<Rightarrow> (bool \<times> estate) result" where
  "approve_create now i adminId bid s =
     andThen (found (BRANCH BRANCH_NOT_FOUND) (row_by_id s bid)) (\<lambda>r.
     andThen (guard (location_confirmed (br_locationConfidence r)) (REVIEW MAIN_BRANCH_LOCATION_UNCONFIRMED)) (\<lambda>_.
     if b_lifecycleStatus r \<noteq> PENDING_CREATE then returns (True, s)
     else returns (False, log_event bid ''BRANCH_CREATE_APPROVED'' adminId
            (change_approval i (decided now adminId A_APPROVED None) (map_row bid open_row s)))))"

definition approve_close :: "time \<Rightarrow> ident \<Rightarrow> ident \<Rightarrow> ident \<Rightarrow> estate \<Rightarrow> (bool \<times> estate) result" where
  "approve_close now i adminId bid s =
     andThen (found (BRANCH BRANCH_NOT_FOUND) (row_by_id s bid)) (\<lambda>r.
     if b_lifecycleStatus r \<noteq> PENDING_CLOSE then returns (True, s)
     else andThen (guard (\<not> br_isMainBranch r) (BRANCH BRANCH_IS_MAIN)) (\<lambda>_.
          andThen (last_active_guard s (b_merchantId r)) (\<lambda>_.
          returns (False, log_event bid ''BRANCH_CLOSE_APPROVED'' adminId
            (change_approval i (decided now adminId A_APPROVED None) (map_row bid (close_row now) (deactivate_users bid s)))))))"

definition approveBranchLifecycle :: "time \<Rightarrow> ident \<Rightarrow> ident \<Rightarrow> estate \<Rightarrow> (bool \<times> estate) result" where
  "approveBranchLifecycle now i adminId s =
     andThen (lifecycle_approval s i) (\<lambda>(a, k).
     if ap_status a \<noteq> A_PENDING then returns (True, s)
     else case k of Create \<Rightarrow> approve_create now i adminId (ap_referenceId a) s
                  | Close \<Rightarrow> approve_close now i adminId (ap_referenceId a) s)"

definition rejectBranchLifecycle :: "time \<Rightarrow> ident \<Rightarrow> ident \<Rightarrow> string \<Rightarrow> estate \<Rightarrow> estate result" where
  "rejectBranchLifecycle now i adminId reason s =
     andThen (lifecycle_approval s i) (\<lambda>(a, k).
     andThen (guard (ap_status a = A_PENDING) (REVIEW APPROVAL_NOT_ACTIONABLE)) (\<lambda>_.
     let bid = ap_referenceId a in
     andThen (found (BRANCH BRANCH_NOT_FOUND) (row_by_id s bid)) (\<lambda>_.
     returns (case k of
         Create \<Rightarrow> log_event bid ''BRANCH_CREATE_CHANGES_REQUESTED'' adminId
                    (change_approval i (decided now adminId A_CHANGES_REQUESTED (Some reason)) s)
       | Close \<Rightarrow> log_event bid ''BRANCH_CLOSE_REJECTED'' adminId
                   (change_approval i (decided now adminId A_REJECTED (Some reason)) (map_row bid reopen_row s))))))"

section \<open>Pins and staged edits\<close>

definition confirmBranchLocation :: "outside \<Rightarrow> ident \<Rightarrow> ident \<Rightarrow> point \<Rightarrow> estate \<Rightarrow> estate result" where
  "confirmBranchLocation x adminId bid pin s =
     andThen (found (BRANCH BRANCH_NOT_FOUND) (row_by_id s bid)) (\<lambda>_.
     andThen (update_columns x bid [(''latitude'', jnum (fst pin)), (''longitude'', jnum (snd pin)),
       (''locationConfidence'', JStr ''MANUALLY_CONFIRMED'')] s) (\<lambda>s1.
     returns (log_event bid ''BRANCH_LOCATION_CONFIRMED'' adminId s1)))"

definition BRANCH_LOCATION_SNAPSHOT_FIELDS :: "string list" where
  "BRANCH_LOCATION_SNAPSHOT_FIELDS = [''latitude'', ''longitude'', ''localityId'', ''localityName'', ''postTown'',
     ''ladDistrict'', ''adminCounty'', ''region'', ''locationCountry'', ''locationResolvedAt'', ''locationConfidence'']"

text \<open>The staged place, when it is well formed.\<close>

definition staged_suggestion :: "bag \<Rightarrow> suggestion option" where
  "staged_suggestion proposed =
     (case map_of proposed LOCATION_SUGGESTION_KEY of
        Some (JObj g) \<Rightarrow>
          (case (point_of g, map_of g ''placeId'') of
             (Some p, Some (JStr i)) \<Rightarrow>
               if i = '''' then None
               else Some \<lparr>su_placeId = i, su_point = p,
                      su_postcode = (case map_of g ''postcode'' of Some (JStr pc) \<Rightarrow> Some pc | _ \<Rightarrow> None)\<rparr>
           | _ \<Rightarrow> None)
      | _ \<Rightarrow> None)"

definition branch_edit_review :: "ident \<Rightarrow> estate \<Rightarrow> branch_edit result" where
  "branch_edit_review i s =
     andThen (found (REVIEW APPROVAL_NOT_FOUND) (queued s i)) (\<lambda>a.
     andThen (guard (ap_type a = BRANCH_IDENTITY_EDIT) (REVIEW APPROVAL_NOT_ACTIONABLE)) (\<lambda>_.
     andThen (guard (ap_status a = A_PENDING) (REVIEW APPROVAL_NOT_ACTIONABLE)) (\<lambda>_.
     andThen (found (REVIEW PENDING_EDIT_NOT_FOUND) (List.find (\<lambda>e. be_id e = ap_referenceId a) (e_edits s))) (\<lambda>e.
     andThen (guard (be_status e = A_PENDING) (REVIEW PENDING_EDIT_NOT_ACTIONABLE)) (\<lambda>_. returns e)))))"

definition strings_of :: "json option \<Rightarrow> (string \<Rightarrow> bool) \<Rightarrow> string list" where
  "strings_of j ok = (case j of Some (JArr xs) \<Rightarrow> filter ok (map text_of (filter is_string xs)) | _ \<Rightarrow> [])"

definition parsePhotoChanges :: "bag \<Rightarrow> string list \<times> string list" where
  "parsePhotoChanges proposed =
     (strings_of (map_of proposed ''add'') (\<lambda>u. js_trim u \<noteq> ''''),
      strings_of (map_of proposed ''remove'') (\<lambda>i. i \<noteq> ''''))"

definition edit_columns :: "outside \<Rightarrow> bag \<Rightarrow> bag" where
  "edit_columns x proposed =
     checked_fields x (staged_suggestion proposed)
       (spread (pick SENSITIVE_FIELDS proposed) (pick BRANCH_LOCATION_SNAPSHOT_FIELDS proposed))"

definition apply_branch_edit :: "outside \<Rightarrow> (nat \<Rightarrow> ident) \<Rightarrow> branch_edit \<Rightarrow> estate \<Rightarrow> estate result" where
  "apply_branch_edit x pid e s =
     (let bid = be_branchId e; applied = edit_columns x (be_proposedChanges e) in
      andThen (found (BRANCH BRANCH_NOT_FOUND) (row_by_id s bid)) (\<lambda>_.
      andThen (if applied = [] then returns s else update_columns x bid applied s) (\<lambda>s1.
      returns (if be_includesPhotos e
               then (case parsePhotoChanges (be_proposedChanges e) of (add, remove) \<Rightarrow>
                       remove_photos bid remove (add_photos pid bid add s1))
               else s1))))"

definition approveBranchEdit :: "outside \<Rightarrow> time \<Rightarrow> (nat \<Rightarrow> ident) \<Rightarrow> ident \<Rightarrow> ident \<Rightarrow> estate \<Rightarrow> estate result" where
  "approveBranchEdit x now pid i adminId s =
     andThen (branch_edit_review i s) (\<lambda>e.
     andThen (apply_branch_edit x pid e s) (\<lambda>s1.
     returns (log_event (be_branchId e) ''BRANCH_EDIT_APPROVED'' adminId
       (change_approval i (decided now adminId A_APPROVED None)
         (change_edit (be_id e) (\<lambda>e. e\<lparr>be_status := A_APPROVED, be_reviewedBy := Some adminId\<rparr>) s1)))))"

definition rejectBranchEdit :: "time \<Rightarrow> ident \<Rightarrow> ident \<Rightarrow> string \<Rightarrow> estate \<Rightarrow> estate result" where
  "rejectBranchEdit now i adminId reason s =
     andThen (branch_edit_review i s) (\<lambda>e.
     returns (log_event (be_branchId e) ''BRANCH_EDIT_REJECTED'' adminId
       (change_approval i (decided now adminId A_REJECTED (Some reason))
         (change_edit (be_id e) (\<lambda>e. e\<lparr>be_status := A_REJECTED, be_reviewedBy := Some adminId\<rparr>) s))))"

section \<open>Admin routes over the shared cores\<close>

definition adminCreateBranch ::
  "outside \<Rightarrow> time \<Rightarrow> ident \<Rightarrow> ident \<Rightarrow> ident \<Rightarrow> ident \<Rightarrow> bag \<Rightarrow> estate \<Rightarrow> estate result" where
  "adminCreateBranch x now merchantId adminId bid aid data s =
     andThen (resolveTargetMerchantForAdmin (e_db s) merchantId) (\<lambda>_.
     createBranchCore x now merchantId adminId bid aid False None data s)"

definition adminUpdateBranch :: "outside \<Rightarrow> ident \<Rightarrow> ident \<Rightarrow> bag \<Rightarrow> estate \<Rightarrow> estate result" where
  "adminUpdateBranch x adminId bid data s =
     andThen (found (BRANCH BRANCH_NOT_FOUND)
       (List.find (\<lambda>r. br_id r = bid \<and> br_deletedAt r = None) (e_rows s))) (\<lambda>r.
     andThen (resolveTargetMerchantForAdmin (e_db s) (b_merchantId r)) (\<lambda>_.
     updateBranchDirectCore x (b_merchantId r) adminId bid (pick DIRECT_FIELDS data) s))"

definition adminDeleteBranch :: "time \<Rightarrow> ident \<Rightarrow> ident \<Rightarrow> estate \<Rightarrow> estate result" where
  "adminDeleteBranch now adminId bid s =
     andThen (found (BRANCH BRANCH_NOT_FOUND)
       (List.find (\<lambda>r. br_id r = bid \<and> br_deletedAt r = None) (e_rows s))) (\<lambda>r.
     andThen (resolveTargetMerchantForAdmin (e_db s) (b_merchantId r)) (\<lambda>_.
     softDeleteBranchCore now (b_merchantId r) adminId bid s))"

section \<open>Requests\<close>

text \<open>Everything that writes: the first identifier is the caller's. \<open>serve_branch\<close> answers one request at \<open>now\<close>; a
  refused request leaves the estate as it was, \<open>setAmenities\<close> apart.\<close>

datatype branch_request =
    NewBranch ident ident ident "suggestion option" bag
  | CancelBranch ident ident
  | DropPin ident ident point
  | PatchBranch ident ident ident ident "suggestion option" bag
  | RequestEdit ident ident ident ident "suggestion option" bag
  | WithdrawEdit ident ident ident
  | RequestPhotos ident ident ident ident "string list" "ident list"
  | RemovePhoto ident ident ident
  | SetAmenities ident ident "ident list"
  | SetAlerts ident ident bool
  | DeleteBranch ident ident
  | RequestClose ident ident ident string
  | WithdrawClose ident ident
  | SetPin ident ident string
  | ApproveLifecycle ident ident
  | RejectLifecycle ident ident string
  | ConfirmLocation ident ident point
  | ApproveBranchEdit ident ident
  | RejectBranchEdit ident ident string
  | AdminCreate ident ident ident ident bag
  | AdminUpdate ident ident bag
  | AdminDelete ident ident

definition after :: "estate \<Rightarrow> estate result \<Rightarrow> estate" where
  "after s r = (case r of Inl _ \<Rightarrow> s | Inr s' \<Rightarrow> s')"

fun serve_branch ::
  "outside \<Rightarrow> (ident \<Rightarrow> bool) \<Rightarrow> (nat \<Rightarrow> ident) \<Rightarrow> time \<Rightarrow> branch_request \<Rightarrow> estate \<Rightarrow> estate" where
  "serve_branch x am pid now (NewBranch adm bid aid g data) s = after s (createBranch x now adm bid aid g data s)"
| "serve_branch x am pid now (CancelBranch adm bid) s = after s (cancelPendingCreate adm bid s)"
| "serve_branch x am pid now (DropPin adm bid pin) s = after s (dropBranchPin x adm bid pin s)"
| "serve_branch x am pid now (PatchBranch adm bid eid aid g data) s = after s (updateBranch x now adm bid eid aid g data s)"
| "serve_branch x am pid now (RequestEdit adm bid eid aid g data) s =
     after s (createBranchEditRequest x now adm bid eid aid False g data s)"
| "serve_branch x am pid now (WithdrawEdit adm bid eid) s = after s (withdrawBranchEditRequest now adm bid eid s)"
| "serve_branch x am pid now (RequestPhotos adm bid eid aid add remove) s =
     after s (createBranchPhotoEditRequest x pid adm bid eid aid add remove s)"
| "serve_branch x am pid now (RemovePhoto adm bid p) s = after s (removeBranchPhoto adm bid p s)"
| "serve_branch x am pid now (SetAmenities adm bid ids) s = snd (setAmenities am adm bid ids s)"
| "serve_branch x am pid now (SetAlerts adm bid b) s = after s (setRedemptionAlerts adm bid b s)"
| "serve_branch x am pid now (DeleteBranch adm bid) s = after s (softDeleteBranch now adm bid s)"
| "serve_branch x am pid now (RequestClose adm bid aid reason) s = after s (requestBranchClose adm bid aid reason s)"
| "serve_branch x am pid now (WithdrawClose adm bid) s = after s (withdrawBranchClose adm bid s)"
| "serve_branch x am pid now (SetPin adm bid pin) s = after s (setBranchPin x adm bid pin s)"
| "serve_branch x am pid now (ApproveLifecycle i adm) s =
     after s (andThen (approveBranchLifecycle now i adm s) (\<lambda>(_, s'). returns s'))"
| "serve_branch x am pid now (RejectLifecycle i adm reason) s = after s (rejectBranchLifecycle now i adm reason s)"
| "serve_branch x am pid now (ConfirmLocation adm bid pin) s = after s (confirmBranchLocation x adm bid pin s)"
| "serve_branch x am pid now (ApproveBranchEdit i adm) s = after s (approveBranchEdit x now pid i adm s)"
| "serve_branch x am pid now (RejectBranchEdit i adm reason) s = after s (rejectBranchEdit now i adm reason s)"
| "serve_branch x am pid now (AdminCreate mid adm bid aid data) s = after s (adminCreateBranch x now mid adm bid aid data s)"
| "serve_branch x am pid now (AdminUpdate adm bid data) s = after s (adminUpdateBranch x adm bid data s)"
| "serve_branch x am pid now (AdminDelete adm bid) s = after s (adminDeleteBranch now adm bid s)"

definition run_branch ::
  "outside \<Rightarrow> (ident \<Rightarrow> bool) \<Rightarrow> (time \<times> (nat \<Rightarrow> ident) \<times> branch_request) list \<Rightarrow> estate \<Rightarrow> estate" where
  "run_branch x am = fold (\<lambda>(now, pid, q). serve_branch x am pid now q)"

end
