(* ===== verification/Sites.thy ===== *)
theory Sites
  imports Premises
begin

text \<open>
  The branches of the program as an abstract machine. \<open>move\<close> says what one request may do to the table of branches;
  \<open>branch_step_refines\<close> shows that every handler does just that, in an estate that satisfies \<open>estate_ok\<close>. What holds
  of every history of requests is then proved on the machine.
\<close>

section \<open>Evidence of a location\<close>

text \<open>A location that counts as confirmed without an admin lies within the trust radius of the centroid of the branch's
  own postcode.\<close>

definition located :: "outside \<Rightarrow> branch_row \<Rightarrow> bool" where
  "located x r \<longleftrightarrow>
     br_locationConfidence r = ''POSTCODE_CENTROID'' \<or> br_locationConfidence r = ''NEEDS_REVIEW'' \<or>
     ((br_locationConfidence r = ''MERCHANT_CONFIRMED'' \<or> br_locationConfidence r = ''ADDRESS_GEOCODED'') \<and>
      (\<exists>p sn. resolvePostcode x (br_postcode r) = Inr sn \<and> o_metres x p (sn_point sn) \<le> 1000 \<and> at_point r p))"

text \<open>A bag whose confidence, if any, comes with the snapshot of its own postcode.\<close>

definition anchored :: "outside \<Rightarrow> bag \<Rightarrow> bool" where
  "anchored x b \<longleftrightarrow> map_of b ''locationConfidence'' = None \<or>
     (map_of b ''locationConfidence'' = Some (JStr ''POSTCODE_CENTROID'') \<and>
      (\<exists>pc sn. map_of b ''postcode'' = Some (JStr pc) \<and> resolvePostcode x pc = Inr sn \<and>
         point_of b = Some (sn_point sn)))"

lemma map_of_location_fields [simp]:
  "map_of (location_fields now sn lo) ''locationConfidence'' = Some (JStr ''POSTCODE_CENTROID'')"
  "map_of (location_fields now sn lo) ''latitude'' = Some (jnum (fst (sn_point sn)))"
  "map_of (location_fields now sn lo) ''longitude'' = Some (jnum (snd (sn_point sn)))"
  "map_of (location_fields now sn lo) ''postcode'' = None"
  "distinct (map fst (location_fields now sn lo))"
  by (simp_all add: location_fields_def)

lemma map_of_rev_distinct:
  assumes "distinct (map fst b)"
  shows "map_of (rev b) k = map_of b k"
proof -
  have "distinct (map fst (rev b))" using assms by (simp add: rev_map[symmetric])
  then have "map_of (rev b) k = Some v \<longleftrightarrow> map_of b k = Some v" for v
    using assms by (simp add: map_of_eq_Some_iff)
  then show ?thesis by (cases "map_of b k") auto
qed

lemma map_of_spread_distinct:
  "distinct (map fst b) \<Longrightarrow> map_of (spread a b) k = (case map_of b k of None \<Rightarrow> map_of a k | Some v \<Rightarrow> Some v)"
  by (simp add: map_of_spread map_of_rev_distinct)

lemma point_of_jnum:
  "point_of b = Some p \<longleftrightarrow> map_of b ''latitude'' = Some (jnum (fst p)) \<and> map_of b ''longitude'' = Some (jnum (snd p))"
  by (cases p) (auto simp: point_of_def jnum_def split: option.splits json.splits)

lemma re_anchored_spread:
  assumes "re_anchored x now b = Inr b'"
  obtains "b' = b" | pc sn lo where "map_of b ''postcode'' = Some (JStr pc)" "resolvePostcode x pc = Inr sn"
    "b' = spread b (location_fields now sn lo)"
  using assms unfolding re_anchored_def resolveBranchLocationFields_def
  by (cases "map_of b ''postcode''"; (simp; fail)?; rename_tac v; case_tac v) (auto split: if_splits)

lemma re_anchored_anchored:
  assumes "re_anchored x now b = Inr b'" "map_of b ''locationConfidence'' = None" "distinct (map fst b)"
  shows "anchored x b'" "distinct (map fst b')"
  using assms(2,3)
  by (cases rule: re_anchored_spread[OF assms(1)];
      force simp: anchored_def map_of_spread_distinct point_of_jnum)+

lemma map_of_trusted [simp]:
  "map_of (spread b (trusted_fields x g entered c)) ''postcode'' = map_of b ''postcode''"
  by (auto simp: trusted_fields_def map_of_spread split: option.splits)

lemma distinct_trusted [simp]: "distinct (map fst (trusted_fields x g entered c))"
  by (auto simp: trusted_fields_def split: option.splits)

text \<open>A verdict leaves the row located: at the place if the place is trusted, in need of review otherwise.\<close>

lemma trusted_located:
  assumes w: "write_columns x (spread b (trusted_fields x g pc (sn_point sn))) r = Inr r'" and d: "distinct (map fst b)"
    and pc: "map_of b ''postcode'' = Some (JStr pc)" and sn: "resolvePostcode x pc = Inr sn"
  shows "located x r'"
proof -
  let ?b = "spread b (trusted_fields x g pc (sn_point sn))"
  have d': "distinct (map fst ?b)" using d by simp
  have post: "br_postcode r' = pc"
    using written_postcode[OF w d'] pc by simp
  have conf: "br_locationConfidence r' = (case map_of ?b ''locationConfidence'' of None \<Rightarrow> br_locationConfidence r
      | Some v \<Rightarrow> text_of v)"
    by (rule written_confidence[OF w d'])
  show ?thesis
  proof (cases "crossCheckGoogleLocation (o_metres x) (su_point g) (su_postcode g) pc (Some (sn_point sn))")
    case (Some e)
    then have "trusted_fields x g pc (sn_point sn) = [(''locationConfidence'', JStr ''NEEDS_REVIEW'')]"
      by (simp add: trusted_fields_def)
    then show ?thesis using conf by (simp add: map_of_spread_distinct located_def)
  next
    case None
    then have t: "trusted_fields x g pc (sn_point sn) =
        [(''latitude'', jnum (fst (su_point g))), (''longitude'', jnum (snd (su_point g))),
         (''googlePlaceId'', JStr (su_placeId g)), (''locationConfidence'', JStr ''ADDRESS_GEOCODED'')]"
      by (simp add: trusted_fields_def)
    have "br_locationConfidence r' = ''ADDRESS_GEOCODED''"
      using conf t by (simp add: map_of_spread_distinct)
    moreover have "at_point r' (su_point g)"
      by (rule written_point[OF w d']) (simp_all add: t map_of_spread_distinct)
    moreover have "o_metres x (su_point g) (sn_point sn) \<le> 1000"
      using None by (auto simp: crossCheck_trusted)
    ultimately show ?thesis using sn post unfolding located_def by blast
  qed
qed

lemma unstated_confidence:
  assumes "write_columns x b r = Inr r'" "distinct (map fst b)" "map_of b ''locationConfidence'' = None"
  shows "br_locationConfidence r' = br_locationConfidence r"
  using written_confidence[OF assms(1,2)] assms(3) by simp

lemma checked_written:
  assumes w: "write_columns x (checked_fields x g b) r = Inr r'" and a: "anchored x b" and d: "distinct (map fst b)"
  shows "br_locationConfidence r' = br_locationConfidence r \<or> located x r'"
proof (cases "map_of b ''locationConfidence''")
  case None
  then have "checked_fields x g b = b" by (auto simp: checked_fields_def split: option.splits)
  with w d None show ?thesis by (simp add: unstated_confidence)
next
  case (Some v)
  with a obtain pc sn where v: "v = JStr ''POSTCODE_CENTROID''" and pc: "map_of b ''postcode'' = Some (JStr pc)"
    and sn: "resolvePostcode x pc = Inr sn" "point_of b = Some (sn_point sn)"
    unfolding anchored_def by auto
  show ?thesis
  proof (cases g)
    case None
    then have "checked_fields x g b = b" by (simp add: checked_fields_def)
    with w have "write_columns x b r = Inr r'" by simp
    then have "br_locationConfidence r' = ''POSTCODE_CENTROID''"
      using written_confidence[OF _ d] Some v by simp
    then show ?thesis by (simp add: located_def)
  next
    case (Some g')
    then have "checked_fields x g b = spread b (trusted_fields x g' pc (sn_point sn))"
      using \<open>map_of b ''locationConfidence'' = Some v\<close> v pc sn by (simp add: checked_fields_def)
    with w trusted_located[OF _ d pc sn(1)] show ?thesis by simp
  qed
qed

lemma create_located:
  assumes w: "write_columns x (create_columns x g pc data loc) r = Inr r'"
    and pc: "map_of data ''postcode'' = Some (JStr pc)" and loc: "resolveBranchLocationFields x now pc = Inr loc"
  shows "located x r'"
proof -
  obtain sn lo where sn: "resolvePostcode x pc = Inr sn" and l: "loc = location_fields now sn lo"
    using loc by (auto simp: resolveBranchLocationFields_def)
  let ?b = "spread (pick CREATE_FIELDS data) loc"
  have d: "distinct (map fst ?b)" by simp
  have "''postcode'' \<in> set CREATE_FIELDS" by (simp add: CREATE_FIELDS_def)
  then have p: "map_of ?b ''postcode'' = Some (JStr pc)"
    using pc l by (simp add: map_of_spread_distinct map_of_pick)
  have pt: "point_of loc = Some (sn_point sn)"
    using l by (simp add: point_of_jnum)
  show ?thesis
  proof (cases g)
    case None
    then have "write_columns x ?b r = Inr r'" using w by (simp add: create_columns_def)
    then have "br_locationConfidence r' = ''POSTCODE_CENTROID''"
      using written_confidence[OF _ d] l by (simp add: map_of_spread_distinct)
    then show ?thesis by (simp add: located_def)
  next
    case (Some g')
    then have "write_columns x (spread ?b (trusted_fields x g' pc (sn_point sn))) r = Inr r'"
      using w pt by (simp add: create_columns_def)
    then show ?thesis by (rule trusted_located[OF _ d p sn])
  qed
qed

section \<open>The machine\<close>

datatype deed =
    Kept | Created ident | Cancelled ident | Edited ident | Confirmed ident | Promoted ident | Retired ident
  | CloseAsked ident | Reopened ident | Opened ident | Closed ident

definition put_row :: "branch_row \<Rightarrow> branch_row list \<Rightarrow> branch_row list" where
  "put_row r' rows = map (\<lambda>q. if br_id q = br_id r' then r' else q) rows"

definition main_row :: "branch_row \<Rightarrow> branch_row list \<Rightarrow> branch_row list" where
  "main_row r' rows = map (\<lambda>q. if br_id q = br_id r' then r'\<lparr>br_isMainBranch := True\<rparr>
     else if b_merchantId q = b_merchantId r' then q\<lparr>br_isMainBranch := False\<rparr> else q) rows"

definition on_view :: "ident \<Rightarrow> branch_row \<Rightarrow> bool" where
  "on_view m q \<longleftrightarrow> b_merchantId q = m \<and> b_isActive q \<and> br_deletedAt q = None"

definition settled :: "ident \<Rightarrow> branch_row \<Rightarrow> bool" where
  "settled m q \<longleftrightarrow> b_merchantId q = m \<and> br_deletedAt q = None \<and> b_lifecycleStatus q \<noteq> PENDING_CREATE"

text \<open>What may be retired: not the main branch, nor the last one a live merchant shows.\<close>

definition dispensable :: "(ident \<Rightarrow> bool) \<Rightarrow> branch_row list \<Rightarrow> branch_row \<Rightarrow> bool" where
  "dispensable live rows r \<longleftrightarrow> \<not> br_isMainBranch r \<and>
     (live (b_merchantId r) \<longrightarrow> 1 < length (filter (on_view (b_merchantId r)) rows))"

inductive move :: "outside \<Rightarrow> (ident \<Rightarrow> bool) \<Rightarrow> deed \<Rightarrow> branch_row list \<Rightarrow> branch_row list \<Rightarrow> bool" for x live where
  kept: "move x live Kept rows rows"
| staged: "\<lbrakk>br_id r \<notin> br_id ` set rows; br_deletedAt r = None; located x r; b_lifecycleStatus r = PENDING_CREATE;
     \<not> b_isActive r; \<not> br_isMainBranch r; filter (settled (b_merchantId r)) rows \<noteq> []\<rbrakk> \<Longrightarrow> move x live (Created (br_id r)) rows (rows @ [r])"
| created: "\<lbrakk>br_id r \<notin> br_id ` set rows; br_deletedAt r = None; located x r; b_lifecycleStatus r = LIVE;
     br_isMainBranch r \<longleftrightarrow> filter (settled (b_merchantId r)) rows = []\<rbrakk>
    \<Longrightarrow> move x live (Created (br_id r)) rows (rows @ [r])"
| cancelled: "\<lbrakk>r \<in> set rows; b_lifecycleStatus r = PENDING_CREATE; br_deletedAt r = None\<rbrakk>
    \<Longrightarrow> move x live (Cancelled (br_id r)) rows (filter (\<lambda>q. br_id q \<noteq> br_id r) rows)"
| edited: "\<lbrakk>r \<in> set rows; same_standing r r'; br_locationConfidence r' = br_locationConfidence r \<or> located x r'\<rbrakk>
    \<Longrightarrow> move x live (Edited (br_id r)) rows (put_row r' rows)"
| confirmed: "\<lbrakk>r \<in> set rows; same_standing r r'; br_locationConfidence r' = ''MANUALLY_CONFIRMED''\<rbrakk>
    \<Longrightarrow> move x live (Confirmed (br_id r)) rows (put_row r' rows)"
| promoted: "\<lbrakk>r \<in> set rows; same_standing r r'; br_locationConfidence r' = br_locationConfidence r; br_deletedAt r = None\<rbrakk>
    \<Longrightarrow> move x live (Promoted (br_id r)) rows (main_row r' rows)"
| retired: "\<lbrakk>r \<in> set rows; br_deletedAt r = None; dispensable live rows r\<rbrakk>
    \<Longrightarrow> move x live (Retired (br_id r)) rows (put_row (r\<lparr>br_deletedAt := Some now, b_isActive := False\<rparr>) rows)"
| close_asked: "\<lbrakk>r \<in> set rows; br_deletedAt r = None; b_lifecycleStatus r \<noteq> PENDING_CREATE; dispensable live rows r\<rbrakk>
    \<Longrightarrow> move x live (CloseAsked (br_id r)) rows
          (put_row (r\<lparr>b_lifecycleStatus := PENDING_CLOSE, br_closeReason := Some reason\<rparr>) rows)"
| reopened: "\<lbrakk>r \<in> set rows; b_lifecycleStatus r \<noteq> PENDING_CREATE\<rbrakk>
    \<Longrightarrow> move x live (Reopened (br_id r)) rows (put_row (reopen_row r) rows)"
| opened: "\<lbrakk>r \<in> set rows; b_lifecycleStatus r = PENDING_CREATE; location_confirmed (br_locationConfidence r)\<rbrakk>
    \<Longrightarrow> move x live (Opened (br_id r)) rows (put_row (open_row r) rows)"
| closed: "\<lbrakk>r \<in> set rows; b_lifecycleStatus r = PENDING_CLOSE; dispensable live rows r\<rbrakk>
    \<Longrightarrow> move x live (Closed (br_id r)) rows (put_row (close_row now r) rows)"

section \<open>Well-formed estates\<close>

definition awaits :: "approval_type \<Rightarrow> approval \<Rightarrow> bool" where
  "awaits ty a \<longleftrightarrow> ap_type a = ty \<and> ap_status a = A_PENDING"

text \<open>Keys are unique, every staged edit is anchored, a waiting approval is about a branch that is there, and there is
  one for a branch that waits to be created.\<close>

definition estate_ok :: "outside \<Rightarrow> estate \<Rightarrow> bool" where
  "estate_ok x s \<longleftrightarrow>
     distinct (map br_id (e_rows s)) \<and> distinct (map ap_id (e_approvals s)) \<and>
     (\<forall>e\<in>set (e_edits s). anchored x (be_proposedChanges e)) \<and>
     (\<forall>a\<in>set (e_approvals s). awaits BRANCH_CREATE a \<longrightarrow> ap_referenceId a \<in> br_id ` set (e_rows s)) \<and>
     (\<forall>a\<in>set (e_approvals s). awaits BRANCH_CLOSE a \<longrightarrow>
        (\<exists>r\<in>set (e_rows s). br_id r = ap_referenceId a \<and> b_lifecycleStatus r \<noteq> PENDING_CREATE)) \<and>
     (\<forall>a\<in>set (e_approvals s). \<forall>a'\<in>set (e_approvals s). awaits BRANCH_CREATE a \<longrightarrow> awaits BRANCH_CREATE a' \<longrightarrow>
        ap_referenceId a = ap_referenceId a' \<longrightarrow> a = a')"

lemma estate_okD:
  assumes "estate_ok x s"
  shows "distinct (map br_id (e_rows s))" "distinct (map ap_id (e_approvals s))"
    "\<And>e. e \<in> set (e_edits s) \<Longrightarrow> anchored x (be_proposedChanges e)"
    "\<And>a. a \<in> set (e_approvals s) \<Longrightarrow> awaits BRANCH_CREATE a \<Longrightarrow> ap_referenceId a \<in> br_id ` set (e_rows s)"
    "\<And>a. a \<in> set (e_approvals s) \<Longrightarrow> awaits BRANCH_CLOSE a \<Longrightarrow>
       \<exists>r\<in>set (e_rows s). br_id r = ap_referenceId a \<and> b_lifecycleStatus r \<noteq> PENDING_CREATE"
    "\<And>a a'. a \<in> set (e_approvals s) \<Longrightarrow> a' \<in> set (e_approvals s) \<Longrightarrow> awaits BRANCH_CREATE a \<Longrightarrow>
       awaits BRANCH_CREATE a' \<Longrightarrow> ap_referenceId a = ap_referenceId a' \<Longrightarrow> a = a'"
  using assms by (simp_all add: estate_ok_def)

section \<open>Rows by key\<close>

lemma same_id: "distinct (map br_id rows) \<Longrightarrow> r \<in> set rows \<Longrightarrow> q \<in> set rows \<Longrightarrow> br_id q = br_id r \<Longrightarrow> q = r"
  by (simp add: distinct_map inj_on_def)

lemma map_at_row:
  assumes "distinct (map br_id rows)" "r \<in> set rows" "br_id (f r) = br_id r"
  shows "map (\<lambda>q. if br_id q = br_id r then f q else q) rows = put_row (f r) rows"
  unfolding put_row_def using assms(3) same_id[OF assms(1,2)] by (intro map_cong refl) auto

lemma own_branch_row:
  "own_branch s bid m = Some r \<Longrightarrow> r \<in> set (e_rows s) \<and> br_id r = bid \<and> b_merchantId r = m \<and> br_deletedAt r = None"
  unfolding own_branch_def by (drule find_Some_in) simp

lemma row_by_id_row: "row_by_id s bid = Some r \<Longrightarrow> r \<in> set (e_rows s) \<and> br_id r = bid"
  unfolding row_by_id_def by (drule find_Some_in) simp

lemma map_row_put:
  assumes "distinct (map br_id (e_rows s))" "r \<in> set (e_rows s)" "br_id r = bid" "br_id (f r) = bid"
  shows "map_row bid f s = s\<lparr>e_rows := put_row (f r) (e_rows s)\<rparr>"
  using map_at_row[OF assms(1,2), of f] assms(3,4) by (simp add: map_row_def)

lemma update_columns_put:
  assumes "update_columns x bid b s = Inr s'" "distinct (map br_id (e_rows s))"
  obtains r r' where "row_by_id s bid = Some r" "r \<in> set (e_rows s)" "br_id r = bid" "write_columns x b r = Inr r'"
    "same_standing r r'" "s' = s\<lparr>e_rows := put_row r' (e_rows s)\<rparr>"
proof -
  obtain r r' where r: "row_by_id s bid = Some r" and w: "write_columns x b r = Inr r'"
    and s': "s' = map_row bid (\<lambda>_. r') s"
    using assms(1) by (auto simp: update_columns_def)
  have st: "same_standing r r'" using write_columns_standing[OF w] by simp
  have in_rows: "r \<in> set (e_rows s)" "br_id r = bid" using row_by_id_row[OF r] by simp_all
  have "s' = s\<lparr>e_rows := put_row r' (e_rows s)\<rparr>"
    unfolding s' using st in_rows by (subst map_row_put[OF assms(2) in_rows]) (simp_all add: same_standing_def)
  with r in_rows w st show thesis by (rule that)
qed

section \<open>What keeps an estate well formed\<close>

lemma ids_put_row [simp]: "map br_id (put_row r' rows) = map br_id rows"
  by (induction rows) (auto simp: put_row_def)

lemma set_put_row:
  assumes "distinct (map br_id rows)" "r \<in> set rows" "br_id r' = br_id r"
  shows "set (put_row r' rows) = insert r' (set rows - {r})"
  using assms(2,3) same_id[OF assms(1,2)] by (auto simp: put_row_def image_iff)

lemma log_event_keeps [simp]:
  "e_rows (log_event i ev a s) = e_rows s" "e_approvals (log_event i ev a s) = e_approvals s"
  "e_edits (log_event i ev a s) = e_edits s" "e_db (log_event i ev a s) = e_db s" "e_users (log_event i ev a s) = e_users s"
  "e_photos (log_event i ev a s) = e_photos s" "e_steps (log_event i ev a s) = e_steps s"
  by (simp_all add: log_event_def)

lemma ok_irrelevant [simp]:
  "estate_ok x (log_event i ev a s) \<longleftrightarrow> estate_ok x s"
  "estate_ok x (s\<lparr>e_photos := ps\<rparr>) \<longleftrightarrow> estate_ok x s"
  "estate_ok x (s\<lparr>e_amenities := am\<rparr>) \<longleftrightarrow> estate_ok x s"
  "estate_ok x (deactivate_users bid s) \<longleftrightarrow> estate_ok x s"
  "estate_ok x (add_photos pid bid urls s) \<longleftrightarrow> estate_ok x s"
  "estate_ok x (remove_photos bid ids s) \<longleftrightarrow> estate_ok x s"
  by (simp_all add: estate_ok_def log_event_def deactivate_users_def add_photos_def remove_photos_def)

lemma ok_rows:
  assumes "estate_ok x s" "map br_id rows' = map br_id (e_rows s)"
    and "\<And>r. r \<in> set (e_rows s) \<Longrightarrow> b_lifecycleStatus r \<noteq> PENDING_CREATE \<Longrightarrow>
      \<exists>r'\<in>set rows'. br_id r' = br_id r \<and> b_lifecycleStatus r' \<noteq> PENDING_CREATE"
  shows "estate_ok x (s\<lparr>e_rows := rows'\<rparr>)"
proof -
  have ids: "br_id ` set rows' = br_id ` set (e_rows s)" by (metis assms(2) list.set_map)
  have "\<exists>r\<in>set rows'. br_id r = ap_referenceId a \<and> b_lifecycleStatus r \<noteq> PENDING_CREATE"
    if "a \<in> set (e_approvals s)" "awaits BRANCH_CLOSE a" for a
    using estate_okD(5)[OF assms(1) that] assms(3) by fastforce
  then show ?thesis
    using assms(1,2) ids estate_okD(6)[OF assms(1)] by (simp add: estate_ok_def)
qed

lemma ok_put_row:
  assumes "estate_ok x s" "r \<in> set (e_rows s)" "br_id r' = br_id r"
    and "b_lifecycleStatus r \<noteq> PENDING_CREATE \<Longrightarrow> b_lifecycleStatus r' \<noteq> PENDING_CREATE"
  shows "estate_ok x (s\<lparr>e_rows := put_row r' (e_rows s)\<rparr>)"
proof (rule ok_rows[OF assms(1)])
  fix q assume q: "q \<in> set (e_rows s)" "b_lifecycleStatus q \<noteq> PENDING_CREATE"
  show "\<exists>r''\<in>set (put_row r' (e_rows s)). br_id r'' = br_id q \<and> b_lifecycleStatus r'' \<noteq> PENDING_CREATE"
    using q assms(3,4) set_put_row[OF estate_okD(1)[OF assms(1)] assms(2,3)] by (cases "q = r") auto
qed simp



lemma ok_change_approval:
  assumes "estate_ok x s" "\<And>a. ap_id (f a) = ap_id a" "\<And>a. ap_status (f a) \<noteq> A_PENDING"
  shows "estate_ok x (change_approval i f s)"
proof -
  have aw: "a \<in> set (e_approvals s) \<and> a = b"
    if "b \<in> set (e_approvals (change_approval i f s))" "awaits ty b" "a = b" for a b ty
    using that assms(3) by (auto simp: change_approval_def awaits_def split: if_splits)
  then have sub: "b \<in> set (e_approvals s)"
    if "b \<in> set (e_approvals (change_approval i f s))" "awaits ty b" for b ty using that by blast
  have "map ap_id (e_approvals (change_approval i f s)) = map ap_id (e_approvals s)"
    by (simp add: change_approval_def assms(2))
  then have ids: "distinct (map ap_id (e_approvals (change_approval i f s)))"
    using estate_okD(2)[OF assms(1)] by simp
  have same: "e_rows (change_approval i f s) = e_rows s" "e_edits (change_approval i f s) = e_edits s"
    by (simp_all add: change_approval_def)
  show ?thesis
    unfolding estate_ok_def same
    using estate_okD[OF assms(1)] ids sub by (intro conjI ballI impI) blast+
qed

lemma decided_fields [simp]:
  "ap_id (decided now adm st c a) = ap_id a" "ap_status (decided now adm st c a) = st"
  "ap_type (decided now adm st c a) = ap_type a" "ap_referenceId (decided now adm st c a) = ap_referenceId a"
  by (simp_all add: decided_def unclaim_def)

lemma ok_drop_approvals: "estate_ok x s \<Longrightarrow> estate_ok x (drop_approvals ty ref s)"
  unfolding estate_ok_def drop_approvals_def by (auto simp: distinct_map_filter)

lemma ok_queue:
  assumes "estate_ok x s" "queue_approval aid ty ref comment s = Inr s'"
    and "ty = BRANCH_CREATE \<Longrightarrow> ref \<in> br_id ` set (e_rows s) \<and>
       (\<forall>a\<in>set (e_approvals s). awaits BRANCH_CREATE a \<longrightarrow> ap_referenceId a \<noteq> ref)"
    and "ty = BRANCH_CLOSE \<Longrightarrow> \<exists>r\<in>set (e_rows s). br_id r = ref \<and> b_lifecycleStatus r \<noteq> PENDING_CREATE"
  shows "estate_ok x s'"
proof -
  have fresh: "aid \<notin> ap_id ` set (e_approvals s)"
    and s': "s' = s\<lparr>e_approvals := e_approvals s @ [new_approval aid ty ref comment]\<rparr>"
    using assms(2) by (auto simp: queue_approval_def list_ex_iff split: if_splits)
  have "awaits ty' (new_approval aid ty ref comment) \<longleftrightarrow> ty' = ty" for ty'
    by (auto simp: awaits_def new_approval_def)
  then show ?thesis
    using assms(1,3,4) fresh unfolding s' estate_ok_def by (auto simp: new_approval_def)
qed

lemma ok_change_edit:
  assumes "estate_ok x s" "\<And>e. be_proposedChanges (f e) = be_proposedChanges e"
  shows "estate_ok x (change_edit i f s)"
  using assms unfolding estate_ok_def change_edit_def by auto

section \<open>Every handler is a move\<close>

definition moves :: "outside \<Rightarrow> deed set \<Rightarrow> estate \<Rightarrow> estate \<Rightarrow> bool" where
  "moves x D s s' \<longleftrightarrow> estate_ok x s' \<and> e_db s' = e_db s \<and>
     (\<exists>a\<in>D. move x (merchant_active s) a (e_rows s) (e_rows s'))"

lemma moves_kept:
  "estate_ok x s' \<Longrightarrow> e_db s' = e_db s \<Longrightarrow> e_rows s' = e_rows s \<Longrightarrow> Kept \<in> D \<Longrightarrow> moves x D s s'"
  unfolding moves_def by (auto intro: move.kept)

lemma moves_put:
  assumes "estate_ok x s" "r \<in> set (e_rows s)" "br_id r' = br_id r"
    and "b_lifecycleStatus r \<noteq> PENDING_CREATE \<Longrightarrow> b_lifecycleStatus r' \<noteq> PENDING_CREATE"
    and "move x (merchant_active s) a (e_rows s) (put_row r' (e_rows s))" "a \<in> D"
  shows "moves x D s (s\<lparr>e_rows := put_row r' (e_rows s)\<rparr>)"
  using ok_put_row[OF assms(1-4)] assms(5,6) by (auto simp: moves_def)

lemma moves_then:
  assumes "moves x D s s1" "estate_ok x s1 \<Longrightarrow> estate_ok x s2" "e_rows s2 = e_rows s1" "e_db s2 = e_db s1"
  shows "moves x D s s2"
  using assms by (auto simp: moves_def)

lemma moves_log [simp]: "moves x D s (log_event i ev a s') \<longleftrightarrow> moves x D s s'"
  by (simp add: moves_def)

lemma move_edit:
  assumes "write_columns x b r = Inr r'" "r \<in> set rows" "br_id r = bid"
    and "br_locationConfidence r' = br_locationConfidence r \<or> located x r'"
  shows "move x live (Edited bid) rows (put_row r' rows)"
  using move.edited[of r rows r' x live] write_columns_standing[OF assms(1)] assms(2-4) by simp

text \<open>Writing columns.\<close>

lemma moves_columns:
  assumes "estate_ok x s" "update_columns x bid b s = Inr s'"
    and "\<And>r r'. r \<in> set (e_rows s) \<Longrightarrow> br_id r = bid \<Longrightarrow> write_columns x b r = Inr r' \<Longrightarrow>
      br_locationConfidence r' = br_locationConfidence r \<or> located x r'"
  shows "moves x {Edited bid} s s'"
proof -
  obtain r r' where r: "r \<in> set (e_rows s)" "br_id r = bid" and w: "write_columns x b r = Inr r'"
    and st: "same_standing r r'" and s': "s' = s\<lparr>e_rows := put_row r' (e_rows s)\<rparr>"
    by (rule update_columns_put[OF assms(2) estate_okD(1)[OF assms(1)]])
  show ?thesis
    unfolding s'
    by (rule moves_put[OF assms(1) r(1) _ _ move_edit[OF w r assms(3)[OF r w]]])
      (use st in \<open>simp_all add: same_standing_def\<close>)
qed

lemma created_active:
  assumes "write_columns x (create_columns x g pc data loc) r = Inr r'" "resolveBranchLocationFields x now pc = Inr loc"
  shows "b_isActive r' = b_isActive r"
proof -
  have "map_of loc ''isActive'' = None" "distinct (map fst loc)"
    using assms(2) by (auto simp: resolveBranchLocationFields_def location_fields_def)
  moreover have "map_of (trusted_fields x h pc c) ''isActive'' = None" for h c
    by (simp add: trusted_fields_def split: option.split)
  moreover have "''isActive'' \<notin> set CREATE_FIELDS" by (simp add: CREATE_FIELDS_def)
  ultimately have "map_of (create_columns x g pc data loc) ''isActive'' = None"
    by (simp add: create_columns_def Let_def map_of_spread_distinct map_of_pick split: option.split)
  then have "\<not> has_key ''isActive'' (create_columns x g pc data loc)" by (simp add: has_key_def)
  then show ?thesis by (rule write_columns_active[OF assms(1)])
qed

lemma sent_postcode:
  "(case j of Some (JStr pc) \<Rightarrow> if pc = '''' then None else Some pc | _ \<Rightarrow> None) = Some pc \<Longrightarrow> j = Some (JStr pc)"
  by (cases j; simp; cases "the j") (auto split: if_splits)

lemma createBranchCore_moves:
  assumes ok: "estate_ok x s"
    and run: "createBranchCore x now merchantId actorId bid aid staged g data s = Inr s'"
    and staged: "staged \<longrightarrow> 1 \<le> established s merchantId"
  shows "moves x {Created bid} s s'"
proof -
  obtain pc loc r s1 where pc: "map_of data ''postcode'' = Some (JStr pc)"
    and loc: "resolveBranchLocationFields x now pc = Inr loc"
    and w: "write_columns x (create_columns x g pc data loc)
              (blank_row bid merchantId (\<not> staged \<and> established s merchantId = 0) staged) = Inr r"
    and ins: "insert_branch r s = Inr s1"
    and fin: "(if staged then queue_approval aid BRANCH_CREATE bid ''created and awaiting approval''
                 (log_event bid ''BRANCH_CREATED'' actorId s1) else returns (log_event bid ''BRANCH_CREATED'' actorId s1)) = Inr s'"
    using run unfolding createBranchCore_def Let_def andThen_Inr found_Inr guard_Inr
    by (elim exE conjE) (rule that, erule sent_postcode, assumption+)
  have st: "same_standing (blank_row bid merchantId (\<not> staged \<and> established s merchantId = 0) staged) r"
    using write_columns_standing[OF w] by simp
  have loc_r: "located x r" by (rule create_located[OF w pc loc])
  have fresh: "bid \<notin> br_id ` set (e_rows s)" and s1: "s1 = s\<lparr>e_rows := e_rows s @ [r]\<rparr>"
    using ins st by (auto simp: insert_branch_def list_ex_iff same_standing_def blank_row_def split: if_splits)
  have id: "br_id r = bid" using st by (simp add: same_standing_def blank_row_def)
  have ok1: "estate_ok x s1"
    using ok fresh id unfolding s1 estate_ok_def by (auto simp: image_iff)
  have none: "ap_referenceId a \<noteq> bid" if "a \<in> set (e_approvals s1)" "awaits BRANCH_CREATE a" for a
    using estate_okD(4)[OF ok, of a] that fresh s1 by auto
  have ok': "estate_ok x s'"
  proof (cases staged)
    case True
    then have "queue_approval aid BRANCH_CREATE bid ''created and awaiting approval''
        (log_event bid ''BRANCH_CREATED'' actorId s1) = Inr s'" using fin by simp
    then show ?thesis
      by (rule ok_queue[rotated]) (use ok1 none id s1 in simp_all)
  next
    case False
    then show ?thesis using fin ok1 by auto
  qed
  have rows: "e_rows s' = e_rows s @ [r]" "e_db s' = e_db s"
    using fin s1 by (auto simp: queue_approval_def split: if_splits)
  have "filter (settled merchantId) (e_rows s) = [] \<longleftrightarrow> established s merchantId = 0"
    by (simp add: established_def count_rows_def settled_def filter_empty_conv)
  then have "move x (merchant_active s) (Created (br_id r)) (e_rows s) (e_rows s @ [r])"
    using st fresh id loc_r created_active[OF w loc] staged
    by (cases staged, intro move.staged) (auto simp: same_standing_def blank_row_def intro!: move.created)
  with ok' rows id show ?thesis by (simp add: moves_def)
qed

lemma createBranch_moves:
  "estate_ok x s \<Longrightarrow> createBranch x now adminId bid aid g data s = Inr s' \<Longrightarrow> moves x {Created bid} s s'"
  by (auto simp: createBranch_def dest: createBranchCore_moves)

lemma adminCreateBranch_moves:
  "estate_ok x s \<Longrightarrow> adminCreateBranch x now mid adminId bid aid data s = Inr s' \<Longrightarrow> moves x {Created bid} s s'"
  by (auto simp: adminCreateBranch_def dest: createBranchCore_moves)

lemma cancelPendingCreate_moves:
  assumes ok: "estate_ok x s" and run: "cancelPendingCreate adminId bid s = Inr s'"
  shows "moves x {Cancelled bid} s s'"
proof -
  let ?s1 = "log_event bid ''BRANCH_CREATE_CANCELLED'' adminId (drop_approvals BRANCH_CREATE bid s)"
  obtain mid r where r: "own_branch s bid mid = Some r" and p: "b_lifecycleStatus r = PENDING_CREATE"
    and del: "delete_branch bid ?s1 = Inr s'"
    using run by (auto simp: cancelPendingCreate_def)
  note own = own_branch_row[OF r]
  have ok1: "estate_ok x ?s1" using ok by (simp add: ok_drop_approvals)
  have rows1: "e_rows ?s1 = e_rows s" "e_db ?s1 = e_db s" by (simp_all add: drop_approvals_def)
  have s': "e_rows s' = filter (\<lambda>q. br_id q \<noteq> bid) (e_rows s)" "e_approvals s' = e_approvals ?s1"
    "e_edits s' = e_edits ?s1" "e_db s' = e_db s"
    using del rows1 by (auto simp: delete_branch_def split: if_splits)
  have gone: "ap_referenceId a \<noteq> bid" if "a \<in> set (e_approvals ?s1)" "awaits BRANCH_CREATE a" for a
    using that by (auto simp: drop_approvals_def awaits_def)
  have "q = r" if "q \<in> set (e_rows s)" "br_id q = bid" for q
    using same_id[OF estate_okD(1)[OF ok]] own that by simp
  then have live: "br_id q \<noteq> bid" if "q \<in> set (e_rows s)" "b_lifecycleStatus q \<noteq> PENDING_CREATE" for q
    using that p by auto
  have "estate_ok x s'"
    unfolding estate_ok_def s'
  proof (intro conjI ballI impI)
    fix a assume "a \<in> set (e_approvals ?s1)" "awaits BRANCH_CREATE a"
    then show "ap_referenceId a \<in> br_id ` set (filter (\<lambda>q. br_id q \<noteq> bid) (e_rows s))"
      using estate_okD(4)[OF ok1, of a] gone rows1 by force
  next
    fix a assume "a \<in> set (e_approvals ?s1)" "awaits BRANCH_CLOSE a"
    then show "\<exists>r\<in>set (filter (\<lambda>q. br_id q \<noteq> bid) (e_rows s)). br_id r = ap_referenceId a \<and>
        b_lifecycleStatus r \<noteq> PENDING_CREATE"
      using estate_okD(5)[OF ok1, of a] live rows1 by force
  qed (use estate_okD[OF ok1] estate_okD(1)[OF ok] in \<open>auto simp: distinct_map_filter\<close>)
  moreover have "move x (merchant_active s) (Cancelled bid) (e_rows s) (filter (\<lambda>q. br_id q \<noteq> bid) (e_rows s))"
    using move.cancelled[of r "e_rows s" x] own p by auto
  ultimately show ?thesis using s' by (simp add: moves_def)
qed

lemma dropBranchPin_moves:
  assumes ok: "estate_ok x s" and run: "dropBranchPin x adminId bid pin s = Inr s'"
  shows "moves x {Edited bid} s s'"
proof -
  obtain mid r sn s1 where r: "own_branch s bid mid = Some r" and sn: "resolvePostcode x (br_postcode r) = Inr sn"
    and up: "update_columns x bid (case pinWithinPostcodeArea (o_metres x) pin (Some (sn_point sn)) of
           None \<Rightarrow> [(''latitude'', jnum (fst pin)), (''longitude'', jnum (snd pin)),
                    (''locationConfidence'', JStr ''MERCHANT_CONFIRMED''), (''googlePlaceId'', JNull)]
         | Some _ \<Rightarrow> [(''locationConfidence'', JStr ''NEEDS_REVIEW'')]) s = Inr s1" (is "update_columns x bid ?b s = _")
    and s': "s' = log_event bid ''BRANCH_UPDATED'' adminId s1"
    using run by (auto simp: dropBranchPin_def Let_def)
  note own = own_branch_row[OF r]
  have "located x q'" if q: "q \<in> set (e_rows s)" "br_id q = bid" and w: "write_columns x ?b q = Inr q'" for q q'
  proof -
    have "q = r" using same_id[OF estate_okD(1)[OF ok]] own q by simp
    have d: "distinct (map fst ?b)" by (simp split: option.split)
    have post: "br_postcode q' = br_postcode r"
      using written_postcode[OF w d] \<open>q = r\<close> by (simp split: option.splits)
    show ?thesis
    proof (cases "pinWithinPostcodeArea (o_metres x) pin (Some (sn_point sn))")
      case (Some e)
      then show ?thesis using written_confidence[OF w d] by (simp add: located_def)
    next
      case None
      then have near: "o_metres x pin (sn_point sn) \<le> 1000" by (simp add: pinWithin_trusted)
      have "br_locationConfidence q' = ''MERCHANT_CONFIRMED''"
        using written_confidence[OF w d] None by simp
      moreover have "at_point q' pin"
        by (rule written_point[OF w d]) (simp_all add: None)
      moreover have "resolvePostcode x (br_postcode q') = Inr sn" using sn post by simp
      ultimately show ?thesis using near unfolding located_def by blast
    qed
  qed
  then have "moves x {Edited bid} s s1" by (intro moves_columns[OF ok up]) blast
  then show ?thesis by (simp add: s')
qed

lemma unstated_direct: "map_of (pick DIRECT_FIELDS data) ''locationConfidence'' = None"
  by (simp add: map_of_pick DIRECT_FIELDS_def)

lemma unstated_sensitive:
  "map_of (pick SENSITIVE_FIELDS data) ''locationConfidence'' = None"
  "map_of (pick (SENSITIVE_FIELDS @ DIRECT_FIELDS) data) ''locationConfidence'' = None"
  by (simp_all add: map_of_pick DIRECT_FIELDS_def SENSITIVE_FIELDS_def)

lemma updateBranchDirectCore_moves:
  assumes "estate_ok x s" "updateBranchDirectCore x mid actorId bid data s = Inr s'"
  shows "moves x {Kept, Edited bid} s s'"
proof (cases "pick DIRECT_FIELDS data = []")
  case True
  then show ?thesis using assms by (auto simp: updateBranchDirectCore_def intro: moves_kept)
next
  case False
  then obtain s1 where up: "update_columns x bid (pick DIRECT_FIELDS data) s = Inr s1"
    and s': "s' = log_event bid ''BRANCH_UPDATED'' actorId s1"
    using assms(2) by (auto simp: updateBranchDirectCore_def Let_def)
  have "moves x {Edited bid} s s1"
    by (rule moves_columns[OF assms(1) up]) (simp add: unstated_confidence unstated_direct)
  then show ?thesis using s' by (auto simp: moves_def)
qed

lemma updateBranchSensitiveDirectCore_moves:
  assumes "estate_ok x s" "updateBranchSensitiveDirectCore x now mid actorId bid g data s = Inr s'"
  shows "moves x {Kept, Edited bid} s s'"
proof (cases "pick (SENSITIVE_FIELDS @ DIRECT_FIELDS) data = []")
  case True
  then show ?thesis using assms by (auto simp: updateBranchSensitiveDirectCore_def intro: moves_kept)
next
  case False
  then obtain b s1 where b: "re_anchored x now (pick (SENSITIVE_FIELDS @ DIRECT_FIELDS) data) = Inr b"
    and up: "update_columns x bid (checked_fields x g b) s = Inr s1"
    and s': "s' = log_event bid ''BRANCH_UPDATED'' actorId s1"
    using assms(2) by (auto simp: updateBranchSensitiveDirectCore_def Let_def)
  note a = re_anchored_anchored[OF b unstated_sensitive(2) distinct_pick[OF distinct_fields(3)]]
  have "moves x {Edited bid} s s1"
    by (rule moves_columns[OF assms(1) up]) (rule checked_written[OF _ a])
  then show ?thesis using s' by (auto simp: moves_def)
qed

lemma anchored_update [simp]: "anchored x (AList.update LOCATION_SUGGESTION_KEY j b) \<longleftrightarrow> anchored x b"
  by (simp add: anchored_def point_of_def map_of_update_json LOCATION_SUGGESTION_KEY_def)

lemma stage_edit_moves:
  assumes ok: "estate_ok x s" and run: "stage_branch_edit eid aid mid bid proposed ph c s = Inr s'" and a: "anchored x proposed"
  shows "moves x {Kept} s s'"
proof -
  define s0 where "s0 = s\<lparr>e_edits := e_edits s @ [\<lparr>be_id = eid, be_branchId = bid, be_merchantId = mid,
            be_proposedChanges = proposed, be_includesPhotos = ph, be_status = A_PENDING, be_reviewedBy = None\<rparr>]\<rparr>"
  obtain s1 where q: "queue_approval aid BRANCH_IDENTITY_EDIT eid c s0 = Inr s1"
    and s': "s' = log_event mid ''BRANCH_EDIT_REQUEST_CREATED'' '''' s1"
    using run by (auto simp: stage_branch_edit_def s0_def)
  have "estate_ok x s0" using ok a unfolding s0_def estate_ok_def by auto
  then have "estate_ok x s1" by (rule ok_queue[OF _ q]) simp_all
  moreover have "e_rows s1 = e_rows s" "e_db s1 = e_db s"
    using q by (auto simp: queue_approval_def s0_def split: if_splits)
  ultimately show ?thesis by (simp add: s' moves_kept)
qed

lemma createBranchEditRequest_moves:
  assumes ok: "estate_ok x s" and run: "createBranchEditRequest x now adminId bid eid aid ph g data s = Inr s'"
  shows "moves x {Kept} s s'"
proof -
  obtain mid b where b: "re_anchored x now (pick SENSITIVE_FIELDS data) = Inr b"
    and st: "stage_branch_edit eid aid mid bid (case g of None \<Rightarrow> b
        | Some g \<Rightarrow> AList.update LOCATION_SUGGESTION_KEY (locationSuggestionMetadata g) b) ph
        ''requested identity field changes'' s = Inr s'"
    using run unfolding createBranchEditRequest_def Let_def andThen_Inr by blast
  have "anchored x b"
    by (rule re_anchored_anchored(1)[OF b unstated_sensitive(1) distinct_pick[OF distinct_fields(1)]])
  then show ?thesis by (intro stage_edit_moves[OF ok st]) (simp split: option.split)
qed

lemma set_main_moves:
  assumes ok: "estate_ok x s" and own: "own_branch s bid mid = Some r0"
    and run: "set_main x mid bid (pick DIRECT_FIELDS data) s = Inr s'"
  shows "moves x {Promoted bid} s s'"
proof -
  define f where "f = (\<lambda>r::branch_row. if b_merchantId r = mid \<and> br_isMainBranch r then r\<lparr>br_isMainBranch := False\<rparr> else r)"
  define s0 where "s0 = s\<lparr>e_rows := map f (e_rows s)\<rparr>"
  obtain s1 where up: "update_columns x bid (pick DIRECT_FIELDS data) s0 = Inr s1"
    and s': "s' = log_event mid ''BRANCH_UPDATED'' '''' (log_event mid ''BRANCH_MAIN_CHANGED'' ''''
        (map_row bid (\<lambda>r. r\<lparr>br_isMainBranch := True\<rparr>) s1))"
    using run by (auto simp: set_main_def Let_def s0_def f_def)
  note own = own_branch_row[OF own]
  have keep: "br_id (f q) = br_id q" "b_merchantId (f q) = b_merchantId q" "b_lifecycleStatus (f q) = b_lifecycleStatus q"
    "br_deletedAt (f q) = br_deletedAt q" "br_locationConfidence (f q) = br_locationConfidence q" for q
    by (auto simp: f_def)
  have ids: "map br_id (e_rows s0) = map br_id (e_rows s)" by (simp add: s0_def keep)
  have d: "distinct (map br_id (e_rows s0))" using estate_okD(1)[OF ok] ids by simp
  obtain q q' where q: "q \<in> set (e_rows s0)" "br_id q = bid" and w: "write_columns x (pick DIRECT_FIELDS data) q = Inr q'"
    and st: "same_standing q q'" and s1: "s1 = s0\<lparr>e_rows := put_row q' (e_rows s0)\<rparr>"
    by (rule update_columns_put[OF up d])
  have "q = f r0"
    using same_id[OF d, of "f r0" q] own q keep by (auto simp: s0_def)
  have conf: "br_locationConfidence q' = br_locationConfidence q"
    by (rule unstated_confidence[OF w]) (simp_all add: unstated_direct)
  define r' where "r' = q'\<lparr>br_isMainBranch := br_isMainBranch r0\<rparr>"
  have sr: "same_standing r0 r'" "br_locationConfidence r' = br_locationConfidence r0" "b_merchantId q' = mid"
    "br_id q' = bid" "b_lifecycleStatus q' = b_lifecycleStatus r0"
    using st conf \<open>q = f r0\<close> keep own by (auto simp: r'_def same_standing_def)
  have rows: "e_rows (map_row bid (\<lambda>r. r\<lparr>br_isMainBranch := True\<rparr>) s1) = main_row r' (e_rows s)"
    using sr own by (auto simp: map_row_def s1 s0_def put_row_def main_row_def r'_def f_def same_standing_def)
  have "e_rows s' = main_row r' (e_rows s)" "e_db s' = e_db s" "e_approvals s' = e_approvals s" "e_edits s' = e_edits s"
    using rows by (simp_all add: s') (simp_all add: map_row_def s1 s0_def)
  moreover have "move x (merchant_active s) (Promoted (br_id r0)) (e_rows s) (main_row r' (e_rows s))"
    using own sr by (intro move.promoted) auto
  moreover have "estate_ok x (s\<lparr>e_rows := main_row r' (e_rows s)\<rparr>)"
  proof (rule ok_rows[OF ok])
    show "map br_id (main_row r' (e_rows s)) = map br_id (e_rows s)"
      by (auto simp: main_row_def)
    fix z assume z: "z \<in> set (e_rows s)" "b_lifecycleStatus z \<noteq> PENDING_CREATE"
    have r0: "z = r0" if "br_id z = bid" using same_id[OF estate_okD(1)[OF ok]] own z that by simp
    have "(if br_id z = br_id r' then r'\<lparr>br_isMainBranch := True\<rparr>
        else if b_merchantId z = b_merchantId r' then z\<lparr>br_isMainBranch := False\<rparr> else z) \<in> set (main_row r' (e_rows s))"
      unfolding main_row_def set_map by (rule imageI[OF z(1)])
    then show "\<exists>z'\<in>set (main_row r' (e_rows s)). br_id z' = br_id z \<and> b_lifecycleStatus z' \<noteq> PENDING_CREATE"
      by (rule bexI[rotated]) (use z sr own r0 in \<open>auto simp: r'_def\<close>)
  qed
  ultimately show ?thesis using own by (simp add: moves_def estate_ok_def)
qed

lemma moves_mono: "moves x D s s' \<Longrightarrow> D \<subseteq> D' \<Longrightarrow> moves x D' s s'"
  by (auto simp: moves_def)

lemma updateBranch_moves:
  assumes ok: "estate_ok x s" and run: "updateBranch x now adminId bid eid aid g data s = Inr s'"
  shows "moves x (if map_of data ''isMainBranch'' = Some (JBool True) then {Promoted bid} else {Kept, Edited bid}) s s'"
proof -
  obtain mctx r where own: "own_branch s bid (mc_merchantId mctx) = Some r"
    and rest: "(if map_of data ''isMainBranch'' = Some (JBool True) then
       andThen (assertOwner mctx) (\<lambda>_. set_main x (mc_merchantId mctx) bid (pick DIRECT_FIELDS data) s)
     else if pick SENSITIVE_FIELDS data \<noteq> [] then
       andThen (found MERCHANT_NOT_FOUND (merchants (e_db s) (mc_merchantId mctx))) (\<lambda>m.
       if isDraftWindow (Some (m_status m)) (e_steps s (mc_merchantId mctx)) then
         andThen (assertOwner mctx)
           (\<lambda>_. updateBranchSensitiveDirectCore x now (mc_merchantId mctx) adminId bid g data s)
       else createBranchEditRequest x now adminId bid eid aid False g data s)
     else updateBranchDirectCore x (mc_merchantId mctx) adminId bid data s) = Inr s'"
    using run unfolding updateBranch_def Let_def andThen_Inr found_Inr by blast
  show ?thesis
  proof (cases "map_of data ''isMainBranch'' = Some (JBool True)")
    case True
    then show ?thesis using rest set_main_moves[OF ok own] by auto
  next
    case False
    consider "updateBranchSensitiveDirectCore x now (mc_merchantId mctx) adminId bid g data s = Inr s'"
      | "createBranchEditRequest x now adminId bid eid aid False g data s = Inr s'"
      | "updateBranchDirectCore x (mc_merchantId mctx) adminId bid data s = Inr s'"
      using rest False by (auto split: if_splits)
    then have "moves x {Kept, Edited bid} s s'"
    proof cases
      case 1 then show ?thesis by (rule updateBranchSensitiveDirectCore_moves[OF ok])
    next
      case 2 then show ?thesis by (intro moves_mono[OF createBranchEditRequest_moves[OF ok]]) auto
    next
      case 3 then show ?thesis by (rule updateBranchDirectCore_moves[OF ok])
    qed
    then show ?thesis using False by simp
  qed
qed

text \<open>Handlers that leave the table of branches alone.\<close>

lemma withdrawBranchEditRequest_moves:
  assumes ok: "estate_ok x s" and run: "withdrawBranchEditRequest now adminId bid eid s = Inr s'"
  shows "moves x {Kept} s s'"
proof -
  define s1 where "s1 = change_edit eid (\<lambda>e. e\<lparr>be_status := A_WITHDRAWN\<rparr>) s"
  define s2 where "s2 = (case List.find (\<lambda>a. ap_type a = BRANCH_IDENTITY_EDIT \<and> ap_referenceId a = eid \<and>
      ap_status a = A_PENDING) (e_approvals s1) of None \<Rightarrow> s1
    | Some a \<Rightarrow> change_approval (ap_id a) (\<lambda>a. (unclaim a)\<lparr>ap_status := A_WITHDRAWN, ap_actionedAt := Some now,
        ap_comment := ''Merchant withdrew the request''\<rparr>) s1)"
  obtain mid where s': "s' = log_event mid ''BRANCH_EDIT_REQUEST_WITHDRAWN'' adminId s2"
    using run unfolding withdrawBranchEditRequest_def Let_def andThen_Inr s2_def s1_def sum.inject by blast
  have ok1: "estate_ok x s1" unfolding s1_def by (rule ok_change_edit[OF ok]) simp
  have "estate_ok x s2"
    unfolding s2_def using ok1
    by (auto split: option.split intro!: ok_change_approval simp: unclaim_def)
  moreover have "e_rows s2 = e_rows s" "e_db s2 = e_db s"
    by (simp_all add: s2_def s1_def change_edit_def change_approval_def split: option.split)
  ultimately show ?thesis by (simp add: s' moves_kept)
qed

lemma photo_fields [simp]:
  "e_rows (add_photos pid bid us s) = e_rows s" "e_db (add_photos pid bid us s) = e_db s"
  "e_rows (remove_photos bid ids s) = e_rows s" "e_db (remove_photos bid ids s) = e_db s"
  by (simp_all add: add_photos_def remove_photos_def)

lemma createBranchPhotoEditRequest_moves:
  assumes ok: "estate_ok x s" and run: "createBranchPhotoEditRequest x pid adminId bid eid aid add remove s = Inr s'"
  shows "moves x {Kept} s s'"
proof -
  obtain mid removeIds addUrls where
    "s' = log_event mid ''BRANCH_PHOTOS_DRAFT_APPLIED'' adminId (remove_photos bid removeIds (add_photos pid bid addUrls s)) \<or>
     stage_branch_edit eid aid mid bid [(''add'', JArr (map JStr add)), (''remove'', JArr (map JStr remove))] True
       ''requested photo changes'' s = Inr s'"
    using run by (auto simp: createBranchPhotoEditRequest_def Let_def split: if_splits)
  then show ?thesis
    using ok stage_edit_moves[OF ok] by (auto simp: anchored_def intro: moves_kept)
qed

lemma removeBranchPhoto_moves:
  "estate_ok x s \<Longrightarrow> removeBranchPhoto adminId bid p s = Inr s' \<Longrightarrow> moves x {Kept} s s'"
  by (auto simp: removeBranchPhoto_def intro!: moves_kept)

lemma setAmenities_moves: "estate_ok x s \<Longrightarrow> moves x {Kept} s (snd (setAmenities am adminId bid ids s))"
  by (auto simp: setAmenities_def Let_def split: sum.split intro!: moves_kept)

lemma moves_map_row:
  assumes ok: "estate_ok x s" and r: "r \<in> set (e_rows s)" "br_id r = bid" "br_id (f r) = bid"
    and lc: "b_lifecycleStatus r \<noteq> PENDING_CREATE \<Longrightarrow> b_lifecycleStatus (f r) \<noteq> PENDING_CREATE"
    and mv: "move x (merchant_active s) a (e_rows s) (put_row (f r) (e_rows s))" "a \<in> D"
  shows "moves x D s (map_row bid f s)"
  unfolding map_row_put[where f = f, OF estate_okD(1)[OF ok] r]
  by (rule moves_put[OF ok r(1) _ lc mv]) (simp_all add: r)

lemma setRedemptionAlerts_moves:
  assumes ok: "estate_ok x s" and run: "setRedemptionAlerts adminId bid b s = Inr s'"
  shows "moves x {Edited bid} s s'"
proof -
  obtain mid r where own: "own_branch s bid mid = Some r"
    and s': "s' = map_row bid (\<lambda>r. r\<lparr>b_redemptionAlertsEnabled := b\<rparr>) s"
    using run by (auto simp: setRedemptionAlerts_def)
  note own = own_branch_row[OF own]
  have "move x (merchant_active s) (Edited (br_id r)) (e_rows s)
      (put_row (r\<lparr>b_redemptionAlertsEnabled := b\<rparr>) (e_rows s))"
    using own by (intro move.edited) (simp_all add: same_standing_def)
  then show ?thesis unfolding s' using own by (intro moves_map_row[OF ok, of r]) auto
qed

lemma setBranchPin_moves:
  assumes ok: "estate_ok x s" and run: "setBranchPin x adminId bid pin s = Inr s'"
  shows "moves x {Edited bid} s s'"
proof -
  obtain mid r where own: "own_branch s bid mid = Some r"
    and s': "s' = log_event mid ''BRANCH_PIN_CHANGED'' '''' (map_row bid (\<lambda>r. r\<lparr>b_redemptionPin := Some (o_encrypt x pin)\<rparr>) s)"
    using run by (auto simp: setBranchPin_def)
  note own = own_branch_row[OF own]
  have "move x (merchant_active s) (Edited (br_id r)) (e_rows s)
      (put_row (r\<lparr>b_redemptionPin := Some (o_encrypt x pin)\<rparr>) (e_rows s))"
    using own by (intro move.edited) (simp_all add: same_standing_def)
  then have "moves x {Edited bid} s (map_row bid (\<lambda>r. r\<lparr>b_redemptionPin := Some (o_encrypt x pin)\<rparr>) s)"
    using own by (intro moves_map_row[OF ok, of r]) auto
  then show ?thesis unfolding s' by simp
qed

lemma last_active_dispensable:
  "last_active_guard s (b_merchantId r) = Inr u \<Longrightarrow> \<not> br_isMainBranch r \<Longrightarrow>
     dispensable (merchant_active s) (e_rows s) r"
proof -
  have "on_view m = (\<lambda>q. b_merchantId q = m \<and> b_isActive q \<and> br_deletedAt q = None)" for m
    by (simp add: on_view_def fun_eq_iff)
  then show "last_active_guard s (b_merchantId r) = Inr u \<Longrightarrow> \<not> br_isMainBranch r \<Longrightarrow>
      dispensable (merchant_active s) (e_rows s) r"
    by (simp add: last_active_guard_def dispensable_def count_rows_def)
qed

lemma deactivated [simp]:
  "e_rows (deactivate_users bid s) = e_rows s" "e_db (deactivate_users bid s) = e_db s"
  "map_row bid f (deactivate_users bid s) = deactivate_users bid (map_row bid f s)"
  "moves x D s (deactivate_users bid s') \<longleftrightarrow> moves x D s s'"
  by (simp_all add: deactivate_users_def map_row_def moves_def estate_ok_def)

lemma softDeleteBranchCore_moves:
  assumes ok: "estate_ok x s" and run: "softDeleteBranchCore now mid actorId bid s = Inr s'"
  shows "moves x {Retired bid} s s'"
proof -
  let ?f = "\<lambda>r. r\<lparr>br_deletedAt := Some now, b_isActive := False\<rparr>"
  obtain r where own: "own_branch s bid mid = Some r" and m: "\<not> br_isMainBranch r"
    and g: "last_active_guard s mid = Inr ()"
    and s': "s' = log_event bid ''BRANCH_DELETED'' actorId (map_row bid ?f (deactivate_users bid s))"
    using run by (auto simp: softDeleteBranchCore_def)
  note own = own_branch_row[OF own]
  have "move x (merchant_active s) (Retired (br_id r)) (e_rows s) (put_row (?f r) (e_rows s))"
    using own m g by (intro move.retired) (auto intro: last_active_dispensable)
  then have "moves x {Retired bid} s (map_row bid ?f s)"
    using own by (intro moves_map_row[OF ok, of r]) auto
  then show ?thesis unfolding s' by simp
qed

lemma requestBranchClose_moves:
  assumes ok: "estate_ok x s" and run: "requestBranchClose adminId bid aid reason s = Inr s'"
  shows "moves x {CloseAsked bid} s s'"
proof -
  let ?f = "\<lambda>r. r\<lparr>b_lifecycleStatus := PENDING_CLOSE, br_closeReason := Some reason\<rparr>"
  obtain mid r s1 where own: "own_branch s bid mid = Some r" and m: "\<not> br_isMainBranch r"
    and l: "b_lifecycleStatus r \<noteq> PENDING_CREATE" and g: "last_active_guard s mid = Inr ()"
    and q: "queue_approval aid BRANCH_CLOSE bid reason (map_row bid ?f s) = Inr s1"
    and s': "s' = log_event bid ''BRANCH_CLOSE_REQUESTED'' adminId s1"
    using run by (auto simp: requestBranchClose_def)
  note own = own_branch_row[OF own]
  have "move x (merchant_active s) (CloseAsked (br_id r)) (e_rows s) (put_row (?f r) (e_rows s))"
    using own m g l by (intro move.close_asked) (auto intro: last_active_dispensable)
  then have mv: "moves x {CloseAsked bid} s (map_row bid ?f s)"
    using own by (intro moves_map_row[OF ok, of r]) auto
  have in_rows: "?f r \<in> set (e_rows (map_row bid ?f s))"
    using own by (auto simp: map_row_def image_iff intro!: bexI[of _ r])
  have there: "\<exists>q\<in>set (e_rows (map_row bid ?f s)). br_id q = bid \<and> b_lifecycleStatus q \<noteq> PENDING_CREATE"
    by (rule bexI[OF _ in_rows]) (use own in simp)
  have "estate_ok x (map_row bid ?f s)" using mv by (simp add: moves_def)
  then have "estate_ok x s1"
    by (rule ok_queue[OF _ q]) (use there in simp_all)
  then show ?thesis
    unfolding s' moves_log using q by (intro moves_then[OF mv]) (auto simp: queue_approval_def split: if_splits)
qed

lemma reopened_moves:
  assumes ok: "estate_ok x s" and r: "r \<in> set (e_rows s)" "br_id r = bid" and l: "b_lifecycleStatus r \<noteq> PENDING_CREATE"
  shows "moves x {Reopened bid} s (map_row bid reopen_row s)"
proof -
  have "move x (merchant_active s) (Reopened (br_id r)) (e_rows s) (put_row (reopen_row r) (e_rows s))"
    using r(1) l by (rule move.reopened)
  then show ?thesis using r by (intro moves_map_row[OF ok, of r]) (auto simp: reopen_row_def)
qed

lemma withdrawBranchClose_moves:
  assumes ok: "estate_ok x s" and run: "withdrawBranchClose adminId bid s = Inr s'"
  shows "moves x {Reopened bid} s s'"
proof -
  obtain mid r where own: "own_branch s bid mid = Some r" and l: "b_lifecycleStatus r = PENDING_CLOSE"
    and s': "s' = log_event bid ''BRANCH_CLOSE_WITHDRAWN'' adminId (drop_approvals BRANCH_CLOSE bid (map_row bid reopen_row s))"
    using run by (auto simp: withdrawBranchClose_def)
  note own = own_branch_row[OF own]
  have "moves x {Reopened bid} s (map_row bid reopen_row s)"
    using own l by (intro reopened_moves[OF ok, of r]) auto
  then show ?thesis
    unfolding s' moves_log by (rule moves_then) (simp_all add: ok_drop_approvals, simp_all add: drop_approvals_def)
qed

lemma change_approval_rows [simp]:
  "e_rows (change_approval i f s) = e_rows s" "e_db (change_approval i f s) = e_db s"
  by (simp_all add: change_approval_def)

lemma moves_decided:
  "moves x D s s1 \<Longrightarrow> st \<noteq> A_PENDING \<Longrightarrow> moves x D s (change_approval i (decided now adm st c) s1)"
  by (rule moves_then) (auto intro: ok_change_approval)

lemma queued_approval: "queued s i = Some a \<Longrightarrow> a \<in> set (e_approvals s) \<and> ap_id a = i"
  unfolding queued_def by (drule find_Some_in) simp

text \<open>The approver either changes nothing or opens or closes the branch its waiting approval is about.\<close>

lemma approveBranchLifecycle_moves:
  assumes ok: "estate_ok x s" and run: "approveBranchLifecycle now i adminId s = Inr (b, s')"
  shows "\<exists>a. queued s i = Some a \<and> (s' = s \<or>
    awaits BRANCH_CREATE a \<and> moves x {Opened (ap_referenceId a)} s s' \<or>
    awaits BRANCH_CLOSE a \<and> moves x {Closed (ap_referenceId a)} s s')"
proof -
  obtain a k where a: "queued s i = Some a" and k: "branchLifecycleKindOf (ap_type a) = Some k"
    and rest: "(if ap_status a \<noteq> A_PENDING then returns (True, s)
     else case k of Create \<Rightarrow> approve_create now i adminId (ap_referenceId a) s
                  | Close \<Rightarrow> approve_close now i adminId (ap_referenceId a) s) = Inr (b, s')"
    using run by (auto simp: approveBranchLifecycle_def lifecycle_approval_def)
  let ?bid = "ap_referenceId a"
  have "s' = s \<or> awaits BRANCH_CREATE a \<and> moves x {Opened ?bid} s s' \<or> awaits BRANCH_CLOSE a \<and> moves x {Closed ?bid} s s'"
  proof (cases "s' = s")
    case False
    have p: "ap_status a = A_PENDING" using rest False by (auto split: if_splits)
    show ?thesis
    proof (cases k)
      case Create
      then obtain r where r: "row_by_id s ?bid = Some r" and c: "location_confirmed (br_locationConfidence r)"
        and l: "b_lifecycleStatus r = PENDING_CREATE" and s': "s' = log_event ?bid ''BRANCH_CREATE_APPROVED'' adminId
          (change_approval i (decided now adminId A_APPROVED None) (map_row ?bid open_row s))"
        using rest False by (auto simp: approve_create_def split: if_splits)
      note row = row_by_id_row[OF r]
      have "move x (merchant_active s) (Opened (br_id r)) (e_rows s) (put_row (open_row r) (e_rows s))"
        using row l c by (intro move.opened) auto
      then have "moves x {Opened ?bid} s (map_row ?bid open_row s)"
        using row by (intro moves_map_row[OF ok, of r]) (auto simp: open_row_def)
      then have "moves x {Opened ?bid} s s'" unfolding s' moves_log by (rule moves_decided) simp
      moreover have "awaits BRANCH_CREATE a"
        using k p Create by (auto simp: branchLifecycleKindOf_def awaits_def split: if_splits)
      ultimately show ?thesis by simp
    next
      case Close
      then obtain r where r: "row_by_id s ?bid = Some r" and l: "b_lifecycleStatus r = PENDING_CLOSE"
        and m: "\<not> br_isMainBranch r" and g: "last_active_guard s (b_merchantId r) = Inr ()"
        and s': "s' = log_event ?bid ''BRANCH_CLOSE_APPROVED'' adminId (change_approval i
          (decided now adminId A_APPROVED None) (map_row ?bid (close_row now) (deactivate_users ?bid s)))"
        using rest False by (auto simp: approve_close_def split: if_splits)
      note row = row_by_id_row[OF r]
      have "move x (merchant_active s) (Closed (br_id r)) (e_rows s) (put_row (close_row now r) (e_rows s))"
        using row l m g by (intro move.closed last_active_dispensable) auto
      then have "moves x {Closed ?bid} s (map_row ?bid (close_row now) s)"
        using row by (intro moves_map_row[OF ok, of r]) (auto simp: close_row_def)
      then have "moves x {Closed ?bid} s s'" unfolding s' moves_log deactivated by (intro moves_decided) simp_all
      moreover have "awaits BRANCH_CLOSE a"
        using k p Close by (auto simp: branchLifecycleKindOf_def awaits_def split: if_splits)
      ultimately show ?thesis by simp
    qed
  qed simp
  then show ?thesis using a by blast
qed

lemma rejectBranchLifecycle_moves:
  assumes ok: "estate_ok x s" and run: "rejectBranchLifecycle now i adminId reason s = Inr s'"
  shows "\<exists>bid. moves x {Kept, Reopened bid} s s'"
proof -
  obtain a k r where a: "queued s i = Some a" and k: "branchLifecycleKindOf (ap_type a) = Some k"
    and p: "ap_status a = A_PENDING" and r: "row_by_id s (ap_referenceId a) = Some r"
    and s': "s' = (case k of
         Create \<Rightarrow> log_event (ap_referenceId a) ''BRANCH_CREATE_CHANGES_REQUESTED'' adminId
                    (change_approval i (decided now adminId A_CHANGES_REQUESTED (Some reason)) s)
       | Close \<Rightarrow> log_event (ap_referenceId a) ''BRANCH_CLOSE_REJECTED'' adminId
                   (change_approval i (decided now adminId A_REJECTED (Some reason))
                     (map_row (ap_referenceId a) reopen_row s)))"
    using run by (auto simp: rejectBranchLifecycle_def lifecycle_approval_def Let_def)
  show ?thesis
  proof (cases k)
    case Create
    then have "moves x {Kept, Reopened (ap_referenceId a)} s s'"
      unfolding s' using ok by (simp add: moves_decided moves_kept)
    then show ?thesis ..
  next
    case Close
    then have "awaits BRANCH_CLOSE a"
      using k p by (auto simp: branchLifecycleKindOf_def awaits_def split: if_splits)
    then obtain q where q: "q \<in> set (e_rows s)" "br_id q = ap_referenceId a" "b_lifecycleStatus q \<noteq> PENDING_CREATE"
      using estate_okD(5)[OF ok] queued_approval[OF a] by blast
    have "moves x {Kept, Reopened (ap_referenceId a)} s (map_row (ap_referenceId a) reopen_row s)"
      by (rule moves_mono[OF reopened_moves[OF ok q]]) simp
    then have "moves x {Kept, Reopened (ap_referenceId a)} s s'"
      unfolding s' using Close by (simp add: moves_decided)
    then show ?thesis ..
  qed
qed

lemma confirmBranchLocation_moves:
  assumes ok: "estate_ok x s" and run: "confirmBranchLocation x adminId bid pin s = Inr s'"
  shows "moves x {Confirmed bid} s s'"
proof -
  let ?b = "[(''latitude'', jnum (fst pin)), (''longitude'', jnum (snd pin)), (''locationConfidence'', JStr ''MANUALLY_CONFIRMED'')]"
  obtain s1 where up: "update_columns x bid ?b s = Inr s1" and s': "s' = log_event bid ''BRANCH_LOCATION_CONFIRMED'' adminId s1"
    using run by (auto simp: confirmBranchLocation_def)
  obtain r r' where r: "r \<in> set (e_rows s)" "br_id r = bid" and w: "write_columns x ?b r = Inr r'"
    and st: "same_standing r r'" and s1: "s1 = s\<lparr>e_rows := put_row r' (e_rows s)\<rparr>"
    by (rule update_columns_put[OF up estate_okD(1)[OF ok]])
  have "br_locationConfidence r' = ''MANUALLY_CONFIRMED''"
    using written_confidence[OF w] by simp
  then have mv: "move x (merchant_active s) (Confirmed (br_id r)) (e_rows s) (put_row r' (e_rows s))"
    by (intro move.confirmed[OF r(1) st])
  show ?thesis
    unfolding s' moves_log s1 by (rule moves_put[OF ok r(1) _ _ mv]) (use st r in \<open>simp_all add: same_standing_def\<close>)
qed

lemma edit_columns_written:
  assumes w: "write_columns x (edit_columns x proposed) r = Inr r'" and a: "anchored x proposed"
  shows "br_locationConfidence r' = br_locationConfidence r \<or> located x r'"
proof -
  let ?b = "spread (pick SENSITIVE_FIELDS proposed) (pick BRANCH_LOCATION_SNAPSHOT_FIELDS proposed)"
  have d: "distinct BRANCH_LOCATION_SNAPSHOT_FIELDS" by code_simp
  have keys: "''locationConfidence'' \<in> set BRANCH_LOCATION_SNAPSHOT_FIELDS" "''postcode'' \<in> set SENSITIVE_FIELDS"
    "''latitude'' \<in> set BRANCH_LOCATION_SNAPSHOT_FIELDS" "''longitude'' \<in> set BRANCH_LOCATION_SNAPSHOT_FIELDS"
    "''locationConfidence'' \<notin> set SENSITIVE_FIELDS" "''postcode'' \<notin> set BRANCH_LOCATION_SNAPSHOT_FIELDS"
    by (simp_all add: BRANCH_LOCATION_SNAPSHOT_FIELDS_def SENSITIVE_FIELDS_def)
  have get: "map_of ?b ''locationConfidence'' = map_of proposed ''locationConfidence''"
      "map_of ?b ''postcode'' = map_of proposed ''postcode''"
    using d keys by (simp_all add: map_of_spread_distinct map_of_pick split: option.split)
  have pt: "point_of proposed = Some p \<Longrightarrow> point_of ?b = Some p" for p
    using d keys by (simp add: point_of_jnum map_of_spread_distinct map_of_pick)
  have "anchored x ?b" using a pt unfolding anchored_def get by blast
  moreover have "distinct (map fst ?b)" by simp
  ultimately show ?thesis using checked_written w unfolding edit_columns_def by blast
qed

lemma branch_edit_review_edit: "branch_edit_review i s = Inr e \<Longrightarrow> e \<in> set (e_edits s)"
  unfolding branch_edit_review_def andThen_Inr found_Inr guard_Inr by (auto dest: find_Some_in)

lemma change_edit_rows [simp]:
  "e_rows (change_edit i f s) = e_rows s" "e_db (change_edit i f s) = e_db s"
  by (simp_all add: change_edit_def)

lemma moves_reviewed:
  assumes "moves x D s s1" "st \<noteq> A_PENDING"
  shows "moves x D s (change_approval i (decided now adm st c)
     (change_edit j (\<lambda>e. e\<lparr>be_status := st', be_reviewedBy := rb\<rparr>) s1))"
  using assms by (intro moves_decided moves_then[OF assms(1) ok_change_edit]) simp_all

lemma apply_branch_edit_moves:
  assumes ok: "estate_ok x s" and run: "apply_branch_edit x pid e s = Inr s'" and e: "e \<in> set (e_edits s)"
  shows "moves x {Kept, Edited (be_branchId e)} s s'"
proof -
  let ?b = "edit_columns x (be_proposedChanges e)" and ?D = "{Kept, Edited (be_branchId e)}"
  obtain s1 where s1: "(if ?b = [] then returns s else update_columns x (be_branchId e) ?b s) = Inr s1"
    and s': "s' = (if be_includesPhotos e
               then (case parsePhotoChanges (be_proposedChanges e) of (add, remove) \<Rightarrow>
                       remove_photos (be_branchId e) remove (add_photos pid (be_branchId e) add s1))
               else s1)"
    using run unfolding apply_branch_edit_def Let_def andThen_Inr found_Inr sum.inject by blast
  have mv: "moves x ?D s s1"
  proof (cases "?b = []")
    case True
    then show ?thesis using s1 ok by (simp add: moves_kept)
  next
    case False
    then have "update_columns x (be_branchId e) ?b s = Inr s1" using s1 by simp
    then have "moves x {Edited (be_branchId e)} s s1"
      by (rule moves_columns[OF ok]) (rule edit_columns_written[OF _ estate_okD(3)[OF ok e]])
    then show ?thesis by (rule moves_mono) simp
  qed
  then show ?thesis
    unfolding s' by (cases "parsePhotoChanges (be_proposedChanges e)") (auto intro: moves_then[OF mv])
qed

lemma approveBranchEdit_moves:
  assumes ok: "estate_ok x s" and run: "approveBranchEdit x now pid i adminId s = Inr s'"
  shows "\<exists>bid. moves x {Kept, Edited bid} s s'"
proof -
  obtain e s1 where e: "branch_edit_review i s = Inr e" and s1: "apply_branch_edit x pid e s = Inr s1"
    and s': "s' = log_event (be_branchId e) ''BRANCH_EDIT_APPROVED'' adminId
       (change_approval i (decided now adminId A_APPROVED None)
         (change_edit (be_id e) (\<lambda>e. e\<lparr>be_status := A_APPROVED, be_reviewedBy := Some adminId\<rparr>) s1))"
    using run by (auto simp: approveBranchEdit_def)
  show ?thesis
    unfolding s' moves_log
    using apply_branch_edit_moves[OF ok s1 branch_edit_review_edit[OF e]] by (intro exI moves_reviewed) auto
qed

lemma rejectBranchEdit_moves:
  assumes ok: "estate_ok x s" and run: "rejectBranchEdit now i adminId reason s = Inr s'"
  shows "moves x {Kept} s s'"
proof -
  have "moves x {Kept} s s" using ok by (simp add: moves_kept)
  then show ?thesis using run by (auto simp: rejectBranchEdit_def intro: moves_reviewed)
qed

lemma adminUpdateBranch_moves:
  "estate_ok x s \<Longrightarrow> adminUpdateBranch x adminId bid data s = Inr s' \<Longrightarrow> moves x {Kept, Edited bid} s s'"
  by (auto simp: adminUpdateBranch_def dest: updateBranchDirectCore_moves)

lemma adminDeleteBranch_moves:
  "estate_ok x s \<Longrightarrow> adminDeleteBranch now adminId bid s = Inr s' \<Longrightarrow> moves x {Retired bid} s s'"
  by (auto simp: adminDeleteBranch_def dest: softDeleteBranchCore_moves)

lemma softDeleteBranch_moves:
  "estate_ok x s \<Longrightarrow> softDeleteBranch now adminId bid s = Inr s' \<Longrightarrow> moves x {Retired bid} s s'"
  by (auto simp: softDeleteBranch_def dest: softDeleteBranchCore_moves)

text \<open>An estate and a request, and the deeds the request may come to.\<close>

fun deeds_of :: "branch_request \<Rightarrow> deed set" where
  "deeds_of (NewBranch adm bid aid g data) = {Created bid}"
| "deeds_of (CancelBranch adm bid) = {Cancelled bid}"
| "deeds_of (DropPin adm bid pin) = {Edited bid}"
| "deeds_of (PatchBranch adm bid eid aid g data) =
     (if map_of data ''isMainBranch'' = Some (JBool True) then {Promoted bid} else {Edited bid})"
| "deeds_of (DeleteBranch adm bid) = {Retired bid}"
| "deeds_of (RequestClose adm bid aid reason) = {CloseAsked bid}"
| "deeds_of (WithdrawClose adm bid) = {Reopened bid}"
| "deeds_of (SetAlerts adm bid b) = {Edited bid}"
| "deeds_of (SetPin adm bid pin) = {Edited bid}"
| "deeds_of (ApproveLifecycle i adm) = range Opened \<union> range Closed"
| "deeds_of (RejectLifecycle i adm reason) = range Reopened"
| "deeds_of (ConfirmLocation adm bid pin) = {Confirmed bid}"
| "deeds_of (ApproveBranchEdit i adm) = range Edited"
| "deeds_of (AdminCreate mid adm bid aid data) = {Created bid}"
| "deeds_of (AdminUpdate adm bid data) = {Edited bid}"
| "deeds_of (AdminDelete adm bid) = {Retired bid}"
| "deeds_of _ = {}"

lemma after_moves:
  assumes "estate_ok x s" "\<And>s'. r = Inr s' \<Longrightarrow> moves x D s s'" "D \<subseteq> insert Kept D'"
  shows "moves x (insert Kept D') s (after s r)"
  using assms by (cases r) (auto simp: after_def intro: moves_kept moves_mono)

lemma serve_branch_moves:
  assumes ok: "estate_ok x s"
  shows "moves x (insert Kept (deeds_of q)) s (serve_branch x am pid now q s)"
proof (cases q)
  case (ApproveLifecycle i adm)
  have "moves x (insert Kept (range Opened \<union> range Closed)) s s'"
    if run: "approveBranchLifecycle now i adm s = Inr (b, s')" for b s'
  proof -
    obtain a :: approval where "s' = s \<or> moves x {Opened (ap_referenceId a)} s s' \<or> moves x {Closed (ap_referenceId a)} s s'"
      using approveBranchLifecycle_moves[OF ok run] by blast
    then show ?thesis using ok by (auto intro: moves_mono moves_kept)
  qed
  then show ?thesis
    unfolding ApproveLifecycle by (auto intro!: after_moves[OF ok])
next
  case (RejectLifecycle i adm reason)
  have "moves x (insert Kept (range Reopened)) s s'" if "rejectBranchLifecycle now i adm reason s = Inr s'" for s'
    using rejectBranchLifecycle_moves[OF ok that] by (auto intro: moves_mono)
  then show ?thesis unfolding RejectLifecycle by (auto intro!: after_moves[OF ok])
next
  case (ApproveBranchEdit i adm)
  have "moves x (insert Kept (range Edited)) s s'" if "approveBranchEdit x now pid i adm s = Inr s'" for s'
    using approveBranchEdit_moves[OF ok that] by (auto intro: moves_mono)
  then show ?thesis unfolding ApproveBranchEdit by (auto intro!: after_moves[OF ok])
next
  case (PatchBranch adm bid eid aid g data)
  have "moves x (insert Kept (deeds_of q)) s s'" if "updateBranch x now adm bid eid aid g data s = Inr s'" for s'
    by (rule moves_mono[OF updateBranch_moves[OF ok that]]) (simp add: PatchBranch)
  from after_moves[OF ok this, of _ "deeds_of q"] show ?thesis
    unfolding PatchBranch serve_branch.simps by blast
qed (simp_all add: setAmenities_moves[OF ok],
     (rule after_moves[OF ok], erule
        createBranch_moves[OF ok] cancelPendingCreate_moves[OF ok] dropBranchPin_moves[OF ok]
        createBranchEditRequest_moves[OF ok] withdrawBranchEditRequest_moves[OF ok] createBranchPhotoEditRequest_moves[OF ok]
        removeBranchPhoto_moves[OF ok] setRedemptionAlerts_moves[OF ok] softDeleteBranch_moves[OF ok]
        requestBranchClose_moves[OF ok] withdrawBranchClose_moves[OF ok] setBranchPin_moves[OF ok]
        confirmBranchLocation_moves[OF ok] rejectBranchEdit_moves[OF ok] adminCreateBranch_moves[OF ok]
        adminUpdateBranch_moves[OF ok] adminDeleteBranch_moves[OF ok], simp)+)

end
