(* ===== verification/Portfolio.thy ===== *)
theory Portfolio
  imports Sites
begin

text \<open>
  What holds of every history of branch requests, proved on the machine of \<open>Sites\<close>: a staged branch is opened by an
  admin's approval only, a trusted location has its evidence, a merchant has one main branch, closing and deleting leave
  a live merchant a branch on view.
\<close>

section \<open>The fate of a row\<close>

lemma in_put_row:
  assumes "distinct (map br_id rows)" "r0 \<in> set rows" "br_id r1 = br_id r0"
    and "q \<in> set rows" "q' \<in> set (put_row r1 rows)" "br_id q' = br_id q"
  shows "q = r0 \<and> q' = r1 \<or> q' = q \<and> br_id q \<noteq> br_id r0"
  using assms(3-6) same_id[OF assms(1)] assms(2) by (auto simp: put_row_def split: if_splits)

lemma in_main_row:
  assumes "distinct (map br_id rows)" "r0 \<in> set rows" "br_id r1 = br_id r0" "b_merchantId r1 = b_merchantId r0"
    and "q \<in> set rows" "q' \<in> set (main_row r1 rows)" "br_id q' = br_id q"
  shows "q = r0 \<and> q' = r1\<lparr>br_isMainBranch := True\<rparr> \<or>
    br_id q \<noteq> br_id r0 \<and> q' = (if b_merchantId q = b_merchantId r0 then q\<lparr>br_isMainBranch := False\<rparr> else q)"
proof -
  obtain p where p: "p \<in> set rows" and q': "q' = (if br_id p = br_id r1 then r1\<lparr>br_isMainBranch := True\<rparr>
      else if b_merchantId p = b_merchantId r1 then p\<lparr>br_isMainBranch := False\<rparr> else p)"
    using assms(6) by (auto simp: main_row_def)
  have "br_id p = br_id q" using q' assms(7) by (auto split: if_splits)
  then have "p = q" using same_id[OF assms(1,5) p] by simp
  then show ?thesis using q' assms(3,4) same_id[OF assms(1,2,5)] by auto
qed

text \<open>The row of a key before and after a move.\<close>

definition same_row :: "branch_row \<Rightarrow> branch_row \<Rightarrow> bool" where
  "same_row r r' \<longleftrightarrow> b_merchantId r' = b_merchantId r \<and> b_lifecycleStatus r' = b_lifecycleStatus r \<and>
     br_locationConfidence r' = br_locationConfidence r"

inductive change :: "outside \<Rightarrow> deed \<Rightarrow> branch_row \<Rightarrow> branch_row \<Rightarrow> bool" for x where
  still: "same_row r r' \<Longrightarrow> change x a r r'"
| relocated: "same_standing r r' \<Longrightarrow> located x r' \<Longrightarrow> change x a r r'"
| vouched: "same_standing r r' \<Longrightarrow> br_locationConfidence r' = ''MANUALLY_CONFIRMED'' \<Longrightarrow> change x (Confirmed (br_id r)) r r'"
| advanced: "b_lifecycleStatus r \<noteq> PENDING_CREATE \<Longrightarrow> b_lifecycleStatus r' \<noteq> PENDING_CREATE \<Longrightarrow>
    b_merchantId r' = b_merchantId r \<Longrightarrow> br_locationConfidence r' = br_locationConfidence r \<Longrightarrow> change x a r r'"
| admitted: "b_lifecycleStatus r = PENDING_CREATE \<Longrightarrow> location_confirmed (br_locationConfidence r) \<Longrightarrow>
    change x (Opened (br_id r)) r (open_row r)"

lemma same_row_refl [simp]: "same_row r r" by (simp add: same_row_def)

lemma fate:
  assumes "move x live a rows rows'" and d: "distinct (map br_id rows)" and q: "q \<in> set rows"
    and q': "q' \<in> set rows'" "br_id q' = br_id q"
  shows "change x a q q'"
  using assms(1)
proof cases
  case kept
  then have "q' = q" using same_id[OF d q, of q'] q q' by auto
  then show ?thesis by (auto intro: still)
next
  case (staged r)
  then have "q' = q" using same_id[OF d q, of q'] q q' by auto
  then show ?thesis by (auto intro: still)
next
  case (created r)
  then have "q' = q" using same_id[OF d q, of q'] q q' by auto
  then show ?thesis by (auto intro: still)
next
  case (cancelled r)
  then have "q' = q" using same_id[OF d q, of q'] q q' by auto
  then show ?thesis by (auto intro: still)
next
  case (edited r r')
  then have "q = r \<and> q' = r' \<or> q' = q \<and> br_id q \<noteq> br_id r"
    using in_put_row[OF d _ _ q, of r r'] q' by (simp add: same_standing_def)
  then show ?thesis using edited by (auto intro: still relocated simp: same_row_def same_standing_def)
next
  case (confirmed r r')
  then have "q = r \<and> q' = r' \<or> q' = q \<and> br_id q \<noteq> br_id r"
    using in_put_row[OF d _ _ q, of r r'] q' by (simp add: same_standing_def)
  then show ?thesis using confirmed by (auto intro: still vouched)
next
  case (promoted r r')
  then have "q = r \<and> q' = r'\<lparr>br_isMainBranch := True\<rparr> \<or>
    br_id q \<noteq> br_id r \<and> q' = (if b_merchantId q = b_merchantId r then q\<lparr>br_isMainBranch := False\<rparr> else q)"
    using in_main_row[OF d _ _ _ q, of r r'] q' by (simp add: same_standing_def)
  then show ?thesis using promoted by (auto intro!: still simp: same_row_def same_standing_def split: if_splits)
next
  case (retired r now)
  then show ?thesis
    using in_put_row[OF d _ _ q, of r "r\<lparr>br_deletedAt := Some now, b_isActive := False\<rparr>" q'] q'
    by (auto intro!: still simp: same_row_def)
next
  case (close_asked r reason)
  then show ?thesis
    using in_put_row[OF d _ _ q, of r "r\<lparr>b_lifecycleStatus := PENDING_CLOSE, br_closeReason := Some reason\<rparr>" q'] q'
    by (auto intro: still advanced)
next
  case (reopened r)
  then show ?thesis
    using in_put_row[OF d _ _ q, of r "reopen_row r" q'] q' by (auto intro: still advanced simp: reopen_row_def)
next
  case (opened r)
  then have "q = r \<and> q' = open_row r \<or> q' = q \<and> br_id q \<noteq> br_id r"
    using in_put_row[OF d _ _ q, of r "open_row r" q'] q' by (simp add: open_row_def)
  then show ?thesis using opened by (auto intro: still admitted)
next
  case (closed r now)
  then show ?thesis
    using in_put_row[OF d _ _ q, of r "close_row now r" q'] q' by (auto intro: still advanced simp: close_row_def)
qed

text \<open>A key that appears is a new row's.\<close>

lemma ids_main_row [simp]: "map br_id (main_row r' rows) = map br_id rows"
  by (induction rows) (auto simp: main_row_def)

lemma fresh_located:
  assumes "move x live a rows rows'" and q: "q \<in> set rows'" "br_id q \<notin> br_id ` set rows"
  shows "located x q"
proof -
  have keys: "br_id q \<in> br_id ` set rows'" using q(1) by simp
  have old: "map br_id rows' = map br_id rows \<Longrightarrow> False"
    using keys q(2) by (metis list.set_map)
  show ?thesis
    using assms(1)
  proof cases
    case (staged r) then show ?thesis using q by auto
  next
    case (created r) then show ?thesis using q by auto
  next
    case (cancelled r) then show ?thesis using q by auto
  qed (use old in simp_all)
qed

section \<open>One main branch\<close>

text \<open>A merchant with branches has exactly one main branch, which is not deleted and not awaiting approval.\<close>

definition one_main :: "branch_row list \<Rightarrow> bool" where
  "one_main rows \<longleftrightarrow> (\<forall>r0\<in>set rows. \<exists>r\<in>set rows. settled (b_merchantId r0) r \<and> br_isMainBranch r \<and>
     (\<forall>q\<in>set rows. b_merchantId q = b_merchantId r0 \<and> br_isMainBranch q \<longrightarrow> q = r))"

lemma one_mainE:
  assumes "one_main rows" "r0 \<in> set rows" "b_merchantId r0 = m"
  obtains r where "r \<in> set rows" "settled m r" "br_isMainBranch r"
    "\<And>q. q \<in> set rows \<Longrightarrow> b_merchantId q = m \<Longrightarrow> br_isMainBranch q \<Longrightarrow> q = r"
  using assms unfolding one_main_def by blast

text \<open>Replacing a row by one of the same merchant that is main just when it was, and still settled if main.\<close>

lemma one_main_put:
  assumes om: "one_main rows" and d: "distinct (map br_id rows)" and r: "r \<in> set rows" "br_id r' = br_id r"
    and same: "b_merchantId r' = b_merchantId r" "br_isMainBranch r' \<longleftrightarrow> br_isMainBranch r"
    and main: "br_isMainBranch r \<Longrightarrow> settled (b_merchantId r) r \<Longrightarrow> settled (b_merchantId r) r'"
  shows "one_main (put_row r' rows)"
  unfolding one_main_def
proof
  note rows = set_put_row[OF d r]
  fix r0 assume "r0 \<in> set (put_row r' rows)"
  then obtain r1 where r1: "r1 \<in> set rows" "b_merchantId r1 = b_merchantId r0"
    using rows r(1) same(1) by auto
  obtain k where k: "k \<in> set rows" "settled (b_merchantId r0) k" "br_isMainBranch k"
    "\<And>q. q \<in> set rows \<Longrightarrow> b_merchantId q = b_merchantId r0 \<Longrightarrow> br_isMainBranch q \<Longrightarrow> q = k"
    by (rule one_mainE[OF om r1]) blast
  show "\<exists>k\<in>set (put_row r' rows). settled (b_merchantId r0) k \<and> br_isMainBranch k \<and>
      (\<forall>q\<in>set (put_row r' rows). b_merchantId q = b_merchantId r0 \<and> br_isMainBranch q \<longrightarrow> q = k)"
  proof (cases "k = r")
    case True
    have m: "b_merchantId r = b_merchantId r0" using k(2) True by (simp add: settled_def)
    have "settled (b_merchantId r0) r'" using main k(2,3) True m by simp
    moreover have "q = r'" if "q \<in> set (put_row r' rows)" "b_merchantId q = b_merchantId r0" "br_isMainBranch q" for q
      using that rows k(4)[of q] True by auto
    ultimately show ?thesis using rows k(3) True same(2) by (intro bexI[of _ r']) auto
  next
    case False
    have "q = k" if "q \<in> set (put_row r' rows)" "b_merchantId q = b_merchantId r0" "br_isMainBranch q" for q
      using that rows k(4)[of q] k(4)[of r] r(1) same False by auto
    then show ?thesis using rows k False by (intro bexI[of _ k]) auto
  qed
qed

lemma one_main_append:
  assumes om: "one_main rows" and fresh: "br_deletedAt r = None"
    and main: "br_isMainBranch r \<longleftrightarrow> filter (settled (b_merchantId r)) rows = []"
    and live: "br_isMainBranch r \<Longrightarrow> b_lifecycleStatus r \<noteq> PENDING_CREATE"
  shows "one_main (rows @ [r])"
  unfolding one_main_def
proof
  fix r0 assume r0: "r0 \<in> set (rows @ [r])"
  show "\<exists>k\<in>set (rows @ [r]). settled (b_merchantId r0) k \<and> br_isMainBranch k \<and>
      (\<forall>q\<in>set (rows @ [r]). b_merchantId q = b_merchantId r0 \<and> br_isMainBranch q \<longrightarrow> q = k)"
  proof (cases "\<exists>r1\<in>set rows. b_merchantId r1 = b_merchantId r0")
    case True
    then obtain r1 where r1: "r1 \<in> set rows" "b_merchantId r1 = b_merchantId r0" by blast
    obtain k where k: "k \<in> set rows" "settled (b_merchantId r0) k" "br_isMainBranch k"
      "\<And>q. q \<in> set rows \<Longrightarrow> b_merchantId q = b_merchantId r0 \<Longrightarrow> br_isMainBranch q \<Longrightarrow> q = k"
      by (rule one_mainE[OF om r1]) blast
    have "b_merchantId r = b_merchantId r0 \<Longrightarrow> \<not> br_isMainBranch r"
      using k(1,2) main by (auto simp: filter_empty_conv)
    then show ?thesis using k by (intro bexI[of _ k]) auto
  next
    case False
    then have m: "b_merchantId r = b_merchantId r0" using r0 by auto
    then have "filter (settled (b_merchantId r)) rows = []"
      using False by (auto simp: filter_empty_conv settled_def)
    then show ?thesis using False m main fresh live by (intro bexI[of _ r]) (auto simp: settled_def)
  qed
qed

lemma one_main_cancel:
  assumes om: "one_main rows" and d: "distinct (map br_id rows)" and r: "r \<in> set rows" "b_lifecycleStatus r = PENDING_CREATE"
  shows "one_main (filter (\<lambda>q. br_id q \<noteq> br_id r) rows)"
  unfolding one_main_def
proof
  fix r0 assume "r0 \<in> set (filter (\<lambda>q. br_id q \<noteq> br_id r) rows)"
  then have r0: "r0 \<in> set rows" by simp
  obtain k where k: "k \<in> set rows" "settled (b_merchantId r0) k" "br_isMainBranch k"
    "\<And>q. q \<in> set rows \<Longrightarrow> b_merchantId q = b_merchantId r0 \<Longrightarrow> br_isMainBranch q \<Longrightarrow> q = k"
    by (rule one_mainE[OF om r0 refl]) blast
  have "br_id k \<noteq> br_id r" using same_id[OF d r(1) k(1)] k(2) r(2) by (auto simp: settled_def)
  then show "\<exists>k\<in>set (filter (\<lambda>q. br_id q \<noteq> br_id r) rows). settled (b_merchantId r0) k \<and> br_isMainBranch k \<and>
      (\<forall>q\<in>set (filter (\<lambda>q. br_id q \<noteq> br_id r) rows). b_merchantId q = b_merchantId r0 \<and> br_isMainBranch q \<longrightarrow> q = k)"
    using k by (intro bexI[of _ k]) auto
qed

lemma one_main_promote:
  assumes om: "one_main rows" and d: "distinct (map br_id rows)" and r: "r \<in> set rows" "same_standing r r'"
    and s: "settled (b_merchantId r) r"
  shows "one_main (main_row r' rows)"
  unfolding one_main_def
proof
  let ?k = "r'\<lparr>br_isMainBranch := True\<rparr>"
  have r': "br_id r' = br_id r" "b_merchantId r' = b_merchantId r" "settled (b_merchantId r) ?k"
    using r(2) s by (simp_all add: same_standing_def settled_def)
  have k: "?k \<in> set (main_row r' rows)" using r(1) r'(1) by (auto simp: main_row_def image_iff intro!: bexI[of _ r])
  fix r0 assume "r0 \<in> set (main_row r' rows)"
  then obtain r1 where r1: "r1 \<in> set rows" "b_merchantId r1 = b_merchantId r0" "br_id r1 = br_id r0"
    using r(1) r' same_id[OF d r(1)] by (auto simp: main_row_def split: if_splits)
  show "\<exists>k\<in>set (main_row r' rows). settled (b_merchantId r0) k \<and> br_isMainBranch k \<and>
      (\<forall>q\<in>set (main_row r' rows). b_merchantId q = b_merchantId r0 \<and> br_isMainBranch q \<longrightarrow> q = k)"
  proof (cases "b_merchantId r0 = b_merchantId r")
    case True
    have "q = ?k" if "q \<in> set (main_row r' rows)" "b_merchantId q = b_merchantId r" "br_isMainBranch q" for q
      using that r' by (auto simp: main_row_def split: if_splits)
    then show ?thesis using k r'(3) True by (intro bexI[of _ ?k]) auto
  next
    case False
    obtain k where k: "k \<in> set rows" "settled (b_merchantId r0) k" "br_isMainBranch k"
      "\<And>q. q \<in> set rows \<Longrightarrow> b_merchantId q = b_merchantId r0 \<Longrightarrow> br_isMainBranch q \<Longrightarrow> q = k"
      by (rule one_mainE[OF om r1(1,2)]) blast
    have other: "q \<in> set rows" if "q \<in> set (main_row r' rows)" "b_merchantId q = b_merchantId r0" for q
      using that False r' by (auto simp: main_row_def split: if_splits)
    have "k \<in> set (main_row r' rows)"
      using k(1,2) False r' same_id[OF d r(1) k(1)] by (auto simp: main_row_def image_iff settled_def intro!: bexI[of _ k])
    then show ?thesis using k(2,3) by (intro bexI[of _ k] conjI ballI impI) (use k(4) other in blast)+
  qed
qed

definition on_settled :: "deed \<Rightarrow> branch_row list \<Rightarrow> bool" where
  "on_settled a rows \<longleftrightarrow>
     (case a of Promoted i \<Rightarrow> (\<forall>r\<in>set rows. br_id r = i \<longrightarrow> b_lifecycleStatus r \<noteq> PENDING_CREATE) | _ \<Rightarrow> True)"

lemma one_main_move:
  assumes "move x live a rows rows'" and om: "one_main rows" and d: "distinct (map br_id rows)" and s: "on_settled a rows"
  shows "one_main rows'"
  using assms(1)
proof cases
  case (edited r r')
  then show ?thesis using one_main_put[OF om d, of r r'] by (simp add: same_standing_def settled_def)
next
  case (confirmed r r')
  then show ?thesis using one_main_put[OF om d, of r r'] by (simp add: same_standing_def settled_def)
next
  case (promoted r r')
  then show ?thesis using s by (auto intro!: one_main_promote[OF om d, of r] simp: on_settled_def settled_def)
next
  case (retired r now)
  then show ?thesis
    using one_main_put[OF om d, of r "r\<lparr>br_deletedAt := Some now, b_isActive := False\<rparr>"] by (simp add: dispensable_def)
next
  case (close_asked r reason)
  then show ?thesis
    using one_main_put[OF om d, of r "r\<lparr>b_lifecycleStatus := PENDING_CLOSE, br_closeReason := Some reason\<rparr>"]
    by (simp add: dispensable_def)
next
  case (reopened r)
  then show ?thesis using one_main_put[OF om d, of r "reopen_row r"] by (simp add: settled_def reopen_row_def)
next
  case (opened r)
  then show ?thesis using one_main_put[OF om d, of r "open_row r"] by (simp add: settled_def open_row_def)
next
  case (closed r now)
  then show ?thesis using one_main_put[OF om d, of r "close_row now r"] by (simp add: dispensable_def close_row_def)
qed (use om d in \<open>auto intro!: one_main_append one_main_cancel\<close>)

section \<open>Branches on view\<close>

definition closing :: "deed \<Rightarrow> bool" where
  "closing a \<longleftrightarrow> (case a of Retired _ \<Rightarrow> True | Closed _ \<Rightarrow> True | CloseAsked _ \<Rightarrow> True | Reopened _ \<Rightarrow> True
     | Opened _ \<Rightarrow> True | Kept \<Rightarrow> True | _ \<Rightarrow> False)"

lemma dispensable_leaves:
  assumes d: "distinct (map br_id rows)" and r: "r \<in> set rows" "br_id r' = br_id r"
    and ex: "dispensable live rows r" "live m" and v: "v \<in> set rows" "on_view m v"
  shows "\<exists>q\<in>set (put_row r' rows). on_view m q"
proof -
  have "\<exists>q\<in>set rows. on_view m q \<and> q \<noteq> r"
  proof (cases "v = r")
    case True
    then have m: "b_merchantId r = m" using v by (simp add: on_view_def)
    let ?xs = "filter (on_view m) rows"
    have "1 < length ?xs" using ex m by (simp add: dispensable_def)
    moreover have "distinct ?xs" using d by (simp add: distinct_map distinct_filter)
    ultimately obtain a b where "a \<in> set ?xs" "b \<in> set ?xs" "a \<noteq> b"
      by (cases ?xs; cases "tl ?xs") auto
    then show ?thesis by (cases "a = r") auto
  qed (use v in blast)
  then show ?thesis using set_put_row[OF d r] by auto
qed

lemma closing_keeps_view:
  assumes mv: "move x live a rows rows'" "closing a" and d: "distinct (map br_id rows)" and m: "live m"
    and v: "v \<in> set rows" "on_view m v"
  shows "\<exists>q\<in>set rows'. on_view m q"
proof -
  have kept: "\<exists>q\<in>set (put_row r' rows). on_view m q" if r: "r \<in> set rows" "br_id r' = br_id r"
    and still: "on_view m r \<Longrightarrow> on_view m r'" for r r'
    using set_put_row[OF d r] v still by (cases "v = r") auto
  show ?thesis
    using mv(1)
  proof cases
    case (retired r now)
    then show ?thesis using dispensable_leaves[where live = live and r = r and r' = "r\<lparr>br_deletedAt := Some now, b_isActive := False\<rparr>", OF d _ _ _ m v] by simp
  next
    case (close_asked r reason)
    then show ?thesis
      using kept[of r "r\<lparr>b_lifecycleStatus := PENDING_CLOSE, br_closeReason := Some reason\<rparr>"] by (simp add: on_view_def)
  next
    case (reopened r)
    then show ?thesis using kept[of r "reopen_row r"] by (simp add: on_view_def reopen_row_def)
  next
    case (opened r)
    then show ?thesis using kept[of r "open_row r"] by (simp add: on_view_def open_row_def)
  next
    case (closed r now)
    then show ?thesis using dispensable_leaves[where live = live and r = r and r' = "close_row now r", OF d _ _ _ m v] by (simp add: close_row_def)
  qed (use mv(2) v in \<open>auto simp: closing_def\<close>)
qed

end
