(* ===== verification/Branches.thy ===== *)
theory Branches
  imports Portfolio
begin

text \<open>
  What the branch handlers guarantee, request by request: the machine of \<open>Sites\<close> and \<open>Portfolio\<close> read back on
  \<open>serve_branch\<close>. Then the concrete histories on which a handler does not do what its comment says.
\<close>

section \<open>Requests\<close>

lemma served:
  assumes "estate_ok x s"
  obtains a where "a \<in> insert Kept (deeds_of q)" "estate_ok x (serve_branch x am pid now q s)"
    "e_db (serve_branch x am pid now q s) = e_db s"
    "move x (merchant_active s) a (e_rows s) (e_rows (serve_branch x am pid now q s))"
  using serve_branch_moves[OF assms] unfolding moves_def by blast

lemma deeds_Opened: "Opened b \<in> insert Kept (deeds_of q) \<Longrightarrow> \<exists>i adm. q = ApproveLifecycle i adm"
  by (cases q) (auto split: if_splits)

lemma deeds_Confirmed: "Confirmed b \<in> insert Kept (deeds_of q) \<Longrightarrow> \<exists>adm pin. q = ConfirmLocation adm b pin"
  by (cases q) (auto split: if_splits)

lemma deeds_Promoted:
  assumes "Promoted b \<in> deeds_of q"
  shows "\<exists>adm eid aid g data. q = PatchBranch adm b eid aid g data \<and> map_of data ''isMainBranch'' = Some (JBool True)"
  using assms by (cases q) (auto split: if_splits)

lemma approved_opens:
  assumes ok: "estate_ok x s" and r: "r \<in> set (e_rows s)" "b_lifecycleStatus r = PENDING_CREATE"
    and r': "r' \<in> set (e_rows (serve_branch x am pid now (ApproveLifecycle i adm) s))" "br_id r' = br_id r"
      "b_lifecycleStatus r' \<noteq> PENDING_CREATE"
  shows "\<exists>a. queued s i = Some a \<and> awaits BRANCH_CREATE a \<and> ap_referenceId a = br_id r"
proof (cases "approveBranchLifecycle now i adm s")
  case (Inl e)
  then show ?thesis using r r' same_id[OF estate_okD(1)[OF ok] r(1)] by (auto simp: after_def)
next
  case (Inr bs)
  then obtain b s' where run: "approveBranchLifecycle now i adm s = Inr (b, s')" by (cases bs) auto
  then have s': "serve_branch x am pid now (ApproveLifecycle i adm) s = s'" by (simp add: after_def)
  have no: "\<not> moves x {a} s s'" if "a \<noteq> Opened (br_id r)" for a
  proof
    assume "moves x {a} s s'"
    then have "move x (merchant_active s) a (e_rows s) (e_rows s')" by (simp add: moves_def)
    from fate[OF this estate_okD(1)[OF ok] r(1) r'(1)[unfolded s'] r'(2)] show False
      using r(2) r'(3) that by cases (auto simp: same_row_def same_standing_def)
  qed
  obtain a :: approval where a: "queued s i = Some a" and
    "s' = s \<or> awaits BRANCH_CREATE a \<and> moves x {Opened (ap_referenceId a)} s s' \<or>
     awaits BRANCH_CLOSE a \<and> moves x {Closed (ap_referenceId a)} s s'"
    using approveBranchLifecycle_moves[OF ok run] by blast
  moreover have "s' \<noteq> s"
  proof
    assume "s' = s"
    then have "r' \<in> set (e_rows s)" using r'(1) s' by simp
    then have "r' = r" using same_id[OF estate_okD(1)[OF ok] r(1)] r'(2) by simp
    then show False using r(2) r'(3) by simp
  qed
  ultimately have "awaits BRANCH_CREATE a \<and> ap_referenceId a = br_id r" using no by blast
  then show ?thesis using a by blast
qed

lemma opened_by_review:
  assumes ok: "estate_ok x s" and r: "r \<in> set (e_rows s)" "b_lifecycleStatus r = PENDING_CREATE"
    and r': "r' \<in> set (e_rows (serve_branch x am pid now q s))" "br_id r' = br_id r" "b_lifecycleStatus r' \<noteq> PENDING_CREATE"
  shows "\<exists>i adm a. q = ApproveLifecycle i adm \<and> queued s i = Some a \<and> awaits BRANCH_CREATE a \<and>
    ap_referenceId a = br_id r \<and> location_confirmed (br_locationConfidence r) \<and> r' = open_row r"
proof -
  obtain a where a: "a \<in> insert Kept (deeds_of q)" and "estate_ok x (serve_branch x am pid now q s)"
    "e_db (serve_branch x am pid now q s) = e_db s"
    and mv: "move x (merchant_active s) a (e_rows s) (e_rows (serve_branch x am pid now q s))"
    by (rule served[OF ok])
  from fate[OF mv estate_okD(1)[OF ok] r(1) r'(1,2)]
  have o: "a = Opened (br_id r)" "location_confirmed (br_locationConfidence r)" "r' = open_row r"
    using r(2) r'(3) by (cases; simp add: same_row_def same_standing_def)+
  then obtain i adm where "q = ApproveLifecycle i adm" using deeds_Opened a by blast
  with o approved_opens[OF ok r, of r' am pid now i adm] r' show ?thesis by blast
qed

section \<open>Safety\<close>

text \<open>C23: Every branch request, served in a well-formed estate, is one move of the abstract machine among those its kind
  allows, and leaves the estate well formed.\<close>

theorem branch_requests_refine_machine:
  assumes "estate_ok x s"
  shows "moves x (insert Kept (deeds_of q)) s (serve_branch x am pid now q s)"
  by (rule serve_branch_moves[OF assms])

text \<open>C6: A branch that awaits approval leaves that state in one way only: an admin approves the waiting request to create
  it, while its location is confirmed, and it becomes live and active.\<close>

theorem staged_branch_opened_by_review:
  assumes ok: "estate_ok x s" and r: "r \<in> set (e_rows s)" "b_lifecycleStatus r = PENDING_CREATE"
    and r': "r' \<in> set (e_rows (serve_branch x am pid now q s))" "br_id r' = br_id r" "b_lifecycleStatus r' \<noteq> PENDING_CREATE"
  shows "\<exists>i adm a. q = ApproveLifecycle i adm \<and> queued s i = Some a \<and> awaits BRANCH_CREATE a \<and>
    ap_referenceId a = br_id r \<and> location_confirmed (br_locationConfidence r) \<and> r' = open_row r"
  by (rule opened_by_review[OF assms])


section \<open>The main branch\<close>

definition promotes_pending :: "branch_request \<Rightarrow> estate \<Rightarrow> bool" where
  "promotes_pending q s \<longleftrightarrow>
     (case q of
        PatchBranch adm bid eid aid g data \<Rightarrow>
          map_of data ''isMainBranch'' = Some (JBool True) \<and>
          list_ex (\<lambda>r. br_id r = bid \<and> b_lifecycleStatus r = PENDING_CREATE) (e_rows s)
      | _ \<Rightarrow> False)"

lemma one_main_served:
  assumes ok: "estate_ok x s" and om: "one_main (e_rows s)" and q: "\<not> promotes_pending q s"
  shows "one_main (e_rows (serve_branch x am pid now q s))"
proof -
  obtain a where a: "a \<in> insert Kept (deeds_of q)" and "estate_ok x (serve_branch x am pid now q s)"
    "e_db (serve_branch x am pid now q s) = e_db s"
    and mv: "move x (merchant_active s) a (e_rows s) (e_rows (serve_branch x am pid now q s))"
    by (rule served[OF ok])
  have "on_settled a (e_rows s)"
  proof (cases a)
    case (Promoted b)
    then obtain adm eid aid g data where "q = PatchBranch adm b eid aid g data" "map_of data ''isMainBranch'' = Some (JBool True)"
      using a deeds_Promoted by blast
    then show ?thesis using q Promoted by (simp add: on_settled_def promotes_pending_def list_ex_iff)
  qed (simp_all add: on_settled_def)
  then show ?thesis by (rule one_main_move[OF mv om estate_okD(1)[OF ok]])
qed

text \<open>A history in which no request promotes a branch that awaits approval.\<close>

fun orderly ::
  "outside \<Rightarrow> (ident \<Rightarrow> bool) \<Rightarrow> (time \<times> (nat \<Rightarrow> ident) \<times> branch_request) list \<Rightarrow> estate \<Rightarrow> bool" where
  "orderly x am [] s \<longleftrightarrow> True"
| "orderly x am ((now, pid, q) # h) s \<longleftrightarrow> \<not> promotes_pending q s \<and> orderly x am h (serve_branch x am pid now q s)"

lemma run_branch_simps [simp]:
  "run_branch x am [] s = s"
  "run_branch x am ((now, pid, q) # h) s = run_branch x am h (serve_branch x am pid now q s)"
  by (simp_all add: run_branch_def)

text \<open>C22: As long as no request promotes a branch that still awaits approval, every history leaves every merchant with
  branches exactly one main branch, which is neither deleted nor awaiting approval.\<close>

theorem one_main_branch_kept:
  assumes "estate_ok x s" "one_main (e_rows s)" "orderly x am h s"
  shows "one_main (e_rows (run_branch x am h s))"
  using assms
proof (induction h arbitrary: s)
  case (Cons c h)
  obtain now pid q where c: "c = (now, pid, q)" by (cases c) auto
  have "estate_ok x (serve_branch x am pid now q s)" by (rule served[OF Cons.prems(1)])
  with Cons c one_main_served[OF Cons.prems(1,2)] show ?case by simp
qed simp

definition closes :: "branch_request \<Rightarrow> bool" where
  "closes q \<longleftrightarrow>
     (case q of DeleteBranch _ _ \<Rightarrow> True | AdminDelete _ _ \<Rightarrow> True | RequestClose _ _ _ _ \<Rightarrow> True
      | WithdrawClose _ _ \<Rightarrow> True | ApproveLifecycle _ _ \<Rightarrow> True | RejectLifecycle _ _ _ \<Rightarrow> True | _ \<Rightarrow> False)"


section \<open>A sample estate\<close>

text \<open>A merchant with one live branch, a postcode at the origin, and a place that the map finds there.\<close>

definition sample_postcode :: postcode_snapshot where
  "sample_postcode = \<lparr>sn_postcode = ''AB12CD'', sn_point = ((0, 0), (0, 0)), sn_country = ''England'', sn_region = None,
     sn_ladDistrict = ''D'', sn_adminCounty = None, sn_parish = None, sn_adminWard = None, sn_constituency = None,
     sn_postTown = None\<rparr>"

definition sample_outside :: outside where
  "sample_outside = \<lparr>o_metres = (\<lambda>p q. if p = q then 0 else 2000),
     o_fetch = (\<lambda>pc. if pc = ''AB12CD'' then Reply 200 200 (Some sample_postcode) else Reply 404 404 None),
     o_locality = (\<lambda>_. \<lparr>lo_id = ''l'', lo_name = ''L'', lo_postTown = None\<rparr>), o_decimal = (\<lambda>_. None),
     o_encrypt = (\<lambda>t. ''enc'' @ t), o_decrypt = (\<lambda>t. if take 3 t = ''enc'' then Inr (drop 3 t) else Inl GcmAuthError),
     o_bucket = ''u''\<rparr>"

definition sample_place :: suggestion where
  "sample_place = \<lparr>su_placeId = ''g'', su_point = ((0, 0), (0, 0)), su_postcode = Some ''AB1 2CD''\<rparr>"

definition sample_branch_row :: branch_row where
  "sample_branch_row = (blank_row ''b'' ''m'' True False)\<lparr>b_name := ''B'', br_postcode := ''AB1 2CD'', br_latitude := Some 0,
     br_longitude := Some 0, br_locationConfidence := ''ADDRESS_GEOCODED''\<rparr>"

definition sample_estate :: "merchant_status \<Rightarrow> estate" where
  "sample_estate st = \<lparr>e_db = (sample_merchants [sample_membership OWNER])\<lparr>merchants :=
       [''m'' \<mapsto> \<lparr>m_status = st, m_businessName = ''M''\<rparr>]\<rparr>, e_steps = Map.empty, e_rows = [sample_branch_row],
     e_approvals = [], e_edits = [], e_photos = [], e_users = [], e_amenities = [], e_audit = []\<rparr>"

definition sample_data :: bag where
  "sample_data = [(''name'', JStr ''P''), (''addressLine1'', JStr ''1 High St''), (''city'', JStr ''C''),
     (''postcode'', JStr ''AB1 2CD'')]"

text \<open>A second branch is asked for, at a place that checks out.\<close>

definition staged_estate :: estate where
  "staged_estate = serve_branch sample_outside (\<lambda>_. True) (\<lambda>_. ''ph'') 1
     (NewBranch ''a'' ''p'' ''ap'' (Some sample_place) sample_data) (sample_estate M_ACTIVE)"

definition sample_serve :: "branch_request \<Rightarrow> estate \<Rightarrow> estate" where
  "sample_serve q s = serve_branch sample_outside (\<lambda>_. True) (\<lambda>_. ''ph'') 2 q s"

lemma sample_estate_ok: "estate_ok sample_outside (sample_estate st)"
  by (simp add: estate_ok_def sample_estate_def)

lemma staged_estate_ok: "estate_ok sample_outside staged_estate"
  unfolding staged_estate_def by (rule served[OF sample_estate_ok])

text \<open>What a closed history comes to, computed.\<close>

definition standing :: "ident \<Rightarrow> estate \<Rightarrow> (branch_lifecycle \<times> bool \<times> bool \<times> string \<times> int option) option" where
  "standing bid s = map_option (\<lambda>r. (b_lifecycleStatus r, b_isActive r, br_isMainBranch r, br_locationConfidence r, br_latitude r))
     (row_by_id s bid)"

lemma staged_standing:
  "standing ''p'' staged_estate = Some (PENDING_CREATE, False, False, ''ADDRESS_GEOCODED'', Some 0)"
  by code_simp

theorem branch_requests_refine_machine_witness:
  "moves sample_outside {Kept, Retired ''b''} (sample_estate M_ACTIVE) (sample_serve (DeleteBranch ''a'' ''b'') (sample_estate M_ACTIVE))"
  using branch_requests_refine_machine[OF sample_estate_ok, where q = "DeleteBranch ''a'' ''b''"]
  unfolding sample_serve_def by simp

theorem staged_branch_opened_by_review_witness:
  "\<exists>r r'. b_lifecycleStatus r = PENDING_CREATE \<and> r' = open_row r \<and>
     row_by_id (sample_serve (ApproveLifecycle ''ap'' ''adm'') staged_estate) ''p'' = Some r'"
proof -
  let ?s' = "sample_serve (ApproveLifecycle ''ap'' ''adm'') staged_estate"
  obtain r where r: "row_by_id staged_estate ''p'' = Some r" "b_lifecycleStatus r = PENDING_CREATE"
    using staged_standing by (auto simp: standing_def)
  have "standing ''p'' ?s' = Some (LIVE, True, False, ''ADDRESS_GEOCODED'', Some 0)" by code_simp
  then obtain r' where r': "row_by_id ?s' ''p'' = Some r'" "b_lifecycleStatus r' \<noteq> PENDING_CREATE"
    by (auto simp: standing_def)
  note rows = row_by_id_row[OF r(1)] row_by_id_row[OF r'(1)]
  have "r' = open_row r"
    using staged_branch_opened_by_review[OF staged_estate_ok conjunct1[OF rows(1)] r(2)
        conjunct1[OF rows(2)[unfolded sample_serve_def]] _ r'(2)] rows by auto
  then show ?thesis using r r' by blast
qed


lemma sample_one_main: "one_main (e_rows (sample_estate st))"
  by (simp add: one_main_def sample_estate_def sample_branch_row_def blank_row_def settled_def)

theorem one_main_branch_kept_witness:
  "one_main (e_rows (run_branch sample_outside (\<lambda>_. True)
     [(1, \<lambda>_. ''ph'', NewBranch ''a'' ''p'' ''ap'' (Some sample_place) sample_data),
      (2, \<lambda>_. ''ph'', ApproveLifecycle ''ap'' ''adm'')] (sample_estate M_ACTIVE)))"
  by (rule one_main_branch_kept[OF sample_estate_ok sample_one_main]) (simp add: promotes_pending_def)


section \<open>Where the code falls short\<close>

lemma unsettled_no_main:
  assumes "list_all (\<lambda>r. \<not> settled m r \<and> b_merchantId r = m) rows" "rows \<noteq> []"
  shows "\<not> one_main rows"
proof
  assume om: "one_main rows"
  obtain r0 where r0: "r0 \<in> set rows" using assms(2) by (cases rows) auto
  then have "b_merchantId r0 = m" using assms(1) by (simp add: list_all_iff)
  then obtain r where "r \<in> set rows" "settled m r" by (rule one_mainE[OF om r0]) blast
  then show False using assms(1) by (simp add: list_all_iff)
qed

definition hiding_history :: "estate" where
  "hiding_history = sample_serve (DeleteBranch ''a'' ''b'')
     (sample_serve (PatchBranch ''a'' ''p'' ''e'' ''ap2'' None
        [(''isMainBranch'', JBool True), (''isActive'', JBool True)]) staged_estate)"


definition draft_history :: "estate" where
  "draft_history = sample_serve (PatchBranch ''a'' ''b'' ''e'' ''ap'' None
     [(''latitude'', JNum 10 0), (''longitude'', JNum 10 0)]) (sample_estate M_REGISTERED)"

text \<open>In the draft window the owner may move a trusted pin anywhere: a branch whose location was geocoded within its
  postcode area keeps that confidence after a change of coordinates that no check has seen.\<close>

theorem draft_patch_moves_trusted_pin:
  "\<exists>r r'. row_by_id (sample_estate M_REGISTERED) ''b'' = Some r \<and> located sample_outside r \<and>
     row_by_id draft_history ''b'' = Some r' \<and> location_confirmed (br_locationConfidence r') \<and> \<not> located sample_outside r'"
proof -
  have "row_by_id (sample_estate M_REGISTERED) ''b'' = Some sample_branch_row"
    by (simp add: row_by_id_def sample_estate_def sample_branch_row_def blank_row_def)
  moreover have sn: "resolvePostcode sample_outside ''AB1 2CD'' = Inr sample_postcode"
    by code_simp
  have "located sample_outside sample_branch_row"
    using sn unfolding located_def
    by (intro disjI2 conjI exI[of _ "((0, 0), (0, 0))"] exI[of _ sample_postcode])
      (simp_all add: sample_branch_row_def at_point_def to_e8_def sample_outside_def sample_postcode_def)
  moreover have "standing ''b'' draft_history = Some (LIVE, True, True, ''ADDRESS_GEOCODED'', Some 1000000000)"
    by code_simp
  moreover have "map_option br_postcode (row_by_id draft_history ''b'') = Some ''AB1 2CD''" by code_simp
  ultimately obtain r' where r': "row_by_id draft_history ''b'' = Some r'" "br_locationConfidence r' = ''ADDRESS_GEOCODED''"
      "br_latitude r' = Some 1000000000" "br_postcode r' = ''AB1 2CD''"
    and r: "row_by_id (sample_estate M_REGISTERED) ''b'' = Some sample_branch_row" "located sample_outside sample_branch_row"
    by (auto simp: standing_def)
  have "\<not> located sample_outside r'"
  proof
    assume "located sample_outside r'"
    then obtain p where "o_metres sample_outside p (sn_point sample_postcode) \<le> 1000" "at_point r' p"
      using r' sn by (auto simp: located_def)
    then show False
      using r' by (cases p) (auto simp: at_point_def to_e8_def sample_outside_def sample_postcode_def split: if_splits)
  qed
  moreover have "location_confirmed (br_locationConfidence r')"
    using r' by (simp add: location_confirmed_def CONFIRMED_LOCATION_SET_def)
  ultimately show ?thesis using r r' by blast
qed

definition revived_history :: "estate" where
  "revived_history = sample_serve (ApproveLifecycle ''ap'' ''adm'') (sample_serve (DeleteBranch ''a'' ''p'')
     (sample_serve (AdminCreate ''m'' ''adm'' ''c'' ''ap2'' sample_data) staged_estate))"

text \<open>A branch that was deleted while it awaited approval comes back when an admin approves the request that was left
  waiting: its owner no longer sees it, yet it takes redemptions.\<close>

theorem deleted_branch_revived:
  "own_branch revived_history ''p'' ''m'' = None \<and>
   (\<exists>b. check_branch (store_view revived_history) sample_voucher ''p'' = Inr b)"
proof
  have "(case check_branch (store_view revived_history) sample_voucher ''p'' of Inl _ \<Rightarrow> False | Inr _ \<Rightarrow> True)"
    by code_simp
  then show "\<exists>b. check_branch (store_view revived_history) sample_voucher ''p'' = Inr b"
    by (auto split: sum.splits)
  have "(case own_branch revived_history ''p'' ''m'' of None \<Rightarrow> True | Some _ \<Rightarrow> False)" by code_simp
  then show "own_branch revived_history ''p'' ''m'' = None" by (auto split: option.splits)
qed

end
