(* ===== verification/Stuck.thy ===== *)
theory Stuck
  imports Branches
begin

text \<open>
  Which branches are asked for: a waiting \<open>BRANCH_CREATE\<close> approval is made with its branch and never again, so a branch
  whose request was sent back can only be cancelled.
\<close>

section \<open>Waiting requests to create\<close>

definition asked :: "estate \<Rightarrow> ident set" where
  "asked s = ap_referenceId ` {a \<in> set (e_approvals s). awaits BRANCH_CREATE a}"

lemma mem_asked: "bid \<in> asked s \<longleftrightarrow> (\<exists>a\<in>set (e_approvals s). awaits BRANCH_CREATE a \<and> ap_referenceId a = bid)"
  unfolding asked_def by blast

lemma asked_same [simp]:
  "asked (log_event i ev adm s) = asked s" "asked (map_row bid f s) = asked s" "asked (deactivate_users bid s) = asked s"
  "asked (change_edit i g s) = asked s" "asked (add_photos pid bid us s) = asked s" "asked (remove_photos bid ids s) = asked s"
  "asked (s\<lparr>e_rows := rows\<rparr>) = asked s" "asked (s\<lparr>e_edits := es\<rparr>) = asked s" "asked (s\<lparr>e_photos := ps\<rparr>) = asked s"
  "asked (s\<lparr>e_amenities := am\<rparr>) = asked s"
  by (simp_all add: asked_def log_event_def map_row_def deactivate_users_def change_edit_def add_photos_def remove_photos_def)

lemma asked_update: "update_columns x bid b s = Inr s' \<Longrightarrow> asked s' = asked s"
  by (auto simp: update_columns_def)

lemma asked_drop: "asked (drop_approvals ty ref s) \<subseteq> asked s"
  by (auto simp: asked_def drop_approvals_def)

lemma asked_change: "(\<And>a. ap_status (f a) \<noteq> A_PENDING) \<Longrightarrow> asked (change_approval i f s) \<subseteq> asked s"
  by (auto simp: asked_def change_approval_def awaits_def split: if_splits)

lemma asked_decided: "st \<noteq> A_PENDING \<Longrightarrow> asked (change_approval i (decided now adm st c) s) \<subseteq> asked s"
  by (rule asked_change) simp

lemma asked_decidedD [dest!]: "b \<in> asked (change_approval i (decided now adm st c) s) \<Longrightarrow> st \<noteq> A_PENDING \<Longrightarrow> b \<in> asked s"
  using asked_decided by blast

lemma asked_dropD [dest!]: "b \<in> asked (drop_approvals ty ref s) \<Longrightarrow> b \<in> asked s"
  using asked_drop by blast

lemma asked_queue: "queue_approval aid ty ref c s = Inr s' \<Longrightarrow> asked s' = asked s \<union> (if ty = BRANCH_CREATE then {ref} else {})"
proof -
  assume run: "queue_approval aid ty ref c s = Inr s'"
  let ?a = "new_approval aid ty ref c"
  have "{a \<in> set (e_approvals s'). awaits BRANCH_CREATE a} =
      {a \<in> set (e_approvals s). awaits BRANCH_CREATE a} \<union> (if awaits BRANCH_CREATE ?a then {?a} else {})"
    using run by (auto simp: queue_approval_def split: if_splits)
  moreover have "awaits BRANCH_CREATE ?a \<longleftrightarrow> ty = BRANCH_CREATE" "ap_referenceId ?a = ref"
    by (simp_all add: awaits_def new_approval_def)
  ultimately show ?thesis by (auto simp: asked_def image_Un)
qed

lemma asked_stage: "stage_branch_edit eid aid mid bid b ph c s = Inr s' \<Longrightarrow> asked s' = asked s"
  by (auto simp: stage_branch_edit_def dest!: asked_queue)

lemma asked_delete: "delete_branch bid s = Inr s' \<Longrightarrow> asked s' = asked s"
  by (auto simp: delete_branch_def asked_def split: if_splits)

section \<open>No handler asks again\<close>

lemma createBranchCore_asked:
  assumes "createBranchCore x now mid adm bid aid st g data s = Inr s'"
  shows "asked s' \<subseteq> insert bid (asked s)"
proof -
  obtain s1 where s1: "asked s1 = asked s"
    and fin: "(if st then queue_approval aid BRANCH_CREATE bid ''created and awaiting approval''
                 (log_event bid ''BRANCH_CREATED'' adm s1) else returns (log_event bid ''BRANCH_CREATED'' adm s1)) = Inr s'"
  proof -
    obtain r s1 where "insert_branch r s = Inr s1"
      and fin: "(if st then queue_approval aid BRANCH_CREATE bid ''created and awaiting approval''
                 (log_event bid ''BRANCH_CREATED'' adm s1) else returns (log_event bid ''BRANCH_CREATED'' adm s1)) = Inr s'"
      using assms unfolding createBranchCore_def Let_def andThen_Inr found_Inr guard_Inr by blast
    then have "asked s1 = asked s" by (auto simp: insert_branch_def split: if_splits)
    then show thesis using fin by (rule that)
  qed
  show ?thesis using fin s1 by (cases st) (auto dest!: asked_queue)
qed

lemma cancelPendingCreate_asked: "cancelPendingCreate adm bid s = Inr s' \<Longrightarrow> asked s' \<subseteq> asked s"
  by (auto simp: cancelPendingCreate_def dest!: asked_delete)

lemma dropBranchPin_asked:
  assumes "dropBranchPin x adm bid pin s = Inr s'"
  shows "asked s' = asked s"
proof -
  obtain b s1 where "update_columns x bid b s = Inr s1" "s' = log_event bid ''BRANCH_UPDATED'' adm s1"
    using assms unfolding dropBranchPin_def Let_def andThen_Inr split_paired_Ex prod.case found_Inr guard_Inr sum.inject
    by blast
  then show ?thesis by (simp add: asked_update)
qed

lemma updateBranchDirectCore_asked:
  assumes "updateBranchDirectCore x mid adm bid data s = Inr s'"
  shows "asked s' = asked s"
proof (cases "pick DIRECT_FIELDS data = []")
  case False
  then obtain s1 where "update_columns x bid (pick DIRECT_FIELDS data) s = Inr s1" "s' = log_event bid ''BRANCH_UPDATED'' adm s1"
    using assms by (auto simp: updateBranchDirectCore_def Let_def)
  then show ?thesis by (simp add: asked_update)
qed (use assms in \<open>simp add: updateBranchDirectCore_def\<close>)

lemma updateBranchSensitiveDirectCore_asked:
  assumes "updateBranchSensitiveDirectCore x now mid adm bid g data s = Inr s'"
  shows "asked s' = asked s"
proof (cases "pick (SENSITIVE_FIELDS @ DIRECT_FIELDS) data = []")
  case False
  then obtain b s1 where "update_columns x bid b s = Inr s1" "s' = log_event bid ''BRANCH_UPDATED'' adm s1"
    using assms by (auto simp: updateBranchSensitiveDirectCore_def Let_def)
  then show ?thesis by (simp add: asked_update)
qed (use assms in \<open>simp add: updateBranchSensitiveDirectCore_def\<close>)

lemma createBranchEditRequest_asked:
  "createBranchEditRequest x now adm bid eid aid ph g data s = Inr s' \<Longrightarrow> asked s' = asked s"
  unfolding createBranchEditRequest_def Let_def andThen_Inr found_Inr guard_Inr by (elim exE conjE asked_stage)

lemma set_main_asked: "set_main x mid bid b s = Inr s' \<Longrightarrow> asked s' = asked s"
  by (auto simp: set_main_def Let_def dest!: asked_update)

lemma updateBranch_asked:
  assumes "updateBranch x now adm bid eid aid g data s = Inr s'"
  shows "asked s' = asked s"
proof -
  obtain mctx where rest: "(if map_of data ''isMainBranch'' = Some (JBool True) then
       andThen (assertOwner mctx) (\<lambda>_. set_main x (mc_merchantId mctx) bid (pick DIRECT_FIELDS data) s)
     else if pick SENSITIVE_FIELDS data \<noteq> [] then
       andThen (found MERCHANT_NOT_FOUND (merchants (e_db s) (mc_merchantId mctx))) (\<lambda>m.
       if isDraftWindow (Some (m_status m)) (e_steps s (mc_merchantId mctx)) then
         andThen (assertOwner mctx)
           (\<lambda>_. updateBranchSensitiveDirectCore x now (mc_merchantId mctx) adm bid g data s)
       else createBranchEditRequest x now adm bid eid aid False g data s)
     else updateBranchDirectCore x (mc_merchantId mctx) adm bid data s) = Inr s'"
    using assms unfolding updateBranch_def Let_def andThen_Inr found_Inr by blast
  then show ?thesis
    by (auto split: if_splits dest: set_main_asked updateBranchSensitiveDirectCore_asked createBranchEditRequest_asked
        updateBranchDirectCore_asked)
qed

lemma withdrawBranchEditRequest_asked:
  assumes "withdrawBranchEditRequest now adm bid eid s = Inr s'"
  shows "asked s' \<subseteq> asked s"
proof -
  obtain mid where s': "s' = log_event mid ''BRANCH_EDIT_REQUEST_WITHDRAWN'' adm
      (let s1 = change_edit eid (\<lambda>e. e\<lparr>be_status := A_WITHDRAWN\<rparr>) s in
       case List.find (\<lambda>a. ap_type a = BRANCH_IDENTITY_EDIT \<and> ap_referenceId a = eid \<and> ap_status a = A_PENDING)
              (e_approvals s1) of None \<Rightarrow> s1
       | Some a \<Rightarrow> change_approval (ap_id a) (\<lambda>a. (unclaim a)\<lparr>ap_status := A_WITHDRAWN, ap_actionedAt := Some now,
           ap_comment := ''Merchant withdrew the request''\<rparr>) s1)"
    using assms unfolding withdrawBranchEditRequest_def Let_def andThen_Inr sum.inject by blast
  define s1 where "s1 = change_edit eid (\<lambda>e. e\<lparr>be_status := A_WITHDRAWN\<rparr>) s"
  have "asked s1 = asked s" by (simp add: s1_def)
  moreover have "asked (change_approval i (\<lambda>a. (unclaim a)\<lparr>ap_status := A_WITHDRAWN, ap_actionedAt := Some now,
      ap_comment := ''Merchant withdrew the request''\<rparr>) s1) \<subseteq> asked s1" for i
    by (rule asked_change) simp
  ultimately show ?thesis unfolding s' s1_def[symmetric] Let_def by (auto split: option.splits)
qed

lemma createBranchPhotoEditRequest_asked:
  "createBranchPhotoEditRequest x pid adm bid eid aid add remove s = Inr s' \<Longrightarrow> asked s' = asked s"
  by (auto simp: createBranchPhotoEditRequest_def Let_def dest!: asked_stage split: if_splits)

lemma removeBranchPhoto_asked: "removeBranchPhoto adm bid p s = Inr s' \<Longrightarrow> asked s' = asked s"
  by (auto simp: removeBranchPhoto_def)

lemma setAmenities_asked: "asked (snd (setAmenities am adm bid ids s)) = asked s"
  by (auto simp: setAmenities_def Let_def split: sum.split)

lemma setRedemptionAlerts_asked: "setRedemptionAlerts adm bid b s = Inr s' \<Longrightarrow> asked s' = asked s"
  by (auto simp: setRedemptionAlerts_def)

lemma softDeleteBranchCore_asked: "softDeleteBranchCore now mid adm bid s = Inr s' \<Longrightarrow> asked s' = asked s"
  by (auto simp: softDeleteBranchCore_def)

lemma requestBranchClose_asked: "requestBranchClose adm bid aid reason s = Inr s' \<Longrightarrow> asked s' = asked s"
  by (auto simp: requestBranchClose_def dest!: asked_queue)

lemma withdrawBranchClose_asked: "withdrawBranchClose adm bid s = Inr s' \<Longrightarrow> asked s' \<subseteq> asked s"
  by (auto simp: withdrawBranchClose_def)

lemma setBranchPin_asked: "setBranchPin x adm bid pin s = Inr s' \<Longrightarrow> asked s' = asked s"
  by (auto simp: setBranchPin_def)

lemma approve_asked:
  "approve_create now i adm bid s = Inr (b, s') \<Longrightarrow> asked s' \<subseteq> asked s"
  "approve_close now i adm bid s = Inr (b, s') \<Longrightarrow> asked s' \<subseteq> asked s"
  by (auto simp: approve_create_def approve_close_def split: if_splits)

lemma approveBranchLifecycle_asked:
  assumes "approveBranchLifecycle now i adm s = Inr (b, s')"
  shows "asked s' \<subseteq> asked s"
proof -
  obtain a :: approval and k where "(if ap_status a \<noteq> A_PENDING then returns (True, s)
     else case k of Create \<Rightarrow> approve_create now i adm (ap_referenceId a) s
                  | Close \<Rightarrow> approve_close now i adm (ap_referenceId a) s) = Inr (b, s')"
    using assms by (auto simp: approveBranchLifecycle_def lifecycle_approval_def)
  then show ?thesis by (cases k; cases "ap_status a = A_PENDING") (simp_all add: approve_asked)
qed

lemma rejectBranchLifecycle_asked:
  assumes "rejectBranchLifecycle now i adm reason s = Inr s'"
  shows "asked s' \<subseteq> asked s"
proof -
  obtain a :: approval and k where "s' = (case k of
         Create \<Rightarrow> log_event (ap_referenceId a) ''BRANCH_CREATE_CHANGES_REQUESTED'' adm
                    (change_approval i (decided now adm A_CHANGES_REQUESTED (Some reason)) s)
       | Close \<Rightarrow> log_event (ap_referenceId a) ''BRANCH_CLOSE_REJECTED'' adm
                   (change_approval i (decided now adm A_REJECTED (Some reason))
                     (map_row (ap_referenceId a) reopen_row s)))"
    using assms by (auto simp: rejectBranchLifecycle_def lifecycle_approval_def Let_def)
  then show ?thesis by (cases k) auto
qed

lemma confirmBranchLocation_asked:
  assumes "confirmBranchLocation x adm bid pin s = Inr s'"
  shows "asked s' = asked s"
proof -
  obtain b s1 where "update_columns x bid b s = Inr s1" "s' = log_event bid ''BRANCH_LOCATION_CONFIRMED'' adm s1"
    using assms unfolding confirmBranchLocation_def andThen_Inr found_Inr sum.inject by blast
  then show ?thesis by (simp add: asked_update)
qed

lemma apply_branch_edit_asked:
  assumes "apply_branch_edit x pid e s = Inr s'"
  shows "asked s' = asked s"
proof -
  obtain s1 where s1: "(if edit_columns x (be_proposedChanges e) = [] then returns s
      else update_columns x (be_branchId e) (edit_columns x (be_proposedChanges e)) s) = Inr s1"
    and s': "s' = (if be_includesPhotos e
               then (case parsePhotoChanges (be_proposedChanges e) of (add, remove) \<Rightarrow>
                       remove_photos (be_branchId e) remove (add_photos pid (be_branchId e) add s1)) else s1)"
    using assms unfolding apply_branch_edit_def Let_def andThen_Inr found_Inr sum.inject by blast
  have "asked s1 = asked s" using s1 by (auto dest!: asked_update split: if_splits)
  then show ?thesis unfolding s' by (simp split: prod.splits)
qed

lemma approveBranchEdit_asked:
  assumes "approveBranchEdit x now pid i adm s = Inr s'"
  shows "asked s' \<subseteq> asked s"
proof -
  obtain e :: branch_edit and s1 where e: "apply_branch_edit x pid e s = Inr s1"
    and s': "s' = log_event (be_branchId e) ''BRANCH_EDIT_APPROVED'' adm
       (change_approval i (decided now adm A_APPROVED None)
         (change_edit (be_id e) (\<lambda>e. e\<lparr>be_status := A_APPROVED, be_reviewedBy := Some adm\<rparr>) s1))"
    using assms unfolding approveBranchEdit_def andThen_Inr sum.inject by blast
  show ?thesis
    unfolding s' asked_same by (rule subset_trans[OF asked_decided]) (simp_all add: apply_branch_edit_asked[OF e])
qed

lemma rejectBranchEdit_asked: "rejectBranchEdit now i adm reason s = Inr s' \<Longrightarrow> asked s' \<subseteq> asked s"
  by (auto simp: rejectBranchEdit_def)

lemma adminCreateBranch_asked: "adminCreateBranch x now mid adm bid aid data s = Inr s' \<Longrightarrow> asked s' \<subseteq> insert bid (asked s)"
  by (auto simp: adminCreateBranch_def dest: createBranchCore_asked)

lemma createBranch_asked: "createBranch x now adm bid aid g data s = Inr s' \<Longrightarrow> asked s' \<subseteq> insert bid (asked s)"
  by (auto simp: createBranch_def dest: createBranchCore_asked)

lemma admin_asked:
  "adminUpdateBranch x adm bid data s = Inr s' \<Longrightarrow> asked s' = asked s"
  "adminDeleteBranch now adm bid s = Inr s' \<Longrightarrow> asked s' = asked s"
  "softDeleteBranch now adm bid s = Inr s' \<Longrightarrow> asked s' = asked s"
  by (auto simp: adminUpdateBranch_def adminDeleteBranch_def softDeleteBranch_def
      dest: updateBranchDirectCore_asked softDeleteBranchCore_asked)

text \<open>The branch a request makes, if it makes one.\<close>

definition made :: "branch_request \<Rightarrow> ident set" where
  "made q = (case q of NewBranch adm bid aid g data \<Rightarrow> {bid} | AdminCreate mid adm bid aid data \<Rightarrow> {bid} | _ \<Rightarrow> {})"

lemma after_asked:
  assumes "\<And>s'. r = Inr s' \<Longrightarrow> asked s' \<subseteq> B" "asked s \<subseteq> B"
  shows "asked (after s r) \<subseteq> B"
  using assms by (cases r) (auto simp: after_def)

lemmas asked_unchanged =
  dropBranchPin_asked updateBranch_asked createBranchEditRequest_asked createBranchPhotoEditRequest_asked
  removeBranchPhoto_asked setRedemptionAlerts_asked requestBranchClose_asked setBranchPin_asked
  confirmBranchLocation_asked admin_asked

lemmas asked_shrinks =
  cancelPendingCreate_asked withdrawBranchEditRequest_asked withdrawBranchClose_asked rejectBranchLifecycle_asked
  approveBranchEdit_asked rejectBranchEdit_asked asked_unchanged[THEN equalityD1]

lemma serve_branch_asked: "asked (serve_branch x am pid now q s) \<subseteq> made q \<union> asked s"
proof (cases q)
  case (NewBranch adm bid aid g data)
  show ?thesis
    unfolding NewBranch made_def serve_branch.simps branch_request.case
    by (rule after_asked) (auto dest: createBranch_asked)
next
  case (AdminCreate mid adm bid aid data)
  show ?thesis
    unfolding AdminCreate made_def serve_branch.simps branch_request.case
    by (rule after_asked) (auto dest: adminCreateBranch_asked)
next
  case (ApproveLifecycle i adm)
  show ?thesis
    unfolding ApproveLifecycle made_def serve_branch.simps branch_request.case
    by (rule after_asked) (auto dest: approveBranchLifecycle_asked)
next
  case (SetAmenities adm bid ids)
  then show ?thesis by (simp add: made_def setAmenities_asked)
qed (simp only: made_def branch_request.case Un_empty_left serve_branch.simps,
     rule after_asked[OF _ subset_refl], erule asked_shrinks)+


section \<open>A branch nobody asks for\<close>

definition cancels :: "ident \<Rightarrow> branch_request \<Rightarrow> bool" where
  "cancels bid q \<longleftrightarrow> (case q of CancelBranch adm i \<Rightarrow> i = bid | _ \<Rightarrow> False)"

definition waits :: "ident \<Rightarrow> estate \<Rightarrow> bool" where
  "waits bid s \<longleftrightarrow> list_ex (\<lambda>r. br_id r = bid \<and> b_lifecycleStatus r = PENDING_CREATE) (e_rows s) \<and>
     \<not> list_ex (\<lambda>a. awaits BRANCH_CREATE a \<and> ap_referenceId a = bid) (e_approvals s)"

lemma waits_asked: "waits bid s \<longleftrightarrow> (\<exists>r\<in>set (e_rows s). br_id r = bid \<and> b_lifecycleStatus r = PENDING_CREATE) \<and> bid \<notin> asked s"
  by (auto simp: waits_def mem_asked list_ex_iff)

lemma deeds_Cancelled: "Cancelled b \<in> insert Kept (deeds_of q) \<Longrightarrow> cancels b q"
  by (cases q) (auto simp: cancels_def split: if_splits)

lemma move_survives:
  assumes "move x live a rows rows'" "r \<in> set rows" "a \<noteq> Cancelled (br_id r)"
  shows "br_id r \<in> br_id ` set rows'"
proof -
  have keys: "br_id r \<in> br_id ` set rows'" if "map br_id rows' = map br_id rows" for rows' :: "branch_row list"
    using assms(2) that by (metis image_eqI list.set_map)
  show ?thesis using assms(1) by cases (use assms(2,3) keys in \<open>auto simp: image_iff\<close>)
qed

lemma created_fresh: "move x live (Created bid) rows rows' \<Longrightarrow> bid \<notin> br_id ` set rows"
  by (erule move.cases) auto

lemma make_refused:
  assumes ok: "estate_ok x s" and m: "bid \<in> made q" and old: "bid \<in> br_id ` set (e_rows s)"
  shows "serve_branch x am pid now q s = s"
proof -
  have no: "\<not> moves x {Created bid} s s'" for s'
    using created_fresh old unfolding moves_def by blast
  show ?thesis
  proof (cases q)
    case (NewBranch adm b aid g data)
    then show ?thesis
      using no createBranch_moves[OF ok, of now adm b aid g data] m
      by (cases "createBranch x now adm b aid g data s") (auto simp: made_def after_def)
  next
    case (AdminCreate mid adm b aid data)
    then show ?thesis
      using no adminCreateBranch_moves[OF ok, of now mid adm b aid data] m
      by (cases "adminCreateBranch x now mid adm b aid data s") (auto simp: made_def after_def)
  qed (use m in \<open>simp_all add: made_def\<close>)
qed

lemma waits_served:
  assumes ok: "estate_ok x s" and w: "waits bid s" and c: "\<not> cancels bid q"
  shows "waits bid (serve_branch x am pid now q s)"
proof -
  let ?s' = "serve_branch x am pid now q s"
  obtain r where r: "r \<in> set (e_rows s)" "br_id r = bid" "b_lifecycleStatus r = PENDING_CREATE" and na: "bid \<notin> asked s"
    using w by (auto simp: waits_asked)
  obtain a where a: "a \<in> insert Kept (deeds_of q)" and "estate_ok x ?s'" "e_db ?s' = e_db s"
    and mv: "move x (merchant_active s) a (e_rows s) (e_rows ?s')"
    by (rule served[OF ok])
  have "a \<noteq> Cancelled (br_id r)" using a c r(2) deeds_Cancelled by blast
  then obtain r' where r': "r' \<in> set (e_rows ?s')" "br_id r' = br_id r" using move_survives[OF mv r(1)] by auto
  have "b_lifecycleStatus r' = PENDING_CREATE"
  proof (rule ccontr)
    assume "b_lifecycleStatus r' \<noteq> PENDING_CREATE"
    from opened_by_review[OF ok r(1,3) r' this] show False
      using na r(2) by (auto simp: mem_asked dest: queued_approval)
  qed
  moreover have "bid \<notin> asked ?s'"
  proof
    assume "bid \<in> asked ?s'"
    then have m: "bid \<in> made q" using serve_branch_asked na by blast
    have "?s' = s" using r(1,2) by (intro make_refused[OF ok m]) auto
    then show False using \<open>bid \<in> asked ?s'\<close> na by simp
  qed
  ultimately show ?thesis using r' r(2) by (auto simp: waits_asked)
qed

text \<open>C27: A branch whose request to be created has been answered is stuck: no history of requests makes it anything but a
  branch that awaits approval, unless it is cancelled, and nothing asks for it again.\<close>

theorem answered_branch_stays_pending:
  assumes "estate_ok x s" "waits bid s" "list_all (\<lambda>(now, pid, q). \<not> cancels bid q) h"
  shows "waits bid (run_branch x am h s)"
  using assms
proof (induction h arbitrary: s)
  case (Cons c h)
  obtain now pid q where c: "c = (now, pid, q)" by (cases c) auto
  have "estate_ok x (serve_branch x am pid now q s)" by (rule served[OF Cons.prems(1)])
  with Cons c waits_served[OF Cons.prems(1,2)] show ?case by simp
qed simp

definition rejected_estate :: estate where
  "rejected_estate = sample_serve (RejectLifecycle ''ap'' ''adm'' ''photos'') staged_estate"

theorem answered_branch_stays_pending_witness:
  "waits ''p'' (run_branch sample_outside (\<lambda>_. True) [(3, \<lambda>_. ''ph'', ApproveLifecycle ''ap'' ''adm'')] rejected_estate)"
proof (rule answered_branch_stays_pending)
  show "estate_ok sample_outside rejected_estate"
    unfolding rejected_estate_def sample_serve_def by (rule served[OF staged_estate_ok])
  show "waits ''p'' rejected_estate" by code_simp
qed (simp add: cancels_def)

end
