(* ===== verification/Settings.thy ===== *)
theory Settings
  imports Stuck
begin

text \<open>
  The PIN of a branch read back by its manager and by the redemption, the amenities of a branch, and the distance the trust
  in a location rests on.
\<close>

section \<open>The PIN\<close>

lemma find_map_row:
  assumes "\<And>r. P (f r) = P r"
  shows "List.find (\<lambda>r. br_id r = bid \<and> P r) (map (\<lambda>r. if br_id r = bid then f r else r) rows) =
    (if (\<forall>r. br_id (f r) = br_id r) then map_option f (List.find (\<lambda>r. br_id r = bid \<and> P r) rows)
     else List.find (\<lambda>r. br_id r = bid \<and> P r) (map (\<lambda>r. if br_id r = bid then f r else r) rows))"
  using assms by (induction rows) auto

lemma own_branch_map_row:
  assumes "\<And>r. br_id (f r) = br_id r" "\<And>r. b_merchantId (f r) = b_merchantId r" "\<And>r. br_deletedAt (f r) = br_deletedAt r"
  shows "own_branch (map_row bid f s) bid mid = map_option f (own_branch s bid mid)"
  using assms find_map_row[of "\<lambda>r. b_merchantId r = mid \<and> br_deletedAt r = None" f bid "e_rows s"]
  by (simp add: own_branch_def map_row_def)

lemma row_by_id_map_row:
  assumes "\<And>r. br_id (f r) = br_id r"
  shows "row_by_id (map_row bid f s) bid = map_option f (row_by_id s bid)"
  using assms find_map_row[of "\<lambda>_. True" f bid "e_rows s"] by (simp add: row_by_id_def map_row_def)

text \<open>C29: A PIN that was set is the one the branch's manager reads back, and the one redemptions at the branch check against,
  when the cipher gives back what it was given.\<close>

theorem branch_pin_roundtrip:
  assumes cipher: "o_decrypt x (o_encrypt x pin) = Inr pin" "o_encrypt x pin \<noteq> ''''"
    and run: "setBranchPin x adm bid pin s = Inr s'"
  shows "getBranchPin x adm bid s' = Inr (Some pin) \<and> branch_secret (o_decrypt x) (store_view s') bid pin"
proof -
  let ?f = "\<lambda>r::branch_row. r\<lparr>b_redemptionPin := Some (o_encrypt x pin)\<rparr>"
  obtain mctx r where m: "resolveMerchantContext (e_db s) adm = Inr mctx" "assertCanManageBranch mctx bid = Inr ()"
    and own: "own_branch s bid (mc_merchantId mctx) = Some r" and fmt: "pin_format pin"
    and s': "s' = log_event (mc_merchantId mctx) ''BRANCH_PIN_CHANGED'' '''' (map_row bid ?f s)"
    using run by (auto simp: setBranchPin_def)
  have db: "e_db s' = e_db s" by (simp add: s' map_row_def)
  have "own_branch s' bid (mc_merchantId mctx) = own_branch (map_row bid ?f s) bid (mc_merchantId mctx)"
    by (simp add: s' own_branch_def)
  also have "\<dots> = map_option ?f (own_branch s bid (mc_merchantId mctx))"
    by (rule own_branch_map_row) simp_all
  finally have "own_branch s' bid (mc_merchantId mctx) = Some (?f r)" using own by simp
  then have "getBranchPin x adm bid s' = Inr (Some pin)"
    using m cipher by (simp add: getBranchPin_def db)
  moreover have "row_by_id s' bid = map_option ?f (row_by_id s bid)"
    using row_by_id_map_row[of ?f bid s] by (simp add: s' row_by_id_def)
  then have "branch_secret (o_decrypt x) (store_view s') bid pin"
    using fmt cipher by (auto simp: branch_secret_def store_view_def branch.defs)
  ultimately show ?thesis ..
qed

theorem branch_pin_roundtrip_witness:
  "getBranchPin sample_outside ''a'' ''b'' (sample_serve (SetPin ''a'' ''b'' ''1234'') (sample_estate M_ACTIVE)) =
     Inr (Some ''1234'')"
proof -
  have "\<exists>s'. setBranchPin sample_outside ''a'' ''b'' ''1234'' (sample_estate M_ACTIVE) = Inr s'"
  proof -
    have "(case setBranchPin sample_outside ''a'' ''b'' ''1234'' (sample_estate M_ACTIVE) of Inl _ \<Rightarrow> False | Inr _ \<Rightarrow> True)"
      by code_simp
    then show ?thesis by (auto split: sum.splits)
  qed
  then obtain s' where s': "setBranchPin sample_outside ''a'' ''b'' ''1234'' (sample_estate M_ACTIVE) = Inr s'" ..
  have "getBranchPin sample_outside ''a'' ''b'' s' = Inr (Some ''1234'')"
    using branch_pin_roundtrip[OF _ _ s'] by (simp add: sample_outside_def)
  then show ?thesis using s' by (simp add: sample_serve_def after_def)
qed

section \<open>Amenities\<close>

text \<open>Setting amenities with a repeated or unknown one fails and leaves the branch with none: the old ones are deleted
  before the new ones are refused, outside any transaction. Other branches keep theirs.\<close>

theorem refused_amenities_lost:
  assumes "resolveMerchantContext (e_db s) adm = Inr mctx" "assertCanManageBranch mctx bid = Inr ()"
    and "own_branch s bid (mc_merchantId mctx) = Some r" and "\<not> (distinct ids \<and> list_all am ids)"
  shows "\<exists>e. setAmenities am adm bid ids s = (Inl e, s\<lparr>e_amenities := filter (\<lambda>a. fst a \<noteq> bid) (e_amenities s)\<rparr>)"
  using assms by (auto simp: setAmenities_def found_def Let_def)

theorem refused_amenities_lost_witness:
  "\<exists>e. setAmenities (\<lambda>_. False) ''a'' ''b'' [''x''] ((sample_estate M_ACTIVE)\<lparr>e_amenities := [(''b'', ''w'')]\<rparr>) =
     (Inl e, sample_estate M_ACTIVE)"
proof -
  let ?s = "(sample_estate M_ACTIVE)\<lparr>e_amenities := [(''b'', ''w'')]\<rparr>"
  have "(case resolveMerchantContext (e_db ?s) ''a'' of Inl _ \<Rightarrow> False
      | Inr c \<Rightarrow> mc_role c = OWNER \<and> mc_merchantId c = ''m'')" by code_simp
  then obtain c where c: "resolveMerchantContext (e_db ?s) ''a'' = Inr c" "mc_role c = OWNER" "mc_merchantId c = ''m''"
    by (auto split: sum.splits)
  have "own_branch ?s ''b'' (mc_merchantId c) = Some sample_branch_row"
    by (simp add: c own_branch_def sample_estate_def sample_branch_row_def blank_row_def)
  from refused_amenities_lost[OF c(1) _ this, of "[''x'']" "\<lambda>_. False"] c(2) show ?thesis
    by (simp add: assertCanManageBranch_def canManageBranchPredicate_def sample_estate_def)
qed

section \<open>Distances\<close>

text \<open>Between real latitudes the haversine formula takes roots of non-negative numbers only, so the comparison with the
  trust radius never meets a \<open>NaN\<close>; the distance is symmetric, zero on the spot and at most half the circumference.\<close>

theorem distance_is_bounded:
  assumes "\<bar>lat1\<bar> \<le> 90" "\<bar>lat2\<bar> \<le> 90"
  shows "0 \<le> haversine_a lat1 lng1 lat2 lng2 \<and> haversine_a lat1 lng1 lat2 lng2 \<le> 1 \<and>
    0 \<le> haversineMetres lat1 lng1 lat2 lng2 \<and> haversineMetres lat1 lng1 lat2 lng2 \<le> pi * EARTH_RADIUS_M \<and>
    haversineMetres lat2 lng2 lat1 lng1 = haversineMetres lat1 lng1 lat2 lng2 \<and> haversineMetres lat1 lng1 lat1 lng1 = 0"
  using haversine_a_range[OF assms] haversine_range[OF assms] haversine_sym by simp

theorem distance_is_bounded_witness: "haversineMetres 51 0 52 1 \<le> pi * EARTH_RADIUS_M"
  using distance_is_bounded[of 51 52 0 1] by simp

end
