(* ===== verification/Staff.thy ===== *)
theory Staff
  imports Auth Verify Catalogue
begin

text \<open>
  \<open>src/api/merchant/staff/service.ts\<close> and its routes: owners invite people to the merchant portal, change
  their access, deactivate, reactivate and remove them; with the claim links of \<open>auth/merchant/service.ts\<close>
  by which an invited person sets a password.

  \<open>view\<close> is the part of the tables that the resolvers of \<open>Membership\<close> read, so a handler's answer is
  computed from the state it runs in. Parameters: \<open>parse_email\<close> (the e-mail schema of zod: the normalised
  address, or nothing where the text is refused), \<open>hash_pw\<close> (bcrypt), \<open>email_on\<close> (\<open>isEmailEnabled()\<close>), and
  the identifiers and tokens the code draws at random. The delivery of the claim link is an external
  service whose failure is swallowed.
\<close>

section \<open>State\<close>

record team_member =
  tm_id :: ident
  tm_merchantId :: ident
  tm_adminId :: ident
  tm_role :: merchant_role
  tm_status :: user_status
  tm_allBranches :: bool
  tm_canManageVouchers :: bool
  tm_invitedById :: "ident option"

record admin_row =
  aw_id :: ident
  aw_email :: string
  aw_firstName :: string
  aw_lastName :: string
  aw_jobTitle :: "string option"
  aw_passwordHash :: "string option"
  aw_emailVerified :: bool
  aw_mustChangePassword :: bool
  aw_otpVerifiedAt :: "time option"
  aw_lastLoginAt :: "time option"

record roster =
  ro_db :: db                             \<comment> \<open>merchants and branches\<close>
  ro_members :: "team_member list"        \<comment> \<open>in order of \<open>createdAt\<close>\<close>
  ro_scopes :: "(ident \<times> ident) list"     \<comment> \<open>\<open>MerchantMembershipBranch\<close>: membership, branch\<close>
  ro_admins :: "admin_row list"
  ro_sessions :: sessions
  ro_claims :: "string expiring"          \<comment> \<open>\<open>merchant-claim:*\<close>, \<open>merchant-claim-current:*\<close>\<close>
  ro_audit :: "(ident \<times> string \<times> ident) list"

definition scope_of :: "roster \<Rightarrow> ident \<Rightarrow> ident list" where
  "scope_of s mid = map snd (filter (\<lambda>r. fst r = mid) (ro_scopes s))"

definition as_membership :: "roster \<Rightarrow> team_member \<Rightarrow> membership" where
  "as_membership s m = \<lparr>mm_id = tm_id m, mm_merchantId = tm_merchantId m, mm_merchantAdminId = tm_adminId m,
     mm_active = (tm_status m = U_ACTIVE), mm_role = tm_role m, mm_allBranches = tm_allBranches m,
     mm_canManageVouchers = tm_canManageVouchers m, mm_branches = scope_of s (tm_id m)\<rparr>"

definition view :: "roster \<Rightarrow> db" where
  "view s = (ro_db s)\<lparr>memberships := map (as_membership s) (ro_members s)\<rparr>"

section \<open>Requests\<close>

definition SPECIFIC_BRANCHES_ENABLED :: bool where "SPECIFIC_BRANCHES_ENABLED = True"

record access_body =
  ab_role :: merchant_role
  ab_allBranches :: bool
  ab_branchIds :: "ident list option"
  ab_canManageVouchers :: "bool option"

record invite_body = access_body +
  ib_email :: string
  ib_firstName :: string
  ib_lastName :: string
  ib_jobTitle :: "string option"

text \<open>The refinement that both bodies carry.\<close>

definition scope_issue :: "'a access_body_scheme \<Rightarrow> bool" where
  "scope_issue b \<longleftrightarrow> \<not> ab_allBranches b \<and>
     (\<not> SPECIFIC_BRANCHES_ENABLED \<or> ab_branchIds b = None \<or> ab_branchIds b = Some [])"

definition updateBodySchema :: "access_body \<Rightarrow> access_body result" where
  "updateBodySchema b = (if scope_issue b then throw (MEMBER VALIDATION_ERROR) else returns b)"

definition text_between :: "nat \<Rightarrow> nat \<Rightarrow> string \<Rightarrow> bool" where
  "text_between a b t \<longleftrightarrow> a \<le> length t \<and> length t \<le> b"

definition inviteBodySchema :: "(string \<Rightarrow> string option) \<Rightarrow> invite_body \<Rightarrow> invite_body result" where
  "inviteBodySchema parse_email b =
     (case parse_email (ib_email b) of
        None \<Rightarrow> throw (MEMBER VALIDATION_ERROR)
      | Some email \<Rightarrow>
        if \<not> text_between 1 100 (ib_firstName b) \<or> \<not> text_between 1 100 (ib_lastName b) \<or>
           \<not> (case ib_jobTitle b of None \<Rightarrow> True | Some t \<Rightarrow> text_between 0 100 t) \<or> scope_issue b
        then throw (MEMBER VALIDATION_ERROR) else returns (b\<lparr>ib_email := email\<rparr>))"

definition assertRoleElevationAllowed :: "merchant_context \<Rightarrow> 'a access_body_scheme \<Rightarrow> unit result" where
  "assertRoleElevationAllowed ctx target =
     (let wantsOwner = (ab_role target = OWNER);
          wantsManageVouchers = (ab_canManageVouchers target = Some True)
      in if (wantsOwner \<or> wantsManageVouchers) \<and> mc_role ctx \<noteq> OWNER then throw INSUFFICIENT_PERMISSIONS
         else if ab_role target = STAFF \<and> wantsManageVouchers then throw INSUFFICIENT_PERMISSIONS
         else returns ())"

definition wantBranchIds :: "'a access_body_scheme \<Rightarrow> ident list" where
  "wantBranchIds b =
     (case ab_branchIds b of Some ids \<Rightarrow> if ab_allBranches b then [] else js_set ids | None \<Rightarrow> [])"

definition assertBranchesOwned :: "db \<Rightarrow> ident \<Rightarrow> ident list \<Rightarrow> unit result" where
  "assertBranchesOwned d merchantId want =
     (if want \<noteq> [] \<and> length (filter (\<lambda>b. case branches d b of None \<Rightarrow> False
                                        | Some r \<Rightarrow> b_merchantId r = merchantId) want) \<noteq> length want
      then throw (MEMBER BRANCH_NOT_OWNED) else returns ())"

definition grantCanManageVouchers :: "'a access_body_scheme \<Rightarrow> bool" where
  "grantCanManageVouchers b \<longleftrightarrow> ab_role b = BRANCH_MANAGER \<and> ab_canManageVouchers b = Some True"

definition resolveCallerMerchant :: "roster \<Rightarrow> ident \<Rightarrow> ident result" where
  "resolveCallerMerchant s adminId = andThen (resolveAdminMerchant (view s) adminId) (\<lambda>r. returns (snd r))"

section \<open>Writes\<close>

definition update_member :: "ident \<Rightarrow> (team_member \<Rightarrow> team_member) \<Rightarrow> roster \<Rightarrow> roster" where
  "update_member mid f s = s\<lparr>ro_members := map (\<lambda>m. if tm_id m = mid then f m else m) (ro_members s)\<rparr>"

definition clear_scope :: "ident \<Rightarrow> roster \<Rightarrow> roster" where
  "clear_scope mid s = s\<lparr>ro_scopes := filter (\<lambda>r. fst r \<noteq> mid) (ro_scopes s)\<rparr>"

definition add_scope :: "ident \<Rightarrow> ident list \<Rightarrow> roster \<Rightarrow> roster" where
  "add_scope mid want s = s\<lparr>ro_scopes := ro_scopes s @ map (\<lambda>b. (mid, b)) want\<rparr>"

definition audit_staff :: "ident \<Rightarrow> string \<Rightarrow> ident \<Rightarrow> roster \<Rightarrow> roster" where
  "audit_staff mid event actor s = s\<lparr>ro_audit := ro_audit s @ [(mid, event, actor)]\<rparr>"

text \<open>What a member may do, as the re-invitation and the change of access write it.\<close>

definition set_access :: "'a access_body_scheme \<Rightarrow> team_member \<Rightarrow> team_member" where
  "set_access b m = m\<lparr>tm_role := ab_role b, tm_allBranches := ab_allBranches b,
     tm_canManageVouchers := grantCanManageVouchers b\<rparr>"

section \<open>Claim links\<close>

definition CLAIM_TTL :: int where "CLAIM_TTL = 7 * 24 * 3600"

definition merchantClaim :: "string \<Rightarrow> key" where "merchantClaim token = ''merchant-claim:'' @ token"

definition merchantClaimCurrent :: "ident \<Rightarrow> key" where
  "merchantClaimCurrent adminId = ''merchant-claim-current:'' @ adminId"

definition issueMerchantClaim :: "time \<Rightarrow> ident \<Rightarrow> string \<Rightarrow> string expiring \<Rightarrow> string expiring" where
  "issueMerchantClaim now adminId token c =
     (let c1 = (case GETX now c (merchantClaimCurrent adminId) of
                  None \<Rightarrow> c
                | Some priorToken \<Rightarrow> if priorToken = '''' then c else DELX [merchantClaim priorToken] c)
      in SETX now (merchantClaimCurrent adminId) token CLAIM_TTL
           (SETX now (merchantClaim token) adminId CLAIM_TTL c1))"

definition update_admin :: "ident \<Rightarrow> (admin_row \<Rightarrow> admin_row) \<Rightarrow> roster \<Rightarrow> roster" where
  "update_admin aid f s = s\<lparr>ro_admins := map (\<lambda>a. if aw_id a = aid then f a else a) (ro_admins s)\<rparr>"

definition claimMerchantAccount ::
  "(string \<Rightarrow> string) \<Rightarrow> time \<Rightarrow> string \<Rightarrow> string \<Rightarrow> roster \<Rightarrow> unit result \<times> roster" where
  "claimMerchantAccount hash_pw now token newPassword s =
     (if \<not> validatePasswordPolicy newPassword then (throw (AUTH PASSWORD_POLICY_VIOLATION), s)
      else (case GETX now (ro_claims s) (merchantClaim token) of
              None \<Rightarrow> (throw (MEMBER CLAIM_TOKEN_EXPIRED), s)
            | Some adminId \<Rightarrow>
              if adminId = '''' then (throw (MEMBER CLAIM_TOKEN_EXPIRED), s)
              else if \<not> list_ex (\<lambda>a. aw_id a = adminId) (ro_admins s) then (throw (UNHANDLED RuntimeError), s)
              else
                (let s1 = update_admin adminId (\<lambda>a. a\<lparr>aw_passwordHash := Some (hash_pw newPassword),
                            aw_mustChangePassword := False, aw_otpVerifiedAt := Some now, aw_emailVerified := True\<rparr>) s;
                     s2 = s1\<lparr>ro_claims := DELX [merchantClaimCurrent adminId] (DELX [merchantClaim token] (ro_claims s1))\<rparr>
                 in (returns (), audit_staff adminId ''MERCHANT_CLAIM_COMPLETED'' adminId s2))))"

section \<open>Listing and inviting\<close>

record member_row =
  mr_id :: ident
  mr_name :: string
  mr_email :: string
  mr_role :: merchant_role
  mr_status :: user_status
  mr_canManageVouchers :: bool
  mr_allBranches :: bool
  mr_branchIds :: "ident list"
  mr_claimed :: bool
  mr_lastLoginAt :: "time option"
  mr_jobTitle :: "string option"

definition admin_by_id :: "roster \<Rightarrow> ident \<Rightarrow> admin_row option" where
  "admin_by_id s aid = List.find (\<lambda>a. aw_id a = aid) (ro_admins s)"

definition admin_by_email :: "roster \<Rightarrow> string \<Rightarrow> admin_row option" where
  "admin_by_email s email = List.find (\<lambda>a. aw_email a = email) (ro_admins s)"

definition member_row_of :: "roster \<Rightarrow> team_member \<Rightarrow> admin_row \<Rightarrow> member_row" where
  "member_row_of s r a =
     \<lparr>mr_id = tm_id r, mr_name = js_trim (aw_firstName a @ '' '' @ aw_lastName a), mr_email = aw_email a,
      mr_role = tm_role r, mr_status = tm_status r, mr_canManageVouchers = tm_canManageVouchers r,
      mr_allBranches = tm_allBranches r, mr_branchIds = scope_of s (tm_id r),
      mr_claimed = (aw_passwordHash a \<noteq> None), mr_lastLoginAt = aw_lastLoginAt a, mr_jobTitle = aw_jobTitle a\<rparr>"

definition listMembers :: "roster \<Rightarrow> ident \<Rightarrow> member_row list result" where
  "listMembers s adminId =
     andThen (resolveCallerMerchant s adminId) (\<lambda>merchantId.
       returns (List.map_filter (\<lambda>r. map_option (member_row_of s r) (admin_by_id s (tm_adminId r)))
         (filter (\<lambda>r. tm_merchantId r = merchantId \<and> tm_status r \<noteq> U_DELETED) (ro_members s))))"

datatype delivery = EMAIL_DARK | EMAIL_QUEUED

record drawn =
  dr_adminId :: ident
  dr_memberId :: ident
  dr_token :: string

definition delivery_of :: "bool \<Rightarrow> delivery" where
  "delivery_of email_on = (if email_on then EMAIL_QUEUED else EMAIL_DARK)"

definition issue :: "time \<Rightarrow> ident \<Rightarrow> string \<Rightarrow> roster \<Rightarrow> roster" where
  "issue now aid token s = s\<lparr>ro_claims := issueMerchantClaim now aid token (ro_claims s)\<rparr>"

definition reinvite :: "time \<Rightarrow> ident \<Rightarrow> invite_body \<Rightarrow> string \<Rightarrow> ident \<Rightarrow> ident \<Rightarrow> roster \<Rightarrow> roster" where
  "reinvite now adminId b token aid mid s =
     issue now aid token (audit_staff mid ''MEMBER_INVITED'' adminId (add_scope mid (wantBranchIds b) (clear_scope mid
       (update_member mid (\<lambda>m. (set_access b m)\<lparr>tm_status := U_ACTIVE, tm_invitedById := Some adminId\<rparr>) s))))"

definition new_admin :: "ident \<Rightarrow> invite_body \<Rightarrow> admin_row" where
  "new_admin aid b = \<lparr>aw_id = aid, aw_email = ib_email b, aw_firstName = ib_firstName b, aw_lastName = ib_lastName b,
     aw_jobTitle = ib_jobTitle b, aw_passwordHash = None, aw_emailVerified = False, aw_mustChangePassword = False,
     aw_otpVerifiedAt = None, aw_lastLoginAt = None\<rparr>"

definition new_member :: "ident \<Rightarrow> ident \<Rightarrow> ident \<Rightarrow> ident \<Rightarrow> invite_body \<Rightarrow> team_member" where
  "new_member mid merchantId aid adminId b = \<lparr>tm_id = mid, tm_merchantId = merchantId, tm_adminId = aid,
     tm_role = ab_role b, tm_status = U_ACTIVE, tm_allBranches = ab_allBranches b,
     tm_canManageVouchers = grantCanManageVouchers b, tm_invitedById = Some adminId\<rparr>"

definition invite_fresh :: "time \<Rightarrow> ident \<Rightarrow> ident \<Rightarrow> invite_body \<Rightarrow> drawn \<Rightarrow> roster \<Rightarrow> roster" where
  "invite_fresh now adminId merchantId b dr s =
     (let s1 = s\<lparr>ro_admins := ro_admins s @ [new_admin (dr_adminId dr) b]\<rparr>;
          s2 = s1\<lparr>ro_members := ro_members s1 @ [new_member (dr_memberId dr) merchantId (dr_adminId dr) adminId b]\<rparr>
      in issue now (dr_adminId dr) (dr_token dr) (audit_staff (dr_memberId dr) ''MEMBER_INVITED'' adminId
           (add_scope (dr_memberId dr) (wantBranchIds b) s2)))"

definition inviteMember ::
  "(string \<Rightarrow> string option) \<Rightarrow> bool \<Rightarrow> time \<Rightarrow> ident \<Rightarrow> merchant_context \<Rightarrow> invite_body \<Rightarrow> drawn \<Rightarrow> roster
     \<Rightarrow> ((ident \<times> delivery) \<times> roster) result" where
  "inviteMember parse_email email_on now adminId ctx body dr s =
     andThen (resolveCallerMerchant s adminId) (\<lambda>merchantId.
     andThen (inviteBodySchema parse_email body) (\<lambda>parsed.
     andThen (assertRoleElevationAllowed ctx parsed) (\<lambda>_.
     andThen (assertBranchesOwned (view s) merchantId (wantBranchIds parsed)) (\<lambda>_.
       case admin_by_email s (ib_email parsed) of
         Some existing \<Rightarrow>
           (case List.find (\<lambda>m. tm_adminId m = aw_id existing \<and> tm_merchantId m = merchantId) (ro_members s) of
              Some m \<Rightarrow>
                if tm_status m = U_DELETED
                then returns ((tm_id m, delivery_of email_on),
                              reinvite now adminId parsed (dr_token dr) (aw_id existing) (tm_id m) s)
                else throw (MEMBER EMAIL_ALREADY_EXISTS)
            | None \<Rightarrow> throw (MEMBER EMAIL_ALREADY_EXISTS))
       | None \<Rightarrow> returns ((dr_memberId dr, delivery_of email_on), invite_fresh now adminId merchantId parsed dr s)))))"

section \<open>Changing a member\<close>

definition loadTarget :: "roster \<Rightarrow> ident \<Rightarrow> ident \<Rightarrow> team_member result" where
  "loadTarget s merchantId memberId =
     (case List.find (\<lambda>m. tm_id m = memberId) (ro_members s) of
        None \<Rightarrow> throw (MEMBER MEMBER_NOT_FOUND)
      | Some m \<Rightarrow> if tm_merchantId m \<noteq> merchantId then throw (MEMBER MEMBER_NOT_FOUND) else returns m)"

text \<open>The reads of a handler are apart from its writes, because nothing locks the rows in between.\<close>

definition write_access :: "ident \<Rightarrow> access_body \<Rightarrow> team_member \<Rightarrow> roster \<Rightarrow> roster" where
  "write_access adminId b target s =
     audit_staff (tm_id target) ''MEMBER_ACCESS_UPDATED'' adminId (add_scope (tm_id target) (wantBranchIds b)
       (clear_scope (tm_id target) (update_member (tm_id target) (set_access b) s)))"

definition check_access ::
  "roster \<Rightarrow> ident \<Rightarrow> merchant_context \<Rightarrow> ident \<Rightarrow> access_body \<Rightarrow> (access_body \<times> team_member) result" where
  "check_access s adminId ctx memberId body =
     andThen (resolveCallerMerchant s adminId) (\<lambda>merchantId.
     andThen (updateBodySchema body) (\<lambda>parsed.
     andThen (assertRoleElevationAllowed ctx parsed) (\<lambda>_.
     andThen (loadTarget s merchantId memberId) (\<lambda>target.
     andThen (if tm_role target = OWNER \<and> ab_role parsed \<noteq> OWNER
              then assertNotLastOwner (view s) merchantId (tm_id target) else returns ()) (\<lambda>_.
     andThen (assertBranchesOwned (view s) merchantId (wantBranchIds parsed)) (\<lambda>_. returns (parsed, target)))))))"

definition updateMemberAccess ::
  "ident \<Rightarrow> merchant_context \<Rightarrow> ident \<Rightarrow> access_body \<Rightarrow> roster \<Rightarrow> (ident \<times> roster) result" where
  "updateMemberAccess adminId ctx memberId body s =
     andThen (check_access s adminId ctx memberId body) (\<lambda>(parsed, target).
       returns (tm_id target, write_access adminId parsed target s))"

definition revokeMemberSessions :: "time \<Rightarrow> ident \<Rightarrow> string \<Rightarrow> sessions \<Rightarrow> sessions" where
  "revokeMemberSessions now aid reason s =
     (let s1 = revokeAllUserSessionRecords now aid ''merchant'' reason None
                 (revokeAllSessionsForEntity now ''merchant'' aid s)
      in s1\<lparr>marks := DELX [auth_cache ''merchant'' aid] (marks s1)\<rparr>)"

definition end_sessions :: "time \<Rightarrow> ident \<Rightarrow> string \<Rightarrow> roster \<Rightarrow> roster" where
  "end_sessions now aid reason s = s\<lparr>ro_sessions := revokeMemberSessions now aid reason (ro_sessions s)\<rparr>"

text \<open>The checks that deactivation and removal share.\<close>

definition check_departure :: "roster \<Rightarrow> ident \<Rightarrow> ident \<Rightarrow> team_member result" where
  "check_departure s adminId memberId =
     andThen (resolveCallerMerchant s adminId) (\<lambda>merchantId.
     andThen (loadTarget s merchantId memberId) (\<lambda>target.
     andThen (if tm_role target = OWNER then assertNotLastOwner (view s) merchantId (tm_id target) else returns ())
       (\<lambda>_. returns target)))"

definition write_deactivation :: "time \<Rightarrow> ident \<Rightarrow> team_member \<Rightarrow> roster \<Rightarrow> roster" where
  "write_deactivation now adminId target s =
     end_sessions now (tm_adminId target) ''MEMBER_DEACTIVATED'' (audit_staff (tm_id target) ''MEMBER_DEACTIVATED'' adminId
       (update_member (tm_id target) (\<lambda>m. m\<lparr>tm_status := U_INACTIVE\<rparr>) s))"

definition deactivateMember :: "time \<Rightarrow> ident \<Rightarrow> ident \<Rightarrow> roster \<Rightarrow> (ident \<times> roster) result" where
  "deactivateMember now adminId memberId s =
     andThen (check_departure s adminId memberId) (\<lambda>target.
       returns (tm_id target, write_deactivation now adminId target s))"

definition reactivateMember :: "ident \<Rightarrow> ident \<Rightarrow> roster \<Rightarrow> (ident \<times> roster) result" where
  "reactivateMember adminId memberId s =
     andThen (resolveCallerMerchant s adminId) (\<lambda>merchantId.
     andThen (loadTarget s merchantId memberId) (\<lambda>target.
     andThen (guard (tm_status target = U_INACTIVE) (MEMBER MEMBER_NOT_FOUND)) (\<lambda>_.
       returns (tm_id target, audit_staff (tm_id target) ''MEMBER_REACTIVATED'' adminId
         (update_member (tm_id target) (\<lambda>m. m\<lparr>tm_status := U_ACTIVE\<rparr>) s)))))"

definition write_removal :: "time \<Rightarrow> ident \<Rightarrow> team_member \<Rightarrow> roster \<Rightarrow> roster" where
  "write_removal now adminId target s =
     end_sessions now (tm_adminId target) ''MEMBER_REMOVED'' (audit_staff (tm_id target) ''MEMBER_REMOVED'' adminId
       (clear_scope (tm_id target) (update_member (tm_id target) (\<lambda>m. m\<lparr>tm_status := U_DELETED\<rparr>) s)))"

definition removeMember :: "time \<Rightarrow> ident \<Rightarrow> ident \<Rightarrow> roster \<Rightarrow> (ident \<times> roster) result" where
  "removeMember now adminId memberId s =
     andThen (check_departure s adminId memberId) (\<lambda>target.
       returns (tm_id target, write_removal now adminId target s))"

definition resendInvite ::
  "bool \<Rightarrow> time \<Rightarrow> ident \<Rightarrow> ident \<Rightarrow> string \<Rightarrow> roster \<Rightarrow> ((ident \<times> delivery) \<times> roster) result" where
  "resendInvite email_on now adminId memberId token s =
     andThen (resolveCallerMerchant s adminId) (\<lambda>merchantId.
     andThen (loadTarget s merchantId memberId) (\<lambda>target.
     andThen (found (UNHANDLED RuntimeError) (admin_by_id s (tm_adminId target))) (\<lambda>a.
     andThen (guard (aw_passwordHash a = None) (MEMBER MEMBER_ALREADY_CLAIMED)) (\<lambda>_.
       returns ((tm_id target, delivery_of email_on),
         issue now (tm_adminId target) token (audit_staff (tm_id target) ''MEMBER_INVITE_RESENT'' adminId s))))))"

section \<open>Routes\<close>

datatype staff_request =
    ListMembers
  | Invite invite_body drawn
  | UpdateAccess ident access_body
  | Deactivate ident
  | Reinstate ident
  | Remove ident
  | Resend ident string

definition ownerCtx :: "roster \<Rightarrow> ident \<Rightarrow> merchant_context result" where
  "ownerCtx s adminId =
     andThen (resolveMerchantContext (view s) adminId) (\<lambda>ctx. andThen (assertOwner ctx) (\<lambda>_. returns ctx))"

text \<open>What the routes share: the state a request leaves, or the error it is answered with.\<close>

fun handle_staff ::
  "(string \<Rightarrow> string option) \<Rightarrow> bool \<Rightarrow> time \<Rightarrow> ident \<Rightarrow> merchant_context \<Rightarrow> staff_request \<Rightarrow> roster \<Rightarrow> roster result" where
  "handle_staff pe on now a ctx ListMembers s = andThen (listMembers s a) (\<lambda>_. returns s)"
| "handle_staff pe on now a ctx (Invite b dr) s =
     andThen (inviteMember pe on now a ctx b dr s) (\<lambda>r. returns (snd r))"
| "handle_staff pe on now a ctx (UpdateAccess m b) s = andThen (updateMemberAccess a ctx m b s) (\<lambda>r. returns (snd r))"
| "handle_staff pe on now a ctx (Deactivate m) s = andThen (deactivateMember now a m s) (\<lambda>r. returns (snd r))"
| "handle_staff pe on now a ctx (Reinstate m) s = andThen (reactivateMember a m s) (\<lambda>r. returns (snd r))"
| "handle_staff pe on now a ctx (Remove m) s = andThen (removeMember now a m s) (\<lambda>r. returns (snd r))"
| "handle_staff pe on now a ctx (Resend m t) s = andThen (resendInvite on now a m t s) (\<lambda>r. returns (snd r))"

definition staffRoutes ::
  "(string \<Rightarrow> string option) \<Rightarrow> bool \<Rightarrow> time \<Rightarrow> ident \<Rightarrow> staff_request \<Rightarrow> roster \<Rightarrow> roster result" where
  "staffRoutes pe on now a q s = andThen (ownerCtx s a) (\<lambda>ctx. handle_staff pe on now a ctx q s)"

text \<open>What happens to a roster: a caller's request, or an invited person who follows a claim link.\<close>

datatype roster_event = Asks ident staff_request | Follows string string

definition serve_roster ::
  "(string \<Rightarrow> string option) \<Rightarrow> (string \<Rightarrow> string) \<Rightarrow> bool \<Rightarrow> time \<times> roster_event \<Rightarrow> roster \<Rightarrow> roster" where
  "serve_roster pe hash_pw on e s =
     (case snd e of
        Asks a q \<Rightarrow> (case staffRoutes pe on (fst e) a q s of Inl _ \<Rightarrow> s | Inr s' \<Rightarrow> s')
      | Follows token pw \<Rightarrow> snd (claimMerchantAccount hash_pw (fst e) token pw s))"

definition run_roster ::
  "(string \<Rightarrow> string option) \<Rightarrow> (string \<Rightarrow> string) \<Rightarrow> bool \<Rightarrow> (time \<times> roster_event) list \<Rightarrow> roster \<Rightarrow> roster" where
  "run_roster pe hash_pw on = fold (serve_roster pe hash_pw on)"

end
