(* ===== verification/Team.thy ===== *)
theory Team
  imports Staff
begin

text \<open>
  What the staff routes guarantee. \<open>team_step\<close> is the machine a merchant's team follows, without requests,
  sessions or tokens; every request the routes of \<open>Staff\<close> answer with success is a step of the caller's own
  team, and the invariants of the members are proved over the machine by rule induction.
\<close>

section \<open>The team machine\<close>

definition active_owner :: "ident \<Rightarrow> team_member \<Rightarrow> bool" where
  "active_owner mid m \<longleftrightarrow> tm_merchantId m = mid \<and> tm_role m = OWNER \<and> tm_status m = U_ACTIVE"

definition has_owner :: "ident \<Rightarrow> team_member list \<Rightarrow> bool" where
  "has_owner mid ms \<longleftrightarrow> list_ex (active_owner mid) ms"

definition another_owner :: "ident \<Rightarrow> ident \<Rightarrow> team_member list \<Rightarrow> bool" where
  "another_owner mid i ms \<longleftrightarrow> list_ex (\<lambda>m. active_owner mid m \<and> tm_id m \<noteq> i) ms"

definition change_member :: "ident \<Rightarrow> (team_member \<Rightarrow> team_member) \<Rightarrow> team_member list \<Rightarrow> team_member list" where
  "change_member i f ms = map (\<lambda>m. if tm_id m = i then f m else m) ms"

definition same_person :: "(team_member \<Rightarrow> team_member) \<Rightarrow> bool" where
  "same_person f \<longleftrightarrow> (\<forall>m. tm_id (f m) = tm_id m \<and> tm_merchantId (f m) = tm_merchantId m \<and> tm_adminId (f m) = tm_adminId m)"

inductive team_step :: "ident \<Rightarrow> team_member list \<Rightarrow> team_member list \<Rightarrow> bool" for mid where
  Stay: "team_step mid ms ms"
| Join: "tm_merchantId m = mid \<Longrightarrow> tm_id m \<notin> tm_id ` set ms \<Longrightarrow> tm_adminId m \<notin> tm_adminId ` set ms \<Longrightarrow>
    team_step mid ms (ms @ [m])"
| Rejoin: "t \<in> set ms \<Longrightarrow> tm_merchantId t = mid \<Longrightarrow> tm_status t = U_DELETED \<Longrightarrow>
    team_step mid ms (change_member (tm_id t) (\<lambda>m. m\<lparr>tm_role := r, tm_allBranches := al, tm_canManageVouchers := cm,
      tm_status := U_ACTIVE, tm_invitedById := who\<rparr>) ms)"
| Reassign: "t \<in> set ms \<Longrightarrow> tm_merchantId t = mid \<Longrightarrow> tm_role t \<noteq> OWNER \<or> r = OWNER \<or> another_owner mid (tm_id t) ms \<Longrightarrow>
    team_step mid ms (change_member (tm_id t) (\<lambda>m. m\<lparr>tm_role := r, tm_allBranches := al, tm_canManageVouchers := cm\<rparr>) ms)"
| Leave: "t \<in> set ms \<Longrightarrow> tm_merchantId t = mid \<Longrightarrow> tm_role t \<noteq> OWNER \<or> another_owner mid (tm_id t) ms \<Longrightarrow>
    st \<in> {U_INACTIVE, U_DELETED} \<Longrightarrow> team_step mid ms (change_member (tm_id t) (\<lambda>m. m\<lparr>tm_status := st\<rparr>) ms)"
| Return: "t \<in> set ms \<Longrightarrow> tm_merchantId t = mid \<Longrightarrow> tm_status t = U_INACTIVE \<Longrightarrow>
    team_step mid ms (change_member (tm_id t) (\<lambda>m. m\<lparr>tm_status := U_ACTIVE\<rparr>) ms)"

definition team_ok :: "team_member list \<Rightarrow> bool" where
  "team_ok ms \<longleftrightarrow> distinct (map tm_id ms) \<and> distinct (map tm_adminId ms)"

lemma same_person_change:
  assumes "same_person f"
  shows "map tm_id (change_member i f ms) = map tm_id ms" "map tm_adminId (change_member i f ms) = map tm_adminId ms"
    "map tm_merchantId (change_member i f ms) = map tm_merchantId ms"
  using assms by (auto simp: change_member_def same_person_def)

lemma same_person_simps [simp]:
  "same_person (\<lambda>m. m\<lparr>tm_status := st\<rparr>)"
  "same_person (\<lambda>m. m\<lparr>tm_role := r, tm_allBranches := al, tm_canManageVouchers := cm\<rparr>)"
  "same_person (\<lambda>m. m\<lparr>tm_role := r, tm_allBranches := al, tm_canManageVouchers := cm, tm_status := st, tm_invitedById := who\<rparr>)"
  by (simp_all add: same_person_def)

lemma team_ok_change: "same_person f \<Longrightarrow> team_ok (change_member i f ms) \<longleftrightarrow> team_ok ms"
  by (simp add: team_ok_def same_person_change)

lemma team_ok_same_id: "team_ok ms \<Longrightarrow> t \<in> set ms \<Longrightarrow> m \<in> set ms \<Longrightarrow> tm_id m = tm_id t \<Longrightarrow> m = t"
  by (auto simp: team_ok_def distinct_map dest: inj_onD)

lemma team_ok_same_admin: "team_ok ms \<Longrightarrow> t \<in> set ms \<Longrightarrow> m \<in> set ms \<Longrightarrow> tm_adminId m = tm_adminId t \<Longrightarrow> m = t"
  by (auto simp: team_ok_def distinct_map dest: inj_onD)

text \<open>Where identifiers are unique, a change reaches one row.\<close>

lemma change_one:
  assumes "team_ok ms" "t \<in> set ms"
  shows "set (change_member (tm_id t) f ms) = insert (f t) (set ms - {t})"
proof -
  have "tm_id m = tm_id t \<longleftrightarrow> m = t" if "m \<in> set ms" for m
    using team_ok_same_id[OF assms that] by blast
  then have "set (change_member (tm_id t) f ms) = (\<lambda>m. if m = t then f m else m) ` set ms"
    unfolding change_member_def set_map by (intro image_cong) simp_all
  also have "\<dots> = insert (f t) (set ms - {t})"
    using assms(2) by auto
  finally show ?thesis .
qed

lemma has_owner_set: "has_owner mid ms \<longleftrightarrow> (\<exists>m\<in>set ms. active_owner mid m)"
  by (simp add: has_owner_def list_ex_iff)

lemma another_owner_kept:
  "another_owner mid i ms \<Longrightarrow> has_owner mid (change_member i f ms)"
  by (force simp: another_owner_def has_owner_def change_member_def list_ex_iff)

lemma owner_kept_change:
  assumes "team_ok ms" "t \<in> set ms" "has_owner k ms" "active_owner k t \<Longrightarrow> active_owner k (f t)"
  shows "has_owner k (change_member (tm_id t) f ms)"
  using assms(3,4) unfolding has_owner_set change_one[OF assms(1,2)] by auto

lemma team_step_ok: "team_step mid ms ms' \<Longrightarrow> team_ok ms \<Longrightarrow> team_ok ms'"
proof (induction rule: team_step.induct)
  case (Join m ms)
  then show ?case by (simp add: team_ok_def)
qed (simp_all add: team_ok_change)

lemma team_step_owner:
  "team_step mid ms ms' \<Longrightarrow> team_ok ms \<Longrightarrow> has_owner k ms \<Longrightarrow> has_owner k ms'"
proof (induction rule: team_step.induct)
  case (Join m ms)
  then show ?case by (auto simp: has_owner_def)
next
  case (Rejoin t ms r al cm who)
  then show ?case by (intro owner_kept_change) (simp_all add: active_owner_def)
next
  case (Reassign t ms r al cm)
  show ?case
  proof (cases "another_owner mid (tm_id t) ms \<and> k = mid")
    case True
    then show ?thesis using another_owner_kept by blast
  next
    case False
    then show ?thesis using Reassign by (intro owner_kept_change) (auto simp: active_owner_def)
  qed
next
  case (Leave t ms st)
  show ?case
  proof (cases "another_owner mid (tm_id t) ms \<and> k = mid")
    case True
    then show ?thesis using another_owner_kept by blast
  next
    case False
    then show ?thesis using Leave by (intro owner_kept_change) (auto simp: active_owner_def)
  qed
next
  case (Return t ms)
  then show ?case by (intro owner_kept_change) (simp_all add: active_owner_def)
qed simp

text \<open>Members of the other merchants are never touched.\<close>

lemma team_step_others:
  "team_step mid ms ms' \<Longrightarrow> team_ok ms \<Longrightarrow>
     filter (\<lambda>m. tm_merchantId m \<noteq> mid) ms' = filter (\<lambda>m. tm_merchantId m \<noteq> mid) ms"
proof -
  have change: "filter (\<lambda>m. tm_merchantId m \<noteq> mid) (change_member (tm_id t) f ms) = filter (\<lambda>m. tm_merchantId m \<noteq> mid) ms"
    if ok: "team_ok ms" and t: "t \<in> set ms" "tm_merchantId t = mid" and f: "same_person f" for t f ms
  proof -
    have "\<And>m. m \<in> set ms \<Longrightarrow> tm_id m = tm_id t \<Longrightarrow> m = t"
      using team_ok_same_id[OF ok t(1)] by blast
    then have "\<forall>m\<in>set xs. tm_id m = tm_id t \<longrightarrow> tm_merchantId m = mid" if "set xs \<subseteq> set ms" for xs
      using that t(2) by blast
    then have "filter (\<lambda>m. tm_merchantId m \<noteq> mid) (change_member (tm_id t) f xs) = filter (\<lambda>m. tm_merchantId m \<noteq> mid) xs"
      if "set xs \<subseteq> set ms" for xs
      using that by (induction xs) (use f in \<open>auto simp: change_member_def same_person_def\<close>)
    then show ?thesis by simp
  qed
  show "team_step mid ms ms' \<Longrightarrow> team_ok ms \<Longrightarrow>
     filter (\<lambda>m. tm_merchantId m \<noteq> mid) ms' = filter (\<lambda>m. tm_merchantId m \<noteq> mid) ms"
    by (induction rule: team_step.induct) (simp_all add: change)
qed

section \<open>Requests as steps\<close>

lemma view_simps [simp]:
  "memberships (view s) = map (as_membership s) (ro_members s)" "merchants (view s) = merchants (ro_db s)"
  "branches (view s) = branches (ro_db s)"
  by (simp_all add: view_def)

lemma as_membership_simps [simp]:
  "mm_id (as_membership s m) = tm_id m" "mm_merchantId (as_membership s m) = tm_merchantId m"
  "mm_merchantAdminId (as_membership s m) = tm_adminId m" "mm_active (as_membership s m) \<longleftrightarrow> tm_status m = U_ACTIVE"
  "mm_role (as_membership s m) = tm_role m"
  by (simp_all add: as_membership_def)

lemma write_members [simp]:
  "ro_members (update_member i f s) = change_member i f (ro_members s)" "ro_members (clear_scope i s) = ro_members s"
  "ro_members (add_scope i w s) = ro_members s" "ro_members (audit_staff i e a s) = ro_members s"
  "ro_members (end_sessions now aid r s) = ro_members s" "ro_members (issue now aid t s) = ro_members s"
  "ro_members (update_admin aid g s) = ro_members s"
  by (simp_all add: update_member_def clear_scope_def add_scope_def audit_staff_def end_sessions_def issue_def
      update_admin_def change_member_def)

lemma write_admins [simp]:
  "ro_admins (update_member i f s) = ro_admins s" "ro_admins (clear_scope i s) = ro_admins s"
  "ro_admins (add_scope i w s) = ro_admins s" "ro_admins (audit_staff i e a s) = ro_admins s"
  "ro_admins (end_sessions now aid r s) = ro_admins s" "ro_admins (issue now aid t s) = ro_admins s"
  by (simp_all add: update_member_def clear_scope_def add_scope_def audit_staff_def end_sessions_def issue_def)

lemma write_claims [simp]:
  "ro_claims (update_member i f s) = ro_claims s" "ro_claims (clear_scope i s) = ro_claims s"
  "ro_claims (add_scope i w s) = ro_claims s" "ro_claims (audit_staff i e a s) = ro_claims s"
  "ro_claims (end_sessions now aid r s) = ro_claims s" "ro_claims (update_admin aid g s) = ro_claims s"
  "ro_claims (issue now aid t s) = issueMerchantClaim now aid t (ro_claims s)"
  by (simp_all add: update_member_def clear_scope_def add_scope_def audit_staff_def end_sessions_def issue_def
      update_admin_def)

lemma resolveCallerMerchant_sound:
  assumes "resolveCallerMerchant s a = Inr mid"
  obtains m where "m \<in> set (ro_members s)" "tm_adminId m = a" "active_owner mid m"
    "map_option m_status (merchants (ro_db s) mid) \<noteq> Some M_SUSPENDED"
proof -
  obtain o' where o: "getOwnerMembership (view s) a = Some o'" "merchant_status_of (view s) o' \<noteq> Some M_SUSPENDED"
    "mid = mm_merchantId o'"
    using assms by (auto simp: resolveCallerMerchant_def resolveAdminMerchant_def split: option.splits sum.splits if_splits)
  from find_Some_in[OF o(1)[unfolded getOwnerMembership_def]] obtain m where
    "m \<in> set (ro_members s)" "o' = as_membership s m" "tm_adminId m = a" "tm_role m = OWNER" "tm_status m = U_ACTIVE"
    by auto
  with o(2,3) show thesis by (intro that[of m]) (auto simp: active_owner_def merchant_status_of_def)
qed

lemma assertNotLastOwner_another:
  "assertNotLastOwner (view s) mid i = Inr u \<Longrightarrow> another_owner mid i (ro_members s)"
proof -
  assume "assertNotLastOwner (view s) mid i = Inr u"
  then have "filter (\<lambda>m. active_owner mid m \<and> tm_id m \<noteq> i) (ro_members s) \<noteq> []"
    by (auto simp: assertNotLastOwner_def Let_def o_def active_owner_def conj_ac split: if_splits)
  then show ?thesis by (auto simp: filter_empty_conv another_owner_def list_ex_iff)
qed

lemma loadTarget_Inr:
  "loadTarget s mid i = Inr t \<Longrightarrow> t \<in> set (ro_members s) \<and> tm_merchantId t = mid \<and> i = tm_id t"
  by (auto simp: loadTarget_def split: option.splits if_splits dest: find_Some_in)

text \<open>The identifiers and tokens a request draws are new and not empty.\<close>

definition new_ids :: "staff_request \<Rightarrow> roster \<Rightarrow> bool" where
  "new_ids q s \<longleftrightarrow> (case q of
     Invite b dr \<Rightarrow> dr_memberId dr \<notin> tm_id ` set (ro_members s) \<and> dr_adminId dr \<notin> aw_id ` set (ro_admins s) \<and>
       dr_token dr \<noteq> ''''
   | Resend i t \<Rightarrow> t \<noteq> '''' | _ \<Rightarrow> True)"

definition accounts_known :: "team_member list \<Rightarrow> admin_row list \<Rightarrow> bool" where
  "accounts_known ms accounts \<longleftrightarrow> list_all (\<lambda>m. list_ex (\<lambda>a. aw_id a = tm_adminId m) accounts) ms"

lemma accounts_known_change [simp]:
  "same_person f \<Longrightarrow> accounts_known (change_member i f ms) accounts \<longleftrightarrow> accounts_known ms accounts"
  by (induction ms) (auto simp: accounts_known_def change_member_def same_person_def)

lemma accounts_known_new: "accounts_known ms accounts \<Longrightarrow> aid \<notin> aw_id ` set accounts \<Longrightarrow> aid \<notin> tm_adminId ` set ms"
  by (force simp: accounts_known_def list_all_iff list_ex_iff)

definition roster_ok :: "roster \<Rightarrow> bool" where
  "roster_ok s \<longleftrightarrow> team_ok (ro_members s) \<and> accounts_known (ro_members s) (ro_admins s)"

lemma set_access_eq:
  "set_access b = (\<lambda>m. m\<lparr>tm_role := ab_role b, tm_allBranches := ab_allBranches b,
     tm_canManageVouchers := grantCanManageVouchers b\<rparr>)"
  by (simp add: set_access_def fun_eq_iff)

text \<open>An invitation writes in one of two ways.\<close>

lemma invite_cases:
  assumes "inviteMember pe on now a ctx b dr s = Inr (r, s')"
  obtains (fresh) mid p where "resolveCallerMerchant s a = Inr mid" "s' = invite_fresh now a mid p dr s"
      "admin_by_email s (ib_email p) = None"
    | (again) mid p and e :: admin_row and m where "resolveCallerMerchant s a = Inr mid" "m \<in> set (ro_members s)" "tm_merchantId m = mid"
      "tm_adminId m = aw_id e" "tm_status m = U_DELETED" "s' = reinvite now a p (dr_token dr) (aw_id e) (tm_id m) s"
proof -
  obtain mid p where p: "resolveCallerMerchant s a = Inr mid"
    and r: "(case admin_by_email s (ib_email p) of
         Some existing \<Rightarrow>
           (case List.find (\<lambda>m. tm_adminId m = aw_id existing \<and> tm_merchantId m = mid) (ro_members s) of
              Some m \<Rightarrow>
                if tm_status m = U_DELETED
                then returns ((tm_id m, delivery_of on), reinvite now a p (dr_token dr) (aw_id existing) (tm_id m) s)
                else throw (MEMBER EMAIL_ALREADY_EXISTS)
            | None \<Rightarrow> throw (MEMBER EMAIL_ALREADY_EXISTS))
       | None \<Rightarrow> returns ((dr_memberId dr, delivery_of on), invite_fresh now a mid p dr s)) = Inr (r, s')"
    using assms unfolding inviteMember_def andThen_Inr by blast
  show thesis
  proof (cases "admin_by_email s (ib_email p)")
    case None
    then have "s' = invite_fresh now a mid p dr s" using r by simp
    then show ?thesis using fresh p None by blast
  next
    case (Some e)
    then obtain m where m: "List.find (\<lambda>m. tm_adminId m = aw_id e \<and> tm_merchantId m = mid) (ro_members s) = Some m"
      "tm_status m = U_DELETED" "s' = reinvite now a p (dr_token dr) (aw_id e) (tm_id m) s"
      using r by (auto split: option.splits if_splits)
    with p find_Some_in[OF m(1)] again show ?thesis by blast
  qed
qed

lemma invite_step:
  assumes "inviteMember pe on now a ctx b dr s = Inr (r, s')" and "roster_ok s" and "new_ids (Invite b dr) s"
  obtains mid where "resolveCallerMerchant s a = Inr mid" "team_step mid (ro_members s) (ro_members s')"
  using assms(1)
proof (cases rule: invite_cases)
  case (fresh mid p)
  then have ms: "ro_members s' = ro_members s @ [new_member (dr_memberId dr) mid (dr_adminId dr) a p]"
    by (simp add: invite_fresh_def Let_def)
  have "team_step mid (ro_members s) (ro_members s')"
    unfolding ms using assms(2,3)
    by (intro team_step.Join)
      (auto simp: new_member_def new_ids_def roster_ok_def dest: accounts_known_new)
  with fresh(1) show ?thesis by (rule that)
next
  case (again mid p e m)
  then have "team_step mid (ro_members s) (ro_members s')"
    using team_step.Rejoin[of m "ro_members s" mid] by (simp add: reinvite_def set_access_def)
  with again(1) show ?thesis by (rule that)
qed

lemma check_departure_Inr:
  assumes "check_departure s a i = Inr t"
  obtains mid where "resolveCallerMerchant s a = Inr mid" "t \<in> set (ro_members s)" "tm_merchantId t = mid" "tm_id t = i"
    "tm_role t \<noteq> OWNER \<or> another_owner mid (tm_id t) (ro_members s)"
proof -
  obtain mid u where m: "resolveCallerMerchant s a = Inr mid" "loadTarget s mid i = Inr t"
    "(if tm_role t = OWNER then assertNotLastOwner (view s) mid (tm_id t) else returns ()) = Inr u"
    using assms unfolding check_departure_def andThen_Inr sum.inject by blast
  then show thesis
    using loadTarget_Inr[OF m(2)] assertNotLastOwner_another by (intro that[of mid]) (auto split: if_splits)
qed

lemma departure_steps:
  assumes "check_departure s a i = Inr t"
  obtains mid where "resolveCallerMerchant s a = Inr mid"
    "team_step mid (ro_members s) (ro_members (write_deactivation now a t s))"
    "team_step mid (ro_members s) (ro_members (write_removal now a t s))"
proof (rule check_departure_Inr[OF assms])
  fix mid
  assume "resolveCallerMerchant s a = Inr mid" "t \<in> set (ro_members s)" "tm_merchantId t = mid"
    "tm_role t \<noteq> OWNER \<or> another_owner mid (tm_id t) (ro_members s)"
  then show thesis
    by (intro that[of mid]) (simp_all add: write_deactivation_def write_removal_def team_step.Leave)
qed

lemma access_step:
  assumes "check_access s a ctx i body = Inr (p, t)"
  obtains mid where "resolveCallerMerchant s a = Inr mid"
    "team_step mid (ro_members s) (ro_members (write_access a p t s))"
proof -
  obtain mid u where m: "resolveCallerMerchant s a = Inr mid" "loadTarget s mid i = Inr t"
    "(if tm_role t = OWNER \<and> ab_role p \<noteq> OWNER then assertNotLastOwner (view s) mid (tm_id t) else returns ()) = Inr u"
    using assms unfolding check_access_def andThen_Inr sum.inject prod.inject by blast
  have "tm_role t \<noteq> OWNER \<or> ab_role p = OWNER \<or> another_owner mid (tm_id t) (ro_members s)"
    using m(3) assertNotLastOwner_another by (auto split: if_splits)
  then have "team_step mid (ro_members s) (ro_members (write_access a p t s))"
    using loadTarget_Inr[OF m(2)] by (simp add: write_access_def set_access_eq team_step.Reassign)
  with m(1) show thesis by (rule that)
qed

lemma reinstate_step:
  assumes "reactivateMember a i s = Inr (r, s')"
  obtains mid where "resolveCallerMerchant s a = Inr mid" "team_step mid (ro_members s) (ro_members s')"
proof -
  obtain mid t where m: "resolveCallerMerchant s a = Inr mid" "loadTarget s mid i = Inr t" "tm_status t = U_INACTIVE"
    "s' = audit_staff (tm_id t) ''MEMBER_REACTIVATED'' a (update_member (tm_id t) (\<lambda>m. m\<lparr>tm_status := U_ACTIVE\<rparr>) s)"
    using assms unfolding reactivateMember_def andThen_Inr guard_Inr sum.inject prod.inject by blast
  then show thesis
    using loadTarget_Inr[OF m(2)] by (intro that[of mid]) (simp_all add: team_step.Return)
qed

lemma handle_staff_step:
  assumes "handle_staff pe on now a ctx q s = Inr s'" and "roster_ok s" and "new_ids q s"
  shows "\<exists>mid. resolveCallerMerchant s a = Inr mid \<and> team_step mid (ro_members s) (ro_members s')"
proof (cases q)
  case ListMembers
  then show ?thesis using assms(1) by (auto simp: listMembers_def team_step.Stay)
next
  case (Invite b dr)
  then show ?thesis using assms by (auto elim!: invite_step)
next
  case (UpdateAccess i b)
  then show ?thesis using assms(1) by (auto simp: updateMemberAccess_def elim!: access_step)
next
  case (Deactivate i)
  then obtain t where t: "check_departure s a i = Inr t" "s' = write_deactivation now a t s"
    using assms(1) by (auto simp: deactivateMember_def)
  show ?thesis by (rule departure_steps[OF t(1), of now]) (use t(2) in blast)
next
  case (Reinstate i)
  then show ?thesis using assms(1) by (auto elim!: reinstate_step)
next
  case (Remove i)
  then obtain t where t: "check_departure s a i = Inr t" "s' = write_removal now a t s"
    using assms(1) by (auto simp: removeMember_def)
  show ?thesis by (rule departure_steps[OF t(1), of now]) (use t(2) in blast)
next
  case (Resend i t)
  then show ?thesis using assms(1) by (auto simp: resendInvite_def team_step.Stay)
qed

text \<open>Accounts are only ever added, and the memberships keep pointing to them.\<close>

lemma handle_staff_ok:
  assumes h: "handle_staff pe on now a ctx q s = Inr s'" and ok: "roster_ok s" and new: "new_ids q s"
  shows "roster_ok s'"
proof -
  have team: "team_ok (ro_members s')"
    using handle_staff_step[OF h ok new] team_step_ok ok unfolding roster_ok_def by blast
  have "accounts_known (ro_members s') (ro_admins s')"
  proof (cases q)
    case (Invite b dr)
    then obtain r where "inviteMember pe on now a ctx b dr s = Inr (r, s')" using h by auto
    then show ?thesis
    proof (cases rule: invite_cases)
      case fresh
      then show ?thesis using ok
        by (auto simp: invite_fresh_def Let_def roster_ok_def new_member_def new_admin_def accounts_known_def list_all_iff)
    next
      case again
      then show ?thesis using ok by (simp add: reinvite_def set_access_def roster_ok_def)
    qed
  qed (use h ok in \<open>auto simp: updateMemberAccess_def write_access_def set_access_eq deactivateMember_def roster_ok_def
      write_deactivation_def reactivateMember_def removeMember_def write_removal_def resendInvite_def listMembers_def\<close>)
  with team show ?thesis by (simp add: roster_ok_def)
qed

end
