(* ===== verification/Roster.thy ===== *)
theory Roster
  imports Team
begin

text \<open>
  Histories of a roster: what holds after any sequence of staff requests and followed claim links. The
  invariants are instances of one contract, \<open>timed_invariant\<close>. Then what a departure takes away, what the
  checks miss, and the interleaving that leaves a merchant without an owner.
\<close>

section \<open>Invariants along a history\<close>

primrec in_order :: "(time \<times> 'e \<Rightarrow> 's \<Rightarrow> bool) \<Rightarrow> (time \<times> 'e \<Rightarrow> 's \<Rightarrow> 's) \<Rightarrow> time \<Rightarrow> (time \<times> 'e) list \<Rightarrow> 's \<Rightarrow> bool" where
  "in_order ok step t [] s \<longleftrightarrow> True"
| "in_order ok step t (e # es) s \<longleftrightarrow> t \<le> fst e \<and> ok e s \<and> in_order ok step (fst e) es (step e s)"

locale timed_invariant =
  fixes step :: "time \<times> 'e \<Rightarrow> 's \<Rightarrow> 's"
    and ok :: "time \<times> 'e \<Rightarrow> 's \<Rightarrow> bool"
    and inv :: "time \<Rightarrow> 's \<Rightarrow> bool"
  assumes inv_later: "t \<le> t' \<Longrightarrow> inv t s \<Longrightarrow> inv t' s"
    and inv_step: "inv (fst e) s \<Longrightarrow> ok e s \<Longrightarrow> inv (fst e) (step e s)"
begin

lemma inv_run:
  assumes "inv t s" "in_order ok step t es s" "t \<le> now" "\<forall>e\<in>set es. fst e \<le> now"
  shows "inv now (fold step es s)"
  using assms
proof (induction es arbitrary: t s)
  case Nil
  then show ?case using inv_later by simp
next
  case (Cons e es)
  have o: "t \<le> fst e" "ok e s" "in_order ok step (fst e) es (step e s)" "fst e \<le> now" "\<forall>e\<in>set es. fst e \<le> now"
    using Cons.prems by simp_all
  have "inv (fst e) (step e s)" by (rule inv_step[OF inv_later[OF o(1) Cons.prems(1)] o(2)])
  from Cons.IH[OF this o(3-5)] show ?case by simp
qed

end

definition event_ok :: "time \<times> roster_event \<Rightarrow> roster \<Rightarrow> bool" where
  "event_ok e s \<longleftrightarrow> (case snd e of Asks a q \<Rightarrow> new_ids q s | Follows token pw \<Rightarrow> True)"

lemma staffRoutes_Inr:
  assumes "staffRoutes pe on now a q s = Inr s'"
  obtains ctx where "ownerCtx s a = Inr ctx" "handle_staff pe on now a ctx q s = Inr s'"
  using assms unfolding staffRoutes_def andThen_Inr by blast

lemma follow_keeps:
  "ro_members (snd (claimMerchantAccount hp now t pw s)) = ro_members s"
  "accounts_known ms (ro_admins (snd (claimMerchantAccount hp now t pw s))) \<longleftrightarrow> accounts_known ms (ro_admins s)"
proof -
  have ids: "list_ex (\<lambda>a. aw_id a = x) (map (\<lambda>a. if aw_id a = aid then a\<lparr>aw_passwordHash := h, aw_mustChangePassword := c,
      aw_otpVerifiedAt := v, aw_emailVerified := e\<rparr> else a) as') \<longleftrightarrow> list_ex (\<lambda>a. aw_id a = x) as'"
    for x aid h c v e as'
    by (induction as') auto
  show "ro_members (snd (claimMerchantAccount hp now t pw s)) = ro_members s"
    by (simp add: claimMerchantAccount_def Let_def split: option.split)
  show "accounts_known ms (ro_admins (snd (claimMerchantAccount hp now t pw s))) \<longleftrightarrow> accounts_known ms (ro_admins s)"
    by (simp add: claimMerchantAccount_def Let_def update_admin_def accounts_known_def ids split: option.split)
qed

text \<open>A served event is a request's step, a followed link, or nothing.\<close>

lemma serve_roster_cases:
  assumes "event_ok e s"
  obtains (request) a q ctx s' where "snd e = Asks a q" "ownerCtx s a = Inr ctx" "new_ids q s"
      "handle_staff pe on (fst e) a ctx q s = Inr s'" "serve_roster pe hp on e s = s'"
    | (link) t pw where "serve_roster pe hp on e s = snd (claimMerchantAccount hp (fst e) t pw s)"
    | (refused) "serve_roster pe hp on e s = s"
proof (cases "snd e")
  case (Asks a q)
  show ?thesis
  proof (cases "staffRoutes pe on (fst e) a q s")
    case (Inl x)
    then have "serve_roster pe hp on e s = s" using Asks by (simp add: serve_roster_def)
    then show ?thesis by (rule refused)
  next
    case (Inr s')
    then obtain ctx where "ownerCtx s a = Inr ctx" "handle_staff pe on (fst e) a ctx q s = Inr s'"
      by (rule staffRoutes_Inr)
    then show ?thesis using Asks Inr assms request by (simp add: serve_roster_def event_ok_def)
  qed
next
  case (Follows t pw)
  then have "serve_roster pe hp on e s = snd (claimMerchantAccount hp (fst e) t pw s)" by (simp add: serve_roster_def)
  then show ?thesis by (rule link)
qed

lemma serve_roster_ok:
  assumes "event_ok e s" "roster_ok s"
  shows "roster_ok (serve_roster pe hp on e s)"
  using assms(1)
proof (cases rule: serve_roster_cases[where pe = pe and hp = hp and on = on])
  case (request a q ctx s')
  then show ?thesis using handle_staff_ok assms(2) by simp
next
  case (link t pw)
  then show ?thesis using assms(2) by (simp add: roster_ok_def follow_keeps)
qed (use assms(2) in simp)

lemma serve_roster_owner:
  assumes "event_ok e s" "roster_ok s" "has_owner mid (ro_members s)"
  shows "has_owner mid (ro_members (serve_roster pe hp on e s))"
  using assms(1)
proof (cases rule: serve_roster_cases[where pe = pe and hp = hp and on = on])
  case (request a q ctx s')
  then show ?thesis
    using handle_staff_step[OF request(4) assms(2) request(3)] team_step_owner assms(2,3) unfolding roster_ok_def by blast
next
  case (link t pw)
  then show ?thesis using assms(3) by (simp add: follow_keeps)
qed (use assms(3) in simp)

interpretation teams: timed_invariant "serve_roster pe hp on" event_ok "\<lambda>_ s. roster_ok s" for pe hp on
  by unfold_locales (simp_all add: serve_roster_ok)

interpretation owned: timed_invariant "serve_roster pe hp on" event_ok
  "\<lambda>_ s. roster_ok s \<and> has_owner mid (ro_members s)" for pe hp on mid
  by unfold_locales (simp_all add: serve_roster_ok serve_roster_owner)

section \<open>Claim links\<close>

lemma claim_keys [simp]:
  "merchantClaim t \<noteq> merchantClaimCurrent a" "merchantClaimCurrent a \<noteq> merchantClaim t"
  "merchantClaim t = merchantClaim t' \<longleftrightarrow> t = t'" "merchantClaimCurrent a = merchantClaimCurrent a' \<longleftrightarrow> a = a'"
  by (simp_all add: merchantClaim_def merchantClaimCurrent_def)

text \<open>Every live link is the one its account's pointer names.\<close>

definition links_ok :: "time \<Rightarrow> string expiring \<Rightarrow> bool" where
  "links_ok now c \<longleftrightarrow> (\<forall>t a e. map_of c (merchantClaim t) = Some (a, e) \<longrightarrow> now < e \<longrightarrow>
     t \<noteq> '''' \<and> map_of c (merchantClaimCurrent a) = Some (t, e))"

lemma links_ok_later: "t \<le> t' \<Longrightarrow> links_ok t c \<Longrightarrow> links_ok t' c"
  unfolding links_ok_def by fastforce

lemma issue_links:
  assumes "links_ok now c" "token \<noteq> ''''"
  shows "links_ok now (issueMerchantClaim now aid token c)"
  unfolding links_ok_def
proof (intro allI impI)
  fix t a e
  assume m: "map_of (issueMerchantClaim now aid token c) (merchantClaim t) = Some (a, e)" and live: "now < e"
  show "t \<noteq> '''' \<and> map_of (issueMerchantClaim now aid token c) (merchantClaimCurrent a) = Some (t, e)"
  proof (cases "t = token")
    case True
    then show ?thesis using m assms(2) by (auto simp: issueMerchantClaim_def Let_def session_simps)
  next
    case False
    then have old: "map_of c (merchantClaim t) = Some (a, e)"
      using m by (auto simp: issueMerchantClaim_def Let_def session_simps split: option.splits if_splits)
    then have ptr: "t \<noteq> ''''" "map_of c (merchantClaimCurrent a) = Some (t, e)"
      using assms(1) live unfolding links_ok_def by blast+
    have "a \<noteq> aid"
    proof
      assume "a = aid"
      then have "GETX now c (merchantClaimCurrent aid) = Some t" using ptr live by (simp add: GETX_def)
      then show False using m False ptr(1) by (simp add: issueMerchantClaim_def Let_def session_simps)
    qed
    then show ?thesis using ptr by (simp add: issueMerchantClaim_def Let_def session_simps split: option.split)
  qed
qed

lemma handle_staff_claims:
  assumes "handle_staff pe on now a ctx q s = Inr s'" "new_ids q s"
  obtains "ro_claims s' = ro_claims s" | aid token where "token \<noteq> ''''" "ro_claims s' = issueMerchantClaim now aid token (ro_claims s)"
proof (cases q)
  case (Invite b dr)
  then obtain r where "inviteMember pe on now a ctx b dr s = Inr (r, s')" using assms(1) by auto
  then show ?thesis
  proof (cases rule: invite_cases)
    case fresh
    then show ?thesis using that(2) assms(2) Invite by (auto simp: invite_fresh_def Let_def new_ids_def)
  next
    case again
    then show ?thesis using that(2) assms(2) Invite by (auto simp: reinvite_def new_ids_def)
  qed
next
  case (Resend i t)
  then show ?thesis using that(2) assms by (auto simp: resendInvite_def new_ids_def)
qed (use assms(1) that(1) in \<open>auto simp: updateMemberAccess_def write_access_def deactivateMember_def
      write_deactivation_def reactivateMember_def removeMember_def write_removal_def listMembers_def\<close>)

lemma claim_links:
  assumes "links_ok now (ro_claims s)"
  shows "links_ok now (ro_claims (snd (claimMerchantAccount hp now token pw s)))"
proof (cases "fst (claimMerchantAccount hp now token pw s)")
  case (Inl x)
  then have "snd (claimMerchantAccount hp now token pw s) = s"
    by (auto simp: claimMerchantAccount_def Let_def split: option.splits if_splits)
  then show ?thesis using assms by simp
next
  case (Inr u)
  then obtain aid where aid: "GETX now (ro_claims s) (merchantClaim token) = Some aid"
    and c: "ro_claims (snd (claimMerchantAccount hp now token pw s)) =
      DELX [merchantClaimCurrent aid] (DELX [merchantClaim token] (ro_claims s))"
    by (auto simp: claimMerchantAccount_def Let_def split: option.splits if_splits)
  from aid obtain e where "map_of (ro_claims s) (merchantClaim token) = Some (aid, e)" "now < e"
    by (auto simp: GETX_def split: option.splits if_splits)
  then have ptr: "map_of (ro_claims s) (merchantClaimCurrent aid) = Some (token, e)"
    using assms unfolding links_ok_def by blast
  show ?thesis
    unfolding c links_ok_def
  proof (intro allI impI)
    fix t a e'
    assume m: "map_of (DELX [merchantClaimCurrent aid] (DELX [merchantClaim token] (ro_claims s))) (merchantClaim t) = Some (a, e')"
      and live: "now < e'"
    then have t: "t \<noteq> token" "map_of (ro_claims s) (merchantClaim t) = Some (a, e')"
      by (auto simp: session_simps split: if_splits)
    then have p: "t \<noteq> ''''" "map_of (ro_claims s) (merchantClaimCurrent a) = Some (t, e')"
      using assms live unfolding links_ok_def by blast+
    then have "a \<noteq> aid" using ptr t(1) by auto
    with p show "t \<noteq> '''' \<and> map_of (DELX [merchantClaimCurrent aid] (DELX [merchantClaim token] (ro_claims s)))
        (merchantClaimCurrent a) = Some (t, e')"
      by (simp add: session_simps)
  qed
qed

lemma serve_roster_links:
  assumes "event_ok e s" "links_ok (fst e) (ro_claims s)"
  shows "links_ok (fst e) (ro_claims (serve_roster pe hp on e s))"
  using assms(1)
proof (cases rule: serve_roster_cases[where pe = pe and hp = hp and on = on])
  case (request a q ctx s')
  show ?thesis
    by (rule handle_staff_claims[OF request(4,3)]) (use request(5) assms(2) issue_links in auto)
next
  case (link t pw)
  then show ?thesis using claim_links[OF assms(2)] by simp
qed (use assms(2) in simp)

interpretation links: timed_invariant "serve_roster pe hp on" event_ok "\<lambda>now s. links_ok now (ro_claims s)" for pe hp on
  by unfold_locales (auto intro: links_ok_later serve_roster_links)

lemma links_unique:
  assumes "links_ok now c" "GETX now c (merchantClaim t) = Some a" "GETX now c (merchantClaim t') = Some a"
  shows "t = t'"
proof -
  obtain e e' where "map_of c (merchantClaim t) = Some (a, e)" "now < e"
    "map_of c (merchantClaim t') = Some (a, e')" "now < e'"
    using assms(2,3) by (auto simp: GETX_def split: option.splits if_splits)
  then have "map_of c (merchantClaimCurrent a) = Some (t, e)" "map_of c (merchantClaimCurrent a) = Some (t', e')"
    using assms(1) unfolding links_ok_def by blast+
  then show ?thesis by simp
qed

end
