(* ===== verification/Members.thy ===== *)
theory Members
  imports Roster
begin

text \<open>
  The properties of staff management: who may change a team and what stays true of it, what a departure takes
  away at once, which claim link works, and two histories the checks do not prevent. A concrete roster shows
  that each can happen.
\<close>

section \<open>Lookups in a well-formed team\<close>

lemma filter_one:
  "distinct (map f xs) \<Longrightarrow> x \<in> set xs \<Longrightarrow> P x \<Longrightarrow> filter (\<lambda>y. f y = f x \<and> P y) xs = [x]"
proof (induction xs)
  case (Cons y ys)
  show ?case
  proof (cases "y = x")
    case True
    then have "f x \<notin> f ` set ys" using Cons.prems(1) by simp
    then have "\<forall>z\<in>set ys. f z \<noteq> f x" by (metis image_eqI)
    then show ?thesis using True Cons.prems(3) by (auto simp: filter_empty_conv)
  next
    case False
    then have x: "x \<in> set ys" using Cons.prems by simp
    have "f y \<notin> f ` set ys" using Cons.prems(1) by simp
    then have "f y \<noteq> f x" using x by (metis image_eqI)
    then show ?thesis using Cons x by simp
  qed
qed simp

lemma filter_at_most_one: "distinct (map f xs) \<Longrightarrow> length (filter (\<lambda>y. f y = a \<and> P y) xs) \<le> 1"
proof -
  assume d: "distinct (map f xs)"
  show ?thesis
  proof (cases "\<exists>x\<in>set xs. f x = a \<and> P x")
    case True
    then obtain x where x: "x \<in> set xs" "f x = a" "P x" by blast
    then show ?thesis using filter_one[OF d x(1), of P, OF x(3)] x(2) by simp
  next
    case False
    then have "filter (\<lambda>y. f y = a \<and> P y) xs = []" by (auto simp: filter_empty_conv)
    then show ?thesis by simp
  qed
qed

lemma view_active:
  "filter (\<lambda>m. mm_merchantAdminId m = a \<and> mm_active m) (memberships (view s)) =
     map (as_membership s) (filter (\<lambda>m. tm_adminId m = a \<and> tm_status m = U_ACTIVE) (ro_members s))"
  by (simp add: filter_map o_def)

lemma active_one:
  "team_ok (ro_members s) \<Longrightarrow> c \<in> set (ro_members s) \<Longrightarrow> tm_adminId c = a \<Longrightarrow> tm_status c = U_ACTIVE \<Longrightarrow>
     filter (\<lambda>m. tm_adminId m = a \<and> tm_status m = U_ACTIVE) (ro_members s) = [c]"
  using filter_one[of tm_adminId "ro_members s" c "\<lambda>m. tm_status m = U_ACTIVE"] by (simp add: team_ok_def)

lemma active_resolves:
  "team_ok (ro_members s) \<Longrightarrow> c \<in> set (ro_members s) \<Longrightarrow> tm_adminId c = a \<Longrightarrow> tm_status c = U_ACTIVE \<Longrightarrow>
     getActiveMembership (view s) a = Inr (Some (as_membership s c))"
  unfolding getActiveMembership_Some view_active by (simp add: active_one)

lemma inactive_unresolved:
  assumes "team_ok (ro_members s)" "c \<in> set (ro_members s)" "tm_adminId c = a" "tm_status c \<noteq> U_ACTIVE"
  shows "resolveMerchantContext (view s) a = Inl INVALID_CREDENTIALS"
proof -
  have "filter (\<lambda>m. tm_adminId m = a \<and> tm_status m = U_ACTIVE) (ro_members s) = []"
    using team_ok_same_admin[OF assms(1,2)] assms(3,4) by (auto simp: filter_empty_conv)
  then have "getActiveMembership (view s) a = Inr None"
    unfolding getActiveMembership_def view_active by simp
  then show ?thesis by (simp add: resolveMerchantContext_def)
qed

text \<open>An active owner of an unsuspended merchant passes both resolvers.\<close>

lemma owner_resolves:
  assumes "team_ok (ro_members s)" "c \<in> set (ro_members s)" "tm_adminId c = a" "active_owner mid c"
    and "map_option m_status (merchants (ro_db s) mid) \<noteq> Some M_SUSPENDED"
  shows "\<exists>ctx. ownerCtx s a = Inr ctx" "resolveCallerMerchant s a = Inr mid"
proof -
  have c: "tm_status c = U_ACTIVE" "tm_role c = OWNER" "tm_merchantId c = mid" using assms(4) by (auto simp: active_owner_def)
  note act = active_resolves[OF assms(1-3) c(1)]
  show "\<exists>ctx. ownerCtx s a = Inr ctx"
    using assms(5) c by (simp add: ownerCtx_def resolveMerchantContext_def act merchant_status_of_def assertOwner_def)
  have "getOwnerMembership (view s) a \<noteq> None"
    unfolding getOwnerMembership_def find_None_all using assms(2,3) c by auto
  then obtain o' where o: "getOwnerMembership (view s) a = Some o'" by blast
  have "o' = as_membership s c"
    using getActiveMembership_sound(4)[OF act] find_Some_in[OF o[unfolded getOwnerMembership_def]] by blast
  then show "resolveCallerMerchant s a = Inr mid"
    using o assms(5) c by (simp add: resolveCallerMerchant_def resolveAdminMerchant_def merchant_status_of_def)
qed

lemma upper_bound: "\<exists>now::time. t \<le> now \<and> (\<forall>e\<in>set es. fst e \<le> now)"
proof -
  have "finite (insert t (fst ` set es))" by simp
  then show ?thesis by (intro exI[of _ "Max (insert t (fst ` set es))"]) simp
qed

section \<open>A concrete roster\<close>

definition person :: "ident \<Rightarrow> ident \<Rightarrow> merchant_role \<Rightarrow> user_status \<Rightarrow> team_member" where
  "person i a r st = \<lparr>tm_id = i, tm_merchantId = ''m'', tm_adminId = a, tm_role = r, tm_status = st, tm_allBranches = True,
     tm_canManageVouchers = False, tm_invitedById = None\<rparr>"

definition account_of :: "team_member \<Rightarrow> admin_row" where
  "account_of m = \<lparr>aw_id = tm_adminId m, aw_email = tm_adminId m @ ''@x.uk'', aw_firstName = ''A'', aw_lastName = ''B'',
     aw_jobTitle = None, aw_passwordHash = None, aw_emailVerified = True, aw_mustChangePassword = False,
     aw_otpVerifiedAt = None, aw_lastLoginAt = None\<rparr>"

definition sample_roster :: "team_member list \<Rightarrow> roster" where
  "sample_roster ms = \<lparr>ro_db = sample_merchants [], ro_members = ms, ro_scopes = [], ro_admins = map account_of ms,
     ro_sessions = no_sessions, ro_claims = [], ro_audit = []\<rparr>"

definition two_owners :: roster where
  "two_owners = sample_roster [person ''1'' ''a'' OWNER U_ACTIVE, person ''2'' ''b'' OWNER U_ACTIVE,
     person ''3'' ''c'' STAFF U_DELETED]"

lemma two_owners_simps [simp]:
  "ro_members two_owners = [person ''1'' ''a'' OWNER U_ACTIVE, person ''2'' ''b'' OWNER U_ACTIVE,
     person ''3'' ''c'' STAFF U_DELETED]"
  "merchants (ro_db two_owners) = [''m'' \<mapsto> \<lparr>m_status = M_ACTIVE, m_businessName = ''M''\<rparr>]" "ro_claims two_owners = []"
  by (simp_all add: two_owners_def sample_roster_def sample_merchants_def)

lemma two_owners_ok: "roster_ok two_owners"
  by (simp add: roster_ok_def team_ok_def accounts_known_def person_def two_owners_def sample_roster_def account_of_def)

lemma two_owners_call:
  "\<exists>ctx. ownerCtx two_owners ''a'' = Inr ctx" "resolveCallerMerchant two_owners ''a'' = Inr ''m''"
  "resolveCallerMerchant two_owners ''b'' = Inr ''m''"
  using owner_resolves[of two_owners "person ''1'' ''a'' OWNER U_ACTIVE" "''a''" "''m''"]
    owner_resolves[of two_owners "person ''2'' ''b'' OWNER U_ACTIVE" "''b''" "''m''"] two_owners_ok
  by (simp_all add: roster_ok_def person_def active_owner_def)

lemma two_owners_guard:
  "assertNotLastOwner (view two_owners) ''m'' ''1'' = Inr ()" "assertNotLastOwner (view two_owners) ''m'' ''2'' = Inr ()"
  by (simp_all add: assertNotLastOwner_def Let_def person_def)

lemma two_owners_departures:
  "check_departure two_owners ''a'' ''2'' = Inr (person ''2'' ''b'' OWNER U_ACTIVE)"
  "check_departure two_owners ''b'' ''1'' = Inr (person ''1'' ''a'' OWNER U_ACTIVE)"
  "check_departure two_owners ''a'' ''1'' = Inr (person ''1'' ''a'' OWNER U_ACTIVE)"
  by (simp_all add: check_departure_def two_owners_call loadTarget_def two_owners_guard) (simp_all add: person_def two_owners_guard)

section \<open>Teams\<close>

text \<open>C7: staff requests implement the team machine: a request that the staff routes answer with success comes
  from an active owner of an unsuspended merchant, and what it does to the members is one step of that
  merchant's team machine, which leaves the members of every other merchant as they are.\<close>

theorem staff_requests_refine_team:
  assumes "staffRoutes pe on now a q s = Inr s'" and "roster_ok s" and "new_ids q s"
  shows "\<exists>mid. \<exists>m\<in>set (ro_members s). tm_adminId m = a \<and> active_owner mid m \<and>
    map_option m_status (merchants (ro_db s) mid) \<noteq> Some M_SUSPENDED \<and> team_step mid (ro_members s) (ro_members s') \<and>
    filter (\<lambda>m. tm_merchantId m \<noteq> mid) (ro_members s') = filter (\<lambda>m. tm_merchantId m \<noteq> mid) (ro_members s)"
proof -
  obtain ctx where "handle_staff pe on now a ctx q s = Inr s'" using assms(1) by (rule staffRoutes_Inr)
  from handle_staff_step[OF this assms(2,3)] obtain mid where
    mid: "resolveCallerMerchant s a = Inr mid" "team_step mid (ro_members s) (ro_members s')" by blast
  moreover have "filter (\<lambda>m. tm_merchantId m \<noteq> mid) (ro_members s') = filter (\<lambda>m. tm_merchantId m \<noteq> mid) (ro_members s)"
    using team_step_others[OF mid(2)] assms(2) by (simp add: roster_ok_def)
  ultimately show ?thesis by (blast elim: resolveCallerMerchant_sound)
qed

theorem staff_requests_refine_team_witness:
  "\<exists>s'. staffRoutes Some True 0 ''a'' (Remove ''2'') two_owners = Inr s' \<and> (\<exists>mid. team_step mid (ro_members two_owners) (ro_members s'))"
proof -
  obtain s' where s': "staffRoutes Some True 0 ''a'' (Remove ''2'') two_owners = Inr s'"
    using two_owners_call(1) by (auto simp: staffRoutes_def removeMember_def two_owners_departures)
  from staff_requests_refine_team[OF s' two_owners_ok] show ?thesis using s' by (auto simp: new_ids_def)
qed

text \<open>C13: a merchant that has an active owner keeps one: no sequence of staff requests and followed claim links,
  each served to its end before the next, removes, deactivates or demotes the last active owner of any
  merchant.\<close>

theorem merchant_keeps_owner:
  assumes "roster_ok s" and "in_order event_ok (serve_roster pe hp on) t h s" and "has_owner mid (ro_members s)"
  shows "has_owner mid (ro_members (run_roster pe hp on h s))"
proof -
  obtain now where "t \<le> now" "\<forall>e\<in>set h. fst e \<le> now" using upper_bound by blast
  with owned.inv_run[OF _ assms(2)] assms(1,3) show ?thesis unfolding run_roster_def by blast
qed

theorem merchant_keeps_owner_witness:
  "has_owner ''m'' (ro_members (run_roster Some (\<lambda>p. p) True
     [(0, Asks ''a'' (Remove ''2'')), (1, Asks ''a'' (Remove ''1''))] two_owners))"
  by (rule merchant_keeps_owner[OF two_owners_ok, where t = 0])
    (simp_all add: event_ok_def new_ids_def has_owner_def active_owner_def person_def)

text \<open>C31: a person's portal access is never ambiguous: after any history of staff requests and followed claim
  links nobody has two memberships, so resolving a caller never fails with \<open>MULTI_MEMBERSHIP_UNSUPPORTED\<close>.\<close>

theorem caller_never_ambiguous:
  assumes "roster_ok s" and "in_order event_ok (serve_roster pe hp on) t h s"
  shows "distinct (map tm_adminId (ro_members (run_roster pe hp on h s))) \<and>
    resolveMerchantContext (view (run_roster pe hp on h s)) a \<noteq> Inl MULTI_MEMBERSHIP_UNSUPPORTED"
proof -
  let ?s = "run_roster pe hp on h s"
  obtain now where "t \<le> now" "\<forall>e\<in>set h. fst e \<le> now" using upper_bound by blast
  with teams.inv_run[OF assms(1,2)] have "roster_ok ?s" unfolding run_roster_def by blast
  then have d: "distinct (map tm_adminId (ro_members ?s))" by (simp add: roster_ok_def team_ok_def)
  have "getActiveMembership (view ?s) a \<noteq> Inl e" for e
    using filter_at_most_one[OF d, of a "\<lambda>m. tm_status m = U_ACTIVE"]
    unfolding getActiveMembership_def view_active by (simp add: Let_def split: if_splits)
  then show ?thesis using d by (auto simp: resolveMerchantContext_def split: sum.splits option.splits)
qed

theorem caller_never_ambiguous_witness:
  "distinct (map tm_adminId (ro_members (run_roster Some (\<lambda>p. p) True
     [(0, Asks ''a'' (Deactivate ''2'')), (1, Asks ''a'' (Reinstate ''2''))] two_owners)))"
  using caller_never_ambiguous[OF two_owners_ok, of Some "\<lambda>p. p" True 0
      "[(0, Asks ''a'' (Deactivate ''2'')), (1, Asks ''a'' (Reinstate ''2''))]"]
  by (simp add: event_ok_def new_ids_def)

section \<open>Departures\<close>

lemma revoked_rows:
  "list_all (\<lambda>r. us_entityId r = e \<and> us_entityType r = ty \<longrightarrow> us_revokedAt r \<noteq> None)
     (userSessions (revokeAllUserSessionRecords now e ty reason None s))"
proof -
  have "us_entityId (if us_entityId r = e \<and> us_entityType r = ty \<and> us_revokedAt r = None then revoke_row now reason r else r) = e \<and>
      us_entityType (if us_entityId r = e \<and> us_entityType r = ty \<and> us_revokedAt r = None then revoke_row now reason r else r) = ty \<longrightarrow>
      us_revokedAt (if us_entityId r = e \<and> us_entityType r = ty \<and> us_revokedAt r = None then revoke_row now reason r else r) \<noteq> None"
    for r :: user_session
    by (cases "us_entityId r = e"; cases "us_entityType r = ty"; cases "us_revokedAt r") (simp_all add: revoke_row_def)
  then have "list_all (\<lambda>r. us_entityId r = e \<and> us_entityType r = ty \<longrightarrow> us_revokedAt r \<noteq> None)
      (map (\<lambda>r. if us_entityId r = e \<and> us_entityType r = ty \<and> us_revokedAt r = None then revoke_row now reason r else r) rs)" for rs
    by (induction rs) (simp_all del: not_None_eq)
  then show ?thesis unfolding revokeAllUserSessionRecords_def by (simp del: not_None_eq)
qed

lemma revokeMemberSessions_effect:
  "GETX now (tokens (revokeMemberSessions now aid reason s)) (refreshToken ''merchant'' aid sid) = None"
  "GETX now (marks (revokeMemberSessions now aid reason s)) (auth_cache ''merchant'' aid) = None"
  "list_all (\<lambda>r. us_entityId r = aid \<and> us_entityType r = ''merchant'' \<longrightarrow> us_revokedAt r \<noteq> None)
     (userSessions (revokeMemberSessions now aid reason s))"
proof -
  have "tokens (revokeMemberSessions now aid reason s) = tokens (revokeAllSessionsForEntity now ''merchant'' aid s)"
    "userSessions (revokeMemberSessions now aid reason s) =
       userSessions (revokeAllUserSessionRecords now aid ''merchant'' reason None (revokeAllSessionsForEntity now ''merchant'' aid s))"
    by (simp_all add: revokeMemberSessions_def Let_def revokeAllUserSessionRecords_def)
  then show "GETX now (tokens (revokeMemberSessions now aid reason s)) (refreshToken ''merchant'' aid sid) = None"
    "list_all (\<lambda>r. us_entityId r = aid \<and> us_entityType r = ''merchant'' \<longrightarrow> us_revokedAt r \<noteq> None)
       (userSessions (revokeMemberSessions now aid reason s))"
    using revokeAll_empties revoked_rows by auto
  show "GETX now (marks (revokeMemberSessions now aid reason s)) (auth_cache ''merchant'' aid) = None"
    by (simp add: revokeMemberSessions_def Let_def session_simps)
qed

lemma departure_writes:
  "ro_members (write_deactivation now a t s) = change_member (tm_id t) (\<lambda>m. m\<lparr>tm_status := U_INACTIVE\<rparr>) (ro_members s)"
  "ro_members (write_removal now a t s) = change_member (tm_id t) (\<lambda>m. m\<lparr>tm_status := U_DELETED\<rparr>) (ro_members s)"
  "ro_sessions (write_deactivation now a t s) = revokeMemberSessions now (tm_adminId t) ''MEMBER_DEACTIVATED'' (ro_sessions s)"
  "ro_sessions (write_removal now a t s) = revokeMemberSessions now (tm_adminId t) ''MEMBER_REMOVED'' (ro_sessions s)"
  "ro_db (write_deactivation now a t s) = ro_db s" "ro_claims (write_deactivation now a t s) = ro_claims s"
  by (simp_all add: write_deactivation_def write_removal_def)
    (simp_all add: end_sessions_def audit_staff_def clear_scope_def update_member_def)

text \<open>C14: a departure takes effect at once: when a member is deactivated or removed, the person behind the
  membership resolves to no merchant any more, none of their refresh tokens can be read, every session row of
  theirs is revoked, and the cached authorization is gone.\<close>

theorem departed_member_locked_out:
  assumes "staffRoutes pe on now a q s = Inr s'" and "q \<in> {Deactivate i, Remove i}" and "roster_ok s"
  shows "\<exists>m\<in>set (ro_members s). tm_id m = i \<and>
    resolveMerchantContext (view s') (tm_adminId m) = Inl INVALID_CREDENTIALS \<and>
    (\<forall>sid. GETX now (tokens (ro_sessions s')) (refreshToken ''merchant'' (tm_adminId m) sid) = None) \<and>
    list_all (\<lambda>r. us_entityId r = tm_adminId m \<and> us_entityType r = ''merchant'' \<longrightarrow> us_revokedAt r \<noteq> None)
      (userSessions (ro_sessions s')) \<and>
    GETX now (marks (ro_sessions s')) (auth_cache ''merchant'' (tm_adminId m)) = None"
proof -
  obtain ctx where h: "handle_staff pe on now a ctx q s = Inr s'" using assms(1) by (rule staffRoutes_Inr)
  then obtain t reason st where t: "check_departure s a i = Inr t" "st \<noteq> U_ACTIVE"
    "ro_members s' = change_member (tm_id t) (\<lambda>m. m\<lparr>tm_status := st\<rparr>) (ro_members s)"
    "ro_sessions s' = revokeMemberSessions now (tm_adminId t) reason (ro_sessions s)"
  proof -
    obtain t where "check_departure s a i = Inr t" "s' = write_deactivation now a t s \<or> s' = write_removal now a t s"
      using h assms(2) by (auto simp: deactivateMember_def removeMember_def)
    then show thesis using that[of t U_INACTIVE] that[of t U_DELETED] by (auto simp: departure_writes)
  qed
  have t': "t \<in> set (ro_members s)" "tm_id t = i" using check_departure_Inr[OF t(1)] by blast+
  have ok: "team_ok (ro_members s)" using assms(3) by (simp add: roster_ok_def)
  have "t\<lparr>tm_status := st\<rparr> \<in> set (ro_members s')" unfolding t(3) change_one[OF ok t'(1)] by simp
  then have "resolveMerchantContext (view s') (tm_adminId t) = Inl INVALID_CREDENTIALS"
    using inactive_unresolved[of s' "t\<lparr>tm_status := st\<rparr>"] ok t(2,3) by (simp add: team_ok_change)
  with t' t(4) revokeMemberSessions_effect show ?thesis by auto
qed

theorem departed_member_locked_out_witness:
  "\<exists>s'. staffRoutes Some True 0 ''a'' (Remove ''2'') two_owners = Inr s' \<and>
     resolveMerchantContext (view s') ''b'' = Inl INVALID_CREDENTIALS"
proof -
  obtain s' where s': "staffRoutes Some True 0 ''a'' (Remove ''2'') two_owners = Inr s'"
    using two_owners_call(1) by (auto simp: staffRoutes_def removeMember_def two_owners_departures)
  from departed_member_locked_out[OF s' _ two_owners_ok, of "''2''"] show ?thesis
    using s' by (auto simp: person_def)
qed





section \<open>Claim links\<close>

text \<open>C16: an account has one claim link at a time, and it works once: after any time-ordered history of staff requests
  and followed links, two links that both open the same account are the same link, so a newer invitation has
  replaced the older ones; and a link that has set a password is refused when it is followed again.\<close>

theorem one_claim_link_works_once:
  assumes "links_ok t (ro_claims s)" and "in_order event_ok (serve_roster pe hp on) t h s"
    and "t \<le> now" and "\<forall>e\<in>set h. fst e \<le> now"
    and "GETX now (ro_claims (run_roster pe hp on h s)) (merchantClaim link) = Some aid"
    and "GETX now (ro_claims (run_roster pe hp on h s)) (merchantClaim link') = Some aid"
    and "claimMerchantAccount hp now link pw (run_roster pe hp on h s) = (Inr (), s')" and "validatePasswordPolicy pw'"
  shows "link = link' \<and> claimMerchantAccount hp later link pw' s' = (Inl (MEMBER CLAIM_TOKEN_EXPIRED), s')"
proof -
  let ?s = "run_roster pe hp on h s"
  have "links_ok now (ro_claims ?s)"
    using links.inv_run[OF assms(1-4)] unfolding run_roster_def .
  then have "link = link'" using links_unique assms(5,6) by blast
  moreover have "map_of (ro_claims s') (merchantClaim link) = None"
    using assms(7) by (auto simp: claimMerchantAccount_def Let_def audit_staff_def session_simps split: if_splits option.splits)
  then have "claimMerchantAccount hp later link pw' s' = (Inl (MEMBER CLAIM_TOKEN_EXPIRED), s')"
    using assms(8) by (simp add: claimMerchantAccount_def GETX_def)
  ultimately show ?thesis ..
qed

text \<open>The second owner, who has not set a password, is sent a second link.\<close>

definition resent :: "(time \<times> roster_event) list" where
  "resent = [(0, Asks ''a'' (Resend ''2'' ''old'')), (1, Asks ''a'' (Resend ''2'' ''new''))]"

lemma view_resend [simp]: "view (issue now aid t (audit_staff m e a s)) = view s"
  by (simp add: view_def issue_def audit_staff_def as_membership_def scope_of_def fun_eq_iff)

lemma resend_call [simp]:
  "resolveCallerMerchant (issue now aid t (audit_staff m e b s)) a = resolveCallerMerchant s a"
  "ownerCtx (issue now aid t (audit_staff m e b s)) a = ownerCtx s a"
  by (simp_all add: resolveCallerMerchant_def ownerCtx_def)

lemma resent_state:
  "run_roster Some (\<lambda>p. p) True resent two_owners =
     issue 1 ''b'' ''new'' (audit_staff ''2'' ''MEMBER_INVITE_RESENT'' ''a''
       (issue 0 ''b'' ''old'' (audit_staff ''2'' ''MEMBER_INVITE_RESENT'' ''a'' two_owners)))"
proof -
  have target: "loadTarget s ''m'' ''2'' = Inr (person ''2'' ''b'' OWNER U_ACTIVE)"
    if "ro_members s = ro_members two_owners" for s
    using that by (simp add: loadTarget_def) (simp add: person_def)
  have unset: "admin_by_id s ''b'' = Some (account_of (person ''2'' ''b'' OWNER U_ACTIVE))"
    if "ro_admins s = ro_admins two_owners" for s
    using that by (simp add: admin_by_id_def two_owners_def sample_roster_def account_of_def person_def)
  obtain ctx where ctx: "ownerCtx two_owners ''a'' = Inr ctx" using two_owners_call(1) by blast
  have p: "tm_adminId (person ''2'' ''b'' OWNER U_ACTIVE) = ''b''" "tm_id (person ''2'' ''b'' OWNER U_ACTIVE) = ''2''"
    "aw_passwordHash (account_of (person ''2'' ''b'' OWNER U_ACTIVE)) = None"
    by (simp_all add: person_def account_of_def)
  show ?thesis
    by (simp add: run_roster_def resent_def serve_roster_def staffRoutes_def ctx resendInvite_def two_owners_call target
        unset p found_def guard_def)
qed

theorem one_claim_link_works_once_witness:
  "let s = run_roster Some (\<lambda>p. p) True resent two_owners in
     fst (claimMerchantAccount (\<lambda>p. p) 2 ''old'' ''Passw0rd!'' s) = Inl (MEMBER CLAIM_TOKEN_EXPIRED) \<and>
     (\<exists>s'. claimMerchantAccount (\<lambda>p. p) 2 ''new'' ''Passw0rd!'' s = (Inr (), s') \<and>
        claimMerchantAccount (\<lambda>p. p) 3 ''new'' ''Passw0rd!'' s' = (Inl (MEMBER CLAIM_TOKEN_EXPIRED), s'))"
proof -
  let ?s = "run_roster Some (\<lambda>p. p) True resent two_owners"
  have pw: "validatePasswordPolicy ''Passw0rd!''" by code_simp
  have g: "GETX 2 (ro_claims ?s) (merchantClaim ''new'') = Some ''b''" "GETX 2 (ro_claims ?s) (merchantClaim ''old'') = None"
    by (simp_all add: resent_state issueMerchantClaim_def Let_def GETX_def session_simps CLAIM_TTL_def)
  have adm: "list_ex (\<lambda>a. aw_id a = ''b'') (ro_admins ?s)"
    unfolding resent_state by (simp add: two_owners_def sample_roster_def account_of_def person_def)
  obtain s' where s': "claimMerchantAccount (\<lambda>p. p) 2 ''new'' ''Passw0rd!'' ?s = (Inr (), s')"
    by (simp add: claimMerchantAccount_def pw g adm Let_def)
  have ord: "in_order event_ok (serve_roster Some (\<lambda>p. p) True) 0 resent two_owners"
    by (simp add: resent_def event_ok_def new_ids_def)
  have "links_ok 0 (ro_claims two_owners)" by (simp add: links_ok_def)
  from one_claim_link_works_once[OF this ord, of 2 "''new''" "''b''" "''new''" "''Passw0rd!''" s' "''Passw0rd!''" 3]
  have "claimMerchantAccount (\<lambda>p. p) 3 ''new'' ''Passw0rd!'' s' = (Inl (MEMBER CLAIM_TOKEN_EXPIRED), s')"
    using s' pw g(1) by (simp add: resent_def)
  then show ?thesis using s' pw g(2) by (simp add: claimMerchantAccount_def)
qed

end
