(* ===== verification/Ladder.thy ===== *)
theory Ladder
  imports Trust Sms
begin

text \<open>
  Where a customer is and how far a branch is from there: \<open>src/api/lib/ladderProfiles.ts\<close>,
  \<open>effectiveLocation.ts\<close>, \<open>nearestLocality.ts\<close>, \<open>scope.ts\<close>, the classification of \<open>src/api/lib/ranking.ts\<close> and the
  resolvers of \<open>src/api/customer/discovery\<close>.

  As in \<open>Trust\<close>, what compares distances takes the distance as its argument \<open>metres\<close>. Radii are in miles and
  compared over the reals. The tables of the database are arguments.
\<close>

section \<open>Profiles and rungs\<close>

datatype ladder_profile = LOCAL_TIGHT | LOCAL_NORMAL | MIXED_NORMAL | DESTINATION_LOCAL | DESTINATION_WIDE

datatype density_class = URBAN | SUBURBAN | RURAL

datatype supply_rung = R_NEARBY | R_CATCHMENT | R_POST_TOWN | R_LAD | R_COUNTY | R_REGION | R_COUNTRY | R_NATIONAL

datatype proximity_band = B_NEARBY | B_IN_YOUR_AREA | B_A_LITTLE_FURTHER | B_NEAREST_ON_REDEEMO

datatype population_tier = P_UNKNOWN | P_HAMLET | P_VILLAGE | P_SMALL_TOWN | P_TOWN | P_LARGE_TOWN | P_CITY | P_METRO_CORE

datatype supply_tier = T_NEARBY | T_CITY | T_DISTANT

definition RUNG_ORDER :: "supply_rung list" where
  "RUNG_ORDER = [R_NEARBY, R_CATCHMENT, R_POST_TOWN, R_LAD, R_COUNTY, R_REGION, R_COUNTRY, R_NATIONAL]"

definition rungOrdinal :: "supply_rung \<Rightarrow> nat" where
  "rungOrdinal r = length (takeWhile (\<lambda>x. x \<noteq> r) RUNG_ORDER)"

fun per_density :: "'a \<Rightarrow> 'a \<Rightarrow> 'a \<Rightarrow> density_class \<Rightarrow> 'a" where
  "per_density u s r URBAN = u"
| "per_density u s r SUBURBAN = s"
| "per_density u s r RURAL = r"

fun getNearbyRadiusMiles :: "ladder_profile \<Rightarrow> density_class \<Rightarrow> real" where
  "getNearbyRadiusMiles LOCAL_TIGHT d = per_density (3 / 2) 4 7 d"
| "getNearbyRadiusMiles LOCAL_NORMAL d = per_density 3 6 10 d"
| "getNearbyRadiusMiles MIXED_NORMAL d = per_density 5 10 15 d"
| "getNearbyRadiusMiles DESTINATION_LOCAL d = per_density 8 15 20 d"
| "getNearbyRadiusMiles DESTINATION_WIDE d = per_density 15 25 35 d"

fun getMaxRung :: "ladder_profile \<Rightarrow> density_class \<Rightarrow> supply_rung" where
  "getMaxRung LOCAL_TIGHT d = per_density R_LAD R_COUNTY R_COUNTY d"
| "getMaxRung LOCAL_NORMAL d = per_density R_COUNTY R_COUNTY R_REGION d"
| "getMaxRung MIXED_NORMAL d = per_density R_REGION R_REGION R_COUNTRY d"
| "getMaxRung DESTINATION_LOCAL d = per_density R_COUNTRY R_COUNTRY R_NATIONAL d"
| "getMaxRung DESTINATION_WIDE d = R_NATIONAL"

fun getProximityBand :: "supply_rung \<Rightarrow> density_class \<Rightarrow> proximity_band" where
  "getProximityBand R_NEARBY d = B_NEARBY"
| "getProximityBand R_CATCHMENT d = B_IN_YOUR_AREA"
| "getProximityBand R_POST_TOWN d = B_IN_YOUR_AREA"
| "getProximityBand R_LAD d = per_density B_A_LITTLE_FURTHER B_IN_YOUR_AREA B_IN_YOUR_AREA d"
| "getProximityBand R_COUNTY d = per_density B_NEAREST_ON_REDEEMO B_A_LITTLE_FURTHER B_A_LITTLE_FURTHER d"
| "getProximityBand R_REGION d = per_density B_NEAREST_ON_REDEEMO B_NEAREST_ON_REDEEMO B_A_LITTLE_FURTHER d"
| "getProximityBand R_COUNTRY d = B_NEAREST_ON_REDEEMO"
| "getProximityBand R_NATIONAL d = B_NEAREST_ON_REDEEMO"

fun deriveDensityClass :: "population_tier \<Rightarrow> density_class" where
  "deriveDensityClass P_METRO_CORE = URBAN"
| "deriveDensityClass P_CITY = URBAN"
| "deriveDensityClass P_LARGE_TOWN = SUBURBAN"
| "deriveDensityClass P_TOWN = SUBURBAN"
| "deriveDensityClass _ = RURAL"

definition mapRungToLegacyTier :: "supply_rung \<Rightarrow> supply_tier" where
  "mapRungToLegacyTier rung =
     (if rung = R_NEARBY then T_NEARBY else if rung = R_CATCHMENT \<or> rung = R_POST_TOWN then T_CITY else T_DISTANT)"

text \<open>Bounds in metres.\<close>

definition deriveProximityBandFromDistance :: "real option \<Rightarrow> proximity_band option" where
  "deriveProximityBandFromDistance distanceMetres =
     (case distanceMetres of
        None \<Rightarrow> None
      | Some d \<Rightarrow> if d < 12875 then Some B_IN_YOUR_AREA else if d < 40234 then Some B_A_LITTLE_FURTHER
                  else Some B_NEAREST_ON_REDEEMO)"

section \<open>Where the customer is\<close>

record place =
  pl_id :: ident
  pl_postTown :: "string option"
  pl_ladDistrict :: string
  pl_adminCounty :: "string option"
  pl_region :: "string option"
  pl_country :: string
  pl_center :: point
  pl_populationTier :: population_tier

datatype location_source = GPS | SAVED_PROFILE | PLACE_QUERY

record effective_location =
  ef_at :: point
  ef_locality :: place
  ef_densityClass :: density_class
  ef_source :: location_source

text \<open>The candidates are those whose centre lies within 0.3 degrees; of equally near ones the first wins.\<close>

definition in_bbox :: "point \<Rightarrow> place \<Rightarrow> bool" where
  "in_bbox here p \<longleftrightarrow> \<bar>degrees (fst (pl_center p)) - degrees (fst here)\<bar> \<le> 3 / 10 \<and>
     \<bar>degrees (snd (pl_center p)) - degrees (snd here)\<bar> \<le> 3 / 10"

fun nearer :: "(point \<Rightarrow> point \<Rightarrow> real) \<Rightarrow> point \<Rightarrow> place \<Rightarrow> place list \<Rightarrow> place" where
  "nearer metres here best [] = best"
| "nearer metres here best (c # cs) =
     (if metres here (pl_center c) < metres here (pl_center best) then nearer metres here c cs else nearer metres here best cs)"

definition findNearestLocality :: "(point \<Rightarrow> point \<Rightarrow> real) \<Rightarrow> place list \<Rightarrow> point \<Rightarrow> place option" where
  "findNearestLocality metres places here =
     (case filter (in_bbox here) places of [] \<Rightarrow> None | best # cs \<Rightarrow> Some (nearer metres here best cs))"

definition located_at :: "point \<Rightarrow> place \<Rightarrow> location_source \<Rightarrow> effective_location" where
  "located_at here p src =
     \<lparr>ef_at = here, ef_locality = p, ef_densityClass = deriveDensityClass (pl_populationTier p), ef_source = src\<rparr>"

text \<open>The saved profile of a signed-in customer: the locality, the latitude and the longitude, each of which may be missing.\<close>

definition resolveEffectiveLocation ::
  "(point \<Rightarrow> point \<Rightarrow> real) \<Rightarrow> place list \<Rightarrow> place option \<Rightarrow> decimal option \<times> decimal option
     \<Rightarrow> (place option \<times> decimal option \<times> decimal option) option \<Rightarrow> effective_location option" where
  "resolveEffectiveLocation metres places placeLocality gps profile =
     (case placeLocality of
        Some p \<Rightarrow> Some (located_at (pl_center p) p PLACE_QUERY)
      | None \<Rightarrow>
        (case gps of
           (Some lat, Some lng) \<Rightarrow>
             map_option (\<lambda>p. located_at (lat, lng) p GPS) (findNearestLocality metres places (lat, lng))
         | _ \<Rightarrow>
           (case profile of
              Some (Some p, Some lat, Some lng) \<Rightarrow> Some (located_at (lat, lng) p SAVED_PROFILE)
            | _ \<Rightarrow> None)))"

datatype scope = S_nearby | S_city | S_region | S_platform

record resolved_scope =
  rs_scope :: scope
  rs_resolvedArea :: string
  rs_radiusMiles :: "int option"

definition resolveScope :: "scope option \<Rightarrow> decimal option \<Rightarrow> decimal option \<Rightarrow> string option \<Rightarrow> resolved_scope" where
  "resolveScope sc lat lng profileCity =
     (let requested = (case sc of None \<Rightarrow> S_nearby | Some x \<Rightarrow> x)
      in if lat = None \<or> lng = None then
           (if truthy profileCity
            then \<lparr>rs_scope = S_city, rs_resolvedArea = the profileCity, rs_radiusMiles = None\<rparr>
            else \<lparr>rs_scope = S_platform, rs_resolvedArea = ''United Kingdom'', rs_radiusMiles = None\<rparr>)
         else (case requested of
             S_nearby \<Rightarrow> \<lparr>rs_scope = S_nearby, rs_resolvedArea = ''Nearby'', rs_radiusMiles = Some 2\<rparr>
           | S_city \<Rightarrow> \<lparr>rs_scope = S_city,
               rs_resolvedArea = (case profileCity of None \<Rightarrow> ''Your city'' | Some c \<Rightarrow> c), rs_radiusMiles = None\<rparr>
           | S_region \<Rightarrow> \<lparr>rs_scope = S_region, rs_resolvedArea = ''Wider area'', rs_radiusMiles = Some 25\<rparr>
           | S_platform \<Rightarrow> \<lparr>rs_scope = S_platform, rs_resolvedArea = ''United Kingdom'', rs_radiusMiles = None\<rparr>))"

section \<open>How far a branch is\<close>

record rankable_branch =
  rb_id :: ident
  rb_latitude :: "decimal option"
  rb_longitude :: "decimal option"
  rb_isActive :: bool
  rb_locationConfidence :: string
  rb_localityId :: "ident option"
  rb_postTown :: "string option"
  rb_ladDistrict :: "string option"
  rb_adminCounty :: "string option"
  rb_region :: "string option"
  rb_locationCountry :: "string option"

definition distance_to :: "(point \<Rightarrow> point \<Rightarrow> real) \<Rightarrow> point \<Rightarrow> decimal option \<Rightarrow> decimal option \<Rightarrow> real option" where
  "distance_to metres here lat lng =
     (case (lat, lng) of (Some x, Some y) \<Rightarrow> Some (metres here (x, y)) | _ \<Rightarrow> None)"

abbreviation branch_distance :: "(point \<Rightarrow> point \<Rightarrow> real) \<Rightarrow> point \<Rightarrow> 'a rankable_branch_scheme \<Rightarrow> real option" where
  "branch_distance metres here b \<equiv> distance_to metres here (rb_latitude b) (rb_longitude b)"

definition MILES_TO_METRES :: real where "MILES_TO_METRES = 1609344 / 1000"

definition classifyRung ::
  "(point \<Rightarrow> point \<Rightarrow> real) \<Rightarrow> 'a rankable_branch_scheme \<Rightarrow> effective_location \<Rightarrow> real \<Rightarrow> ident list \<Rightarrow> supply_rung option" where
  "classifyRung metres branch effLoc nearbyRadiusMiles outgoingCatchmentTargetIds =
     (let locality = ef_locality effLoc in
      if \<not> rb_isActive branch then None
      else if \<not> location_confirmed (rb_locationConfidence branch) then None
      else if (case branch_distance metres (ef_at effLoc) branch of
                 None \<Rightarrow> False | Some d \<Rightarrow> d \<le> nearbyRadiusMiles * MILES_TO_METRES) then Some R_NEARBY
      else if truthy (rb_localityId branch) \<and> (rb_localityId branch = Some (pl_id locality) \<or>
              the (rb_localityId branch) \<in> set outgoingCatchmentTargetIds) then Some R_CATCHMENT
      else if truthy (rb_postTown branch) \<and> truthy (pl_postTown locality) \<and> rb_postTown branch = pl_postTown locality
        then Some R_POST_TOWN
      else if truthy (rb_ladDistrict branch) \<and> rb_ladDistrict branch = Some (pl_ladDistrict locality) then Some R_LAD
      else if truthy (rb_adminCounty branch) \<and> truthy (pl_adminCounty locality) \<and>
              rb_adminCounty branch = pl_adminCounty locality then Some R_COUNTY
      else if truthy (rb_region branch) \<and> truthy (pl_region locality) \<and> rb_region branch = pl_region locality
        then Some R_REGION
      else if truthy (rb_locationCountry branch) \<and> rb_locationCountry branch = Some (pl_country locality)
        then Some R_COUNTRY
      else Some R_NATIONAL)"

section \<open>Which branch of a merchant is shown\<close>

record resolvable_branch =
  re_id :: ident
  re_isActive :: bool
  re_isMainBranch :: bool
  re_lifecycleStatus :: "string option"
  re_latitude :: "decimal option"
  re_longitude :: "decimal option"
  re_createdAt :: time

datatype fallback_reason = Used_candidate | Candidate_inactive | Candidate_not_found | No_candidate | All_suspended

definition isSelectable :: "resolvable_branch \<Rightarrow> bool" where
  "isSelectable b \<longleftrightarrow> re_lifecycleStatus b \<noteq> Some ''PENDING_CREATE''"

text \<open>The search starts from \<open>Infinity\<close>, here \<open>None\<close>.\<close>

fun nearest_branch ::
  "(point \<Rightarrow> point \<Rightarrow> real) \<Rightarrow> point \<Rightarrow> (resolvable_branch \<times> real) option \<Rightarrow> resolvable_branch list
     \<Rightarrow> (resolvable_branch \<times> real) option" where
  "nearest_branch metres here best [] = best"
| "nearest_branch metres here best (b # bs) =
     (case distance_to metres here (re_latitude b) (re_longitude b) of
        None \<Rightarrow> nearest_branch metres here best bs
      | Some d \<Rightarrow>
          if (case best of None \<Rightarrow> True | Some (_, e) \<Rightarrow> d < e) then nearest_branch metres here (Some (b, d)) bs
          else nearest_branch metres here best bs)"

definition pickColdOpen ::
  "(point \<Rightarrow> point \<Rightarrow> real) \<Rightarrow> resolvable_branch list \<Rightarrow> decimal option \<Rightarrow> decimal option \<Rightarrow> ident option" where
  "pickColdOpen metres branches lat lng =
     (let active = filter (\<lambda>b. re_isActive b \<and> isSelectable b) branches in
      if active = [] then None
      else (case (case (lat, lng) of (Some x, Some y) \<Rightarrow> nearest_branch metres (x, y) None active | _ \<Rightarrow> None) of
              Some (b, _) \<Rightarrow> Some (re_id b)
            | None \<Rightarrow>
              (case List.find re_isMainBranch active of
                 Some b \<Rightarrow> Some (re_id b)
               | None \<Rightarrow> (case sort_key re_createdAt active of [] \<Rightarrow> None | b # _ \<Rightarrow> Some (re_id b)))))"

definition resolveSelectedBranch ::
  "(point \<Rightarrow> point \<Rightarrow> real) \<Rightarrow> resolvable_branch list \<Rightarrow> ident option \<Rightarrow> decimal option \<Rightarrow> decimal option
     \<Rightarrow> ident option \<times> fallback_reason" where
  "resolveSelectedBranch metres branches candidateBranchId lat lng =
     (let fallback = (\<lambda>reason. case pickColdOpen metres branches lat lng of
                        None \<Rightarrow> (None, All_suspended) | Some i \<Rightarrow> (Some i, reason))
      in if truthy candidateBranchId then
           (case List.find (\<lambda>b. re_id b = the candidateBranchId \<and> isSelectable b) branches of
              None \<Rightarrow> fallback Candidate_not_found
            | Some found \<Rightarrow>
                if \<not> re_isActive found then fallback Candidate_inactive else (candidateBranchId, Used_candidate))
         else fallback No_candidate)"

end
