(* ===== verification/Ranking.thy ===== *)
theory Ranking
  imports Ladder "HOL-Library.AList"
begin

text \<open>
  \<open>src/api/lib/ranking.ts\<close>: the order in which discovery lists merchants and branches. \<open>rankMerchants\<close> is the
  legacy order by tier, \<open>rankMerchantsV2\<close> collapses a merchant to one branch, \<open>rankBranchesV3\<close> lists branches.

  \<open>Array.prototype.sort\<close> is a stable sort by a comparator, which is modelled by its sign; \<open>js_sort\<close> is the
  stable insertion sort, and \<open>comparison\<close> is the contract under which every stable sort gives the same list.
  \<open>collate\<close> is \<open>localeCompare\<close>. A missing coordinate has no distance: \<open>Infinity\<close> in the comparators, so the
  difference of two missing ones is \<open>NaN\<close>, which a sort reads as equal.
\<close>

section \<open>Sorting\<close>

fun insort_by :: "('a \<Rightarrow> 'a \<Rightarrow> int) \<Rightarrow> 'a \<Rightarrow> 'a list \<Rightarrow> 'a list" where
  "insort_by cmp x [] = [x]"
| "insort_by cmp x (y # ys) = (if cmp x y \<le> 0 then x # y # ys else y # insort_by cmp x ys)"

definition js_sort :: "('a \<Rightarrow> 'a \<Rightarrow> int) \<Rightarrow> 'a list \<Rightarrow> 'a list" where
  "js_sort cmp xs = foldr (insort_by cmp) xs []"

definition real_sign :: "real \<Rightarrow> int" where
  "real_sign d = (if d < 0 then -1 else if 0 < d then 1 else 0)"

text \<open>The difference of two distances, \<open>None\<close> being \<open>NaN\<close>.\<close>

definition distance_diff :: "real option \<Rightarrow> real option \<Rightarrow> int option" where
  "distance_diff a b =
     (case (a, b) of
        (Some x, Some y) \<Rightarrow> Some (real_sign (x - y))
      | (Some x, None) \<Rightarrow> Some (-1) | (None, Some y) \<Rightarrow> Some 1 | (None, None) \<Rightarrow> None)"

definition MIN_REVIEW_COUNT_FOR_RATING_SORT :: int where "MIN_REVIEW_COUNT_FOR_RATING_SORT = 3"

text \<open>What the comparators read of a merchant.\<close>

record rated_merchant =
  rt_id :: ident
  rt_businessName :: string
  rt_avgRating :: "real option"
  rt_reviewCount :: int

definition rating_of :: "real option \<Rightarrow> real" where
  "rating_of r = (case r of None \<Rightarrow> 0 | Some x \<Rightarrow> x)"

definition qualityComparator ::
  "(string \<Rightarrow> string \<Rightarrow> int) \<Rightarrow> 'a rated_merchant_scheme \<Rightarrow> 'a rated_merchant_scheme \<Rightarrow> int" where
  "qualityComparator collate a b =
     (let aRated = (MIN_REVIEW_COUNT_FOR_RATING_SORT \<le> rt_reviewCount a);
          bRated = (MIN_REVIEW_COUNT_FOR_RATING_SORT \<le> rt_reviewCount b)
      in if aRated \<and> bRated then real_sign (rating_of (rt_avgRating b) - rating_of (rt_avgRating a))
         else if aRated then -1 else if bRated then 1
         else collate (rt_businessName a) (rt_businessName b))"

section \<open>The order by tier\<close>

datatype intent = LOCAL | DESTINATION | MIXED

definition resolveCategoryIntent :: "intent option \<Rightarrow> intent option option \<Rightarrow> intent" where
  "resolveCategoryIntent own parent =
     (case own of Some i \<Rightarrow> i | None \<Rightarrow> (case parent of Some (Some i) \<Rightarrow> i | _ \<Rightarrow> LOCAL))"

record tier_branch =
  tb_isActive :: bool
  tb_city :: string
  tb_latitude :: "decimal option"
  tb_longitude :: "decimal option"

record tier_merchant = rated_merchant +
  tr_branches :: "tier_branch list"

record tier_context =
  tc_userAt :: "decimal option \<times> decimal option"
  tc_profileCity :: "string option"
  tc_intentType :: intent

definition js_lower :: "char \<Rightarrow> char" where
  "js_lower c = (let n = of_char c :: nat in if 65 \<le> n \<and> n \<le> 90 then char_of (n + 32) else c)"

definition NEARBY_RADIUS_METRES :: real where "NEARBY_RADIUS_METRES = 2 * (160934 / 100)"

definition user_distance :: "(point \<Rightarrow> point \<Rightarrow> real) \<Rightarrow> tier_context \<Rightarrow> tier_branch \<Rightarrow> real option" where
  "user_distance metres ctx b =
     (case tc_userAt ctx of
        (Some lat, Some lng) \<Rightarrow> distance_to metres (lat, lng) (tb_latitude b) (tb_longitude b) | _ \<Rightarrow> None)"

definition classifyTier :: "(point \<Rightarrow> point \<Rightarrow> real) \<Rightarrow> tier_branch list \<Rightarrow> tier_context \<Rightarrow> supply_tier" where
  "classifyTier metres bs ctx =
     (let activeBranches = filter tb_isActive bs in
      if list_ex (\<lambda>b. case user_distance metres ctx b of None \<Rightarrow> False | Some d \<Rightarrow> d \<le> NEARBY_RADIUS_METRES) activeBranches
        then T_NEARBY
      else if truthy (tc_profileCity ctx) \<and>
              list_ex (\<lambda>b. map js_lower (tb_city b) = map js_lower (the (tc_profileCity ctx))) activeBranches then T_CITY
      else T_DISTANT)"

fun least_distance :: "real option \<Rightarrow> real option list \<Rightarrow> real option" where
  "least_distance m [] = m"
| "least_distance m (None # ds) = least_distance m ds"
| "least_distance m (Some d # ds) =
     least_distance (case m of None \<Rightarrow> Some d | Some e \<Rightarrow> if d < e then Some d else Some e) ds"

definition nearestDistanceMetres :: "(point \<Rightarrow> point \<Rightarrow> real) \<Rightarrow> tier_branch list \<Rightarrow> tier_context \<Rightarrow> real option" where
  "nearestDistanceMetres metres bs ctx = least_distance None (map (user_distance metres ctx) (filter tb_isActive bs))"

record ranked_merchant = tier_merchant +
  rm_supplyTier :: supply_tier
  rm_distanceMetres :: "real option"

definition tag_merchant :: "(point \<Rightarrow> point \<Rightarrow> real) \<Rightarrow> tier_context \<Rightarrow> tier_merchant \<Rightarrow> ranked_merchant" where
  "tag_merchant metres ctx m = tier_merchant.extend m
     (ranked_merchant.fields (classifyTier metres (tr_branches m) ctx) (nearestDistanceMetres metres (tr_branches m) ctx))"

definition by_name :: "(string \<Rightarrow> string \<Rightarrow> int) \<Rightarrow> 'a rated_merchant_scheme \<Rightarrow> 'a rated_merchant_scheme \<Rightarrow> int" where
  "by_name collate a b = collate (rt_businessName a) (rt_businessName b)"

definition nan_equal :: "int option \<Rightarrow> int" where
  "nan_equal d = (case d of None \<Rightarrow> 0 | Some x \<Rightarrow> x)"

definition by_distance :: "ranked_merchant \<Rightarrow> ranked_merchant \<Rightarrow> int" where
  "by_distance a b = nan_equal (distance_diff (rm_distanceMetres a) (rm_distanceMetres b))"

definition rankMerchants ::
  "(point \<Rightarrow> point \<Rightarrow> real) \<Rightarrow> (string \<Rightarrow> string \<Rightarrow> int) \<Rightarrow> tier_merchant list \<Rightarrow> tier_context
     \<Rightarrow> ranked_merchant list \<times> (nat \<times> nat \<times> nat)" where
  "rankMerchants metres collate ms ctx =
     (let tagged = map (tag_merchant metres ctx) ms;
          tier = (\<lambda>t. filter (\<lambda>m. rm_supplyTier m = t) tagged);
          nearby = js_sort by_distance (tier T_NEARBY);
          ordered = (case tc_intentType ctx of
              LOCAL \<Rightarrow> nearby @ js_sort (by_name collate) (tier T_CITY) @ js_sort (by_name collate) (tier T_DISTANT)
            | DESTINATION \<Rightarrow> nearby @ js_sort (qualityComparator collate) (tier T_CITY @ tier T_DISTANT)
            | MIXED \<Rightarrow> nearby @ js_sort (by_name collate) (tier T_CITY) @ js_sort (qualityComparator collate) (tier T_DISTANT))
      in (ordered, length (tier T_NEARBY), length (tier T_CITY), length (tier T_DISTANT)))"

section \<open>The walk over the rungs\<close>

type_synonym rung_counts = "supply_rung \<Rightarrow> nat"

text \<open>\<open>for (const e of sorted)\<close> with the cap.\<close>

fun push_capped :: "('c \<Rightarrow> supply_rung) \<Rightarrow> int \<Rightarrow> 'c list \<Rightarrow> 'c list \<times> rung_counts \<Rightarrow> 'c list \<times> rung_counts" where
  "push_capped rung_of cap [] acc = acc"
| "push_capped rung_of cap (e # es) (tiles, counts) =
     (if cap \<le> int (length tiles) then (tiles, counts)
      else push_capped rung_of cap es (tiles @ [e], counts(rung_of e := counts (rung_of e) + 1)))"

text \<open>\<open>for (const rung of RUNG_ORDER)\<close> with its three exits.\<close>

fun walk_rungs ::
  "('c \<Rightarrow> supply_rung) \<Rightarrow> (supply_rung \<Rightarrow> 'c list) \<Rightarrow> nat \<Rightarrow> int \<Rightarrow> int \<Rightarrow> supply_rung list \<Rightarrow> bool
     \<Rightarrow> 'c list \<times> rung_counts \<Rightarrow> 'c list \<times> rung_counts" where
  "walk_rungs rung_of sorted_in maxOrdinal targetCount hardCap [] nearbyEvaluated acc = acc"
| "walk_rungs rung_of sorted_in maxOrdinal targetCount hardCap (rung # rungs) nearbyEvaluated acc =
     (if maxOrdinal < rungOrdinal rung then acc
      else
        (let acc' = push_capped rung_of hardCap (sorted_in rung) acc;
             evaluated = (nearbyEvaluated \<or> rung = R_NEARBY)
         in if targetCount \<le> int (length (fst acc')) \<and> evaluated then acc'
            else if hardCap \<le> int (length (fst acc')) then acc'
            else walk_rungs rung_of sorted_in maxOrdinal targetCount hardCap rungs evaluated acc'))"

record rank_input =
  ri_effLoc :: effective_location
  ri_ladderProfile :: ladder_profile
  ri_outgoing :: "ident list"
  ri_categoryIntent :: intent
  ri_targetCount :: int
  ri_hardCap :: int

text \<open>The rung of a branch, unless it is not discoverable or beyond the last rung of the profile.\<close>

definition max_ordinal :: "'b rank_input_scheme \<Rightarrow> nat" where
  "max_ordinal inp = rungOrdinal (getMaxRung (ri_ladderProfile inp) (ef_densityClass (ri_effLoc inp)))"

definition rung_for ::
  "(point \<Rightarrow> point \<Rightarrow> real) \<Rightarrow> 'b rank_input_scheme \<Rightarrow> 'a rankable_branch_scheme \<Rightarrow> supply_rung option" where
  "rung_for metres inp b =
     (case classifyRung metres b (ri_effLoc inp)
             (getNearbyRadiusMiles (ri_ladderProfile inp) (ef_densityClass (ri_effLoc inp))) (ri_outgoing inp) of
        None \<Rightarrow> None
      | Some r \<Rightarrow> if max_ordinal inp < rungOrdinal r then None else Some r)"

section \<open>One branch for each merchant\<close>

record rankable_merchant = rated_merchant +
  rk_branches :: "rankable_branch list"

type_synonym matched = "rankable_branch \<times> supply_rung"

definition compare_context ::
  "(point \<Rightarrow> point \<Rightarrow> real) \<Rightarrow> (string \<Rightarrow> string \<Rightarrow> int) \<Rightarrow> point \<Rightarrow> matched \<Rightarrow> matched \<Rightarrow> int" where
  "compare_context metres collate here a b =
     (let ra = int (rungOrdinal (snd a)); rb = int (rungOrdinal (snd b));
          da = branch_distance metres here (fst a); db = branch_distance metres here (fst b)
      in if ra \<noteq> rb then ra - rb
         else if da \<noteq> db then nan_equal (distance_diff da db)
         else collate (rb_id (fst a)) (rb_id (fst b)))"

definition selectContextBranch ::
  "(point \<Rightarrow> point \<Rightarrow> real) \<Rightarrow> (string \<Rightarrow> string \<Rightarrow> int) \<Rightarrow> matched list \<Rightarrow> effective_location \<Rightarrow> matched" where
  "selectContextBranch metres collate bs effLoc = hd (js_sort (compare_context metres collate (ef_at effLoc)) bs)"

record merchant_entry = rated_merchant +
  me_context :: matched

text \<open>The insertion-ordered map from merchants to their candidates.\<close>

definition add_candidate :: "ident \<Rightarrow> matched \<Rightarrow> (ident \<times> matched list) list \<Rightarrow> (ident \<times> matched list) list" where
  "add_candidate mid c m = AList.update mid ((case map_of m mid of None \<Rightarrow> [] | Some bucket \<Rightarrow> bucket) @ [c]) m"

definition candidates ::
  "(point \<Rightarrow> point \<Rightarrow> real) \<Rightarrow> 'b rank_input_scheme \<Rightarrow> rankable_merchant list \<Rightarrow> (ident \<times> matched list) list" where
  "candidates metres inp ms =
     fold (\<lambda>m. fold (\<lambda>b acc. case rung_for metres inp b of None \<Rightarrow> acc | Some r \<Rightarrow> add_candidate (rt_id m) (b, r) acc)
                 (rk_branches m)) ms []"

text \<open>\<open>new Map(merchants.map(...))\<close>: of merchants with the same id the last one counts.\<close>

definition entries_of ::
  "(point \<Rightarrow> point \<Rightarrow> real) \<Rightarrow> (string \<Rightarrow> string \<Rightarrow> int) \<Rightarrow> 'b rank_input_scheme \<Rightarrow> rankable_merchant list \<Rightarrow> merchant_entry list" where
  "entries_of metres collate inp ms =
     List.map_filter (\<lambda>(mid, bs).
       map_option (\<lambda>m. rated_merchant.extend (rated_merchant.truncate m)
           (merchant_entry.fields (selectContextBranch metres collate bs (ri_effLoc inp))))
         (List.find (\<lambda>m. rt_id m = mid) (rev ms)))
       (candidates metres inp ms)"

definition entry_distance :: "(point \<Rightarrow> point \<Rightarrow> real) \<Rightarrow> point \<Rightarrow> merchant_entry \<Rightarrow> real option" where
  "entry_distance metres here e = branch_distance metres here (fst (me_context e))"

definition distanceComparator :: "(point \<Rightarrow> point \<Rightarrow> real) \<Rightarrow> point \<Rightarrow> merchant_entry \<Rightarrow> merchant_entry \<Rightarrow> int option" where
  "distanceComparator metres here a b = distance_diff (entry_distance metres here a) (entry_distance metres here b)"

definition nearest_then_name ::
  "(point \<Rightarrow> point \<Rightarrow> real) \<Rightarrow> (string \<Rightarrow> string \<Rightarrow> int) \<Rightarrow> point \<Rightarrow> merchant_entry \<Rightarrow> merchant_entry \<Rightarrow> int" where
  "nearest_then_name metres collate here a b =
     (let d = distanceComparator metres here a b in if d \<noteq> Some 0 then nan_equal d else by_name collate a b)"

definition sort_entries ::
  "(point \<Rightarrow> point \<Rightarrow> real) \<Rightarrow> (string \<Rightarrow> string \<Rightarrow> int) \<Rightarrow> 'b rank_input_scheme \<Rightarrow> supply_rung \<Rightarrow> merchant_entry list \<Rightarrow> merchant_entry list" where
  "sort_entries metres collate inp rung arr =
     (case ri_categoryIntent inp of
        LOCAL \<Rightarrow> js_sort (nearest_then_name metres collate (ef_at (ri_effLoc inp))) arr
      | DESTINATION \<Rightarrow> js_sort (qualityComparator collate) arr
      | MIXED \<Rightarrow> if rung = R_NEARBY then js_sort (nearest_then_name metres collate (ef_at (ri_effLoc inp))) arr
                 else js_sort (qualityComparator collate) arr)"

record ranked_tile =
  tl_merchantId :: ident
  tl_businessName :: string
  tl_supplyRung :: supply_rung
  tl_supplyTier :: supply_tier
  tl_proximityBand :: proximity_band
  tl_distanceMetres :: "real option"
  tl_branchId :: ident   \<comment> \<open>the context branch, or the branch that is the tile\<close>

definition tile_at :: "density_class \<Rightarrow> ident \<Rightarrow> string \<Rightarrow> supply_rung \<Rightarrow> real option \<Rightarrow> ident \<Rightarrow> ranked_tile" where
  "tile_at density mid name rung distance bid =
     \<lparr>tl_merchantId = mid, tl_businessName = name, tl_supplyRung = rung, tl_supplyTier = mapRungToLegacyTier rung,
      tl_proximityBand = getProximityBand rung density, tl_distanceMetres = distance, tl_branchId = bid\<rparr>"

definition tile_of_entry :: "(point \<Rightarrow> point \<Rightarrow> real) \<Rightarrow> effective_location \<Rightarrow> merchant_entry \<Rightarrow> ranked_tile" where
  "tile_of_entry metres effLoc e = tile_at (ef_densityClass effLoc) (rt_id e) (rt_businessName e) (snd (me_context e))
     (entry_distance metres (ef_at effLoc) e) (rb_id (fst (me_context e)))"

definition rankMerchantsV2 ::
  "(point \<Rightarrow> point \<Rightarrow> real) \<Rightarrow> (string \<Rightarrow> string \<Rightarrow> int) \<Rightarrow> rankable_merchant list \<Rightarrow> rank_input
     \<Rightarrow> ranked_tile list \<times> rung_counts" where
  "rankMerchantsV2 metres collate ms inp =
     (let entries = entries_of metres collate inp ms;
          byRung = (\<lambda>r. filter (\<lambda>e. snd (me_context e) = r) entries)
      in case walk_rungs (\<lambda>e. snd (me_context e)) (\<lambda>r. sort_entries metres collate inp r (byRung r)) (max_ordinal inp)
                (ri_targetCount inp) (ri_hardCap inp) RUNG_ORDER False ([], \<lambda>_. 0) of
           (es, rungCounts) \<Rightarrow> (map (tile_of_entry metres (ri_effLoc inp)) es, rungCounts))"

section \<open>Every branch for itself\<close>

record rankable_input = rankable_branch +
  rn_merchantId :: ident
  rn_merchant :: rated_merchant

record collected =
  cd_branch :: rankable_input
  cd_rung :: supply_rung
  cd_distance :: "real option"

definition compareDistance :: "(string \<Rightarrow> string \<Rightarrow> int) \<Rightarrow> collected \<Rightarrow> collected \<Rightarrow> int" where
  "compareDistance collate a b =
     (if cd_distance a \<noteq> cd_distance b then nan_equal (distance_diff (cd_distance a) (cd_distance b))
      else (let nameCmp = by_name collate (rn_merchant (cd_branch a)) (rn_merchant (cd_branch b))
            in if nameCmp \<noteq> 0 then nameCmp else collate (rb_id (cd_branch a)) (rb_id (cd_branch b))))"

definition compareQuality :: "(string \<Rightarrow> string \<Rightarrow> int) \<Rightarrow> collected \<Rightarrow> collected \<Rightarrow> int" where
  "compareQuality collate a b =
     (let ma = rn_merchant (cd_branch a); mb = rn_merchant (cd_branch b);
          aRated = (MIN_REVIEW_COUNT_FOR_RATING_SORT \<le> rt_reviewCount ma);
          bRated = (MIN_REVIEW_COUNT_FOR_RATING_SORT \<le> rt_reviewCount mb);
          d = real_sign (rating_of (rt_avgRating mb) - rating_of (rt_avgRating ma))
      in if aRated \<and> bRated then (if d \<noteq> 0 then d else compareDistance collate a b)
         else if aRated then -1 else if bRated then 1 else compareDistance collate a b)"

definition comparePopularity :: "(string \<Rightarrow> string \<Rightarrow> int) \<Rightarrow> (ident \<rightharpoonup> int) \<Rightarrow> collected \<Rightarrow> collected \<Rightarrow> int" where
  "comparePopularity collate popularityMap a b =
     (let score = (\<lambda>c. case popularityMap (rn_merchantId (cd_branch c)) of None \<Rightarrow> 0 | Some n \<Rightarrow> n)
      in if score a \<noteq> score b then score b - score a else compareDistance collate a b)"

datatype sort_by = By_distance | By_quality | By_popularity

record rank_input_v3 = rank_input +
  ri_sortBy :: "sort_by option"
  ri_popularityMap :: "(ident \<rightharpoonup> int) option"

definition comparator_in :: "(string \<Rightarrow> string \<Rightarrow> int) \<Rightarrow> rank_input_v3 \<Rightarrow> supply_rung \<Rightarrow> collected \<Rightarrow> collected \<Rightarrow> int" where
  "comparator_in collate inp rung =
     (case (ri_sortBy inp, ri_popularityMap inp) of
        (Some By_popularity, Some popularityMap) \<Rightarrow> comparePopularity collate popularityMap
      | (Some By_distance, _) \<Rightarrow> compareDistance collate
      | (Some By_quality, _) \<Rightarrow> compareQuality collate
      | _ \<Rightarrow> (case ri_categoryIntent inp of
                LOCAL \<Rightarrow> compareDistance collate
              | DESTINATION \<Rightarrow> compareQuality collate
              | MIXED \<Rightarrow> if rung = R_NEARBY then compareDistance collate else compareQuality collate))"

definition collect :: "(point \<Rightarrow> point \<Rightarrow> real) \<Rightarrow> rank_input_v3 \<Rightarrow> rankable_input list \<Rightarrow> collected list" where
  "collect metres inp bs =
     List.map_filter (\<lambda>b. map_option (\<lambda>r. \<lparr>cd_branch = b, cd_rung = r,
         cd_distance = branch_distance metres (ef_at (ri_effLoc inp)) b\<rparr>) (rung_for metres inp b)) bs"

definition tile_of_branch :: "effective_location \<Rightarrow> collected \<Rightarrow> ranked_tile" where
  "tile_of_branch effLoc c = tile_at (ef_densityClass effLoc) (rn_merchantId (cd_branch c))
     (rt_businessName (rn_merchant (cd_branch c))) (cd_rung c) (cd_distance c) (rb_id (cd_branch c))"

text \<open>A popularity order without the map is the caller's mistake: the sort of the first rung throws.\<close>

definition rankBranchesV3 ::
  "(point \<Rightarrow> point \<Rightarrow> real) \<Rightarrow> (string \<Rightarrow> string \<Rightarrow> int) \<Rightarrow> rankable_input list \<Rightarrow> rank_input_v3
     \<Rightarrow> (ranked_tile list \<times> rung_counts) result" where
  "rankBranchesV3 metres collate bs inp =
     (if ri_sortBy inp = Some By_popularity \<and> ri_popularityMap inp = None then throw (UNHANDLED RuntimeError)
      else
        (let byRung = (\<lambda>r. filter (\<lambda>c. cd_rung c = r) (collect metres inp bs))
         in case walk_rungs cd_rung (\<lambda>r. js_sort (comparator_in collate inp r) (byRung r)) (max_ordinal inp)
                   (ri_targetCount inp) (ri_hardCap inp) RUNG_ORDER False ([], \<lambda>_. 0) of
              (cs, rungCounts) \<Rightarrow> returns (map (tile_of_branch (ri_effLoc inp)) cs, rungCounts)))"

end
