(* ===== verification/Discovery.thy ===== *)
theory Discovery
  imports Ranking "HOL-Library.Multiset"
begin

text \<open>
  What the rankings of \<open>Ranking\<close> promise: which branches are listed, in which order, and when the list is cut.
  \<open>comparison\<close> is the contract of a comparator; the comparators of the code meet it whenever \<open>localeCompare\<close> does.
\<close>

section \<open>Sorting by a comparator\<close>

lemma mset_insort_by [simp]: "mset (insort_by cmp x xs) = add_mset x (mset xs)"
  by (induction xs) auto

lemma js_sort_simps [simp]: "js_sort cmp [] = []" "js_sort cmp (x # xs) = insort_by cmp x (js_sort cmp xs)"
  by (simp_all add: js_sort_def)

lemma mset_js_sort [simp]: "mset (js_sort cmp xs) = mset xs"
  by (induction xs) auto

lemma set_js_sort [simp]: "set (js_sort cmp xs) = set xs"
  using mset_eq_setD[OF mset_js_sort] .

lemma length_js_sort [simp]: "length (js_sort cmp xs) = length xs"
  using mset_eq_length[OF mset_js_sort] .

lemma insort_skip: "\<forall>y\<in>set ys. 0 < cmp x y \<Longrightarrow> insort_by cmp x (ys @ zs) = ys @ insort_by cmp x zs"
  by (induction ys) auto

lemma insort_within:
  "\<forall>y\<in>set ys. cmp x y = c x y \<Longrightarrow> \<forall>z\<in>set zs. cmp x z \<le> 0 \<Longrightarrow> insort_by cmp x (ys @ zs) = insort_by c x ys @ zs"
  by (induction ys) (cases zs, auto)

locale comparison =
  fixes cmp :: "'a \<Rightarrow> 'a \<Rightarrow> int"
  assumes cmp_swap: "sgn (cmp y x) = - sgn (cmp x y)"
    and cmp_trans: "cmp x y \<le> 0 \<Longrightarrow> cmp y z \<le> 0 \<Longrightarrow> cmp x z \<le> 0"
begin

lemma cmp_greater: "0 < cmp x y \<Longrightarrow> cmp y x \<le> 0"
  using cmp_swap[of x y] by (simp add: sgn_if split: if_splits)

lemma cmp_eq: "cmp x y = 0 \<longleftrightarrow> cmp x y \<le> 0 \<and> cmp y x \<le> 0"
  using cmp_swap[of x y] by (auto simp: sgn_if split: if_splits)

lemma insort_sorted:
  "sorted_wrt (\<lambda>a b. cmp a b \<le> 0) ys \<Longrightarrow> sorted_wrt (\<lambda>a b. cmp a b \<le> 0) (insort_by cmp x ys)"
proof (induction ys)
  case (Cons y ys)
  show ?case
  proof (cases "cmp x y \<le> 0")
    case True
    then show ?thesis using Cons.prems cmp_trans by auto
  next
    case False
    then have "cmp y x \<le> 0" using cmp_greater by simp
    moreover have "set (insort_by cmp x ys) = insert x (set ys)"
      using mset_eq_setD[of "insort_by cmp x ys" "x # ys"] by simp
    ultimately show ?thesis using False Cons by simp
  qed
qed simp

lemma js_sort_sorted: "sorted_wrt (\<lambda>a b. cmp a b \<le> 0) (js_sort cmp xs)"
  by (induction xs) (simp_all add: insort_sorted)

end

text \<open>Comparators are built from parts.\<close>

lemma comparison_on: "comparison c \<Longrightarrow> comparison (\<lambda>x y. c (f x) (f y))"
  unfolding comparison_def by blast

lemma comparison_then:
  assumes "comparison c" "comparison d"
  shows "comparison (\<lambda>x y. if c x y \<noteq> 0 then c x y else d x y)"
proof
  note c = comparison.cmp_swap[OF assms(1)] comparison.cmp_trans[OF assms(1)] comparison.cmp_eq[OF assms(1)]
  note d = comparison.cmp_swap[OF assms(2)] comparison.cmp_trans[OF assms(2)]
  show "sgn (if c y x \<noteq> 0 then c y x else d y x) = - sgn (if c x y \<noteq> 0 then c x y else d x y)" for x y
    using c(1)[of y x] d(1)[of y x] by (auto simp: sgn_if split: if_splits)
  fix x y z
  assume "(if c x y \<noteq> 0 then c x y else d x y) \<le> 0" "(if c y z \<noteq> 0 then c y z else d y z) \<le> 0"
  then show "(if c x z \<noteq> 0 then c x z else d x z) \<le> 0"
    using c(2)[of x y z] c(2)[of z x y] c(2)[of y z x] d(2)[of x y z] c(3)[of x y] c(3)[of y z] c(3)[of x z]
    by (auto split: if_splits)
qed

lemma comparison_first:
  assumes "comparison c" "comparison d"
  shows "comparison (\<lambda>x y. if P x \<and> P y then c x y else if P x then -1 else if P y then 1 else d x y)"
proof
  note c = comparison.cmp_swap[OF assms(1)] comparison.cmp_trans[OF assms(1)]
  note d = comparison.cmp_swap[OF assms(2)] comparison.cmp_trans[OF assms(2)]
  show "sgn (if P y \<and> P x then c y x else if P y then - 1 else if P x then 1 else d y x) =
      - sgn (if P x \<and> P y then c x y else if P x then - 1 else if P y then 1 else d x y)" for x y
    using c(1)[of y x] d(1)[of y x] by (cases "P x"; cases "P y") simp_all
  fix x y z
  assume "(if P x \<and> P y then c x y else if P x then - 1 else if P y then 1 else d x y) \<le> 0"
    "(if P y \<and> P z then c y z else if P y then - 1 else if P z then 1 else d y z) \<le> 0"
  then show "(if P x \<and> P z then c x z else if P x then - 1 else if P z then 1 else d x z) \<le> 0"
    using c(2)[of x y z] d(2)[of x y z] by (cases "P x"; cases "P y"; cases "P z") simp_all
qed

lemma comparison_grouped:
  fixes ord :: "'k \<Rightarrow> nat"
  assumes "\<And>k. comparison (d k)" and "inj ord"
  shows "comparison (\<lambda>x y. if ord (key x) \<noteq> ord (key y) then int (ord (key x)) - int (ord (key y)) else d (key x) x y)"
proof
  note d = comparison.cmp_swap[OF assms(1)] comparison.cmp_trans[OF assms(1)]
  have key: "ord a = ord b \<longleftrightarrow> a = b" for a b using assms(2) by (auto dest: injD)
  show "sgn (if ord (key y) \<noteq> ord (key x) then int (ord (key y)) - int (ord (key x)) else d (key y) y x) =
      - sgn (if ord (key x) \<noteq> ord (key y) then int (ord (key x)) - int (ord (key y)) else d (key x) x y)" for x y
    using d(1)[of "key x" y x] by (cases "key x = key y") (simp_all add: sgn_if key)
  fix x y z
  assume "(if ord (key x) \<noteq> ord (key y) then int (ord (key x)) - int (ord (key y)) else d (key x) x y) \<le> 0"
    "(if ord (key y) \<noteq> ord (key z) then int (ord (key y)) - int (ord (key z)) else d (key y) y z) \<le> 0"
  then show "(if ord (key x) \<noteq> ord (key z) then int (ord (key x)) - int (ord (key z)) else d (key x) x z) \<le> 0"
    using d(2)[of "key x" x y z] key by (auto split: if_splits)
qed

lemma comparison_int: "comparison (\<lambda>x y. f x - f y)" for f :: "'a \<Rightarrow> int"
  by unfold_locales (simp_all add: sgn_if)

lemma comparison_real: "comparison (\<lambda>x y. real_sign (f y - f x))"
  by unfold_locales (auto simp: real_sign_def sgn_if split: if_splits)

lemma comparison_const: "comparison (\<lambda>x y. 0)"
  by unfold_locales simp_all

text \<open>Nearer first, the unknown distance last.\<close>

definition nearness :: "real option \<Rightarrow> real option \<Rightarrow> int" where
  "nearness a b = nan_equal (distance_diff a b)"

lemma nearness_0: "nearness a b = 0 \<longleftrightarrow> a = b"
  by (auto simp: nearness_def nan_equal_def distance_diff_def real_sign_def split: option.splits)

lemma nearness_le: "nearness a b \<le> 0 \<longleftrightarrow> b = None \<or> (\<exists>x y. a = Some x \<and> b = Some y \<and> x \<le> y)"
  by (auto simp: nearness_def nan_equal_def distance_diff_def real_sign_def split: option.splits)

interpretation near: comparison nearness
proof
  show "sgn (nearness y x) = - sgn (nearness x y)" for x y
    by (cases x; cases y) (simp_all add: nearness_def nan_equal_def distance_diff_def real_sign_def)
  show "nearness x y \<le> 0 \<Longrightarrow> nearness y z \<le> 0 \<Longrightarrow> nearness x z \<le> 0" for x y z
    by (auto simp: nearness_le)
qed

lemma by_distance_eq: "by_distance = (\<lambda>a b. nearness (rm_distanceMetres a) (rm_distanceMetres b))"
  by (simp add: by_distance_def nearness_def fun_eq_iff)

interpretation tier_nearest: comparison by_distance
  unfolding by_distance_eq by (rule comparison_on[OF near.comparison_axioms])

lemma qualityComparator_comparison:
  assumes c: "comparison collate"
  shows "comparison (qualityComparator collate :: 'a rated_merchant_scheme \<Rightarrow> 'a rated_merchant_scheme \<Rightarrow> int)"
proof -
  have eq: "(qualityComparator collate :: 'a rated_merchant_scheme \<Rightarrow> 'a rated_merchant_scheme \<Rightarrow> int) = (\<lambda>a b. if MIN_REVIEW_COUNT_FOR_RATING_SORT \<le> rt_reviewCount a \<and>
      MIN_REVIEW_COUNT_FOR_RATING_SORT \<le> rt_reviewCount b
      then real_sign (rating_of (rt_avgRating b) - rating_of (rt_avgRating a))
      else if MIN_REVIEW_COUNT_FOR_RATING_SORT \<le> rt_reviewCount a then -1
      else if MIN_REVIEW_COUNT_FOR_RATING_SORT \<le> rt_reviewCount b then 1
      else collate (rt_businessName a) (rt_businessName b))"
    by (simp add: qualityComparator_def Let_def fun_eq_iff)
  show ?thesis unfolding eq by (rule comparison_first[OF comparison_real comparison_on[OF c]])
qed

lemma compareDistance_eq:
  "compareDistance collate = (\<lambda>a b. if nearness (cd_distance a) (cd_distance b) \<noteq> 0
     then nearness (cd_distance a) (cd_distance b)
     else if collate (rt_businessName (rn_merchant (cd_branch a))) (rt_businessName (rn_merchant (cd_branch b))) \<noteq> 0
     then collate (rt_businessName (rn_merchant (cd_branch a))) (rt_businessName (rn_merchant (cd_branch b)))
     else collate (rb_id (cd_branch a)) (rb_id (cd_branch b)))"
  unfolding compareDistance_def nearness_0 by (simp add: nearness_def by_name_def Let_def fun_eq_iff)

lemma compareDistance_comparison: "comparison collate \<Longrightarrow> comparison (compareDistance collate)"
  unfolding compareDistance_eq
  by (intro comparison_then comparison_on[OF near.comparison_axioms]
      comparison_on[where f = "\<lambda>c. rt_businessName (rn_merchant (cd_branch c))"]
      comparison_on[where f = "\<lambda>c. rb_id (cd_branch c)"])

lemma compareQuality_comparison: "comparison collate \<Longrightarrow> comparison (compareQuality collate)"
proof -
  assume c: "comparison collate"
  let ?rated = "\<lambda>a. MIN_REVIEW_COUNT_FOR_RATING_SORT \<le> rt_reviewCount (rn_merchant (cd_branch a))"
  let ?rating = "\<lambda>a. rating_of (rt_avgRating (rn_merchant (cd_branch a)))"
  have eq: "compareQuality collate = (\<lambda>a b. if ?rated a \<and> ?rated b
      then (if real_sign (?rating b - ?rating a) \<noteq> 0 then real_sign (?rating b - ?rating a) else compareDistance collate a b)
      else if ?rated a then -1 else if ?rated b then 1 else compareDistance collate a b)"
    by (simp add: compareQuality_def Let_def fun_eq_iff)
  show ?thesis unfolding eq
    by (rule comparison_first[OF comparison_then[OF comparison_real]]) (rule compareDistance_comparison[OF c])+
qed

lemma comparePopularity_comparison: "comparison collate \<Longrightarrow> comparison (comparePopularity collate p)"
proof -
  assume c: "comparison collate"
  let ?score = "\<lambda>c. - (case p (rn_merchantId (cd_branch c)) of None \<Rightarrow> 0 | Some n \<Rightarrow> n)"
  have eq: "comparePopularity collate p = (\<lambda>a b. if ?score a - ?score b \<noteq> 0 then ?score a - ?score b else compareDistance collate a b)"
    by (auto simp: comparePopularity_def Let_def fun_eq_iff)
  show ?thesis unfolding eq by (rule comparison_then[OF comparison_int compareDistance_comparison[OF c]])
qed

lemma comparator_in_comparison: "comparison collate \<Longrightarrow> comparison (comparator_in collate inp r)"
  by (auto simp: comparator_in_def compareDistance_comparison compareQuality_comparison comparePopularity_comparison
      split: option.split sort_by.split intent.split)

section \<open>The walk lists a prefix\<close>

text \<open>The order without any cut: by rung, then by the comparator of the rung.\<close>

definition by_rung_then :: "(supply_rung \<Rightarrow> 'c \<Rightarrow> 'c \<Rightarrow> int) \<Rightarrow> ('c \<Rightarrow> supply_rung) \<Rightarrow> 'c \<Rightarrow> 'c \<Rightarrow> int" where
  "by_rung_then c rung_of a b =
     (if rungOrdinal (rung_of a) \<noteq> rungOrdinal (rung_of b)
      then int (rungOrdinal (rung_of a)) - int (rungOrdinal (rung_of b)) else c (rung_of a) a b)"

lemma rungOrdinal_simps [simp]:
  "rungOrdinal R_NEARBY = 0" "rungOrdinal R_CATCHMENT = 1" "rungOrdinal R_POST_TOWN = 2" "rungOrdinal R_LAD = 3"
  "rungOrdinal R_COUNTY = 4" "rungOrdinal R_REGION = 5" "rungOrdinal R_COUNTRY = 6" "rungOrdinal R_NATIONAL = 7"
  by (simp_all add: rungOrdinal_def RUNG_ORDER_def)

lemma rungOrdinal_inj: "inj rungOrdinal"
proof
  show "rungOrdinal x = rungOrdinal y \<Longrightarrow> x = y" for x y by (cases x; cases y) simp_all
qed

lemma rungs_ascend: "sorted_wrt (\<lambda>a b. rungOrdinal a < rungOrdinal b) RUNG_ORDER" "r \<in> set RUNG_ORDER"
  by (simp add: RUNG_ORDER_def) (cases r; simp add: RUNG_ORDER_def)

lemma insort_into_groups:
  assumes "sorted_wrt (\<lambda>a b. rungOrdinal a < rungOrdinal b) rs" "rung_of x \<in> set rs"
    and "\<And>r y. y \<in> set (G r) \<Longrightarrow> rung_of y = r"
  shows "insort_by (by_rung_then c rung_of) x (concat (map G rs)) =
    concat (map (G(rung_of x := insort_by (c (rung_of x)) x (G (rung_of x)))) rs)"
  using assms(1,2)
proof (induction rs)
  case (Cons r rs)
  have later: "rungOrdinal r < rungOrdinal r'" if "r' \<in> set rs" for r' using Cons.prems(1) that by simp
  show ?case
  proof (cases "r = rung_of x")
    case True
    have "r \<notin> set rs" using later by blast
    then have keep: "map (G(r := insort_by (c r) x (G r))) rs = map G rs" by simp
    have "\<forall>z\<in>set (concat (map G rs)). by_rung_then c rung_of x z \<le> 0"
      using later assms(3) True by (force simp: by_rung_then_def)
    moreover have "\<forall>y\<in>set (G r). by_rung_then c rung_of x y = c r x y"
      using assms(3) True by (simp add: by_rung_then_def)
    ultimately have "insort_by (by_rung_then c rung_of) x (G r @ concat (map G rs)) =
        insort_by (c r) x (G r) @ concat (map G rs)"
      by (intro insort_within)
    moreover have "concat (map (G(r := insort_by (c r) x (G r))) (r # rs)) = insort_by (c r) x (G r) @ concat (map G rs)"
      using keep by (simp only: list.map concat.simps fun_upd_same)
    ultimately show ?thesis by (simp only: list.map concat.simps True[symmetric])
  next
    case False
    then have x: "rung_of x \<in> set rs" using Cons.prems(2) by simp
    have "0 < by_rung_then c rung_of x y" if "y \<in> set (G r)" for y
      using later[OF x] assms(3)[OF that] by (simp add: by_rung_then_def)
    then have "insort_by (by_rung_then c rung_of) x (G r @ concat (map G rs)) =
        G r @ insort_by (by_rung_then c rung_of) x (concat (map G rs))"
      by (intro insort_skip) blast
    then show ?thesis using False x Cons by simp
  qed
qed simp

lemma sort_by_groups:
  "js_sort (by_rung_then c rung_of) xs = concat (map (\<lambda>r. js_sort (c r) (filter (\<lambda>y. rung_of y = r) xs)) RUNG_ORDER)"
proof (induction xs)
  case Nil
  then show ?case by (simp add: RUNG_ORDER_def)
next
  case (Cons x xs)
  have "(\<lambda>r. js_sort (c r) (filter (\<lambda>y. rung_of y = r) (x # xs))) =
      (\<lambda>r. js_sort (c r) (filter (\<lambda>y. rung_of y = r) xs))
        (rung_of x := insort_by (c (rung_of x)) x (js_sort (c (rung_of x)) (filter (\<lambda>y. rung_of y = rung_of x) xs)))"
    by (auto simp: fun_eq_iff)
  then show ?case
    using insort_into_groups[OF rungs_ascend, where x = x and rung_of = rung_of and c = c and
        G = "\<lambda>r. js_sort (c r) (filter (\<lambda>y. rung_of y = r) xs)"]
    by (simp add: Cons.IH)
qed

lemma push_capped_eq:
  "push_capped rung_of cap es (tiles, counts) =
     (tiles @ take (nat (cap - int (length tiles))) es,
      \<lambda>r. counts r + length (filter (\<lambda>e. rung_of e = r) (take (nat (cap - int (length tiles))) es)))"
proof (induction es arbitrary: tiles counts)
  case (Cons e es)
  show ?case
  proof (cases "cap \<le> int (length tiles)")
    case False
    then have n: "nat (cap - int (length tiles)) = Suc (nat (cap - int (length (tiles @ [e]))))" by simp
    show ?thesis using False by (simp add: Cons.IH n fun_eq_iff del: length_append)
  qed simp
qed simp

text \<open>What the walk lists is a prefix of all groups in order; it is cut only at the target or at the cap.\<close>

lemma walk_prefix:
  assumes "sorted_wrt (\<lambda>a b. rungOrdinal a < rungOrdinal b) rungs" and "\<And>r. last_ord < rungOrdinal r \<Longrightarrow> g r = []"
    and "\<And>r. counts r = length (filter (\<lambda>e. rung_of e = r) tiles)"
  shows "\<exists>n. walk_rungs rung_of g last_ord target cap rungs ev (tiles, counts) =
      (tiles @ take n (concat (map g rungs)),
       \<lambda>r. length (filter (\<lambda>e. rung_of e = r) (tiles @ take n (concat (map g rungs))))) \<and>
    (n < length (concat (map g rungs)) \<longrightarrow> target \<le> int (length tiles + n) \<or> cap \<le> int (length tiles + n)) \<and>
    (0 < n \<longrightarrow> n \<le> length (concat (map g rungs)) \<and> int (length tiles + n) \<le> cap)"
  using assms(1,3)
proof (induction rungs arbitrary: ev tiles counts)
  case Nil
  then show ?case by (intro exI[of _ 0]) (simp add: fun_eq_iff)
next
  case (Cons r rs)
  let ?rest = "concat (map g rs)"
  show ?case
  proof (cases "last_ord < rungOrdinal r")
    case True
    then have "g r = []" "\<forall>r'\<in>set rs. g r' = []" using assms(2) Cons.prems(1) by auto
    then have "concat (map g (r # rs)) = []" by simp
    then show ?thesis using True Cons.prems(2) by (intro exI[of _ 0]) (simp add: fun_eq_iff)
  next
    case False
    define k where "k = nat (cap - int (length tiles))"
    define tiles' where "tiles' = tiles @ take k (g r)"
    define counts' where "counts' = (\<lambda>q. counts q + length (filter (\<lambda>e. rung_of e = q) (take k (g r))))"
    have push: "push_capped rung_of cap (g r) (tiles, counts) = (tiles', counts')"
      by (simp add: push_capped_eq tiles'_def counts'_def k_def)
    have counts': "counts' q = length (filter (\<lambda>e. rung_of e = q) tiles')" for q
      using Cons.prems(2) by (simp add: counts'_def tiles'_def)
    have stop: ?thesis if s: "walk_rungs rung_of g last_ord target cap (r # rs) ev (tiles, counts) = (tiles', counts')"
      and why: "target \<le> int (length tiles') \<or> cap \<le> int (length tiles')"
    proof (intro exI[of _ "min k (length (g r))"] conjI impI)
      have t: "tiles @ take (min k (length (g r))) (concat (map g (r # rs))) = tiles'"
        by (cases "k \<le> length (g r)") (simp_all add: tiles'_def min_def)
      show "walk_rungs rung_of g last_ord target cap (r # rs) ev (tiles, counts) =
          (tiles @ take (min k (length (g r))) (concat (map g (r # rs))),
           \<lambda>q. length (filter (\<lambda>e. rung_of e = q) (tiles @ take (min k (length (g r))) (concat (map g (r # rs))))))"
        unfolding t s using counts' by (simp add: fun_eq_iff)
      have len: "length tiles' = length tiles + min k (length (g r))" by (simp add: tiles'_def min.commute)
      show "target \<le> int (length tiles + min k (length (g r))) \<or> cap \<le> int (length tiles + min k (length (g r)))"
        using why unfolding len .
      show "0 < min k (length (g r)) \<Longrightarrow> min k (length (g r)) \<le> length (concat (map g (r # rs)))" by simp
      show "0 < min k (length (g r)) \<Longrightarrow> int (length tiles + min k (length (g r))) \<le> cap"
        by (auto simp: k_def min_def split: if_splits)
    qed
    have unfolded: "walk_rungs rung_of g last_ord target cap (r # rs) ev (tiles, counts) =
        (if target \<le> int (length tiles') \<and> (ev \<or> r = R_NEARBY) then (tiles', counts')
         else if cap \<le> int (length tiles') then (tiles', counts')
         else walk_rungs rung_of g last_ord target cap rs (ev \<or> r = R_NEARBY) (tiles', counts'))"
      by (simp only: walk_rungs.simps False push Let_def fst_conv if_False)
    consider "target \<le> int (length tiles') \<or> cap \<le> int (length tiles')"
        "walk_rungs rung_of g last_ord target cap (r # rs) ev (tiles, counts) = (tiles', counts')"
      | "int (length tiles') < cap" "walk_rungs rung_of g last_ord target cap (r # rs) ev (tiles, counts) =
          walk_rungs rung_of g last_ord target cap rs (ev \<or> r = R_NEARBY) (tiles', counts')"
      by (cases "target \<le> int (length tiles') \<and> (ev \<or> r = R_NEARBY)"; cases "cap \<le> int (length tiles')")
        (simp_all only: unfolded if_True if_False not_le simp_thms)
    then show ?thesis
    proof cases
      case 1
      then show ?thesis using stop by blast
    next
      case 2
      have all: "take k (g r) = g r" using 2(1) by (auto simp: tiles'_def k_def)
      then have t': "tiles' = tiles @ g r" by (simp add: tiles'_def)
      have asc: "sorted_wrt (\<lambda>a b. rungOrdinal a < rungOrdinal b) rs" using Cons.prems(1) by simp
      obtain n where n: "walk_rungs rung_of g last_ord target cap rs (ev \<or> r = R_NEARBY) (tiles', counts') =
          (tiles' @ take n ?rest, \<lambda>q. length (filter (\<lambda>e. rung_of e = q) (tiles' @ take n ?rest)))"
        "n < length ?rest \<longrightarrow> target \<le> int (length tiles' + n) \<or> cap \<le> int (length tiles' + n)"
        "0 < n \<longrightarrow> n \<le> length ?rest \<and> int (length tiles' + n) \<le> cap"
        using Cons.IH[OF asc counts', of "ev \<or> r = R_NEARBY"] by blast
      show ?thesis
      proof (intro exI[of _ "length (g r) + n"] conjI impI)
        show "walk_rungs rung_of g last_ord target cap (r # rs) ev (tiles, counts) =
            (tiles @ take (length (g r) + n) (concat (map g (r # rs))),
             \<lambda>q. length (filter (\<lambda>e. rung_of e = q) (tiles @ take (length (g r) + n) (concat (map g (r # rs))))))"
          unfolding 2(2) n(1) by (simp add: t')
        show "length (g r) + n < length (concat (map g (r # rs))) \<Longrightarrow>
            target \<le> int (length tiles + (length (g r) + n)) \<or> cap \<le> int (length tiles + (length (g r) + n))"
          using n(2) by (simp add: t' add.assoc)
        show "length (g r) + n \<le> length (concat (map g (r # rs)))"
          using n(3) by (cases n) simp_all
        show "int (length tiles + (length (g r) + n)) \<le> cap"
          using n(3) 2(1) by (cases n) (simp_all add: t')
      qed
    qed
  qed
qed

end
