(* ===== verification/Listing.thy ===== *)
theory Listing
  imports Discovery
begin

text \<open>
  The properties of discovery: what a listing of branches is, what it may show, its order, and which branch of a
  merchant a customer sees. A small sample with a rational distance shows each hypothesis can hold.
\<close>

section \<open>Samples\<close>

definition grid_metres :: "point \<Rightarrow> point \<Rightarrow> real" where
  "grid_metres p q = real_of_int (\<bar>fst (fst p) - fst (fst q)\<bar> + \<bar>fst (snd p) - fst (snd q)\<bar>)"

definition by_length :: "string \<Rightarrow> string \<Rightarrow> int" where
  "by_length a b = int (length a) - int (length b)"

definition sample_place :: place where
  "sample_place = \<lparr>pl_id = ''l'', pl_postTown = None, pl_ladDistrict = ''d'', pl_adminCounty = None, pl_region = None,
     pl_country = ''England'', pl_center = ((0, 0), (0, 0)), pl_populationTier = P_CITY\<rparr>"

definition sample_search :: "intent \<Rightarrow> int \<Rightarrow> int \<Rightarrow> rank_input_v3" where
  "sample_search i target cap = \<lparr>ri_effLoc = located_at ((0, 0), (0, 0)) sample_place GPS, ri_ladderProfile = LOCAL_NORMAL,
     ri_outgoing = [], ri_categoryIntent = i, ri_targetCount = target, ri_hardCap = cap, ri_sortBy = None,
     ri_popularityMap = None\<rparr>"

definition branch_at :: "ident \<Rightarrow> int \<Rightarrow> string \<Rightarrow> rankable_input" where
  "branch_at i x confidence = \<lparr>rb_id = i, rb_latitude = Some (x, 0), rb_longitude = Some (0, 0), rb_isActive = True,
     rb_locationConfidence = confidence, rb_localityId = None, rb_postTown = None, rb_ladDistrict = None,
     rb_adminCounty = None, rb_region = None, rb_locationCountry = None, rn_merchantId = ''m'' @ i,
     rn_merchant = \<lparr>rt_id = ''m'' @ i, rt_businessName = ''N'', rt_avgRating = None, rt_reviewCount = 0\<rparr>\<rparr>"

definition sample_branches :: "rankable_input list" where
  "sample_branches = [branch_at ''far'' 400 ''ADDRESS_GEOCODED'', branch_at ''blur'' 1 ''POSTCODE_CENTROID'',
     branch_at ''near'' 3 ''MERCHANT_CONFIRMED'']"

lemma by_length_comparison: "comparison by_length"
  unfolding by_length_def by (rule comparison_int)

lemma sample_metres: "grid_metres ((0, 0), (0, 0)) ((400, 0), (0, 0)) = 400" "grid_metres ((0, 0), (0, 0)) ((3, 0), (0, 0)) = 3"
  by (simp_all add: grid_metres_def)

lemma sample_listing:
  "\<exists>counts. rankBranchesV3 grid_metres by_length sample_branches (sample_search LOCAL 5 5) =
     Inr ([tile_at URBAN ''mnear'' ''N'' R_NEARBY (Some 3) ''near'', tile_at URBAN ''mfar'' ''N'' R_NEARBY (Some 400) ''far''], counts)"
  by (simp add: rankBranchesV3_def Let_def sample_search_def collect_def sample_branches_def branch_at_def rung_for_def
      max_ordinal_def classifyRung_def located_at_def sample_place_def location_confirmed_def CONFIRMED_LOCATION_SET_def
      distance_to_def sample_metres MILES_TO_METRES_def List.map_filter_def RUNG_ORDER_def comparator_in_def
      compareDistance_def nan_equal_def distance_diff_def real_sign_def tile_of_branch_def)

section \<open>Branches\<close>

lemma rankBranchesV3_walk:
  assumes "rankBranchesV3 metres collate bs inp = Inr (tiles, counts)"
  shows "\<exists>n cs. cs = take n (js_sort (by_rung_then (comparator_in collate inp) cd_rung) (collect metres inp bs)) \<and>
    tiles = map (tile_of_branch (ri_effLoc inp)) cs \<and> counts = (\<lambda>r. length (filter (\<lambda>c. cd_rung c = r) cs)) \<and>
    (n < length (collect metres inp bs) \<longrightarrow> ri_targetCount inp \<le> int n \<or> ri_hardCap inp \<le> int n) \<and>
    (0 < n \<longrightarrow> n \<le> length (collect metres inp bs) \<and> int n \<le> ri_hardCap inp)"
proof -
  let ?g = "\<lambda>r. js_sort (comparator_in collate inp r) (filter (\<lambda>c. cd_rung c = r) (collect metres inp bs))"
  have within: "?g r = []" if "max_ordinal inp < rungOrdinal r" for r
    using that by (auto simp: collect_def map_filter_def rung_for_def filter_empty_conv set_eq_iff
        simp flip: set_empty split: option.splits if_splits)
  obtain n where n: "walk_rungs cd_rung ?g (max_ordinal inp) (ri_targetCount inp) (ri_hardCap inp) RUNG_ORDER False ([], \<lambda>_. 0) =
      ([] @ take n (concat (map ?g RUNG_ORDER)),
       \<lambda>r. length (filter (\<lambda>e. cd_rung e = r) ([] @ take n (concat (map ?g RUNG_ORDER)))))"
    "n < length (concat (map ?g RUNG_ORDER)) \<longrightarrow>
       ri_targetCount inp \<le> int (length [] + n) \<or> ri_hardCap inp \<le> int (length [] + n)"
    "0 < n \<longrightarrow> n \<le> length (concat (map ?g RUNG_ORDER)) \<and> int (length [] + n) \<le> ri_hardCap inp"
    using walk_prefix[where rungs = RUNG_ORDER and g = ?g and last_ord = "max_ordinal inp" and tiles = "[]" and
        counts = "\<lambda>_. 0" and rung_of = cd_rung and target = "ri_targetCount inp" and cap = "ri_hardCap inp" and ev = False,
        OF rungs_ascend(1) within] by auto
  have g: "concat (map ?g RUNG_ORDER) = js_sort (by_rung_then (comparator_in collate inp) cd_rung) (collect metres inp bs)"
    by (rule sort_by_groups[symmetric])
  show ?thesis
    using assms n unfolding g by (intro exI[of _ n]) (auto simp: rankBranchesV3_def Let_def split: if_splits)
qed

lemma collect_iff:
  "c \<in> set (collect metres inp bs) \<longleftrightarrow> cd_branch c \<in> set bs \<and> rung_for metres inp (cd_branch c) = Some (cd_rung c) \<and>
     cd_distance c = branch_distance metres (ef_at (ri_effLoc inp)) (cd_branch c)"
  by (cases c, induction bs) (auto simp: collect_def List.map_filter_simps split: option.splits)

lemma rung_for_Some:
  "rung_for metres inp b = Some r \<Longrightarrow> rb_isActive b \<and> location_confirmed (rb_locationConfidence b) \<and> rungOrdinal r \<le> max_ordinal inp"
  by (auto simp: rung_for_def classifyRung_def Let_def split: option.splits if_splits)

lemma tile_simps [simp]:
  "tl_branchId (tile_of_branch e c) = rb_id (cd_branch c)" "tl_merchantId (tile_of_branch e c) = rn_merchantId (cd_branch c)"
  "tl_supplyRung (tile_of_branch e c) = cd_rung c" "tl_distanceMetres (tile_of_branch e c) = cd_distance c"
  by (simp_all add: tile_of_branch_def tile_at_def)

text \<open>C15: a listing is the complete ranking, cut once: the tiles of \<open>rankBranchesV3\<close> are the first \<open>n\<close> of all discoverable
  branches in one stable sort by rung and then by the comparator of the rung, so the rung-by-rung walk with
  its three exits neither loses, repeats nor reorders a branch; it ends early only where the target or the
  cap is reached, never exceeds the cap, and the counts are those of the listed tiles.\<close>

theorem listing_is_cut_ranking:
  assumes "rankBranchesV3 metres collate bs inp = Inr (tiles, counts)"
  shows "\<exists>n. tiles = map (tile_of_branch (ri_effLoc inp))
      (take n (js_sort (by_rung_then (comparator_in collate inp) cd_rung) (collect metres inp bs))) \<and>
    counts = (\<lambda>r. length (filter (\<lambda>t. tl_supplyRung t = r) tiles)) \<and>
    (n < length (collect metres inp bs) \<longrightarrow> ri_targetCount inp \<le> int n \<or> ri_hardCap inp \<le> int n) \<and>
    int (length tiles) \<le> max 0 (ri_hardCap inp)"
proof -
  obtain n cs where n: "cs = take n (js_sort (by_rung_then (comparator_in collate inp) cd_rung) (collect metres inp bs))"
    "tiles = map (tile_of_branch (ri_effLoc inp)) cs" "counts = (\<lambda>r. length (filter (\<lambda>c. cd_rung c = r) cs))"
    "n < length (collect metres inp bs) \<longrightarrow> ri_targetCount inp \<le> int n \<or> ri_hardCap inp \<le> int n"
    "0 < n \<longrightarrow> n \<le> length (collect metres inp bs) \<and> int n \<le> ri_hardCap inp"
    using rankBranchesV3_walk[OF assms] by blast
  have counts: "counts = (\<lambda>r. length (filter (\<lambda>t. tl_supplyRung t = r) tiles))"
    unfolding n(2,3) by (simp add: filter_map o_def)
  have "int (length tiles) \<le> max 0 (ri_hardCap inp)"
    using n(5) by (cases n) (auto simp: n(1,2) min_def)
  with n(1,2,4) counts show ?thesis by blast
qed

theorem listing_is_cut_ranking_witness:
  "\<exists>tiles counts. rankBranchesV3 grid_metres by_length sample_branches (sample_search LOCAL 5 5) = Inr (tiles, counts) \<and>
     int (length tiles) \<le> max 0 (ri_hardCap (sample_search LOCAL 5 5))"
proof -
  obtain tiles counts where r: "rankBranchesV3 grid_metres by_length sample_branches (sample_search LOCAL 5 5) = Inr (tiles, counts)"
    using sample_listing by blast
  from listing_is_cut_ranking[OF r] r show ?thesis by blast
qed



definition not_further :: "real option \<Rightarrow> real option \<Rightarrow> bool" where
  "not_further a b \<longleftrightarrow> (case b of None \<Rightarrow> True | Some y \<Rightarrow> (case a of None \<Rightarrow> False | Some x \<Rightarrow> x \<le> y))"

definition nearer_tile :: "ranked_tile \<Rightarrow> ranked_tile \<Rightarrow> bool" where
  "nearer_tile t u \<longleftrightarrow> rungOrdinal (tl_supplyRung t) < rungOrdinal (tl_supplyRung u) \<or>
     tl_supplyRung t = tl_supplyRung u \<and> not_further (tl_distanceMetres t) (tl_distanceMetres u)"

text \<open>C30: local listings go outwards: for a category of local intent and without an override, every tile of
  \<open>rankBranchesV3\<close> lies on a lower rung than each later one, or on the same rung and not further away, branches
  without coordinates last; wherever the list is cut, and for every consistent \<open>localeCompare\<close>.\<close>

theorem local_listing_goes_outwards:
  assumes "rankBranchesV3 metres collate bs inp = Inr (tiles, counts)" and "comparison collate"
    and "ri_categoryIntent inp = LOCAL" and "ri_sortBy inp = None"
  shows "sorted_wrt nearer_tile tiles"
proof -
  let ?cmp = "by_rung_then (comparator_in collate inp) cd_rung"
  obtain n where t: "tiles = map (tile_of_branch (ri_effLoc inp)) (take n (js_sort ?cmp (collect metres inp bs)))"
    using rankBranchesV3_walk[OF assms(1)] by blast
  have "comparison ?cmp"
    unfolding by_rung_then_def[abs_def]
    by (rule comparison_grouped[OF comparator_in_comparison[OF assms(2)] rungOrdinal_inj])
  then have "sorted_wrt (\<lambda>a b. ?cmp a b \<le> 0) (js_sort ?cmp (collect metres inp bs))"
    by (rule comparison.js_sort_sorted)
  moreover have "nearer_tile (tile_of_branch e a) (tile_of_branch e b)" if le: "?cmp a b \<le> 0" for e a b
  proof (cases "cd_rung a = cd_rung b")
    case True
    then have "compareDistance collate a b \<le> 0"
      using le assms(3,4) by (simp add: by_rung_then_def comparator_in_def)
    then have "nearness (cd_distance a) (cd_distance b) \<le> 0" by (auto simp: compareDistance_eq split: if_splits)
    then show ?thesis using True by (auto simp: nearer_tile_def not_further_def nearness_le split: option.split)
  next
    case False
    then have "rungOrdinal (cd_rung a) \<noteq> rungOrdinal (cd_rung b)" using rungOrdinal_inj by (auto dest: injD)
    then show ?thesis using le by (auto simp: by_rung_then_def nearer_tile_def)
  qed
  ultimately have "sorted_wrt (\<lambda>a b. nearer_tile (tile_of_branch (ri_effLoc inp) a) (tile_of_branch (ri_effLoc inp) b))
      (js_sort ?cmp (collect metres inp bs))"
    by (rule sorted_wrt_mono_rel[rotated])
  then show ?thesis unfolding t sorted_wrt_map by (rule sorted_wrt_take)
qed

theorem local_listing_goes_outwards_witness:
  "sorted_wrt nearer_tile [tile_at URBAN ''mnear'' ''N'' R_NEARBY (Some 3) ''near'', tile_at URBAN ''mfar'' ''N'' R_NEARBY (Some 400) ''far'']"
proof -
  obtain counts where r: "rankBranchesV3 grid_metres by_length sample_branches (sample_search LOCAL 5 5) =
     Inr ([tile_at URBAN ''mnear'' ''N'' R_NEARBY (Some 3) ''near'', tile_at URBAN ''mfar'' ''N'' R_NEARBY (Some 400) ''far''], counts)"
    using sample_listing by blast
  from local_listing_goes_outwards[OF r by_length_comparison] show ?thesis by (simp add: sample_search_def)
qed

section \<open>Merchants\<close>

text \<open>The legacy ranking lists every merchant of its input exactly once, whatever the intent, and its three
  counts add up to the number of merchants.\<close>

theorem legacy_ranking_lists_all:
  "mset (fst (rankMerchants metres collate ms ctx)) = image_mset (tag_merchant metres ctx) (mset ms) \<and>
   (case snd (rankMerchants metres collate ms ctx) of (near, city, distant) \<Rightarrow> near + city + distant = length ms)"
proof -
  let ?t = "map (tag_merchant metres ctx) ms"
  have split: "mset (filter (\<lambda>m. rm_supplyTier m = T_NEARBY) xs) + (mset (filter (\<lambda>m. rm_supplyTier m = T_CITY) xs) +
      mset (filter (\<lambda>m. rm_supplyTier m = T_DISTANT) xs)) = mset xs" for xs
  proof (induction xs)
    case (Cons x xs)
    then show ?case by (cases "rm_supplyTier x") (simp_all flip: mset_filter)
  qed simp
  then have "length (filter (\<lambda>m. rm_supplyTier m = T_NEARBY) ?t) + length (filter (\<lambda>m. rm_supplyTier m = T_CITY) ?t) +
      length (filter (\<lambda>m. rm_supplyTier m = T_DISTANT) ?t) = length ms"
    using arg_cong[OF split[of ?t], of size] by (simp flip: size_mset mset_filter)
  then show ?thesis
    using split[of ?t] by (simp add: rankMerchants_def Let_def split: intent.split)
qed

text \<open>Where \<open>rankMerchantsV2\<close> does not sort: for merchants whose chosen branch has no coordinates the difference of
  the two distances is \<open>NaN\<close>, which is returned before the names are compared, so they stay in the order of the
  query; the comment at the function promises an alphabetical fallback, which \<open>rankBranchesV3\<close> has.\<close>

theorem unlocated_merchants_unsorted:
  assumes "list_all (\<lambda>e. entry_distance metres here e = None) es"
  shows "js_sort (nearest_then_name metres collate here) es = es"
proof -
  have "insort_by (nearest_then_name metres collate here) e es = e # es" if "list_all (\<lambda>e. entry_distance metres here e = None) (e # es)" for e es
    using that by (cases es) (simp_all add: nearest_then_name_def distanceComparator_def distance_diff_def nan_equal_def)
  then show ?thesis using assms by (induction es) simp_all
qed

definition unlocated :: "ident \<Rightarrow> string \<Rightarrow> merchant_entry" where
  "unlocated i name = \<lparr>rt_id = i, rt_businessName = name, rt_avgRating = None, rt_reviewCount = 0,
     me_context = (\<lparr>rb_id = i, rb_latitude = None, rb_longitude = None, rb_isActive = True,
       rb_locationConfidence = ''MANUALLY_CONFIRMED'', rb_localityId = None, rb_postTown = None, rb_ladDistrict = None,
       rb_adminCounty = None, rb_region = None, rb_locationCountry = None\<rparr>, R_NATIONAL)\<rparr>"

theorem unlocated_merchants_unsorted_witness:
  "js_sort (nearest_then_name grid_metres by_length ((0, 0), (0, 0))) [unlocated ''1'' ''Zoo'', unlocated ''2'' ''A''] =
     [unlocated ''1'' ''Zoo'', unlocated ''2'' ''A'']"
  by (rule unlocated_merchants_unsorted) (simp add: unlocated_def entry_distance_def distance_to_def)

section \<open>The branch a customer sees\<close>

lemma nearest_branch_in:
  "nearest_branch metres here best bs = Some (b, d) \<Longrightarrow> b \<in> set bs \<or> best = Some (b, d)"
  by (induction bs arbitrary: best) (auto split: option.splits if_splits)

lemma pickColdOpen_Some:
  assumes "pickColdOpen metres bs lat lng = Some i"
  shows "\<exists>b\<in>set bs. re_id b = i \<and> re_isActive b \<and> isSelectable b"
proof -
  let ?act = "filter (\<lambda>b. re_isActive b \<and> isSelectable b) bs"
  have sort: "b \<in> set ?act" if "sort_key re_createdAt ?act = b # r" for b r
    using that set_sort[of re_createdAt ?act] by (metis list.set_intros(1))
  have near: "b \<in> set ?act" if "nearest_branch metres here None ?act = Some (b, d)" for here b d
    using nearest_branch_in[OF that] by simp
  have main: "b \<in> set ?act" if "List.find re_isMainBranch ?act = Some b" for b
    using find_Some_in[OF that] by blast
  have "\<exists>b\<in>set ?act. re_id b = i"
    using assms by (auto simp: pickColdOpen_def Let_def simp del: set_filter split: if_splits option.splits list.splits
        dest: near main sort)
  then show ?thesis by auto
qed

lemma pickColdOpen_None: "pickColdOpen metres bs lat lng = None \<longleftrightarrow> (\<forall>b\<in>set bs. \<not> (re_isActive b \<and> isSelectable b))"
proof -
  let ?act = "filter (\<lambda>b. re_isActive b \<and> isSelectable b) bs"
  have "sort_key re_createdAt ?act = [] \<longleftrightarrow> ?act = []" by (metis length_0_conv length_sort)
  then have "pickColdOpen metres bs lat lng = None \<longleftrightarrow> ?act = []"
    by (auto simp: pickColdOpen_def Let_def simp del: filter_empty_conv split: option.splits list.splits prod.splits)
  then show ?thesis by (simp add: filter_empty_conv)
qed

text \<open>The merchant page opens an open branch: the branch that \<open>resolveSelectedBranch\<close> selects is active and not
  awaiting approval, whether the customer asked for it, asked for another, or asked for none; and no branch
  is selected exactly when the merchant has no such branch.\<close>

theorem selected_branch_is_open:
  "case resolveSelectedBranch metres bs candidate lat lng of
     (None, reason) \<Rightarrow> reason = All_suspended \<and> \<not> list_ex (\<lambda>b. re_isActive b \<and> isSelectable b) bs
   | (Some i, reason) \<Rightarrow> reason \<noteq> All_suspended \<and> list_ex (\<lambda>b. re_id b = i \<and> re_isActive b \<and> isSelectable b) bs"
proof -
  note cold = pickColdOpen_Some[of metres bs lat lng] pickColdOpen_None[of metres bs lat lng]
  have fallback: "case (case pickColdOpen metres bs lat lng of None \<Rightarrow> (None, All_suspended) | Some i \<Rightarrow> (Some i, why)) of
     (None, reason) \<Rightarrow> reason = All_suspended \<and> \<not> list_ex (\<lambda>b. re_isActive b \<and> isSelectable b) bs
   | (Some i, reason) \<Rightarrow> reason \<noteq> All_suspended \<and> list_ex (\<lambda>b. re_id b = i \<and> re_isActive b \<and> isSelectable b) bs"
    if "why \<noteq> All_suspended" for why
    using that cold by (cases "pickColdOpen metres bs lat lng") (auto simp: list_ex_iff)
  show ?thesis
  proof (cases "truthy candidate")
    case False
    then show ?thesis using fallback by (simp add: resolveSelectedBranch_def)
  next
    case True
    then obtain i where i: "candidate = Some i" by (auto simp: truthy_def)
    show ?thesis
    proof (cases "List.find (\<lambda>b. re_id b = i \<and> isSelectable b) bs")
      case None
      then show ?thesis using fallback True i by (simp add: resolveSelectedBranch_def)
    next
      case (Some b)
      from find_Some_in[OF this] have b: "b \<in> set bs" "re_id b = i" "isSelectable b" by simp_all
      show ?thesis
      proof (cases "re_isActive b")
        case True
        then show ?thesis using b Some \<open>truthy candidate\<close> i by (auto simp: resolveSelectedBranch_def list_ex_iff)
      next
        case False
        then show ?thesis using fallback Some \<open>truthy candidate\<close> i by (simp add: resolveSelectedBranch_def)
      qed
    qed
  qed
qed

end
